(* ===== verification/Prelude.thy ===== *)
theory Prelude
  imports Main "HOL-Library.AList" "HOL-Library.Sublist"
begin

section \<open>Prelude: the Python vocabulary the components share\<close>

text \<open>
  Names of types, and the parts of Python's built-ins that the modelled modules use:
  integers as \<open>int\<close>, \<open>str\<close> as the list of the bytes of its UTF-8 form, a \<open>dict\<close> as an association list in
  insertion order (\<open>AList.update\<close> replaces in place or appends, exactly as \<open>d[k] = v\<close> does;
  \<open>AList.delete\<close> is \<open>d.pop(k, None)\<close>), a time-zone-aware \<open>datetime\<close> as a number of
  microseconds (see \<open>Calendar\<close> for its epoch), a \<open>timedelta\<close> as a number of
  microseconds.  A raised exception is the left value of a sum.
\<close>

named_theorems py_simps \<open>unfolding rules of the Python built-ins\<close>

type_synonym uuid = string
type_synonym datetime = int
type_synonym timedelta = int
type_synonym ('k, 'v) dict = "('k \<times> 'v) list"

subsection \<open>Durations\<close>

definition seconds :: "int \<Rightarrow> timedelta" where
  [py_simps]: "seconds n = n * 1000000"

definition minutes :: "int \<Rightarrow> timedelta" where
  [py_simps]: "minutes n = n * 60000000"

definition hours :: "int \<Rightarrow> timedelta" where
  [py_simps]: "hours n = n * 3600000000"

definition days :: "int \<Rightarrow> timedelta" where
  [py_simps]: "days n = n * 86400000000"

subsection \<open>Truth values of optional strings and integers\<close>

text \<open>\<open>x or default\<close> and \<open>if x:\<close> treat both \<open>None\<close> and the empty string as false.\<close>

fun truthy :: "string option \<Rightarrow> bool" where
  "truthy None = False"
| "truthy (Some s) = (s \<noteq> [])"

lemma truthy_iff: "truthy x \<longleftrightarrow> (\<exists>s. x = Some s \<and> s \<noteq> [])"
  by (cases x) auto

fun int_or_zero :: "int option \<Rightarrow> int" where
  "int_or_zero None = 0"
| "int_or_zero (Some n) = n"

definition list_or_empty :: "'a list option \<Rightarrow> 'a list" where
  [py_simps]: "list_or_empty xs = (case xs of None \<Rightarrow> [] | Some ys \<Rightarrow> ys)"

definition or_none :: "'a list \<Rightarrow> 'a list option" where
  [py_simps]: "or_none xs = (if xs = [] then None else Some xs)"

subsection \<open>Decimal rendering of integers\<close>

fun str_nat :: "nat \<Rightarrow> string" where
  "str_nat n = (if n < 10 then [char_of (48 + n)] else str_nat (n div 10) @ [char_of (48 + n mod 10)])"

declare str_nat.simps [simp del]

definition str_int :: "int \<Rightarrow> string" where
  "str_int i = (if i < 0 then ''-'' @ str_nat (nat (- i)) else str_nat (nat i))"

definition digit_value :: "char \<Rightarrow> nat option" where
  "digit_value c = (if 48 \<le> (of_char c :: nat) \<and> (of_char c :: nat) \<le> 57 then Some (of_char c - 48) else None)"

definition is_digit :: "char \<Rightarrow> bool" where
  "is_digit c \<longleftrightarrow> digit_value c \<noteq> None"

definition digits_value :: "string \<Rightarrow> nat" where
  "digits_value s = foldl (\<lambda>acc c. 10 * acc + the (digit_value c)) 0 s"

definition isdigit :: "string \<Rightarrow> bool" where
  "isdigit s \<longleftrightarrow> s \<noteq> [] \<and> list_all is_digit s"

lemma digit_value_char_of [simp]: "(n::nat) < 10 \<Longrightarrow> digit_value (char_of (48 + n)) = Some n"
  by (simp add: digit_value_def)

lemma is_digit_char_of [simp]: "(n::nat) < 10 \<Longrightarrow> is_digit (char_of (48 + n))"
  by (simp add: is_digit_def)

lemma str_nat_nonempty [simp]: "str_nat n \<noteq> []"
  by (subst str_nat.simps) simp

lemma list_all_is_digit_str_nat [simp]: "list_all is_digit (str_nat n)"
proof (induction n rule: str_nat.induct)
  case (1 n)
  then show ?case by (subst str_nat.simps) simp
qed

lemma isdigit_str_nat [simp]: "isdigit (str_nat n)"
  by (simp add: isdigit_def)

lemma digits_value_append_digit:
  "digits_value (s @ [c]) = 10 * digits_value s + the (digit_value c)"
  by (simp add: digits_value_def)

lemma digits_value_str_nat [simp]: "digits_value (str_nat n) = n"
proof (induction n rule: str_nat.induct)
  case (1 n)
  show ?case
  proof (cases "n < 10")
    case True
    then show ?thesis by (subst str_nat.simps) (simp add: digits_value_def)
  next
    case False
    with 1 have "digits_value (str_nat (n div 10)) = n div 10" by simp
    with False show ?thesis
      by (subst str_nat.simps) (simp add: digits_value_append_digit)
  qed
qed

lemma str_nat_inject [simp]: "str_nat m = str_nat n \<longleftrightarrow> m = n"
  by (metis digits_value_str_nat)

lemma str_nat_no_char: "\<not> is_digit c \<Longrightarrow> c \<notin> set (str_nat n)"
  using list_all_is_digit_str_nat [of n] by (auto simp: list_all_iff)

lemma str_nat_no_minus: "str_nat n \<noteq> CHR ''-'' # s"
proof
  assume "str_nat n = CHR ''-'' # s"
  moreover have "CHR ''-'' \<notin> set (str_nat n)"
    by (rule str_nat_no_char) (simp add: is_digit_def digit_value_def)
  ultimately show False by simp
qed

lemma str_int_inject [simp]: "str_int i = str_int j \<longleftrightarrow> i = j"
  using str_nat_no_minus [of "nat i" "str_nat (nat (- j))"]
    str_nat_no_minus [of "nat j" "str_nat (nat (- i))"]
  by (auto simp: str_int_def)

subsection \<open>Whitespace and prefixes of strings\<close>

definition py_isspace :: "char \<Rightarrow> bool" where
  "py_isspace c \<longleftrightarrow> (of_char c :: nat) \<in> {9, 10, 11, 12, 13, 28, 29, 30, 31, 32}"

definition py_strip :: "string \<Rightarrow> string" where
  "py_strip s = rev (dropWhile py_isspace (rev (dropWhile py_isspace s)))"

fun contains :: "string \<Rightarrow> string \<Rightarrow> bool" where
  "contains pat [] = (pat = [])"
| "contains pat (c # cs) = (prefix pat (c # cs) \<or> contains pat cs)"

definition py_in :: "string \<Rightarrow> string option \<Rightarrow> bool" where
  [py_simps]: "py_in pat s = (case s of None \<Rightarrow> False | Some t \<Rightarrow> contains pat t)"

definition ascii_lower :: "char \<Rightarrow> char" where
  "ascii_lower c = (let n = of_char c :: nat in if 65 \<le> n \<and> n \<le> 90 then char_of (n + 32) else c)"

text \<open>\<open>str.splitlines\<close>: a carriage return before a line feed ends one line, not two.\<close>

definition is_linebreak :: "char \<Rightarrow> bool" where
  "is_linebreak c \<longleftrightarrow> (of_char c :: nat) \<in> {10, 11, 12, 13, 28, 29, 30}"

fun splitlines_from :: "string \<Rightarrow> string \<Rightarrow> string list" where
  "splitlines_from acc [] = (if acc = [] then [] else [rev acc])"
| "splitlines_from acc (c # cs) =
     (if is_linebreak c then rev acc #
        (case cs of d # ds \<Rightarrow> if c = CHR 0x0D \<and> d = CHR 0x0A then splitlines_from [] ds
                              else splitlines_from [] cs
         | [] \<Rightarrow> [])
      else splitlines_from (c # acc) cs)"

definition splitlines :: "string \<Rightarrow> string list" where
  "splitlines s = splitlines_from [] s"

text \<open>\<open>str.split()\<close> without an argument: the maximal runs of non-whitespace.\<close>

fun split_ws_from :: "string \<Rightarrow> string \<Rightarrow> string list" where
  "split_ws_from acc [] = (if acc = [] then [] else [rev acc])"
| "split_ws_from acc (c # cs) =
     (if py_isspace c then (if acc = [] then split_ws_from [] cs else rev acc # split_ws_from [] cs)
      else split_ws_from (c # acc) cs)"

definition py_split :: "string \<Rightarrow> string list" where
  "py_split s = split_ws_from [] s"

text \<open>\<open>sep.join(parts)\<close>.\<close>

fun py_join :: "string \<Rightarrow> string list \<Rightarrow> string" where
  "py_join sep [] = []"
| "py_join sep [x] = x"
| "py_join sep (x # y # zs) = x @ sep @ py_join sep (y # zs)"

subsection \<open>Running a command\<close>

text \<open>
  What \<open>subprocess.run\<close> answered.  The commands themselves (lpstat, ipptool, lp and the
  scripts under scripts/) are outside the model: a function from the argument vector to one
  of these outcomes is a parameter wherever the code runs one.
\<close>

datatype process_result =
    FileNotFound
  | OtherOSError string
  | TimedOut
  | Exited int string string \<comment> \<open>return code, standard output, standard error\<close>

type_synonym runner = "string list \<Rightarrow> process_result"

subsection \<open>Division rounded half to even, as Python's round and true division use it\<close>

definition round_div :: "int \<Rightarrow> int \<Rightarrow> int" where
  "round_div a b =
     (let q = a div b; r = a mod b in
      if 2 * r < b then q else if 2 * r > b then q + 1 else if even q then q else q + 1)"

lemma round_div_bounds:
  assumes "0 < b"
  shows "a div b \<le> round_div a b \<and> round_div a b \<le> a div b + 1"
  by (simp add: round_div_def Let_def)

lemma round_div_exact [simp]: "0 < b \<Longrightarrow> round_div (q * b) b = q"
  by (simp add: round_div_def)

lemma round_div_nonneg: "0 < b \<Longrightarrow> 0 \<le> a \<Longrightarrow> 0 \<le> round_div a b"
  using round_div_bounds [of b a] by (meson order_trans pos_imp_zdiv_nonneg_iff)

lemma round_div_mono:
  assumes b: "0 < b" and le: "a \<le> a'"
  shows "round_div a b \<le> round_div a' b"
proof (cases "a div b = a' div b")
  case True
  then have "a - a mod b = a' - a' mod b" by (metis minus_mod_eq_div_mult)
  with le have "a mod b \<le> a' mod b" by linarith
  with True show ?thesis by (auto simp: round_div_def Let_def)
next
  case False
  with zdiv_mono1 [OF le b] have "a div b + 1 \<le> a' div b" by linarith
  with round_div_bounds [OF b, of a] round_div_bounds [OF b, of a'] show ?thesis by linarith
qed

subsection \<open>Counting positions\<close>

lemma card_positions:
  assumes "distinct xs" "S \<subseteq> set xs"
  shows "card {i. i < length xs \<and> xs ! i \<in> S} = card S"
proof -
  have "inj_on ((!) xs) {i. i < length xs \<and> xs ! i \<in> S}"
    using assms(1) by (auto simp: inj_on_def nth_eq_iff_index_eq)
  moreover have "(!) xs ` {i. i < length xs \<and> xs ! i \<in> S} = S"
  proof
    show "S \<subseteq> (!) xs ` {i. i < length xs \<and> xs ! i \<in> S}"
    proof
      fix x
      assume "x \<in> S"
      with assms(2) have "x \<in> set xs" by auto
      then obtain i where "i < length xs" "xs ! i = x" unfolding in_set_conv_nth by auto
      with \<open>x \<in> S\<close> show "x \<in> (!) xs ` {i. i < length xs \<and> xs ! i \<in> S}" by auto
    qed
  qed auto
  ultimately show ?thesis by (metis card_image)
qed

end
