(* ===== verification/Rate_Limit.thy ===== *)
theory Rate_Limit
  imports Prelude
begin

section \<open>The failure counter in front of every short secret (app/core/rate_limit.py)\<close>

text \<open>
  \<open>RateLimiter\<close> with its table of failures per key, its timed sweep and its check before
  the credential is looked at.  \<open>time.monotonic()\<close> is the argument \<open>now\<close>, in whole
  microseconds (the rounding of its float seconds is not modelled).  The locale
  \<open>attempt_guard\<close> is what a credential endpoint relies on; the release kiosk uses it.
\<close>

record rate_limiter =
  rl_max_failures :: nat
  rl_window :: int
  rl_message :: string
  rl_failures :: "(string, int list) dict"
  rl_last_sweep :: int

definition SWEEP_INTERVAL :: int where
  "SWEEP_INTERVAL = seconds 60"

definition rl_init :: "nat \<Rightarrow> int \<Rightarrow> string \<Rightarrow> int \<Rightarrow> rate_limiter" where
  "rl_init max_failures window message now =
     \<lparr>rl_max_failures = max_failures, rl_window = window, rl_message = message,
      rl_failures = [], rl_last_sweep = now\<rparr>"

definition failures_of :: "rate_limiter \<Rightarrow> string \<Rightarrow> int list" where
  "failures_of rl key = (case map_of (rl_failures rl) key of None \<Rightarrow> [] | Some ats \<Rightarrow> ats)"

definition rl_sweep :: "int \<Rightarrow> rate_limiter \<Rightarrow> rate_limiter" where
  "rl_sweep now rl =
     (if now - rl_last_sweep rl < SWEEP_INTERVAL then rl
      else (let cutoff = now - rl_window rl in
        rl\<lparr>rl_last_sweep := now,
           rl_failures := filter (\<lambda>(k, ats). list_ex (\<lambda>at. at > cutoff) ats) (rl_failures rl)\<rparr>))"

definition rl_check :: "string \<Rightarrow> int \<Rightarrow> rate_limiter \<Rightarrow> string option \<times> rate_limiter" where
  "rl_check key now rl =
     (let rl = rl_sweep now rl;
          recent = filter (\<lambda>at. now - at < rl_window rl) (failures_of rl key);
          rl = (if recent \<noteq> [] then rl\<lparr>rl_failures := AList.update key recent (rl_failures rl)\<rparr>
                else rl\<lparr>rl_failures := AList.delete key (rl_failures rl)\<rparr>)
      in (if length recent \<ge> rl_max_failures rl then Some (rl_message rl) else None, rl))"

definition rl_record_failure :: "string \<Rightarrow> int \<Rightarrow> rate_limiter \<Rightarrow> rate_limiter" where
  "rl_record_failure key now rl =
     rl\<lparr>rl_failures := AList.update key (failures_of rl key @ [now]) (rl_failures rl)\<rparr>"

definition rl_record_success :: "string \<Rightarrow> rate_limiter \<Rightarrow> rate_limiter" where
  "rl_record_success key rl = rl\<lparr>rl_failures := AList.delete key (rl_failures rl)\<rparr>"

definition rl_reset :: "int \<Rightarrow> rate_limiter \<Rightarrow> rate_limiter" where
  "rl_reset now rl = rl\<lparr>rl_failures := [], rl_last_sweep := now\<rparr>"

definition tracked_keys :: "rate_limiter \<Rightarrow> nat" where
  "tracked_keys rl = length (rl_failures rl)"

text \<open>
  \<open>client_key\<close>: the first entry of X-Forwarded-For, or the socket's address.  The request
  is its header value (empty when absent) and the client's host.
\<close>

definition client_key :: "string \<Rightarrow> string option \<Rightarrow> string" where
  "client_key forwarded host =
     (if forwarded \<noteq> [] then py_strip (takeWhile (\<lambda>c. c \<noteq> CHR '','') forwarded)
      else (case host of None \<Rightarrow> ''unknown'' | Some h \<Rightarrow> h))"

subsection \<open>What the table says about a key\<close>

definition recent_failures :: "rate_limiter \<Rightarrow> string \<Rightarrow> int \<Rightarrow> nat" where
  "recent_failures rl key t = length (filter (\<lambda>at. t - at < rl_window rl) (failures_of rl key))"

lemma rl_sweep_fields [simp]:
  "rl_max_failures (rl_sweep now rl) = rl_max_failures rl"
  "rl_window (rl_sweep now rl) = rl_window rl"
  "rl_message (rl_sweep now rl) = rl_message rl"
  by (simp_all add: rl_sweep_def Let_def)

lemma rl_check_fields [simp]:
  "rl_max_failures (snd (rl_check key now rl)) = rl_max_failures rl"
  "rl_window (snd (rl_check key now rl)) = rl_window rl"
  by (simp_all add: rl_check_def Let_def)

lemma rl_record_fields [simp]:
  "rl_window (rl_record_failure key now rl) = rl_window rl"
  "rl_max_failures (rl_record_failure key now rl) = rl_max_failures rl"
  "rl_window (rl_record_success key rl) = rl_window rl"
  "rl_max_failures (rl_record_success key rl) = rl_max_failures rl"
  by (simp_all add: rl_record_failure_def rl_record_success_def)

lemma failures_of_update [simp]:
  "failures_of (rl\<lparr>rl_failures := AList.update key ats (rl_failures rl)\<rparr>) k =
     (if k = key then ats else failures_of rl k)"
  by (simp add: failures_of_def update_conv')

lemma failures_of_delete [simp]:
  "failures_of (rl\<lparr>rl_failures := AList.delete key (rl_failures rl)\<rparr>) k =
     (if k = key then [] else failures_of rl k)"
  by (simp add: failures_of_def delete_conv')

text \<open>Failures a sweep drops are outside the window now, and stay outside it.\<close>

lemma map_of_filter_key:
  "distinct (map fst xs) \<Longrightarrow> map_of (filter (\<lambda>(k, v). P v) xs) k =
     (case map_of xs k of None \<Rightarrow> None | Some v \<Rightarrow> if P v then Some v else None)"
  by (induction xs) (auto split: option.splits simp: map_of_eq_None_iff image_iff)


definition rl_ok :: "rate_limiter \<Rightarrow> bool" where
  "rl_ok rl \<longleftrightarrow> distinct (map fst (rl_failures rl))"

lemma distinct_fst_filter: "distinct (map fst xs) \<Longrightarrow> distinct (map fst (filter P xs))"
  by (induction xs) auto

lemma rl_ok_sweep [simp]: "rl_ok rl \<Longrightarrow> rl_ok (rl_sweep now rl)"
  by (simp add: rl_ok_def rl_sweep_def Let_def distinct_fst_filter)

lemma rl_ok_check [simp]: "rl_ok rl \<Longrightarrow> rl_ok (snd (rl_check key now rl))"
  using rl_ok_sweep [of rl now]
  by (auto simp: rl_ok_def rl_check_def Let_def distinct_update distinct_delete)

lemma rl_ok_record [simp]:
  "rl_ok rl \<Longrightarrow> rl_ok (rl_record_failure key now rl)"
  "rl_ok rl \<Longrightarrow> rl_ok (rl_record_success key rl)"
  by (simp_all add: rl_ok_def rl_record_failure_def rl_record_success_def
      distinct_update distinct_delete)

lemma failures_of_sweep:
  assumes ok: "rl_ok rl" and later: "now \<le> t"
  shows "filter (\<lambda>at. t - at < rl_window rl) (failures_of (rl_sweep now rl) k) =
    filter (\<lambda>at. t - at < rl_window rl) (failures_of rl k)"
  using assms
  by (auto simp: rl_sweep_def Let_def failures_of_def rl_ok_def map_of_filter_key list_ex_iff
      intro!: filter_False [symmetric] split: option.splits)

lemma failures_of_check:
  assumes ok: "rl_ok rl" and later: "now \<le> t"
  shows "filter (\<lambda>at. t - at < rl_window rl) (failures_of (snd (rl_check key now rl)) k) =
    filter (\<lambda>at. t - at < rl_window rl) (failures_of rl k)"
proof -
  let ?in = "\<lambda>t at. t - at < rl_window rl"
  have sub: "?in t at \<Longrightarrow> ?in now at" for at using later by simp
  have twice: "filter (?in t) (filter (?in now) xs) = filter (?in t) xs" for xs
    using sub by (auto simp: conj_commute intro!: filter_cong)
  let ?r = "filter (?in now) (failures_of (rl_sweep now rl) key)"
  have "failures_of (snd (rl_check key now rl)) k =
      (if k = key then ?r else failures_of (rl_sweep now rl) k)"
    by (simp add: rl_check_def Let_def)
  then show ?thesis
    using failures_of_sweep [OF ok later] twice by auto
qed

lemma rl_check_blocks:
  assumes "rl_ok rl"
  shows "fst (rl_check key now rl) =
    (if rl_max_failures rl \<le> recent_failures rl key now then Some (rl_message rl) else None)"
  using failures_of_sweep [OF assms, of now now key]
  by (simp add: rl_check_def Let_def recent_failures_def)

lemma rl_check_message [simp]: "rl_message (snd (rl_check key now rl)) = rl_message rl"
  by (simp add: rl_check_def Let_def)

lemma rl_record_message [simp]:
  "rl_message (rl_record_failure key now rl) = rl_message rl"
  "rl_message (rl_record_success key rl) = rl_message rl"
  by (simp_all add: rl_record_failure_def rl_record_success_def)

lemma failures_of_record_failure [simp]:
  "failures_of (rl_record_failure key now rl) k =
     (if k = key then failures_of rl key @ [now] else failures_of rl k)"
  by (simp add: rl_record_failure_def)

lemma failures_of_record_success [simp]:
  "failures_of (rl_record_success key rl) k = (if k = key then [] else failures_of rl k)"
  by (simp add: rl_record_success_def)

subsection \<open>A run of the limiter, and the history it stands for\<close>

datatype rl_op = Check string | Failure string | Success string

fun rl_step :: "int \<times> rl_op \<Rightarrow> rate_limiter \<Rightarrow> string option \<times> rate_limiter" where
  "rl_step (now, Check key) rl = rl_check key now rl"
| "rl_step (now, Failure key) rl = (None, rl_record_failure key now rl)"
| "rl_step (now, Success key) rl = (None, rl_record_success key rl)"

fun rl_run :: "(int \<times> rl_op) list \<Rightarrow> rate_limiter \<Rightarrow> string option list" where
  "rl_run [] rl = []"
| "rl_run (x # xs) rl = (case rl_step x rl of (out, rl') \<Rightarrow> out # rl_run xs rl')"

text \<open>
  The specification keeps every failure since the key's last success, forever and unpruned,
  and turns a caller away when enough of them are recent.
\<close>

fun spec_step :: "nat \<Rightarrow> int \<Rightarrow> string \<Rightarrow> int \<times> rl_op \<Rightarrow> (string \<Rightarrow> int list) \<Rightarrow>
    string option \<times> (string \<Rightarrow> int list)" where
  "spec_step m w msg (now, Check key) h =
     (if m \<le> length (filter (\<lambda>at. now - at < w) (h key)) then Some msg else None, h)"
| "spec_step m w msg (now, Failure key) h = (None, h(key := h key @ [now]))"
| "spec_step m w msg (now, Success key) h = (None, h(key := []))"

fun spec_run :: "nat \<Rightarrow> int \<Rightarrow> string \<Rightarrow> (int \<times> rl_op) list \<Rightarrow> (string \<Rightarrow> int list) \<Rightarrow>
    string option list" where
  "spec_run m w msg [] h = []"
| "spec_run m w msg (x # xs) h =
     (case spec_step m w msg x h of (out, h') \<Rightarrow> out # spec_run m w msg xs h')"

definition rl_abs :: "int \<Rightarrow> rate_limiter \<Rightarrow> (string \<Rightarrow> int list) \<Rightarrow> bool" where
  "rl_abs now rl h \<longleftrightarrow> rl_ok rl \<and>
     (\<forall>k t. now \<le> t \<longrightarrow> filter (\<lambda>at. t - at < rl_window rl) (failures_of rl k) =
        filter (\<lambda>at. t - at < rl_window rl) (h k))"

lemma rl_step_refines:
  assumes "rl_abs before rl h" "before \<le> now"
    and "m = rl_max_failures rl" "w = rl_window rl" "msg = rl_message rl"
  shows "fst (rl_step (now, x) rl) = fst (spec_step m w msg (now, x) h) \<and>
    rl_abs now (snd (rl_step (now, x) rl)) (snd (spec_step m w msg (now, x) h))"
proof (cases x)
  case (Check key)
  have ok: "rl_ok rl" and eq: "now \<le> t \<Longrightarrow> filter (\<lambda>at. t - at < w) (failures_of rl k) =
      filter (\<lambda>at. t - at < w) (h k)" for k t
    using assms by (auto simp: rl_abs_def)
  from Check show ?thesis
    using assms(3-5) eq [of now key] rl_check_blocks [OF ok, of key now]
      failures_of_check [OF ok] eq
    by (auto simp: rl_abs_def recent_failures_def ok)
next
  case (Failure key)
  with assms show ?thesis by (auto simp: rl_abs_def)
next
  case (Success key)
  with assms show ?thesis by (auto simp: rl_abs_def)
qed

lemma rl_step_fields:
  "rl_max_failures (snd (rl_step x rl)) = rl_max_failures rl"
  "rl_window (snd (rl_step x rl)) = rl_window rl"
  "rl_message (snd (rl_step x rl)) = rl_message rl"
  by (cases x; cases "snd x"; simp)+

lemma rl_run_refines:
  assumes "rl_abs before rl h" "sorted (before # map fst xs)"
  shows "rl_run xs rl = spec_run (rl_max_failures rl) (rl_window rl) (rl_message rl) xs h"
  using assms
proof (induction xs arbitrary: before rl h)
  case Nil
  then show ?case by simp
next
  case (Cons x xs)
  obtain now op where x: "x = (now, op)" by (cases x)
  obtain out rl' where s: "rl_step x rl = (out, rl')" by (cases "rl_step x rl")
  obtain out' h' where s': "spec_step (rl_max_failures rl) (rl_window rl) (rl_message rl) x h =
      (out', h')" by (cases "spec_step (rl_max_failures rl) (rl_window rl) (rl_message rl) x h")
  from Cons.prems x have "before \<le> now" "sorted (now # map fst xs)" by auto
  with rl_step_refines [OF Cons.prems(1), of now] s s' x
  have "out = out'" "rl_abs now rl' h'" by (metis fst_conv snd_conv)+
  with Cons.IH [of now rl' h'] \<open>sorted (now # map fst xs)\<close> rl_step_fields [of x rl] s s'
  show ?case by simp
qed

text \<open>
  C15: whatever the sweeps and the pruning discard, the limiter turns callers away exactly
  when the unpruned history would: for any sequence of checks, failures and successes at
  non-decreasing times, the answers are those of counting the recent failures since each
  key's last success.
\<close>

theorem limiter_forgets_nothing_that_counts:
  assumes "sorted (map fst xs)"
  shows "rl_run xs (rl_init m w msg t0) = spec_run m w msg xs (\<lambda>_. [])"
proof (cases xs)
  case Nil
  then show ?thesis by simp
next
  case (Cons x ys)
  have "rl_abs (fst x) (rl_init m w msg t0) (\<lambda>_. [])"
    by (simp add: rl_abs_def rl_ok_def rl_init_def failures_of_def)
  from rl_run_refines [OF this, of xs] assms Cons show ?thesis
    by (simp add: rl_init_def)
qed

theorem limiter_forgets_nothing_witness:
  "rl_run [(0, Failure ''k''), (1, Failure ''k''), (90000000, Check ''k''), (90000001, Check ''j'')]
     (rl_init 2 300000000 ''wait'' 0) = [None, None, Some ''wait'', None]"
proof -
  have "sorted (map fst [(0::int, Failure ''k''), (1, Failure ''k''), (90000000, Check ''k''),
      (90000001, Check ''j'')])" by simp
  from limiter_forgets_nothing_that_counts [OF this, of 2 300000000 "''wait''" 0]
  show ?thesis by simp
qed

subsection \<open>The table shrinks\<close>

lemma sweep_leaves_only_live_keys:
  assumes "SWEEP_INTERVAL \<le> now - rl_last_sweep rl" "(k, ats) \<in> set (rl_failures (rl_sweep now rl))"
  shows "\<exists>at\<in>set ats. now - at < rl_window rl"
  using assms by (force simp: rl_sweep_def Let_def list_ex_iff)

subsection \<open>The interface a credential endpoint relies on\<close>

locale attempt_guard =
  fixes guard_check :: "string \<Rightarrow> int \<Rightarrow> 's \<Rightarrow> string option \<times> 's"
    and guard_fail :: "string \<Rightarrow> int \<Rightarrow> 's \<Rightarrow> 's"
    and guard_succeed :: "string \<Rightarrow> 's \<Rightarrow> 's"
    and good :: "'s \<Rightarrow> bool"
    and budget :: "'s \<Rightarrow> nat"
    and window :: "'s \<Rightarrow> int"
    and failures :: "'s \<Rightarrow> string \<Rightarrow> int \<Rightarrow> nat"
  assumes check_blocks: "good s \<Longrightarrow>
      (fst (guard_check k now s) = None) = (failures s k now < budget s)"
    and check_counts: "good s \<Longrightarrow> now \<le> t \<Longrightarrow>
      failures (snd (guard_check k now s)) j t = failures s j t"
    and fail_counts: "t - now < window s \<Longrightarrow>
      failures (guard_fail k now s) j t = failures s j t + (if j = k then 1 else 0)"
    and succeed_counts: "failures (guard_succeed k s) j t = (if j = k then 0 else failures s j t)"
    and keeps_good: "good s \<Longrightarrow> good (snd (guard_check k now s))"
      "good s \<Longrightarrow> good (guard_fail k now s)"
    and keeps_limits: "budget (snd (guard_check k now s)) = budget s"
      "window (snd (guard_check k now s)) = window s"
      "budget (guard_fail k now s) = budget s" "window (guard_fail k now s) = window s"
begin

text \<open>A wrong attempt: the check, and the failure recorded when the check let it through.\<close>

definition wrong_attempt :: "string \<Rightarrow> int \<Rightarrow> 's \<Rightarrow> 's" where
  "wrong_attempt k now s =
     (case guard_check k now s of (None, s') \<Rightarrow> guard_fail k now s' | (Some _, s') \<Rightarrow> s')"

fun wrong_attempts :: "string \<Rightarrow> int list \<Rightarrow> 's \<Rightarrow> 's" where
  "wrong_attempts k [] s = s"
| "wrong_attempts k (now # nows) s = wrong_attempts k nows (wrong_attempt k now s)"

lemma wrong_attempt_good: "good s \<Longrightarrow> good (wrong_attempt k now s)"
  using keeps_good [of s k now] keeps_good(2) [of "snd (guard_check k now s)" k now]
  by (auto simp: wrong_attempt_def split: prod.splits option.splits)

lemma wrong_attempt_limits:
  "budget (wrong_attempt k now s) = budget s" "window (wrong_attempt k now s) = window s"
  using keeps_limits(1,2) [of k now s] keeps_limits(3,4) [of k now "snd (guard_check k now s)"]
  by (auto simp: wrong_attempt_def split: prod.splits option.splits)

lemma wrong_attempt_counts:
  assumes "good s" "now \<le> t" "t - now < window s" "failures s k now < budget s"
  shows "failures (wrong_attempt k now s) k t = failures s k t + 1"
proof -
  obtain s' where s': "guard_check k now s = (None, s')"
    using check_blocks [OF assms(1), of k now] assms(4) by (cases "guard_check k now s") auto
  have "failures s' k t = failures s k t" "window s' = window s"
    using check_counts [OF assms(1,2), of k k] keeps_limits(2) [of k now s] s' by auto
  with s' assms(3) show ?thesis by (simp add: wrong_attempt_def fail_counts)
qed

text \<open>
  Wrong attempts within one window, starting where none counts, all count at every time in it
  as long as they do not exceed the budget.
\<close>

lemma wrong_attempts_good: "good s \<Longrightarrow> good (wrong_attempts k nows s)"
  by (induction nows arbitrary: s) (simp_all add: wrong_attempt_good)

lemma wrong_attempts_limits:
  "budget (wrong_attempts k nows s) = budget s" "window (wrong_attempts k nows s) = window s"
  by (induction nows arbitrary: s) (simp_all add: wrong_attempt_limits)

lemma wrong_attempts_count:
  assumes "good s" "sorted nows" "\<forall>x\<in>set nows. t0 \<le> x" "\<forall>x\<in>set nows. x \<le> t" "t - t0 < window s"
    "\<And>x. t0 \<le> x \<Longrightarrow> x \<le> t \<Longrightarrow> failures s k x = m" "m + length nows \<le> budget s"
  shows "failures (wrong_attempts k nows s) k t = (if nows = [] \<and> t < t0 then failures s k t else m + length nows)"
  using assms
proof (induction nows arbitrary: s t0 m)
  case (Cons now nows)
  let ?s = "wrong_attempt k now s"
  have count: "failures ?s k x = m + 1" if "now \<le> x" "x \<le> t" for x
    using wrong_attempt_counts [of s now x k] Cons.prems(1,3,5,7) Cons.prems(6) [of x]
      Cons.prems(6) [of now] that by simp
  have "failures (wrong_attempts k nows ?s) k t =
      (if nows = [] \<and> t < now then failures ?s k t else m + 1 + length nows)"
    using Cons.prems count
    by (intro Cons.IH) (auto simp: wrong_attempt_good wrong_attempt_limits)
  then show ?case using Cons.prems by auto
qed auto

text \<open>
  Once the budget is spent inside one window, the endpoint answers nobody under that key:
  not even a right answer is looked at.
\<close>

lemma spent_budget_blocks:
  assumes "good s" "budget s \<le> failures s k t"
  shows "fst (guard_check k t s) \<noteq> None"
  using check_blocks [OF assms(1), of k t] assms(2) by simp

lemma budget_of_wrong_attempts_blocks:
  assumes "good s" "sorted nows" "\<forall>x\<in>set nows. t0 \<le> x \<and> x \<le> t" "t0 \<le> t" "t - t0 < window s"
    "\<And>x. failures s k x = 0" "length nows = budget s"
  shows "fst (guard_check k t (wrong_attempts k nows s)) \<noteq> None"
proof -
  have "failures (wrong_attempts k nows s) k t = budget s"
    using wrong_attempts_count [of s nows t0 t k 0] assms by auto
  then show ?thesis
    using spent_budget_blocks [OF wrong_attempts_good [OF assms(1)]] by (simp add: wrong_attempts_limits)
qed

end

interpretation rl_guard: attempt_guard rl_check rl_record_failure rl_record_success rl_ok
  rl_max_failures rl_window recent_failures
proof unfold_locales
  fix s k now j t
  show "rl_ok s \<Longrightarrow> (fst (rl_check k now s) = None) = (recent_failures s k now < rl_max_failures s)"
    by (simp add: rl_check_blocks not_le)
  show "rl_ok s \<Longrightarrow> now \<le> t \<Longrightarrow> recent_failures (snd (rl_check k now s)) j t = recent_failures s j t"
    by (simp add: recent_failures_def failures_of_check)
qed (auto simp: recent_failures_def)

end
