(* ===== verification/Backoff.thy ===== *)
theory Backoff
  imports Prelude
begin

section \<open>The contract of a doubling, capped wait\<close>

text \<open>
  Three components space their retries the same way: the queue recovery
  (\<open>_backoff\<close> in app/printers/queue_recovery.py), the automatic resync
  (\<open>_auto_resync_backoff\<close> in app/printers/status.py) and the notification delivery
  (\<open>backoff_delay\<close> in app/notifications/delivery.py).  The locale states what all three
  promise - a first wait, doubling per further failure, a cap - and proves once what
  follows from it; each component interprets it on its own function.
\<close>

locale doubling_backoff =
  fixes wait :: "int \<Rightarrow> timedelta" and base :: timedelta and cap :: timedelta
  assumes wait_first: "f \<le> 0 \<Longrightarrow> wait f = base"
    and wait_next: "0 \<le> f \<Longrightarrow> wait (f + 1) = min (2 * wait f) cap"
    and base_positive: "0 < base"
    and base_below_cap: "base \<le> cap"
begin

lemma wait_closed_form: "wait (int n) = min (base * 2 ^ n) cap"
proof (induction n)
  case 0
  then show ?case using wait_first [of 0] base_below_cap by simp
next
  case (Suc n)
  have "wait (int (Suc n)) = min (2 * wait (int n)) cap"
    using wait_next [of "int n"] by (simp add: add.commute)
  also have "\<dots> = min (2 * min (base * 2 ^ n) cap) cap" by (simp add: Suc)
  also have "\<dots> = min (base * 2 ^ Suc n) cap"
    using base_positive base_below_cap by (auto simp: min_def)
  finally show ?case .
qed

lemma wait_of_int: "wait f = min (base * 2 ^ nat f) cap"
proof (cases "f \<le> 0")
  case True
  then show ?thesis using wait_first base_below_cap by simp
next
  case False
  then show ?thesis using wait_closed_form [of "nat f"] by simp
qed

lemma wait_at_most_cap: "wait f \<le> cap"
  by (simp add: wait_of_int)

lemma wait_at_least_base: "base \<le> wait f"
proof -
  have "base * 1 \<le> base * 2 ^ nat f"
    using base_positive by (intro mult_left_mono) auto
  then show ?thesis using base_below_cap by (simp add: wait_of_int)
qed

lemma wait_positive: "0 < wait f"
  using wait_at_least_base base_positive by (rule order.strict_trans2 [rotated])

lemma wait_mono: "f \<le> g \<Longrightarrow> wait f \<le> wait g"
proof -
  assume "f \<le> g"
  then have "base * 2 ^ nat f \<le> base * 2 ^ nat g"
    using base_positive by (intro mult_left_mono power_increasing) auto
  then show ?thesis by (simp add: wait_of_int)
qed

lemma wait_reaches_cap: "cap \<le> base * 2 ^ n \<Longrightarrow> int n \<le> f \<Longrightarrow> wait f = cap"
proof -
  assume n: "cap \<le> base * 2 ^ n" "int n \<le> f"
  have "wait (int n) = cap" using n(1) by (simp add: wait_closed_form)
  with wait_mono [OF n(2)] wait_at_most_cap [of f] show ?thesis by simp
qed

end

end
