(* ===== verification/Queue_Recovery.thy ===== *)
theory Queue_Recovery
  imports Backoff
begin

section \<open>Restarting a stopped CUPS queue (app/printers/queue_recovery.py)\<close>

text \<open>
  The reading of \<open>lpstat -p\<close>, the per-printer memory of resume attempts with its backoff,
  and the operations the status poll calls on it.  The module dictionary \<open>_attempts\<close> is the
  state, passed explicitly; the commands are parameters (\<open>runner\<close>).
\<close>

definition RESUME_COOLDOWN :: timedelta where "RESUME_COOLDOWN = minutes 5"

definition MAX_RESUME_BACKOFF :: timedelta where "MAX_RESUME_BACKOFF = hours 4"

definition RESUME_MAX_DOUBLINGS :: int where "RESUME_MAX_DOUBLINGS = 16"

definition HEALTHY_RESET_PERIOD :: timedelta where "HEALTHY_RESET_PERIOD = minutes 5"

definition QUEUE_PAUSED_REASON :: string where "QUEUE_PAUSED_REASON = ''printops-queue-paused''"

record local_queue_state =
  lq_stopped :: bool
  lq_message :: "string option"

record attempt =
  last_attempt :: datetime
  failures :: int
  awaiting_verdict :: bool
  device_was_away :: bool
  online_since :: "datetime option"

type_synonym attempts = "(string, attempt) dict"

datatype resume_error = QueueResumeError string | UncaughtOSError string

definition recovery_reset :: "attempts \<Rightarrow> attempts" where
  "recovery_reset as = []"

definition recovery_forget :: "string \<Rightarrow> attempts \<Rightarrow> attempts" where
  "recovery_forget printer_id as = AList.delete printer_id as"

subsection \<open>Reading lpstat\<close>

definition lpstat :: "runner \<Rightarrow> string list \<Rightarrow> string option" where
  "lpstat run queue_names =
     (case run [''lpstat'', ''-p'', py_join '','' queue_names] of
        FileNotFound \<Rightarrow> None
      | OtherOSError e \<Rightarrow> None
      | TimedOut \<Rightarrow> None
      | Exited rc out err \<Rightarrow> if rc = 0 then Some out else None)"

record parse_state =
  ps_stopped :: bool
  ps_message :: "string option"
  ps_in_stopped_block :: bool
  ps_saw_a_queue :: bool

definition parse_line :: "parse_state \<Rightarrow> string \<Rightarrow> parse_state" where
  "parse_line s line =
     (if prefix ''printer '' line then
        (let in_block = contains '' disabled since '' line in
         s\<lparr>ps_saw_a_queue := True, ps_in_stopped_block := in_block,
           ps_stopped := ps_stopped s \<or> in_block\<rparr>)
      else (let detail = py_strip line in
        if ps_in_stopped_block s \<and> detail \<noteq> [] \<and> ps_message s = None
        then s\<lparr>ps_message := Some detail\<rparr> else s))"

definition parse_lpstat :: "string \<Rightarrow> local_queue_state option" where
  "parse_lpstat output =
     (let s = foldl parse_line \<lparr>ps_stopped = False, ps_message = None,
                ps_in_stopped_block = False, ps_saw_a_queue = False\<rparr> (splitlines output)
      in if \<not> ps_saw_a_queue s then None
         else Some \<lparr>lq_stopped = ps_stopped s, lq_message = ps_message s\<rparr>)"

definition get_local_queue_state :: "runner \<Rightarrow> string \<Rightarrow> local_queue_state option" where
  "get_local_queue_state run printer_id =
     (let client = ''printops-'' @ printer_id;
          release = ''printops-release-'' @ printer_id;
          output = (case lpstat run [client, release] of
                      None \<Rightarrow> lpstat run [client] | Some out \<Rightarrow> Some out)
      in case output of None \<Rightarrow> None | Some out \<Rightarrow> parse_lpstat out)"

subsection \<open>The backoff and the notes the poll leaves\<close>

definition resume_backoff :: "int \<Rightarrow> timedelta" where
  "resume_backoff n =
     (if n \<le> 0 then RESUME_COOLDOWN
      else (let doublings = min n RESUME_MAX_DOUBLINGS
            in min (RESUME_COOLDOWN * 2 ^ nat doublings) MAX_RESUME_BACKOFF))"

definition resume_due :: "string \<Rightarrow> datetime \<Rightarrow> attempts \<Rightarrow> bool" where
  "resume_due printer_id now as =
     (case map_of as printer_id of
        None \<Rightarrow> True
      | Some a \<Rightarrow> now - last_attempt a \<ge> resume_backoff (failures a))"

definition note_still_stopped :: "string \<Rightarrow> attempts \<Rightarrow> attempts" where
  "note_still_stopped printer_id as =
     (case map_of as printer_id of
        None \<Rightarrow> as
      | Some a \<Rightarrow> if \<not> awaiting_verdict a then as
                  else AList.update printer_id
                    (a\<lparr>failures := failures a + 1, awaiting_verdict := False\<rparr>) as)"

definition note_device_away :: "string \<Rightarrow> attempts \<Rightarrow> attempts" where
  "note_device_away printer_id as =
     (case map_of as printer_id of
        None \<Rightarrow> as
      | Some a \<Rightarrow> AList.update printer_id
          (a\<lparr>device_was_away := True, online_since := None\<rparr>) as)"

definition note_device_back :: "string \<Rightarrow> datetime \<Rightarrow> attempts \<Rightarrow> attempts" where
  "note_device_back printer_id now as =
     (case map_of as printer_id of
        None \<Rightarrow> as
      | Some a \<Rightarrow>
          if \<not> device_was_away a then as
          else (case online_since a of
                  None \<Rightarrow> AList.update printer_id (a\<lparr>online_since := Some now\<rparr>) as
                | Some since \<Rightarrow>
                    if now - since < HEALTHY_RESET_PERIOD then as
                    else recovery_forget printer_id as))"

definition resume_failures :: "string \<Rightarrow> attempts \<Rightarrow> int" where
  "resume_failures printer_id as =
     (case map_of as printer_id of None \<Rightarrow> 0 | Some a \<Rightarrow> failures a)"

definition begin_attempt :: "string \<Rightarrow> datetime \<Rightarrow> attempts \<Rightarrow> attempts" where
  "begin_attempt printer_id now as =
     AList.update printer_id
       \<lparr>last_attempt = now, failures = resume_failures printer_id as, awaiting_verdict = True,
        device_was_away = False, online_since = None\<rparr> as"

definition RESUME_SCRIPT_NAME :: string where
  "RESUME_SCRIPT_NAME = ''resume_cups_queue.sh''"

definition resume_queue ::
  "runner \<Rightarrow> string \<Rightarrow> datetime \<Rightarrow> attempts \<Rightarrow> (resume_error + unit) \<times> attempts" where
  "resume_queue run printer_id now as =
     ((case run [RESUME_SCRIPT_NAME, printer_id] of
         FileNotFound \<Rightarrow>
           Inl (QueueResumeError (RESUME_SCRIPT_NAME @ '' not found on the PrintOps server.''))
       | OtherOSError e \<Rightarrow> Inl (UncaughtOSError e)
       | TimedOut \<Rightarrow> Inl (QueueResumeError (RESUME_SCRIPT_NAME @ '' timed out after 15s.''))
       | Exited rc out err \<Rightarrow>
           if rc \<noteq> 0 then
             (let reason = py_strip (if err \<noteq> [] then err else out)
              in Inl (QueueResumeError
                (if reason \<noteq> [] then reason
                 else RESUME_SCRIPT_NAME @ '' exited '' @ str_int rc @ ''.'')))
           else Inr ()),
      begin_attempt printer_id now as)"

definition paused_reason :: "local_queue_state \<Rightarrow> bool \<Rightarrow> string" where
  "paused_reason state resumed =
     (let detail = (if truthy (lq_message state)
                    then '' cupsd's reason: '' @ the (lq_message state) else [])
      in if resumed then
           ''This printer's queue on the print server had been stopped by CUPS and '' @
           ''was started again automatically. Jobs waiting behind it are printing '' @
           ''now.'' @ detail
         else
           ''This printer's queue on the print server is stopped, so jobs sent to it '' @
           ''are piling up instead of printing. CUPS stops a queue by itself when a job '' @
           ''fails badly enough '' @ [CHR 0xE2, CHR 0x80, CHR 0x94] @
           '' usually because the printer was switched off, '' @
           ''disconnected or taken away for service.'' @ detail)"


subsection \<open>The wait between automatic resumes\<close>

lemmas recovery_constants = RESUME_COOLDOWN_def MAX_RESUME_BACKOFF_def RESUME_MAX_DOUBLINGS_def
  HEALTHY_RESET_PERIOD_def py_simps

lemma power2_ge_int: "int m \<le> n \<Longrightarrow> (2::int) ^ m \<le> 2 ^ nat n"
  by (intro power_increasing) auto

interpretation recovery_wait: doubling_backoff resume_backoff RESUME_COOLDOWN MAX_RESUME_BACKOFF
proof unfold_locales
  fix f :: int
  show "f \<le> 0 \<Longrightarrow> resume_backoff f = RESUME_COOLDOWN"
    by (simp add: resume_backoff_def)
  show "0 \<le> f \<Longrightarrow> resume_backoff (f + 1) = min (2 * resume_backoff f) MAX_RESUME_BACKOFF"
  proof (cases "f < 16")
    case True
    assume "0 \<le> f"
    then have "nat (f + 1) = Suc (nat f)" by simp
    with True \<open>0 \<le> f\<close> show ?thesis
      by (auto simp: resume_backoff_def recovery_constants Let_def min_def)
  next
    case False
    then show ?thesis by (simp add: resume_backoff_def recovery_constants Let_def)
  qed
qed (simp_all add: recovery_constants)

text \<open>
  The wait after \<open>n\<close> failed resumes is five minutes doubled \<open>n\<close> times and capped at four
  hours - for every \<open>n\<close>, so the clamp on the number of doublings that keeps the power small
  never changes the answer - and the wait never shrinks as failures accumulate.
\<close>

theorem resume_backoff_doubles_to_cap:
  "resume_backoff n = min (minutes 5 * 2 ^ nat n) (hours 4) \<and>
   (\<forall>m. resume_backoff n \<le> resume_backoff (n + int m))"
proof
  show "resume_backoff n = min (minutes 5 * 2 ^ nat n) (hours 4)"
    using recovery_wait.wait_of_int [of n]
    by (simp add: RESUME_COOLDOWN_def MAX_RESUME_BACKOFF_def)
qed (simp add: recovery_wait.wait_mono)

subsection \<open>What a reading of lpstat means\<close>

definition is_queue_line :: "string \<Rightarrow> bool" where
  "is_queue_line line \<longleftrightarrow> prefix ''printer '' line"

definition is_stopped_line :: "string \<Rightarrow> bool" where
  "is_stopped_line line \<longleftrightarrow> prefix ''printer '' line \<and> contains '' disabled since '' line"

text \<open>The non-blank detail lines below the stopped queues, in order.\<close>

fun stopped_details :: "bool \<Rightarrow> string list \<Rightarrow> string list" where
  "stopped_details b [] = []"
| "stopped_details b (line # ls) =
     (if is_queue_line line then stopped_details (is_stopped_line line) ls
      else if b \<and> py_strip line \<noteq> [] then py_strip line # stopped_details b ls
      else stopped_details b ls)"

lemma foldl_parse_line:
  "foldl parse_line s ls =
     \<lparr>ps_stopped = (ps_stopped s \<or> list_ex is_stopped_line ls),
      ps_message = (case ps_message s of Some m \<Rightarrow> Some m
        | None \<Rightarrow> (case stopped_details (ps_in_stopped_block s) ls of [] \<Rightarrow> None | d # _ \<Rightarrow> Some d)),
      ps_in_stopped_block = (foldl (\<lambda>b l. if is_queue_line l then is_stopped_line l else b)
        (ps_in_stopped_block s) ls),
      ps_saw_a_queue = (ps_saw_a_queue s \<or> list_ex is_queue_line ls)\<rparr>"
proof (induction ls arbitrary: s)
  case Nil
  then show ?case by (cases s) (simp split: option.split)
next
  case (Cons l ls)
  then show ?case
    by (cases s) (auto simp: parse_line_def is_queue_line_def is_stopped_line_def Let_def
        split: option.split)
qed

text \<open>
  An output that names no queue is no answer; otherwise the queue is stopped exactly when
  some queue line says it is disabled, and the message is the first non-blank detail line
  under a stopped queue.  In particular a queue that is idle or printing is never read as
  stopped.
\<close>

theorem parse_lpstat_meaning:
  "parse_lpstat output =
     (let ls = splitlines output in
      if \<not> list_ex is_queue_line ls then None
      else Some \<lparr>lq_stopped = list_ex is_stopped_line ls,
                 lq_message = (case stopped_details False ls of [] \<Rightarrow> None | d # _ \<Rightarrow> Some d)\<rparr>)"
  by (simp add: parse_lpstat_def foldl_parse_line Let_def)

subsection \<open>Runs of the tracker\<close>

datatype recovery_event =
    EvForget
  | EvStillStopped
  | EvAway
  | EvBack datetime
  | EvResume datetime

fun recovery_step :: "string \<Rightarrow> attempts \<Rightarrow> recovery_event \<Rightarrow> attempts" where
  "recovery_step pid as EvForget = recovery_forget pid as"
| "recovery_step pid as EvStillStopped = note_still_stopped pid as"
| "recovery_step pid as EvAway = note_device_away pid as"
| "recovery_step pid as (EvBack t) = note_device_back pid t as"
| "recovery_step pid as (EvResume t) = begin_attempt pid t as"

definition recovery_run :: "string \<Rightarrow> attempts \<Rightarrow> recovery_event list \<Rightarrow> attempts" where
  "recovery_run pid as evs = foldl (recovery_step pid) as evs"

fun is_resume :: "recovery_event \<Rightarrow> bool" where
  "is_resume (EvResume t) = True"
| "is_resume _ = False"

lemmas recovery_ops = recovery_forget_def note_still_stopped_def note_device_away_def
  note_device_back_def begin_attempt_def resume_failures_def

lemma resume_queue_state [simp]:
  "snd (resume_queue run pid t as) = recovery_step pid as (EvResume t)"
  by (simp add: resume_queue_def)

text \<open>The count never runs ahead of the resumes, an open verdict counted as one to come.\<close>

definition verdicts_within :: "string \<Rightarrow> nat \<Rightarrow> attempts \<Rightarrow> bool" where
  "verdicts_within pid n as \<longleftrightarrow>
     (case map_of as pid of None \<Rightarrow> True
      | Some a \<Rightarrow> 0 \<le> failures a \<and> failures a + (if awaiting_verdict a then 1 else 0) \<le> int n)"

lemma recovery_step_verdicts:
  "verdicts_within pid n as \<Longrightarrow>
   verdicts_within pid (if is_resume e then Suc n else n) (recovery_step pid as e)"
  by (cases e) (auto simp: verdicts_within_def recovery_ops update_conv' delete_conv'
      split: option.splits if_splits)

lemma recovery_run_verdicts:
  "verdicts_within pid n as \<Longrightarrow>
   verdicts_within pid (n + length (filter is_resume evs)) (recovery_run pid as evs)"
proof (induction evs arbitrary: n as)
  case Nil
  then show ?case by (simp add: recovery_run_def)
next
  case (Cons e evs)
  from recovery_step_verdicts [OF Cons.prems, of e] Cons.IH
  show ?case by (fastforce simp: recovery_run_def split: if_splits)
qed

text \<open>
  However many polls see the queue stopped, and however they are interleaved with the
  device leaving and returning, the failure count that drives the backoff is at most the
  number of resumes actually made: one failure per resume, never one per poll.
\<close>

theorem failures_at_most_resumes:
  "0 \<le> resume_failures pid (recovery_run pid [] evs) \<and>
   resume_failures pid (recovery_run pid [] evs) \<le> int (length (filter is_resume evs))"
proof -
  have "verdicts_within pid 0 []" by (simp add: verdicts_within_def)
  from recovery_run_verdicts [OF this, of evs] show ?thesis
    by (auto simp: verdicts_within_def resume_failures_def split: option.splits if_splits)
qed

subsection \<open>A device that comes back, and one that never left\<close>

text \<open>
  While the device stays reachable, the poll sends only these two kinds of note: another
  healthy reading, or another look at a queue that is still stopped.
\<close>

fun stays_back :: "recovery_event \<Rightarrow> bool" where
  "stays_back (EvBack t) = True"
| "stays_back EvStillStopped = True"
| "stays_back _ = False"

fun back_times :: "recovery_event list \<Rightarrow> datetime list" where
  "back_times [] = []"
| "back_times (EvBack t # evs) = t # back_times evs"
| "back_times (e # evs) = back_times evs"

lemma run_forgotten:
  "map_of as pid = None \<Longrightarrow> list_all stays_back evs \<Longrightarrow> map_of (recovery_run pid as evs) pid = None"
proof (induction evs arbitrary: as)
  case Nil
  then show ?case by (simp add: recovery_run_def)
next
  case (Cons e evs)
  then show ?case
    by (cases e) (simp_all add: recovery_run_def recovery_ops)
qed

lemma run_while_counting:
  assumes "map_of as pid = Some a" "device_was_away a" "online_since a = Some since"
    and "list_all stays_back evs" "t \<in> set (back_times evs)" "HEALTHY_RESET_PERIOD \<le> t - since"
  shows "map_of (recovery_run pid as evs) pid = None"
  using assms
proof (induction evs arbitrary: as a)
  case Nil
  then show ?case by simp
next
  case (Cons e evs)
  let ?as = "recovery_step pid as e"
  have run: "recovery_run pid as (e # evs) = recovery_run pid ?as evs"
    by (simp add: recovery_run_def)
  show ?case
  proof (cases "map_of ?as pid")
    case None
    then show ?thesis using run_forgotten [of ?as pid evs] Cons.prems(4) run by simp
  next
    case (Some a')
    then have "device_was_away a'" "online_since a' = Some since"
        "t \<in> set (back_times evs)"
      using Cons.prems
      by (cases e; auto simp: recovery_ops update_conv' delete_conv' split: if_splits)+
    with Cons.IH [OF Some] Cons.prems(4,6) run show ?thesis by simp
  qed
qed

text \<open>
  Once the device has been noted away and then reads online again, continuously, for the
  healthy period, the backoff is gone whatever it had grown to: the queue may be resumed at
  once.
\<close>

theorem return_from_service_clears_backoff:
  assumes "list_all stays_back evs" "s \<in> set (back_times [ev])" "t \<in> set (back_times evs)"
    and "HEALTHY_RESET_PERIOD \<le> t - s"
  shows "resume_due pid now (recovery_run pid as (EvAway # ev # evs))"
proof -
  from assms(2) have ev: "ev = EvBack s" by (cases ev) auto
  let ?as = "recovery_step pid (recovery_step pid as EvAway) ev"
  have run: "recovery_run pid as (EvAway # ev # evs) = recovery_run pid ?as evs"
    by (simp add: recovery_run_def)
  have "map_of (recovery_run pid ?as evs) pid = None"
  proof (cases "map_of as pid")
    case None
    then show ?thesis using assms(1) ev by (intro run_forgotten) (simp_all add: recovery_ops)
  next
    case (Some a)
    have "map_of ?as pid = Some (a\<lparr>device_was_away := True, online_since := Some s\<rparr>)"
      using Some ev by (simp add: recovery_ops update_conv')
    from run_while_counting [OF this _ _ assms(1,3,4)] show ?thesis by simp
  qed
  with run show ?thesis by (simp add: resume_due_def)
qed

theorem return_from_service_witness:
  "resume_due ''p'' 400000000
     (recovery_run ''p'' [(''p'', \<lparr>last_attempt = 0, failures = 9, awaiting_verdict = False,
        device_was_away = False, online_since = None\<rparr>)]
        [EvAway, EvBack 10000000, EvBack 70000000, EvStillStopped, EvBack 310000000])"
  by (rule return_from_service_clears_backoff [where s = 10000000 and t = 310000000])
    (simp_all add: recovery_constants)

text \<open>A device that never left keeps its backoff, whatever the number of healthy readings.\<close>

lemma back_without_away:
  "map_of as pid = Some a \<Longrightarrow> \<not> device_was_away a \<Longrightarrow> note_device_back pid t as = as"
  by (simp add: note_device_back_def)

end
