(* ===== verification/Job_Control.thy ===== *)
theory Job_Control
  imports Prelude
begin

section \<open>Asking cupsd, and telling it (app/printers/job_control.py)\<close>

text \<open>
  The IPP job states, the scripts PrintOps runs against cupsd with their error mapping, the
  reading of \<open>lpstat -o\<close> and of ipptool's plist, and the two questions the rest of the
  program asks: who owns a job id now, and what became of a job.  The programs that are run
  (lpstat, ipptool, the shell scripts) are parameters.
\<close>

definition JOB_STATE_PENDING :: int where "JOB_STATE_PENDING = 3"
definition JOB_STATE_PENDING_HELD :: int where "JOB_STATE_PENDING_HELD = 4"
definition JOB_STATE_PROCESSING :: int where "JOB_STATE_PROCESSING = 5"
definition JOB_STATE_PROCESSING_STOPPED :: int where "JOB_STATE_PROCESSING_STOPPED = 6"
definition JOB_STATE_CANCELED :: int where "JOB_STATE_CANCELED = 7"
definition JOB_STATE_ABORTED :: int where "JOB_STATE_ABORTED = 8"
definition JOB_STATE_COMPLETED :: int where "JOB_STATE_COMPLETED = 9"

lemmas job_states = JOB_STATE_PENDING_def JOB_STATE_PENDING_HELD_def JOB_STATE_PROCESSING_def
  JOB_STATE_PROCESSING_STOPPED_def JOB_STATE_CANCELED_def JOB_STATE_ABORTED_def
  JOB_STATE_COMPLETED_def

definition JOB_STATES_IN_FLIGHT :: "int list" where
  "JOB_STATES_IN_FLIGHT = [JOB_STATE_PENDING, JOB_STATE_PENDING_HELD, JOB_STATE_PROCESSING,
     JOB_STATE_PROCESSING_STOPPED]"

subsection \<open>Running a script\<close>

datatype control_error = JobControlError string | ScriptOSError string

definition run_args :: "runner \<Rightarrow> string \<Rightarrow> string list \<Rightarrow> int \<Rightarrow> control_error + unit" where
  "run_args run script args timeout =
     (case run (script # args) of
        FileNotFound \<Rightarrow> Inl (JobControlError (script @ '' not found on the PrintOps server.''))
      | OtherOSError e \<Rightarrow> Inl (ScriptOSError e)
      | TimedOut \<Rightarrow>
          Inl (JobControlError (script @ '' timed out after '' @ str_int timeout @ ''s.''))
      | Exited rc out err \<Rightarrow>
          if rc \<noteq> 0 then
            (let reason = py_strip (if err \<noteq> [] then err else out)
             in Inl (JobControlError
               (if reason \<noteq> [] then reason else script @ '' exited '' @ str_int rc @ ''.'')))
          else Inr ())"

definition cancel_cups_job :: "runner \<Rightarrow> int \<Rightarrow> control_error + unit" where
  "cancel_cups_job run cups_job_id =
     run_args run ''cancel_cups_job.sh'' [str_int cups_job_id] 10"

definition set_cups_job_priority :: "runner \<Rightarrow> int \<Rightarrow> int \<Rightarrow> control_error + unit" where
  "set_cups_job_priority run cups_job_id priority =
     run_args run ''set_cups_job_priority.sh'' [str_int cups_job_id, str_int priority] 10"

definition purge_cups_queue :: "runner \<Rightarrow> string \<Rightarrow> control_error + unit" where
  "purge_cups_queue run printer_id = run_args run ''purge_cups_queue.sh'' [printer_id] 15"

subsection \<open>The queue as lpstat lists it\<close>

record queue_snapshot =
  qs_depth :: nat
  qs_head_job :: "string option"
  qs_head_size_bytes :: "nat option"

definition read_queue :: "runner \<Rightarrow> string \<Rightarrow> queue_snapshot option" where
  "read_queue run printer_id =
     (case run [''lpstat'', ''-o'', ''printops-'' @ printer_id] of
        FileNotFound \<Rightarrow> None
      | OtherOSError e \<Rightarrow> None
      | TimedOut \<Rightarrow> None
      | Exited rc out err \<Rightarrow>
          if rc \<noteq> 0 then None
          else (case filter (\<lambda>line. py_strip line \<noteq> []) (splitlines out) of
              [] \<Rightarrow> Some \<lparr>qs_depth = 0, qs_head_job = None, qs_head_size_bytes = None\<rparr>
            | line # others \<Rightarrow>
                (let fields = py_split line;
                     size = (if length fields \<ge> 3 \<and> isdigit (fields ! 2)
                             then Some (digits_value (fields ! 2)) else None)
                 in Some \<lparr>qs_depth = Suc (length others), qs_head_job = Some (hd fields),
                          qs_head_size_bytes = size\<rparr>)))"

definition active_job_count :: "runner \<Rightarrow> string \<Rightarrow> nat option" where
  "active_job_count run printer_id =
     (case read_queue run printer_id of None \<Rightarrow> None | Some s \<Rightarrow> Some (qs_depth s))"

subsection \<open>ipptool's plist\<close>

definition ipptool_plist :: "(string \<Rightarrow> string \<Rightarrow> process_result) \<Rightarrow> string \<Rightarrow> string \<Rightarrow> string option" where
  "ipptool_plist ipptool queue_name request =
     (case ipptool (''ipp://localhost/printers/'' @ queue_name) request of
        FileNotFound \<Rightarrow> None
      | OtherOSError e \<Rightarrow> None
      | TimedOut \<Rightarrow> None
      | Exited rc out err \<Rightarrow> or_none out)"

text \<open>
  \<open>_plist_value\<close>: the first place where \<open>key\<close> is followed by an integer or string element,
  bare or inside an array; the text runs to the first closing tag and holds no newline.
\<close>

definition drop_prefix :: "string \<Rightarrow> string \<Rightarrow> string option" where
  "drop_prefix p s = (if prefix p s then Some (drop (length p) s) else None)"

fun upto_tag :: "string \<Rightarrow> string \<Rightarrow> string option" where
  "upto_tag close [] = (if close = [] then Some [] else None)"
| "upto_tag close (c # cs) =
     (if prefix close (c # cs) then Some []
      else if c = CHR 0x0A then None
      else map_option ((#) c) (upto_tag close cs))"

definition element_text :: "string \<Rightarrow> string option" where
  "element_text s =
     (case drop_prefix ''<integer>'' s of
        Some rest \<Rightarrow> upto_tag ''</integer>'' rest
      | None \<Rightarrow> (case drop_prefix ''<string>'' s of
          Some rest \<Rightarrow> upto_tag ''</string>'' rest
        | None \<Rightarrow> None))"

definition value_at :: "string \<Rightarrow> string \<Rightarrow> string option" where
  "value_at key s =
     (case drop_prefix (''<key>'' @ key @ ''</key>'') s of
        None \<Rightarrow> None
      | Some rest \<Rightarrow>
          (let rest = dropWhile py_isspace rest in
           case drop_prefix ''<array>'' rest of
             Some inner \<Rightarrow> element_text (dropWhile py_isspace inner)
           | None \<Rightarrow> element_text rest))"

fun plist_value :: "string \<Rightarrow> string \<Rightarrow> string option" where
  "plist_value key [] = None"
| "plist_value key (c # cs) =
     (case value_at key (c # cs) of Some v \<Rightarrow> Some v | None \<Rightarrow> plist_value key cs)"

subsection \<open>Who owns a job id, and what became of a job\<close>

record cups_job_identity =
  ci_uuid :: "string option"
  ci_owner :: "string option"

definition request_text :: "string \<Rightarrow> int \<Rightarrow> string list \<Rightarrow> string \<Rightarrow> string" where
  "request_text printer_id cups_job_id extra attributes =
     concat (map (\<lambda>line. line @ [CHR 0x0A])
       ([''{'',
         ''    OPERATION Get-Job-Attributes'',
         ''    GROUP operation-attributes-tag'',
         ''    ATTR charset attributes-charset utf-8'',
         ''    ATTR language attributes-natural-language en'',
         ''    ATTR uri printer-uri ipp://localhost/printers/printops-'' @ printer_id,
         ''    ATTR integer job-id '' @ str_int cups_job_id] @ extra @
        [''    ATTR keyword requested-attributes '' @ attributes, ''}'']))"

definition cups_identity ::
  "(string \<Rightarrow> string \<Rightarrow> process_result) \<Rightarrow> string \<Rightarrow> string \<Rightarrow> int \<Rightarrow> cups_job_identity option" where
  "cups_identity ipptool user printer_id cups_job_id =
     (let request = request_text printer_id cups_job_id
            [''    ATTR name requesting-user-name '' @ user] ''job-uuid,job-originating-user-name''
      in case ipptool_plist ipptool (''printops-'' @ printer_id) request of
           None \<Rightarrow> None
         | Some output \<Rightarrow>
             if plist_value ''StatusCode'' output \<noteq> Some ''successful-ok'' then None
             else Some \<lparr>ci_uuid = plist_value ''job-uuid'' output,
                        ci_owner = plist_value ''job-originating-user-name'' output\<rparr>)"

record cups_job_outcome =
  co_state :: "int option"
  co_reason :: "string option"
  co_page_count :: "int option"
  co_color_mode :: "string option"
  co_duplex :: "bool option"
  co_paper_size :: "string option"

definition no_record :: cups_job_outcome where
  "no_record = \<lparr>co_state = None, co_reason = None, co_page_count = None, co_color_mode = None,
     co_duplex = None, co_paper_size = None\<rparr>"

definition in_flight :: "cups_job_outcome \<Rightarrow> bool" where
  "in_flight o' = (case co_state o' of None \<Rightarrow> False | Some s \<Rightarrow> s \<in> set JOB_STATES_IN_FLIGHT)"

definition COMPLETION_ATTRIBUTES :: "string list" where
  "COMPLETION_ATTRIBUTES = [''job-state'', ''job-state-reasons'', ''job-media-sheets-completed'',
     ''sides'', ''output-mode'', ''print-color-mode'', ''media'']"

text \<open>The reading of a successful answer, and of every other one.\<close>

definition outcome_of_output :: "string \<Rightarrow> cups_job_outcome option" where
  "outcome_of_output output =
     (case plist_value ''StatusCode'' output of
        None \<Rightarrow> None
      | Some status \<Rightarrow>
          if status = ''client-error-not-found'' then Some no_record
          else if status \<noteq> ''successful-ok'' then None
          else (case plist_value ''job-state'' output of
              None \<Rightarrow> Some no_record
            | Some state_raw \<Rightarrow>
                if \<not> isdigit state_raw then Some no_record
                else
                  (let sheets = plist_value ''job-media-sheets-completed'' output;
                       sides = plist_value ''sides'' output;
                       color_raw = (if truthy (plist_value ''output-mode'' output)
                                    then plist_value ''output-mode'' output
                                    else plist_value ''print-color-mode'' output)
                   in Some \<lparr>co_state = Some (int (digits_value state_raw)),
                        co_reason = plist_value ''job-state-reasons'' output,
                        co_page_count = (case sheets of None \<Rightarrow> None
                          | Some n \<Rightarrow> if isdigit n then Some (int (digits_value n)) else None),
                        co_color_mode = (case color_raw of None \<Rightarrow> None
                          | Some m \<Rightarrow> Some (if contains ''monochrome'' m then ''monochrome'' else ''color'')),
                        co_duplex = map_option (prefix ''two-sided'') sides,
                        co_paper_size = plist_value ''media'' output\<rparr>)))"

definition get_job_outcome ::
  "(string \<Rightarrow> string \<Rightarrow> process_result) \<Rightarrow> string \<Rightarrow> int \<Rightarrow> cups_job_outcome option" where
  "get_job_outcome ipptool printer_id cups_job_id =
     (case ipptool_plist ipptool (''printops-'' @ printer_id)
        (request_text printer_id cups_job_id [] (py_join '','' COMPLETION_ATTRIBUTES)) of
        None \<Rightarrow> None | Some output \<Rightarrow> outcome_of_output output)"


subsection \<open>A line that is not blank has a first field\<close>

lemma split_ws_from_acc: "acc \<noteq> [] \<Longrightarrow> split_ws_from acc cs \<noteq> []"
  by (induction cs arbitrary: acc) auto

lemma py_split_empty_iff: "py_split s = [] \<longleftrightarrow> list_all py_isspace s"
proof -
  have "split_ws_from [] s = [] \<longleftrightarrow> list_all py_isspace s"
    by (induction s) (auto simp: split_ws_from_acc)
  then show ?thesis by (simp add: py_split_def)
qed

lemma py_strip_empty_iff: "py_strip s = [] \<longleftrightarrow> list_all py_isspace s"
proof -
  have "dropWhile P (rev (dropWhile P s)) = [] \<longleftrightarrow> list_all P s" for P :: "char \<Rightarrow> bool"
  proof -
    have "dropWhile P (rev (dropWhile P s)) = [] \<longleftrightarrow> (\<forall>x\<in>set (dropWhile P s). P x)"
      by (simp add: dropWhile_eq_Nil_conv)
    also have "\<dots> \<longleftrightarrow> dropWhile P s = []"
      by (cases "dropWhile P s") (use hd_dropWhile [of P s] set_dropWhileD [of _ P s] in auto)
    finally show ?thesis by (simp add: dropWhile_eq_Nil_conv list_all_iff)
  qed
  then show ?thesis by (simp add: py_strip_def)
qed

lemma first_field_exists: "py_strip line \<noteq> [] \<Longrightarrow> py_split line \<noteq> []"
  by (simp add: py_strip_empty_iff py_split_empty_iff)

lemma filter_not_blank: "filter (\<lambda>l. py_strip l \<noteq> []) ls = line # others \<Longrightarrow> py_strip line \<noteq> []"
  by (metis (mono_tags, lifting) filter_eq_Cons_iff)

text \<open>
  An answered reading of a queue has a head job exactly when it is not empty, and the head
  is the first field of a listed line: the code's indexing of the fields never fails.  No
  answer (a missing lpstat, a timeout, a failing one) is never an empty queue.
\<close>

theorem read_queue_head:
  "case read_queue run printer_id of
     None \<Rightarrow> (\<nexists>out err. run [''lpstat'', ''-o'', ''printops-'' @ printer_id] = Exited 0 out err)
   | Some snap \<Rightarrow>
       (qs_depth snap = 0 \<longleftrightarrow> qs_head_job snap = None) \<and>
       (case qs_head_job snap of
          None \<Rightarrow> True
        | Some head \<Rightarrow>
            (\<exists>out err line. run [''lpstat'', ''-o'', ''printops-'' @ printer_id] = Exited 0 out err \<and>
               line \<in> set (splitlines out) \<and> py_split line \<noteq> [] \<and> head = hd (py_split line)))"
proof (cases "run [''lpstat'', ''-o'', ''printops-'' @ printer_id]")
  case (Exited rc out err)
  show ?thesis
  proof (cases "filter (\<lambda>line. py_strip line \<noteq> []) (splitlines out)")
    case Nil
    with Exited show ?thesis by (simp add: read_queue_def)
  next
    case (Cons line others)
    have "line \<in> set (splitlines out)"
      using arg_cong [OF Cons, of set] by auto
    moreover have "py_split line \<noteq> []"
      using filter_not_blank [OF Cons] by (rule first_field_exists)
    ultimately show ?thesis using Exited Cons by (auto simp: read_queue_def Let_def)
  qed
qed (simp_all add: read_queue_def)

subsection \<open>An unanswered question is not an answer\<close>

lemma in_flight_state: "in_flight o' \<Longrightarrow> co_state o' \<noteq> None"
  by (auto simp: in_flight_def split: option.splits)

lemma not_in_flight_terminal [simp]:
  "co_state o' = Some JOB_STATE_COMPLETED \<Longrightarrow> \<not> in_flight o'"
  "co_state o' = Some JOB_STATE_ABORTED \<Longrightarrow> \<not> in_flight o'"
  "co_state o' = Some JOB_STATE_CANCELED \<Longrightarrow> \<not> in_flight o'"
  "co_state o' = None \<Longrightarrow> \<not> in_flight o'"
  by (simp_all add: in_flight_def JOB_STATES_IN_FLIGHT_def job_states)

text \<open>
  Cupsd's silence and cupsd's ignorance stay apart.  The outcome is "no answer" exactly
  when ipptool produced nothing or the status is neither success nor not-found; and "no
  record of this job" is said only on not-found, or on a success without a readable state.
\<close>

theorem outcome_separates_silence_from_ignorance:
  "(outcome_of_output out = None \<longleftrightarrow>
      plist_value ''StatusCode'' out \<notin> {Some ''client-error-not-found'', Some ''successful-ok''}) \<and>
   ((\<exists>r. outcome_of_output out = Some r \<and> co_state r = None) \<longleftrightarrow>
      plist_value ''StatusCode'' out = Some ''client-error-not-found'' \<or>
      plist_value ''StatusCode'' out = Some ''successful-ok'' \<and>
      (case plist_value ''job-state'' out of None \<Rightarrow> True | Some raw \<Rightarrow> \<not> isdigit raw))"
  by (auto simp: outcome_of_output_def no_record_def Let_def split: option.splits if_splits)

end
