(* ===== verification/Queue_Stall.thy ===== *)
theory Queue_Stall
  imports Job_Control
begin

section \<open>A queue whose head job never changes (app/printers/queue_stall.py)\<close>

text \<open>
  The size-dependent threshold, the per-printer observation of the head job, and the message.
  The module dictionary \<open>_observations\<close> is the state.  The grace a large job buys is a
  \<open>timedelta\<close> multiplied by a float, which Python rounds half to even to the microsecond:
  \<open>round_div\<close>; \<open>size / 2^20\<close> is exact in a float for any size below \<open>2^53\<close> bytes.
\<close>

definition STALL_THRESHOLD :: timedelta where "STALL_THRESHOLD = minutes 30"
definition STALL_GRACE_PER_MB :: timedelta where "STALL_GRACE_PER_MB = minutes 1"
definition MAX_SIZE_GRACE :: timedelta where "MAX_SIZE_GRACE = minutes 60"
definition BYTES_PER_MB :: int where "BYTES_PER_MB = 1024 * 1024"
definition SIZE_GRACE_FLOOR_BYTES :: int where "SIZE_GRACE_FLOOR_BYTES = 5 * BYTES_PER_MB"

lemmas stall_constants = STALL_THRESHOLD_def STALL_GRACE_PER_MB_def MAX_SIZE_GRACE_def
  BYTES_PER_MB_def SIZE_GRACE_FLOOR_BYTES_def py_simps

definition threshold_for :: "nat option \<Rightarrow> timedelta" where
  "threshold_for size_bytes =
     (case size_bytes of
        None \<Rightarrow> STALL_THRESHOLD
      | Some n \<Rightarrow>
          if n = 0 \<or> int n \<le> SIZE_GRACE_FLOOR_BYTES then STALL_THRESHOLD
          else STALL_THRESHOLD +
            min (round_div (STALL_GRACE_PER_MB * int n) BYTES_PER_MB) MAX_SIZE_GRACE)"

record head_observation =
  ho_head_job :: string
  ho_first_seen :: datetime

type_synonym observations = "(string, head_observation) dict"

definition stall_reset :: "observations \<Rightarrow> observations" where
  "stall_reset obs = []"

definition stall_forget :: "string \<Rightarrow> observations \<Rightarrow> observations" where
  "stall_forget printer_id obs = AList.delete printer_id obs"

definition stall_observe :: "string \<Rightarrow> queue_snapshot option \<Rightarrow> datetime \<Rightarrow> observations \<Rightarrow>
    timedelta option \<times> observations" where
  "stall_observe printer_id snapshot now obs =
     (case snapshot of
        None \<Rightarrow> (None, AList.delete printer_id obs)
      | Some snap \<Rightarrow> (case qs_head_job snap of
          None \<Rightarrow> (None, AList.delete printer_id obs)
        | Some head \<Rightarrow>
            (case map_of obs printer_id of
               None \<Rightarrow> (None, AList.update printer_id \<lparr>ho_head_job = head, ho_first_seen = now\<rparr> obs)
             | Some previous \<Rightarrow>
                 if ho_head_job previous \<noteq> head
                 then (None, AList.update printer_id \<lparr>ho_head_job = head, ho_first_seen = now\<rparr> obs)
                 else (let stuck_for = now - ho_first_seen previous
                       in (if stuck_for \<ge> threshold_for (qs_head_size_bytes snap)
                           then Some stuck_for else None, obs)))))"

text \<open>\<open>f"{x:.1f}"\<close> of a number of megabytes: one decimal, rounded half to even.\<close>

definition megabytes_1f :: "nat \<Rightarrow> string" where
  "megabytes_1f sz =
     (let tenths = round_div (10 * int sz) BYTES_PER_MB
      in str_int (tenths div 10) @ ''.'' @ str_int (tenths mod 10))"

definition stall_reason :: "timedelta \<Rightarrow> queue_snapshot \<Rightarrow> string" where
  "stall_reason stuck_for snapshot =
     (let mins = stuck_for div minutes 1;
          job_word = (if qs_depth snapshot = 1 then ''job'' else ''jobs'');
          size_text = (case qs_head_size_bytes snapshot of
                    None \<Rightarrow> []
                  | Some n \<Rightarrow> if n = 0 then []
                              else '' The job at the head is '' @ megabytes_1f n @ '' MB.'')
      in ''Queue has not moved for '' @ str_int mins @ '' minutes ('' @
         str_int (int (qs_depth snapshot)) @ '' '' @ job_word @ '' waiting) '' @
         ''even though the printer reports itself reachable. Jobs are reaching CUPS but not '' @
         ''printing '' @ [CHR 0xE2, CHR 0x80, CHR 0x94] @
         '' check the printer's connection settings (port/TLS/IPP path) and the '' @
         ''device's own job list.'' @ size_text)"

subsection \<open>The threshold\<close>

lemma threshold_grace_nonneg: "0 \<le> round_div (STALL_GRACE_PER_MB * int n) BYTES_PER_MB"
  by (rule round_div_nonneg) (simp_all add: stall_constants)

text \<open>
  The threshold lies between thirty and ninety minutes and never shrinks as the head job
  grows; a job of at most five megabytes, and one of unknown size, gets exactly the base.
\<close>

theorem threshold_bounds_and_mono:
  "STALL_THRESHOLD \<le> threshold_for sz \<and> threshold_for sz \<le> STALL_THRESHOLD + MAX_SIZE_GRACE \<and>
   (\<forall>n k. threshold_for (Some n) \<le> threshold_for (Some (n + k)))"
proof -
  have grow: "round_div (STALL_GRACE_PER_MB * int n) BYTES_PER_MB \<le>
      round_div (STALL_GRACE_PER_MB * int (n + k)) BYTES_PER_MB" for n k
    by (rule round_div_mono) (simp_all add: stall_constants)
  have low: "STALL_THRESHOLD \<le> threshold_for s" for s
    using threshold_grace_nonneg
    by (cases s) (auto simp: threshold_for_def MAX_SIZE_GRACE_def minutes_def)
  have high: "threshold_for s \<le> STALL_THRESHOLD + MAX_SIZE_GRACE" for s
    by (cases s) (auto simp: threshold_for_def MAX_SIZE_GRACE_def minutes_def)
  have "threshold_for (Some n) \<le> threshold_for (Some (n + k))" for n k
  proof (cases "n = 0 \<or> int n \<le> SIZE_GRACE_FLOOR_BYTES")
    case True
    then have "threshold_for (Some n) = STALL_THRESHOLD" by (auto simp: threshold_for_def)
    then show ?thesis using low by simp
  next
    case False
    then show ?thesis using grow [of n k] by (auto simp: threshold_for_def min_def)
  qed
  with low high show ?thesis by blast
qed

subsection \<open>Runs of polls\<close>

fun stall_run :: "string \<Rightarrow> (queue_snapshot option \<times> datetime) list \<Rightarrow> observations \<Rightarrow> observations" where
  "stall_run pid [] obs = obs"
| "stall_run pid ((snap, t) # polls) obs = stall_run pid polls (snd (stall_observe pid snap t obs))"

definition head_of :: "queue_snapshot option \<Rightarrow> string option" where
  "head_of snap = Option.bind snap qs_head_job"

text \<open>
  When the unbroken run of polls that saw \<open>head\<close>, ending at the newest poll, began; the list
  is newest first.
\<close>

fun head_since :: "string \<Rightarrow> (queue_snapshot option \<times> datetime) list \<Rightarrow> datetime option" where
  "head_since head [] = None"
| "head_since head ((snap, t) # earlier) =
     (if head_of snap = Some head
      then Some (case head_since head earlier of None \<Rightarrow> t | Some t0 \<Rightarrow> t0)
      else None)"

definition remembers :: "string \<Rightarrow> (queue_snapshot option \<times> datetime) list \<Rightarrow> observations \<Rightarrow> bool" where
  "remembers pid seen obs \<longleftrightarrow>
     (\<forall>head. head_since head seen =
        (case map_of obs pid of
           None \<Rightarrow> None
         | Some o' \<Rightarrow> if ho_head_job o' = head then Some (ho_first_seen o') else None))"

lemma stall_observe_remembers:
  "remembers pid seen obs \<Longrightarrow>
   remembers pid ((snap, t) # seen) (snd (stall_observe pid snap t obs))"
  by (auto simp: remembers_def stall_observe_def head_of_def Let_def update_conv' delete_conv'
      split: option.splits)

lemma stall_run_remembers:
  "remembers pid seen obs \<Longrightarrow> remembers pid (rev polls @ seen) (stall_run pid polls obs)"
proof (induction polls arbitrary: seen obs)
  case Nil
  then show ?case by simp
next
  case (Cons p polls)
  obtain snap t where p: "p = (snap, t)" by (cases p)
  from Cons.IH [OF stall_observe_remembers [OF Cons.prems, of snap t]] p
  show ?case by simp
qed

text \<open>
  What a poll reports depends on the unbroken run of polls with the same head job and on
  nothing else: after any sequence of polls, the next one calls the queue stuck exactly when
  the present head job has been seen at every poll since \<open>t0\<close> and the time since \<open>t0\<close> has
  reached the threshold for its size - and the duration it reports is that time.
\<close>

theorem stall_reports_unbroken_head:
  "fst (stall_observe pid snapshot now (stall_run pid polls [])) =
     (case head_of snapshot of
        None \<Rightarrow> None
      | Some head \<Rightarrow> (case head_since head (rev polls) of
          None \<Rightarrow> None
        | Some t0 \<Rightarrow> if now - t0 \<ge> threshold_for (qs_head_size_bytes (the snapshot))
                    then Some (now - t0) else None))"
proof -
  have "remembers pid [] []"
    by (simp add: remembers_def)
  from stall_run_remembers [OF this, of polls]
  have "remembers pid (rev polls) (stall_run pid polls [])" by simp
  then show ?thesis
    by (auto simp: remembers_def stall_observe_def head_of_def Let_def split: option.splits)
qed

end
