(* ===== verification/Calendar.thy ===== *)
theory Calendar
  imports Prelude
begin

section \<open>Python's dates (the part of the datetime module the source uses)\<close>

text \<open>
  The proleptic Gregorian calendar of \<open>datetime.date\<close>: construction with its range checks (an
  argument that does not fit a C int overflows),
  the ordinal, the way back, the weekday, and addition of days with its overflow.  A
  \<open>datetime\<close> (UTC) is the number of microseconds since the start of ordinal 0, so its date
  is the ordinal \<open>dt div 86400000000\<close>.  Years run from 1 to 9999, as in Python.
\<close>

datatype date = Date (yr: int) (mon: int) (dy: int)

datatype date_error = ValueError string | OverflowError

definition is_leap :: "int \<Rightarrow> bool" where
  "is_leap y \<longleftrightarrow> y mod 4 = 0 \<and> (y mod 100 \<noteq> 0 \<or> y mod 400 = 0)"

definition days_in_month :: "int \<Rightarrow> int \<Rightarrow> int" where
  "days_in_month y m =
     (if m = 2 then (if is_leap y then 29 else 28) else if m \<in> {4, 6, 9, 11} then 30 else 31)"

definition days_before_year :: "int \<Rightarrow> int" where
  "days_before_year y = (let k = y - 1 in k * 365 + k div 4 - k div 100 + k div 400)"

definition days_before_month :: "int \<Rightarrow> int \<Rightarrow> int" where
  "days_before_month y m =
     (if m \<le> 1 then 0 else if m = 2 then 31
      else (if m = 3 then 59 else if m = 4 then 90 else if m = 5 then 120 else if m = 6 then 151
            else if m = 7 then 181 else if m = 8 then 212 else if m = 9 then 243
            else if m = 10 then 273 else if m = 11 then 304 else if m = 12 then 334 else 365)
           + (if is_leap y then 1 else 0))"

fun valid_date :: "date \<Rightarrow> bool" where
  "valid_date (Date y m d) \<longleftrightarrow>
     1 \<le> y \<and> y \<le> 9999 \<and> 1 \<le> m \<and> m \<le> 12 \<and> 1 \<le> d \<and> d \<le> days_in_month y m"

definition mk_date :: "int \<Rightarrow> int \<Rightarrow> int \<Rightarrow> date_error + date" where
  "mk_date y m d =
     (if list_ex (\<lambda>n. n < - (2 ^ 31) \<or> 2 ^ 31 \<le> n) [y, m, d] then Inl OverflowError
      else if y < 1 \<or> 9999 < y then Inl (ValueError ''year is out of range'')
      else if m < 1 \<or> 12 < m then Inl (ValueError ''month must be in 1..12'')
      else if d < 1 \<or> days_in_month y m < d then Inl (ValueError ''day is out of range for month'')
      else Inr (Date y m d))"

fun toordinal :: "date \<Rightarrow> int" where
  "toordinal (Date y m d) = days_before_year y + days_before_month y m + d"

definition MAXORDINAL :: int where "MAXORDINAL = 3652059"

definition year_of_ordinal :: "int \<Rightarrow> int" where
  "year_of_ordinal n =
     (let y = ((n - 1) * 400) div 146097 + 1
      in if days_before_year (y + 1) < n then y + 1 else if n \<le> days_before_year y then y - 1 else y)"

definition month_of_day :: "int \<Rightarrow> int \<Rightarrow> int" where
  "month_of_day y doy = int (length (filter (\<lambda>m. days_before_month y m < doy) [1..12]))"

definition fromordinal :: "int \<Rightarrow> date" where
  "fromordinal n =
     (let y = year_of_ordinal n; doy = n - days_before_year y; m = month_of_day y doy
      in Date y m (doy - days_before_month y m))"

definition weekday :: "date \<Rightarrow> int" where
  "weekday d = (toordinal d + 6) mod 7"

definition date_add_days :: "date \<Rightarrow> int \<Rightarrow> date_error + date" where
  "date_add_days d n =
     (let k = toordinal d + n in if 0 < k \<and> k \<le> MAXORDINAL then Inr (fromordinal k) else Inl OverflowError)"

definition date_of :: "datetime \<Rightarrow> date" where
  "date_of dt = fromordinal (dt div days 1)"

definition at_midnight :: "date \<Rightarrow> datetime" where
  "at_midnight d = toordinal d * days 1"

subsection \<open>The order of dates\<close>

instantiation date :: linorder
begin

definition less_date :: "date \<Rightarrow> date \<Rightarrow> bool" where
  "less_date a b \<longleftrightarrow> yr a < yr b \<or> yr a = yr b \<and> (mon a < mon b \<or> mon a = mon b \<and> dy a < dy b)"

definition less_eq_date :: "date \<Rightarrow> date \<Rightarrow> bool" where
  "less_eq_date a b \<longleftrightarrow> a < b \<or> a = (b :: date)"

instance
proof -
  have eq: "a = b \<longleftrightarrow> yr a = yr b \<and> mon a = mon b \<and> dy a = dy b" for a b :: date
    by (cases a; cases b) simp
  show "OFCLASS(date, linorder_class)"
    by intro_classes (auto simp: less_date_def less_eq_date_def eq)
qed

end

subsection \<open>Month and year lengths\<close>

lemma month_cases:
  assumes "1 \<le> (m::int)" "m \<le> 12"
  shows "m = 1 \<or> m = 2 \<or> m = 3 \<or> m = 4 \<or> m = 5 \<or> m = 6 \<or> m = 7 \<or> m = 8 \<or> m = 9 \<or> m = 10 \<or>
    m = 11 \<or> m = 12"
  using assms by presburger

lemma days_before_next_month:
  assumes "1 \<le> m" "m < 12"
  shows "days_before_month y (m + 1) = days_before_month y m + days_in_month y m"
proof -
  from assms have "m = 1 \<or> m = 2 \<or> m = 3 \<or> m = 4 \<or> m = 5 \<or> m = 6 \<or> m = 7 \<or> m = 8 \<or> m = 9 \<or>
      m = 10 \<or> m = 11" by presburger
  then show ?thesis
    by (elim disjE) (simp_all add: days_before_month_def days_in_month_def)
qed

lemma days_in_month_pos: "28 \<le> days_in_month y m"
  by (simp add: days_in_month_def)

lemma days_before_month_mono:
  assumes "1 \<le> m" "m < m'" "m' \<le> 12"
  shows "days_before_month y m + days_in_month y m \<le> days_before_month y m'"
proof -
  have "m + 1 + int k \<le> 12 \<Longrightarrow> days_before_month y (m + 1) \<le> days_before_month y (m + 1 + int k)" for k
  proof (induction k)
    case (Suc k)
    with days_before_next_month [of "m + 1 + int k" y] days_in_month_pos [of y "m + 1 + int k"] assms
    show ?case by (simp add: ac_simps)
  qed simp
  from this [of "nat (m' - m - 1)"] assms days_before_next_month [of m y] show ?thesis by simp
qed

definition year_length :: "int \<Rightarrow> int" where
  "year_length y = (if is_leap y then 366 else 365)"

lemma december_ends_year: "days_before_month y 12 + days_in_month y 12 = year_length y"
  by (simp add: days_before_month_def days_in_month_def year_length_def)

lemma day_of_year_bounds:
  assumes "1 \<le> m" "m \<le> 12" "1 \<le> d" "d \<le> days_in_month y m"
  shows "1 \<le> days_before_month y m + d \<and> days_before_month y m + d \<le> year_length y"
proof -
  have "0 \<le> days_before_month y m" by (simp add: days_before_month_def)
  moreover have "days_before_month y m + days_in_month y m \<le> year_length y"
    using days_before_month_mono [of m 12 y] assms december_ends_year [of y] days_in_month_pos [of y 12]
    by (cases "m = 12") auto
  ultimately show ?thesis using assms by linarith
qed

lemma div_pred: "0 < k \<Longrightarrow> y div k - (y - 1) div k = (if y mod k = 0 then 1 else (0::int))"
proof -
  assume k: "0 < k"
  have y: "y = (y div k) * k + y mod k" by simp
  show ?thesis
  proof (cases "y mod k = 0")
    case True
    with y have "y - 1 = (k - 1) + (y div k - 1) * k" by (simp add: algebra_simps)
    then have "(y - 1) div k = y div k - 1"
      using k by (metis add.commute add_0 div_mult_self1 div_pos_pos_trivial less_irrefl
          zle_diff1_eq order_refl diff_ge_0_iff_ge int_one_le_iff_zero_less)
    with True show ?thesis by simp
  next
    case False
    with k pos_mod_sign [OF k, of y] pos_mod_bound [OF k, of y]
    have "0 \<le> y mod k - 1" "y mod k - 1 < k" by linarith+
    moreover from y have "y - 1 = (y mod k - 1) + (y div k) * k" by simp
    ultimately have "(y - 1) div k = y div k"
      using k by (metis add_0 div_mult_self1 div_pos_pos_trivial less_irrefl add.commute)
    with False show ?thesis by simp
  qed
qed

lemma leap_by_quotients:
  "(y div 4 - (y - 1) div 4) - (y div 100 - (y - 1) div 100) + (y div 400 - (y - 1) div 400) =
     (if is_leap y then 1 else (0::int))"
proof -
  have h: "y mod 400 = 0 \<Longrightarrow> y mod 100 = 0" "y mod 100 = 0 \<Longrightarrow> y mod 4 = 0" by presburger+
  have four: "y div 4 - (y - 1) div 4 = (if y mod 4 = 0 then 1 else 0)" by (rule div_pred) simp
  have hundred: "y div 100 - (y - 1) div 100 = (if y mod 100 = 0 then 1 else 0)"
    by (rule div_pred) simp
  have fourhundred: "y div 400 - (y - 1) div 400 = (if y mod 400 = 0 then 1 else 0)"
    by (rule div_pred) simp
  show ?thesis
    unfolding four hundred fourhundred is_leap_def using h
    by (cases "y mod 400 = 0"; cases "y mod 100 = 0"; cases "y mod 4 = 0") simp_all
qed

lemma days_before_next_year: "days_before_year (y + 1) = days_before_year y + year_length y"
  using leap_by_quotients [of y] by (simp add: days_before_year_def year_length_def Let_def split: if_splits)

lemma year_length_pos: "365 \<le> year_length y"
  by (simp add: year_length_def)

lemma days_before_year_mono: "y < y' \<Longrightarrow> days_before_year y + year_length y \<le> days_before_year y'"
proof -
  assume "y < y'"
  have "days_before_year (y + 1) \<le> days_before_year (y + 1 + int k)" for k
  proof (induction k)
    case (Suc k)
    with days_before_next_year [of "y + 1 + int k"] year_length_pos [of "y + 1 + int k"]
    show ?case by (simp add: ac_simps)
  qed simp
  from this [of "nat (y' - y - 1)"] \<open>y < y'\<close> days_before_next_year [of y] show ?thesis by simp
qed


subsection \<open>The ordinal and the way back\<close>

lemma year_of_ordinal_inverse:
  assumes "1 \<le> doy" "doy \<le> year_length y"
  shows "year_of_ordinal (days_before_year y + doy) = y"
proof -
  let ?k = "y - 1" and ?n = "days_before_year y + doy"
  define a b c where abc: "a = ?k div 4" "b = ?k div 100" "c = ?k div 400"
  have q: "4 * a \<le> ?k" "?k \<le> 4 * a + 3" "100 * b \<le> ?k" "?k \<le> 100 * b + 99"
      "400 * c \<le> ?k" "?k \<le> 400 * c + 399"
    by (simp_all add: abc)
  have n: "?n - 1 = 365 * ?k + a - b + c + (doy - 1)"
    by (simp add: days_before_year_def Let_def abc)
  have doy: "0 \<le> doy - 1" "doy - 1 \<le> 365"
    using assms by (simp_all add: year_length_def split: if_splits)
  have low: "146097 * (?k - 1) \<le> (?n - 1) * 400"
    unfolding n using q(2,3,6) doy(1) by simp
  have high: "(?n - 1) * 400 < 146097 * (?k + 2)"
    unfolding n using q(1,4,5) doy(2) by simp
  from low high have "?k - 1 \<le> ((?n - 1) * 400) div 146097" "((?n - 1) * 400) div 146097 < ?k + 2"
    by (simp_all add: div_less_iff_less_mult less_eq_div_iff_mult_less_eq mult.commute)
  then have e: "e = y - 1 \<or> e = y \<or> e = y + 1"
    if "e = ((?n - 1) * 400) div 146097 + 1" for e
    using that by linarith
  have year: "year_of_ordinal ?n = (let e = ((?n - 1) * 400) div 146097 + 1 in
      if days_before_year (e + 1) < ?n then e + 1 else if ?n \<le> days_before_year e then e - 1 else e)"
    by (simp only: year_of_ordinal_def)
  have "days_before_year y < ?n" "?n \<le> days_before_year (y + 1)"
    using assms days_before_next_year [of y] by auto
  moreover have "days_before_year (y + 1) \<le> days_before_year (y + 1 + 1)"
    using days_before_next_year [of "y + 1"] year_length_pos [of "y + 1"] by simp
  ultimately show ?thesis
    using e [OF refl] unfolding year Let_def by (elim disjE) simp_all
qed

lemma months_upto: "[1..12] = [1, 2, 3, 4, 5, 6, 7, 8, 9, 10, 11, 12 :: int]"
  by (simp add: upto_rec1)

lemma month_of_day_inverse:
  assumes "1 \<le> m" "m \<le> 12" "1 \<le> d" "d \<le> days_in_month y m"
  shows "month_of_day y (days_before_month y m + d) = m"
proof -
  have "\<forall>i. 1 \<le> i \<and> i \<le> 12 \<longrightarrow>
      (days_before_month y i < days_before_month y m + d) = (i \<le> m)"
  proof (intro allI impI)
    fix i :: int
    assume i: "1 \<le> i \<and> i \<le> 12"
    consider "i < m" | "i = m" | "m < i" by linarith
    then show "(days_before_month y i < days_before_month y m + d) = (i \<le> m)"
    proof cases
      case 1
      with days_before_month_mono [of i m y] i assms days_in_month_pos [of y i] show ?thesis by simp
    next
      case 3
      with days_before_month_mono [of m i y] i assms show ?thesis by simp
    qed (use assms in simp)
  qed
  then have "filter (\<lambda>i. days_before_month y i < days_before_month y m + d) [1..12] =
      filter (\<lambda>i. i \<le> m) [1..12]"
    by (intro filter_cong) auto
  moreover have "int (length (filter (\<lambda>i. i \<le> m) [1..12])) = m"
    using month_cases [OF assms(1,2)] by (elim disjE) (simp_all add: months_upto)
  ultimately show ?thesis by (simp add: month_of_day_def)
qed

lemma fromordinal_toordinal:
  assumes "valid_date d"
  shows "fromordinal (toordinal d) = d"
proof (cases d)
  case (Date y m k)
  with assms have v: "1 \<le> m" "m \<le> 12" "1 \<le> k" "k \<le> days_in_month y m" by auto
  have "year_of_ordinal (days_before_year y + (days_before_month y m + k)) = y"
    using day_of_year_bounds [OF v] by (intro year_of_ordinal_inverse) auto
  with month_of_day_inverse [OF v] Date show ?thesis
    by (simp add: fromordinal_def Let_def add.assoc)
qed

text \<open>The day after, which makes every ordinal the ordinal of a date.\<close>

fun next_day :: "date \<Rightarrow> date" where
  "next_day (Date y m d) =
     (if d < days_in_month y m then Date y m (d + 1)
      else if m < 12 then Date y (m + 1) 1 else Date (y + 1) 1 1)"

lemma toordinal_next_day:
  assumes "valid_date d"
  shows "toordinal (next_day d) = toordinal d + 1"
proof (cases d)
  case (Date y m k)
  show ?thesis
  proof (cases "k < days_in_month y m")
    case False
    with assms Date have k: "k = days_in_month y m" by auto
    show ?thesis
    proof (cases "m < 12")
      case True
      with k assms Date days_before_next_month [of m y] show ?thesis by auto
    next
      case False
      with assms Date have "m = 12" by auto
      with k Date december_ends_year [of y] days_before_next_year [of y] show ?thesis
        by (simp add: days_before_month_def)
    qed
  qed (use Date in simp)
qed

lemma valid_next_day: "valid_date d \<Longrightarrow> d \<noteq> Date 9999 12 31 \<Longrightarrow> valid_date (next_day d)"
  by (cases d) (auto simp: days_in_month_def split: if_splits)

lemma ordinal_is_of_a_date:
  "1 \<le> n \<Longrightarrow> n \<le> MAXORDINAL \<Longrightarrow> \<exists>d. valid_date d \<and> toordinal d = n"
proof (induction n rule: int_ge_induct)
  case base
  have "valid_date (Date 1 1 1) \<and> toordinal (Date 1 1 1) = 1"
    by (simp add: days_in_month_def days_before_year_def days_before_month_def)
  then show ?case by blast
next
  case (step n)
  then obtain d where d: "valid_date d" "toordinal d = n" by auto
  have "toordinal (Date 9999 12 31) = MAXORDINAL"
    by (simp add: days_before_year_def days_before_month_def is_leap_def MAXORDINAL_def)
  with step.prems d have "d \<noteq> Date 9999 12 31" by auto
  with d valid_next_day toordinal_next_day show ?case by metis
qed

lemma valid_fromordinal: "1 \<le> n \<Longrightarrow> n \<le> MAXORDINAL \<Longrightarrow> valid_date (fromordinal n)"
  using ordinal_is_of_a_date [of n] fromordinal_toordinal by metis

lemma toordinal_fromordinal: "1 \<le> n \<Longrightarrow> n \<le> MAXORDINAL \<Longrightarrow> toordinal (fromordinal n) = n"
  using ordinal_is_of_a_date [of n] fromordinal_toordinal by metis

lemma toordinal_less:
  assumes "valid_date a" "valid_date b" "a < b"
  shows "toordinal a < toordinal b"
proof -
  obtain y m d y' m' d' where ab: "a = Date y m d" "b = Date y' m' d'" by (cases a; cases b)
  have va: "1 \<le> m" "m \<le> 12" "1 \<le> d" "d \<le> days_in_month y m"
    and vb: "1 \<le> m'" "m' \<le> 12" "1 \<le> d'" "d' \<le> days_in_month y' m'" using assms ab by auto
  consider "y < y'" | "y = y'" "m < m'" | "y = y'" "m = m'" "d < d'"
    using assms(3) ab by (auto simp: less_date_def)
  then show ?thesis
  proof cases
    case 1
    with days_before_year_mono day_of_year_bounds [OF va] day_of_year_bounds [OF vb] ab
    show ?thesis by fastforce
  next
    case 2
    with days_before_month_mono [of m m' y] va vb ab show ?thesis by simp
  qed (use ab in simp)
qed

lemma toordinal_less_iff:
  "valid_date a \<Longrightarrow> valid_date b \<Longrightarrow> toordinal a < toordinal b \<longleftrightarrow> a < b"
  using toordinal_less by (metis linorder_neqE not_less_iff_gr_or_eq)

lemma toordinal_le_iff:
  "valid_date a \<Longrightarrow> valid_date b \<Longrightarrow> toordinal a \<le> toordinal b \<longleftrightarrow> a \<le> b"
  using toordinal_less_iff by (metis leD leI)

lemma toordinal_inject:
  "valid_date a \<Longrightarrow> valid_date b \<Longrightarrow> toordinal a = toordinal b \<longleftrightarrow> a = b"
  by (metis fromordinal_toordinal)

lemma toordinal_range: "valid_date d \<Longrightarrow> 1 \<le> toordinal d \<and> toordinal d \<le> MAXORDINAL"
proof -
  assume v: "valid_date d"
  have ends: "valid_date (Date 1 1 1)" "valid_date (Date 9999 12 31)"
    "toordinal (Date 1 1 1) = 1" "toordinal (Date 9999 12 31) = MAXORDINAL"
    by (simp_all add: days_in_month_def days_before_year_def days_before_month_def is_leap_def
        MAXORDINAL_def)
  have "Date 1 1 1 \<le> d" "d \<le> Date 9999 12 31"
    using v by (cases d; auto simp: less_eq_date_def less_date_def days_in_month_def split: if_splits)+
  with toordinal_le_iff v ends show ?thesis by metis
qed

lemma mk_date_valid: "mk_date y m d = Inr x \<longleftrightarrow> valid_date (Date y m d) \<and> x = Date y m d"
proof -
  have "days_in_month y m \<le> 31" by (simp add: days_in_month_def)
  then show ?thesis by (auto simp: mk_date_def)
qed

lemma date_add_days_Inr:
  "date_add_days d n = Inr e \<longleftrightarrow>
     1 \<le> toordinal d + n \<and> toordinal d + n \<le> MAXORDINAL \<and> e = fromordinal (toordinal d + n)"
  by (auto simp: date_add_days_def Let_def)

lemma date_add_days_toordinal: "date_add_days d n = Inr e \<Longrightarrow> toordinal e = toordinal d + n"
  by (auto simp: date_add_days_Inr toordinal_fromordinal)

lemma date_add_days_valid: "date_add_days d n = Inr e \<Longrightarrow> valid_date e"
  by (auto simp: date_add_days_Inr valid_fromordinal)

end
