(* ===== verification/Iso_Format.thy ===== *)
theory Iso_Format
  imports Calendar
begin

section \<open>Timestamps stored as text (datetime.isoformat and fromisoformat)\<close>

text \<open>
  Two columns keep timestamps inside JSON: the probe log and the unprinted-pages verdict.
  \<open>isoformat\<close> is Python's for a UTC datetime (the microseconds are left out when zero);
  \<open>fromisoformat\<close> reads the extended format - a date, or a date and a time with an optional
  fraction of six digits and an optional offset - and returns the instant, a naive value
  being taken as UTC, as every caller does.  Other spellings ISO 8601 allows (basic format,
  week dates, shorter times) are never written to these columns and read as \<open>None\<close> here.
\<close>

definition digit2 :: "int \<Rightarrow> string" where
  "digit2 n = [char_of (48 + nat (n div 10 mod 10)), char_of (48 + nat (n mod 10))]"

definition digit4 :: "int \<Rightarrow> string" where
  "digit4 n = digit2 (n div 100) @ digit2 (n mod 100)"

definition digit6 :: "int \<Rightarrow> string" where
  "digit6 n = digit2 (n div 10000) @ digit4 (n mod 10000)"

definition isoformat :: "datetime \<Rightarrow> string" where
  "isoformat dt =
     (let d = date_of dt; us = dt mod days 1; frac = us mod 1000000; sec = us div 1000000
      in digit4 (yr d) @ ''-'' @ digit2 (mon d) @ ''-'' @ digit2 (dy d) @ ''T'' @
         digit2 (sec div 3600) @ '':'' @ digit2 (sec div 60 mod 60) @ '':'' @ digit2 (sec mod 60) @
         (if frac = 0 then [] else ''.'' @ digit6 frac) @ ''+00:00'')"

definition read2 :: "char \<Rightarrow> char \<Rightarrow> int option" where
  "read2 a b = (case digit_value a of None \<Rightarrow> None
     | Some x \<Rightarrow> (case digit_value b of None \<Rightarrow> None | Some y \<Rightarrow> Some (int (10 * x + y))))"

definition read4 :: "char \<Rightarrow> char \<Rightarrow> char \<Rightarrow> char \<Rightarrow> int option" where
  "read4 a b c d = (case read2 a b of None \<Rightarrow> None
     | Some x \<Rightarrow> (case read2 c d of None \<Rightarrow> None | Some y \<Rightarrow> Some (100 * x + y)))"

text \<open>The offset in minutes; the empty text is a naive value.\<close>

fun read_offset :: "string \<Rightarrow> int option" where
  "read_offset [] = Some 0"
| "read_offset [z] = (if z = CHR ''Z'' then Some 0 else None)"
| "read_offset [s, a, b, colon, c, d] =
     (case read2 a b of None \<Rightarrow> None
      | Some h \<Rightarrow> (case read2 c d of None \<Rightarrow> None
        | Some m \<Rightarrow>
            if colon \<noteq> CHR '':'' \<or> h > 23 \<or> m > 59 then None
            else if s = CHR ''+'' then Some (60 * h + m)
            else if s = CHR ''-'' then Some (- (60 * h + m)) else None))"
| "read_offset _ = None"

fun read_fraction :: "string \<Rightarrow> (int \<times> string) option" where
  "read_fraction (p # a # b # c # d # e # f # rest) =
     (if p \<noteq> CHR ''.'' then Some (0, p # a # b # c # d # e # f # rest)
      else (case read2 a b of None \<Rightarrow> None
        | Some x \<Rightarrow> (case read4 c d e f of None \<Rightarrow> None | Some y \<Rightarrow> Some (10000 * x + y, rest))))"
| "read_fraction rest = Some (0, rest)"

fun read_time :: "string \<Rightarrow> int option" where
  "read_time (a # b # c1 # c # d # c2 # e # f # rest) =
     (case (read2 a b, read2 c d, read2 e f, read_fraction rest) of
        (Some h, Some m, Some s, Some (us, tz)) \<Rightarrow>
          if c1 \<noteq> CHR '':'' \<or> c2 \<noteq> CHR '':'' \<or> h > 23 \<or> m > 59 \<or> s > 59 then None
          else map_option (\<lambda>off. ((h * 3600 + m * 60 + s) * 1000000 + us) - off * 60000000)
                 (read_offset tz)
      | _ \<Rightarrow> None)"
| "read_time _ = None"

fun fromisoformat :: "string \<Rightarrow> datetime option" where
  "fromisoformat (a # b # c # d # s1 # e # f # s2 # g # h # rest) =
     (case (read4 a b c d, read2 e f, read2 g h) of
        (Some y, Some m, Some k) \<Rightarrow>
          if s1 \<noteq> CHR ''-'' \<or> s2 \<noteq> CHR ''-'' \<or> \<not> valid_date (Date y m k) then None
          else (case rest of
              [] \<Rightarrow> Some (at_midnight (Date y m k))
            | sep # clock \<Rightarrow> map_option (\<lambda>t. at_midnight (Date y m k) + t) (read_time clock))
      | _ \<Rightarrow> None)"
| "fromisoformat _ = None"

subsection \<open>What is written is read back\<close>

lemma digit_value_nat: "0 \<le> n \<Longrightarrow> n < 10 \<Longrightarrow> digit_value (char_of (48 + nat n)) = Some (nat n)"
  by simp

lemma read2_digit2:
  assumes "0 \<le> n" "n < 100" "digit2 n = [a, b]"
  shows "read2 a b = Some n"
proof -
  have "n div 10 mod 10 = n div 10" using assms by simp
  then show ?thesis
    using assms by (auto simp: digit2_def read2_def nat_add_distrib nat_mult_distrib)
qed

lemma read4_digit4:
  assumes "0 \<le> n" "n < 10000"
  shows "\<exists>a b c d. digit4 n = [a, b, c, d] \<and> read4 a b c d = Some n"
proof -
  obtain a b c d where e: "digit2 (n div 100) = [a, b]" "digit2 (n mod 100) = [c, d]"
    by (simp add: digit2_def)
  have "read2 a b = Some (n div 100)" "read2 c d = Some (n mod 100)"
    using assms by (auto intro!: read2_digit2 simp: e)
  then show ?thesis by (auto simp: digit4_def e read4_def)
qed

lemma digit2_shape: "\<exists>a b. digit2 n = [a, b]"
  by (simp add: digit2_def)

lemma read_fraction_written:
  assumes "0 \<le> frac" "frac < 1000000"
  shows "read_fraction ((if frac = 0 then [] else ''.'' @ digit6 frac) @ ''+00:00'') =
    Some (frac, ''+00:00'')"
proof (cases "frac = 0")
  case False
  obtain a b where ab: "digit2 (frac div 10000) = [a, b]" using digit2_shape by blast
  have x: "read2 a b = Some (frac div 10000)"
    using assms ab by (intro read2_digit2) auto
  obtain c d e f where y: "digit4 (frac mod 10000) = [c, d, e, f]"
      "read4 c d e f = Some (frac mod 10000)"
    using read4_digit4 [of "frac mod 10000"] by auto
  show ?thesis using False by (simp add: digit6_def ab x y)
qed simp

lemma read2_zero: "read2 CHR ''0'' CHR ''0'' = Some 0"
  by (simp add: read2_def digit_value_def)

lemma read_time_written:
  assumes "0 \<le> us" "us < days 1"
  shows "read_time (digit2 (us div 1000000 div 3600) @ '':'' @ digit2 (us div 1000000 div 60 mod 60) @
      '':'' @ digit2 (us div 1000000 mod 60) @
      (if us mod 1000000 = 0 then [] else ''.'' @ digit6 (us mod 1000000)) @ ''+00:00'') = Some us"
proof -
  let ?s = "us div 1000000"
  obtain a b c d e f where shape: "digit2 (?s div 3600) = [a, b]"
      "digit2 (?s div 60 mod 60) = [c, d]" "digit2 (?s mod 60) = [e, f]"
    using digit2_shape by metis
  have s: "0 \<le> ?s" "?s < 86400" using assms by (simp_all add: days_def)
  have r: "read2 a b = Some (?s div 3600)" "read2 c d = Some (?s div 60 mod 60)"
      "read2 e f = Some (?s mod 60)"
    using s by (auto intro!: read2_digit2 simp: shape)
  have hms: "?s div 3600 * 3600 + ?s div 60 mod 60 * 60 + ?s mod 60 = ?s"
  proof -
    define m where "m = ?s div 60"
    have "?s div 3600 = m div 60" by (simp add: m_def)
    moreover have "m * 60 + ?s mod 60 = ?s" unfolding m_def by (rule div_mult_mod_eq)
    moreover have "m div 60 * 60 + m mod 60 = m" by (rule div_mult_mod_eq)
    ultimately show ?thesis unfolding m_def [symmetric] by linarith
  qed
  have le: "?s div 3600 \<le> 23" "?s div 60 mod 60 \<le> 59" "?s mod 60 \<le> 59"
    using s by auto
  note fr = read_fraction_written [of "us mod 1000000"]
  have total: "?s * 1000000 + us mod 1000000 = us" by simp
  show ?thesis
    using fr le hms total by (simp add: shape r read2_zero)
qed

lemma fromisoformat_isoformat:
  assumes "1 \<le> dt div days 1" "dt div days 1 \<le> MAXORDINAL"
  shows "fromisoformat (isoformat dt) = Some dt"
proof -
  let ?d = "date_of dt" and ?us = "dt mod days 1"
  have v: "valid_date ?d" and ord: "toordinal ?d = dt div days 1"
    using assms by (simp_all add: date_of_def valid_fromordinal toordinal_fromordinal)
  then have range: "1 \<le> yr ?d" "yr ?d \<le> 9999" "1 \<le> mon ?d" "mon ?d \<le> 12" "1 \<le> dy ?d" "dy ?d \<le> 31"
    by (cases ?d; auto simp: days_in_month_def split: if_splits)+
  obtain a b c d where y: "digit4 (yr ?d) = [a, b, c, d]" "read4 a b c d = Some (yr ?d)"
    using read4_digit4 [of "yr ?d"] range by auto
  obtain e f g h where md: "digit2 (mon ?d) = [e, f]" "digit2 (dy ?d) = [g, h]"
    using digit2_shape by metis
  have r: "read2 e f = Some (mon ?d)" "read2 g h = Some (dy ?d)"
    using range by (auto intro!: read2_digit2 simp: md)
  have us: "0 \<le> ?us" "?us < days 1" by (simp_all add: days_def)
  have whole: "Date (yr ?d) (mon ?d) (dy ?d) = ?d" by simp
  have "at_midnight ?d + ?us = dt" by (simp add: at_midnight_def ord days_def)
  then show ?thesis
    using read_time_written [OF us] v
    by (simp add: isoformat_def Let_def y md r whole del: date.collapse)
qed

subsection \<open>The codec as an interface\<close>

text \<open>
  What the readers of those columns rely on: a timestamp written in the range of dates comes
  back as the same instant.
\<close>

locale timestamp_codec =
  fixes to_text :: "datetime \<Rightarrow> string" and of_text :: "string \<Rightarrow> datetime option"
    and in_range :: "datetime \<Rightarrow> bool"
  assumes read_write: "in_range t \<Longrightarrow> of_text (to_text t) = Some t"
begin

lemma write_injective: "in_range s \<Longrightarrow> in_range t \<Longrightarrow> to_text s = to_text t \<Longrightarrow> s = t"
  using read_write by (metis option.inject)

lemma read_map_write:
  "\<forall>t\<in>set ts. in_range t \<Longrightarrow> map (\<lambda>t. of_text (to_text t)) ts = map Some ts"
  by (simp add: read_write)

end

definition datable :: "datetime \<Rightarrow> bool" where
  "datable t \<longleftrightarrow> 1 \<le> t div days 1 \<and> t div days 1 \<le> MAXORDINAL"

interpretation iso: timestamp_codec isoformat fromisoformat datable
  by unfold_locales (simp add: datable_def fromisoformat_isoformat)

end
