(* ===== verification/Json.thy ===== *)
theory Json
  imports Prelude Complex_Main
begin

section \<open>JSON columns\<close>

text \<open>
  Values of the JSON columns of the database.  A number is a rational (every float is one);
  an object is its list of members in order.  \<open>json_bool\<close> is the truth value Python gives the
  decoded value, \<open>json_int\<close> is \<open>int(value)\<close> (\<open>None\<close> for the \<open>TypeError\<close> or \<open>ValueError\<close>).
\<close>

datatype json =
    JNull
  | JBool bool
  | JNum rat
  | JStr string
  | JList "json list"
  | JObj "(string \<times> json) list"

fun json_bool :: "json \<Rightarrow> bool" where
  "json_bool JNull = False"
| "json_bool (JBool b) = b"
| "json_bool (JNum r) = (r \<noteq> 0)"
| "json_bool (JStr s) = (s \<noteq> [])"
| "json_bool (JList xs) = (xs \<noteq> [])"
| "json_bool (JObj kvs) = (kvs \<noteq> [])"

definition json_nat :: "nat \<Rightarrow> json" where
  "json_nat n = JNum (of_nat n)"

definition json_integer :: "int \<Rightarrow> json" where
  "json_integer i = JNum (of_int i)"

definition read_signed :: "string \<Rightarrow> int option" where
  "read_signed s =
     (case py_strip s of
        [] \<Rightarrow> None
      | c # cs \<Rightarrow>
          if c = CHR ''-'' then (if isdigit cs then Some (- int (digits_value cs)) else None)
          else if c = CHR ''+'' then (if isdigit cs then Some (int (digits_value cs)) else None)
          else if isdigit (c # cs) then Some (int (digits_value (c # cs))) else None)"

fun json_int :: "json \<Rightarrow> int option" where
  "json_int (JNum r) = Some (if 0 \<le> r then \<lfloor>r\<rfloor> else \<lceil>r\<rceil>)"
| "json_int (JBool b) = Some (if b then 1 else 0)"
| "json_int (JStr s) = read_signed s"
| "json_int _ = None"

lemma json_int_written [simp]:
  "json_int (json_integer i) = Some i" "json_int (json_nat n) = Some (int n)"
  by (simp_all add: json_integer_def json_nat_def)

end
