(* ===== verification/Network_Health.thy ===== *)
theory Network_Health
  imports Iso_Format Json
begin

section \<open>The probe log of a printer (app/printers/network_health.py)\<close>

text \<open>
  A rolling hour of status probes kept as JSON on the printer row, its tolerant pruning, and
  the verdict that the path to the printer drops traffic.  Reading an element of a JSON object with an
  integer index raises \<open>KeyError\<close>, which the pruning does not catch: the one way an entry
  can take the observation down.
\<close>

datatype probe_error = KeyError

definition PROBE_WINDOW :: timedelta where "PROBE_WINDOW = hours 1"
definition MISS_THRESHOLD :: nat where "MISS_THRESHOLD = 3"
definition MIN_SUCCESSES :: nat where "MIN_SUCCESSES = 1"
definition SLOW_PROBE_SECONDS :: rat where "SLOW_PROBE_SECONDS = 2"
definition FAST_PROBE_SECONDS :: rat where "FAST_PROBE_SECONDS = 1"
definition NETWORK_UNSTABLE_REASON :: string where
  "NETWORK_UNSTABLE_REASON = ''printops-network-unstable''"

record network_flap =
  nf_misses :: nat
  nf_slow :: nat
  nf_probes :: nat
  nf_window :: timedelta

definition affected :: "network_flap \<Rightarrow> nat" where
  "affected f = nf_misses f + nf_slow f"

definition loss_percent :: "network_flap \<Rightarrow> int" where
  "loss_percent f =
     (if nf_probes f \<noteq> 0 then round_div (100 * int (affected f)) (int (nf_probes f)) else 0)"

text \<open>\<open>float(text)\<close> for a plain decimal numeral; exponents, \<open>inf\<close> and \<open>nan\<close> are not read.\<close>

definition read_unsigned :: "string \<Rightarrow> rat option" where
  "read_unsigned s =
     (let whole = takeWhile (\<lambda>c. c \<noteq> CHR ''.'') s;
          frac = drop (Suc (length whole)) s
      in if list_all is_digit whole \<and> list_all is_digit frac \<and> whole @ frac \<noteq> []
         then Some (of_nat (digits_value whole) + of_nat (digits_value frac) / 10 ^ length frac)
         else None)"

definition py_float :: "string \<Rightarrow> rat option" where
  "py_float s =
     (case py_strip s of
        [] \<Rightarrow> None
      | c # cs \<Rightarrow> if c = CHR ''-'' then map_option uminus (read_unsigned cs)
                 else if c = CHR ''+'' then read_unsigned cs else read_unsigned (c # cs))"

fun as_seconds :: "json \<Rightarrow> rat option" where
  "as_seconds JNull = None"
| "as_seconds (JBool b) = Some (if b then 1 else 0)"
| "as_seconds (JNum r) = Some r"
| "as_seconds (JStr s) = py_float s"
| "as_seconds (JList xs) = None"
| "as_seconds (JObj kvs) = None"

definition num_or_null :: "rat option \<Rightarrow> json" where
  "num_or_null x = (case x of None \<Rightarrow> JNull | Some r \<Rightarrow> JNum r)"

text \<open>
  One entry: kept (rewritten), dropped, or the uncaught error.  A text has no two-character
  timestamp in its first character, and a number or a truth value has no elements.
\<close>

fun prune_entry :: "datetime \<Rightarrow> json \<Rightarrow> probe_error + json option" where
  "prune_entry cutoff (JList (stamp # answered # others)) =
     (let secs = (case others of [] \<Rightarrow> JNull | s # _ \<Rightarrow> s)
      in case stamp of
           JStr text \<Rightarrow> (case fromisoformat text of
               None \<Rightarrow> Inr None
             | Some stamped \<Rightarrow>
                 if stamped \<ge> cutoff
                 then Inr (Some (JList [JStr text, JBool (json_bool answered),
                                        num_or_null (as_seconds secs)]))
                 else Inr None)
         | _ \<Rightarrow> Inr None)"
| "prune_entry cutoff (JList _) = Inr None"
| "prune_entry cutoff (JObj kvs) = Inl KeyError"
| "prune_entry cutoff _ = Inr None"

fun prune :: "datetime \<Rightarrow> json list \<Rightarrow> probe_error + json list" where
  "prune cutoff [] = Inr []"
| "prune cutoff (e # es) =
     (case prune_entry cutoff e of
        Inl err \<Rightarrow> Inl err
      | Inr kept \<Rightarrow> (case prune cutoff es of
          Inl err \<Rightarrow> Inl err
        | Inr rest \<Rightarrow> Inr (case kept of None \<Rightarrow> rest | Some k \<Rightarrow> k # rest)))"

fun entry_answered :: "json \<Rightarrow> bool" where
  "entry_answered (JList [stamp, a, s]) = json_bool a"
| "entry_answered _ = False"

fun entry_seconds :: "json \<Rightarrow> rat option" where
  "entry_seconds (JList [stamp, a, JNum r]) = Some r"
| "entry_seconds _ = None"

definition is_fast :: "json \<Rightarrow> bool" where
  "is_fast e \<longleftrightarrow> entry_answered e \<and>
     (case entry_seconds e of None \<Rightarrow> False | Some s \<Rightarrow> s < FAST_PROBE_SECONDS)"

definition is_slow :: "json \<Rightarrow> bool" where
  "is_slow e \<longleftrightarrow> entry_answered e \<and>
     (case entry_seconds e of None \<Rightarrow> False | Some s \<Rightarrow> s \<ge> SLOW_PROBE_SECONDS)"

definition flap_verdict :: "json list \<Rightarrow> network_flap option" where
  "flap_verdict history =
     (let misses = length (filter (\<lambda>e. \<not> entry_answered e) history);
          successes = length history - misses;
          normally_quick = list_ex is_fast history;
          slow = (if normally_quick then length (filter is_slow history) else 0)
      in if misses + slow < MISS_THRESHOLD \<or> successes < MIN_SUCCESSES then None
         else Some \<lparr>nf_misses = misses, nf_slow = slow, nf_probes = length history,
                    nf_window = PROBE_WINDOW\<rparr>)"

definition network_observe :: "json list option \<Rightarrow> bool \<Rightarrow> rat option \<Rightarrow> datetime \<Rightarrow>
    probe_error + (json list \<times> network_flap option)" where
  "network_observe plog answered secs now =
     (case prune (now - PROBE_WINDOW) (list_or_empty plog) of
        Inl err \<Rightarrow> Inl err
      | Inr kept \<Rightarrow>
          (let history = kept @ [JList [JStr (isoformat now), JBool answered, num_or_null secs]]
           in Inr (history, flap_verdict history)))"

definition flap_reason :: "network_flap \<Rightarrow> string" where
  "flap_reason flap =
     (let hrs = nf_window flap div hours 1;
          window_text = (if hrs = 1 then ''the last hour'' else ''the last '' @ str_int hrs @ '' hours'');
          misses = str_int (int (nf_misses flap)); slow = str_int (int (nf_slow flap));
          detail = (if nf_misses flap \<noteq> 0 \<and> nf_slow flap \<noteq> 0
                    then misses @ '' got no reply at all and '' @ slow @ '' answered only after retrying''
                    else if nf_misses flap \<noteq> 0 then misses @ '' got no reply at all''
                    else slow @ '' answered only after retrying'')
      in str_int (int (affected flap)) @ '' of '' @ str_int (int (nf_probes flap)) @
         '' status checks in '' @ window_text @ '' ran into trouble reaching this printer ('' @
         str_int (loss_percent flap) @ ''%) '' @ [CHR 0xE2, CHR 0x80, CHR 0x94] @ '' '' @ detail @
         '', while it answered normally in '' @
         ''between. That pattern is the network path dropping traffic rather than a fault '' @
         ''on the printer, which will report itself healthy throughout. Worth checking the '' @
         ''switch port, the cable and the wall port, particularly if this printer was '' @
         ''moved recently.'')"


subsection \<open>The log of a run of probes\<close>

record probe =
  p_at :: datetime
  p_answered :: bool
  p_seconds :: "rat option"

definition encode :: "probe \<Rightarrow> json" where
  "encode p = JList [JStr (isoformat (p_at p)), JBool (p_answered p), num_or_null (p_seconds p)]"

lemma entry_encode [simp]:
  "entry_answered (encode p) = p_answered p" "entry_seconds (encode p) = p_seconds p"
  by (simp_all add: encode_def num_or_null_def split: option.split)

lemma as_seconds_num_or_null [simp]: "as_seconds (num_or_null x) = x"
  by (simp add: num_or_null_def split: option.split)

lemma prune_entry_encode:
  "datable (p_at p) \<Longrightarrow>
   prune_entry cutoff (encode p) = Inr (if cutoff \<le> p_at p then Some (encode p) else None)"
  using iso.read_write [of "p_at p"] by (simp add: encode_def)

lemma prune_encode:
  "\<forall>p\<in>set ps. datable (p_at p) \<Longrightarrow>
   prune cutoff (map encode ps) = Inr (map encode (filter (\<lambda>p. cutoff \<le> p_at p) ps))"
  by (induction ps) (simp_all add: prune_entry_encode)

lemma observe_encoded:
  assumes "\<forall>q\<in>set ps. datable (p_at q)"
  shows "network_observe (Some (map encode ps)) (p_answered p) (p_seconds p) (p_at p) =
    (let plog = map encode (filter (\<lambda>q. p_at p - PROBE_WINDOW \<le> p_at q) ps @ [p])
     in Inr (plog, flap_verdict plog))"
  using prune_encode [OF assms, of "p_at p - PROBE_WINDOW"]
  by (simp add: network_observe_def list_or_empty_def Let_def encode_def)

fun network_run :: "json list option \<Rightarrow> probe list \<Rightarrow> probe_error + (json list option \<times> network_flap option)" where
  "network_run plog [] = Inr (plog, None)"
| "network_run plog [p] =
     (case network_observe plog (p_answered p) (p_seconds p) (p_at p) of
        Inl e \<Rightarrow> Inl e | Inr (plog', v) \<Rightarrow> Inr (Some plog', v))"
| "network_run plog (p # q # ps) =
     (case network_observe plog (p_answered p) (p_seconds p) (p_at p) of
        Inl e \<Rightarrow> Inl e | Inr (plog', v) \<Rightarrow> network_run (Some plog') (q # ps))"

definition last_hour :: "probe list \<Rightarrow> probe list" where
  "last_hour ps = filter (\<lambda>q. p_at (last ps) - PROBE_WINDOW \<le> p_at q) ps"

lemma last_hour_snoc:
  "p_at (last ps) \<le> p_at p \<Longrightarrow> ps \<noteq> [] \<Longrightarrow>
   filter (\<lambda>q. p_at p - PROBE_WINDOW \<le> p_at q) (last_hour ps @ qs) =
   filter (\<lambda>q. p_at p - PROBE_WINDOW \<le> p_at q) (ps @ qs)"
  by (auto simp: last_hour_def intro!: filter_cong)

lemma network_run_from:
  assumes "seen \<noteq> []" "sorted (map p_at (seen @ ps))" "\<forall>q\<in>set (seen @ ps). datable (p_at q)" "ps \<noteq> []"
  shows "network_run (Some (map encode (last_hour seen))) ps =
    (let plog = map encode (last_hour (seen @ ps)) in Inr (Some plog, flap_verdict plog))"
  using assms
proof (induction ps arbitrary: seen)
  case Nil
  then show ?case by simp
next
  case (Cons p ps)
  have before: "p_at (last seen) \<le> p_at p"
    using Cons.prems(1,2) by (auto simp: sorted_append)
  have dat: "\<forall>q\<in>set (last_hour seen). datable (p_at q)"
    using Cons.prems(3) by (auto simp: last_hour_def)
  have hour: "filter (\<lambda>q. p_at p - PROBE_WINDOW \<le> p_at q) (last_hour seen) @ [p] =
      last_hour (seen @ [p])"
    using last_hour_snoc [OF before Cons.prems(1), of "[]"]
    by (simp add: last_hour_def PROBE_WINDOW_def hours_def)
  have step: "network_observe (Some (map encode (last_hour seen))) (p_answered p) (p_seconds p) (p_at p) =
      (let plog = map encode (last_hour (seen @ [p])) in Inr (plog, flap_verdict plog))"
    using observe_encoded [OF dat, of p] unfolding hour .
  show ?case
  proof (cases ps)
    case Nil
    with step show ?thesis by (simp add: Let_def)
  next
    case (Cons q qs)
    from Cons.IH [of "seen @ [p]"] Cons.prems Cons step show ?thesis
      by (simp add: Let_def)
  qed
qed

text \<open>
  What the verdict means, on the probes themselves: misses, plus slow answers when the same
  printer also answered quickly, reach the threshold while something answered.
\<close>

definition fast_probe :: "probe \<Rightarrow> bool" where
  "fast_probe p \<longleftrightarrow> p_answered p \<and> (case p_seconds p of None \<Rightarrow> False | Some s \<Rightarrow> s < FAST_PROBE_SECONDS)"

definition slow_probe :: "probe \<Rightarrow> bool" where
  "slow_probe p \<longleftrightarrow> p_answered p \<and> (case p_seconds p of None \<Rightarrow> False | Some s \<Rightarrow> SLOW_PROBE_SECONDS \<le> s)"

definition path_verdict :: "probe list \<Rightarrow> network_flap option" where
  "path_verdict ps =
     (let misses = length (filter (Not \<circ> p_answered) ps);
          slow = (if \<exists>p\<in>set ps. fast_probe p then length (filter slow_probe ps) else 0)
      in if misses + slow \<ge> MISS_THRESHOLD \<and> (\<exists>p\<in>set ps. p_answered p)
         then Some \<lparr>nf_misses = misses, nf_slow = slow, nf_probes = length ps, nf_window = PROBE_WINDOW\<rparr>
         else None)"

lemma misses_encode:
  "length (filter (\<lambda>e. \<not> entry_answered e) (map encode ps)) = length (filter (Not \<circ> p_answered) ps)"
  by (induction ps) simp_all

lemma fast_encode: "list_ex is_fast (map encode ps) = (\<exists>p\<in>set ps. fast_probe p)"
  by (auto simp: list_ex_iff is_fast_def fast_probe_def)

lemma slow_encode: "length (filter is_slow (map encode ps)) = length (filter slow_probe ps)"
  by (induction ps) (simp_all add: is_slow_def slow_probe_def)

lemma successes_encode:
  "length ps - length (filter (Not \<circ> p_answered) ps) < MIN_SUCCESSES \<longleftrightarrow> \<not> (\<exists>p\<in>set ps. p_answered p)"
proof -
  have "length (filter p_answered ps) + length (filter (Not \<circ> p_answered) ps) = length ps"
    unfolding comp_def by (rule sum_length_filter_compl)
  then have "length ps - length (filter (Not \<circ> p_answered) ps) = length (filter p_answered ps)"
    by linarith
  moreover have "length (filter p_answered ps) < 1 \<longleftrightarrow> filter p_answered ps = []"
    by (cases "filter p_answered ps") simp_all
  ultimately show ?thesis
    unfolding MIN_SUCCESSES_def by (simp only: filter_empty_conv) blast
qed

lemma if_swap_neg: "(q \<longleftrightarrow> \<not> p) \<Longrightarrow> (if p then x else y) = (if q then y else x)"
  by simp

lemma flap_verdict_encode: "flap_verdict (map encode ps) = path_verdict ps"
  unfolding flap_verdict_def path_verdict_def Let_def misses_encode fast_encode slow_encode
    length_map successes_encode
  by (rule if_swap_neg) (simp only: not_less de_Morgan_disj not_not)

lemma network_run_is_last_hour:
  assumes "sorted (map p_at ps)" "\<forall>q\<in>set ps. datable (p_at q)" "ps \<noteq> []"
  shows "network_run None ps =
    Inr (Some (map encode (last_hour ps)), path_verdict (last_hour ps))"
proof -
  obtain p qs where ps: "ps = p # qs" using assms(3) by (cases ps) auto
  have first: "network_observe None (p_answered p) (p_seconds p) (p_at p) =
      Inr (map encode [p], flap_verdict (map encode [p]))"
    by (simp add: network_observe_def list_or_empty_def encode_def Let_def)
  have one: "last_hour [p] = [p]" by (simp add: last_hour_def PROBE_WINDOW_def hours_def)
  show ?thesis
  proof (cases qs)
    case Nil
    then show ?thesis using first flap_verdict_encode [of "[p]"] by (simp add: ps one)
  next
    case (Cons q rs)
    have "network_run (Some (map encode (last_hour [p]))) qs =
        (let plog = map encode (last_hour ([p] @ qs)) in Inr (Some plog, flap_verdict plog))"
      by (rule network_run_from) (use assms Cons in \<open>simp_all add: ps\<close>)
    then show ?thesis using first Cons by (simp add: ps one flap_verdict_encode)
  qed
qed

lemma path_verdict_sound:
  "case path_verdict ps of None \<Rightarrow> True
   | Some flap \<Rightarrow> 3 \<le> affected flap \<and> nf_probes flap = length ps \<and>
       nf_misses flap < nf_probes flap \<and> 0 \<le> loss_percent flap \<and> loss_percent flap \<le> 100"
proof (cases "path_verdict ps")
  case (Some flap)
  let ?m = "length (filter (Not \<circ> p_answered) ps)"
  have part: "length (filter p_answered ps) + ?m = length ps"
    unfolding comp_def by (rule sum_length_filter_compl)
  have slow: "length (filter slow_probe ps) \<le> length (filter p_answered ps)"
    by (induction ps) (auto simp: slow_probe_def)
  have v: "3 \<le> affected flap" "nf_misses flap = ?m" "nf_probes flap = length ps"
      "nf_slow flap \<le> length (filter slow_probe ps)" "\<exists>p\<in>set ps. p_answered p"
  proof -
    define sl where "sl = (if \<exists>p\<in>set ps. fast_probe p then length (filter slow_probe ps) else 0)"
    have sl: "sl \<le> length (filter slow_probe ps)" by (simp only: sl_def) simp
    have flap: "3 \<le> ?m + sl \<and> (\<exists>p\<in>set ps. p_answered p) \<and>
        flap = \<lparr>nf_misses = ?m, nf_slow = sl, nf_probes = length ps, nf_window = PROBE_WINDOW\<rparr>"
      using Some unfolding path_verdict_def Let_def sl_def [symmetric] MISS_THRESHOLD_def
      by (simp only: split: if_split_asm) (simp_all only: option.inject option.distinct)
    then show "3 \<le> affected flap" "nf_misses flap = ?m" "nf_probes flap = length ps"
        "nf_slow flap \<le> length (filter slow_probe ps)" "\<exists>p\<in>set ps. p_answered p"
      using sl unfolding affected_def by (simp_all only: network_flap.simps)
  qed
  from v(5) have "filter p_answered ps \<noteq> []" by (simp add: filter_empty_conv)
  then have "0 < length (filter p_answered ps)" by blast
  with v part have less: "nf_misses flap < nf_probes flap" by linarith
  have le: "affected flap \<le> nf_probes flap"
    using v part slow by (simp add: affected_def)
  have "round_div (100 * int (affected flap)) (int (nf_probes flap)) \<le>
      round_div (100 * int (nf_probes flap)) (int (nf_probes flap))"
    using less le by (intro round_div_mono) auto
  then have "loss_percent flap \<le> 100"
    using less by (simp add: loss_percent_def)
  moreover have "0 \<le> loss_percent flap"
    using less by (simp add: loss_percent_def round_div_nonneg)
  ultimately show ?thesis using Some v less by simp
qed simp

text \<open>
  Fed with any sequence of probes in order of time, starting from an empty column, the
  log stored on the row is exactly the probes of the last hour, the observation never raises,
  and the verdict is the one the probes of that hour warrant: at least three affected probes
  (misses, plus slow answers of a printer that also answered quickly) while something answered.
\<close>

theorem probe_log_is_last_hour:
  assumes "sorted (map p_at ps)" "\<forall>q\<in>set ps. datable (p_at q)" "ps \<noteq> []"
  shows "\<exists>plog verdict. network_run None ps = Inr (Some plog, verdict) \<and>
    plog = map encode (last_hour ps) \<and> verdict = path_verdict (last_hour ps) \<and>
    (case verdict of None \<Rightarrow> True
     | Some flap \<Rightarrow> 3 \<le> affected flap \<and> nf_probes flap = length plog \<and>
         nf_misses flap < nf_probes flap \<and> 0 \<le> loss_percent flap \<and> loss_percent flap \<le> 100)"
  using network_run_is_last_hour [OF assms] path_verdict_sound [of "last_hour ps"]
  by (simp split: option.splits)

theorem probe_log_is_last_hour_witness:
  "\<exists>plog verdict. network_run None
      [\<lparr>p_at = days 738000, p_answered = False, p_seconds = None\<rparr>,
       \<lparr>p_at = days 738000 + minutes 30, p_answered = True, p_seconds = Some 1\<rparr>] = Inr (Some plog, verdict)"
  using probe_log_is_last_hour [of "[\<lparr>p_at = days 738000, p_answered = False, p_seconds = None\<rparr>,
       \<lparr>p_at = days 738000 + minutes 30, p_answered = True, p_seconds = Some 1\<rparr>]"]
  by (force simp: datable_def days_def minutes_def MAXORDINAL_def)

end
