(* ===== verification/Models.thy ===== *)
theory Models
  imports Json
begin

section \<open>Rows of the database (app/models)\<close>

text \<open>
  The rows the modelled components read and write, as records with the columns they use.  A
  table is a list of rows in insertion order; a query is a filter over it.  Identifiers are
  opaque strings.  Statuses and reasons are the strings the code stores.
\<close>

text \<open>A print job (models/job.py).\<close>

record job =
  job_id :: uuid
  job_printer_id :: uuid
  job_created_at :: datetime
  job_cups_job_id :: "int option"
  job_cups_job_uuid :: "string option"
  job_superseded_by :: "uuid option"
  job_submitted_by :: "string option"
  job_attribution_method :: string
  job_mac_address :: "string option"
  job_file_size_bytes :: "int option"
  job_status :: string
  job_hold_reason :: "string option"
  job_error_message :: "string option"
  job_page_count :: "int option"
  job_submitted_pages :: "int option"
  job_document_name :: "string option"
  job_copy_count :: "int option"
  job_color_mode :: "string option"
  job_duplex :: "bool option"
  job_paper_size :: "string option"
  job_completed_at :: "datetime option"
  job_held_file_path :: "string option"
  job_held_job_options :: "string option"
  job_held_expires_at :: "datetime option"

text \<open>The column defaults of a new row.\<close>

definition job_defaults :: "uuid \<Rightarrow> uuid \<Rightarrow> datetime \<Rightarrow> job" where
  "job_defaults i pid created =
     \<lparr>job_id = i, job_printer_id = pid, job_created_at = created, job_cups_job_id = None,
      job_cups_job_uuid = None, job_superseded_by = None, job_submitted_by = None,
      job_attribution_method = ''unresolved'', job_mac_address = None, job_file_size_bytes = None,
      job_status = ''received'', job_hold_reason = None, job_error_message = None,
      job_page_count = None, job_submitted_pages = None, job_document_name = None,
      job_copy_count = None, job_color_mode = None, job_duplex = None, job_paper_size = None,
      job_completed_at = None, job_held_file_path = None, job_held_job_options = None,
      job_held_expires_at = None\<rparr>"

text \<open>A printer (models/printer.py); the columns of the status, recovery and release logic.\<close>

record printer =
  printer_id :: uuid
  printer_name :: string
  printer_is_virtual :: bool
  printer_archived_at :: "datetime option"
  printer_status :: string
  printer_status_reasons :: "string list option"
  printer_status_message :: "string option"
  printer_status_checked_at :: "datetime option"
  printer_last_online_at :: "datetime option"
  printer_status_probe_failures :: int
  printer_network_probe_log :: "json list option"
  printer_pages_not_printed :: "json option"
  printer_queue_sync_error :: "string option"
  printer_last_auto_queue_sync_at :: "datetime option"
  printer_auto_queue_sync_failures :: int
  printer_capabilities :: "(string, json) dict option"
  printer_capabilities_error :: "string option"
  printer_release_required :: bool
  printer_follow_me_enabled :: bool
  printer_release_token :: "string option"
  printer_quota_mode :: string
  printer_building :: "string option"
  printer_department :: "string option"

definition printer_defaults :: "uuid \<Rightarrow> string \<Rightarrow> printer" where
  "printer_defaults i name =
     \<lparr>printer_id = i, printer_name = name, printer_is_virtual = False, printer_archived_at = None,
      printer_status = ''unknown'', printer_status_reasons = None, printer_status_message = None,
      printer_status_checked_at = None, printer_last_online_at = None,
      printer_status_probe_failures = 0, printer_network_probe_log = None,
      printer_pages_not_printed = None, printer_queue_sync_error = None,
      printer_last_auto_queue_sync_at = None, printer_auto_queue_sync_failures = 0,
      printer_capabilities = None, printer_capabilities_error = None, printer_release_required = False,
      printer_follow_me_enabled = False, printer_release_token = None,
      printer_quota_mode = ''include'', printer_building = None, printer_department = None\<rparr>"

text \<open>One poll of a printer's page counters (models/snmp.py).\<close>

record counter_reading =
  reading_printer_id :: uuid
  reading_at :: datetime
  reading_total :: "int option"
  reading_copy :: "int option"
  reading_print :: "int option"

subsection \<open>Writing rows back\<close>

text \<open>
  What a session leaves in a table after rows of it were changed: each row with the id of a
  changed one is that one.  (Ids are primary keys.)
\<close>

definition write_back :: "('a \<Rightarrow> uuid) \<Rightarrow> 'a list \<Rightarrow> 'a list \<Rightarrow> 'a list" where
  "write_back ident changed table =
     map (\<lambda>row. case find (\<lambda>c. ident c = ident row) changed of None \<Rightarrow> row | Some c \<Rightarrow> c) table"

lemma write_back_map:
  assumes "distinct (map ident rows)" "\<And>r. ident (f r) = ident r" "set rows \<subseteq> set table"
    "distinct (map ident table)"
  shows "write_back ident (map f rows) table = map (\<lambda>r. if r \<in> set rows then f r else r) table"
proof -
  have "(case find (\<lambda>c. ident c = ident r) (map f rows) of None \<Rightarrow> r | Some c \<Rightarrow> c) =
      (if r \<in> set rows then f r else r)" if "r \<in> set table" for r
  proof (cases "find (\<lambda>c. ident c = ident r) (map f rows)")
    case None
    then have "r \<notin> set rows" using assms(2) by (auto simp: find_None_iff)
    with None show ?thesis by simp
  next
    case (Some c)
    then have "c \<in> set (map f rows)" "ident c = ident r"
      by (auto simp: find_Some_iff intro!: imageI nth_mem)
    then obtain q where q: "q \<in> set rows" "c = f q" "ident c = ident r" by auto
    then have "ident q = ident r" "q \<in> set table" using assms by auto
    with assms(4) that have "q = r" by (meson distinct_map inj_onD)
    with q Some show ?thesis by simp
  qed
  then show ?thesis by (simp add: write_back_def)
qed

definition coalesce :: "'a option \<Rightarrow> 'a option \<Rightarrow> 'a option" where
  [py_simps]: "coalesce a b = (case a of None \<Rightarrow> b | Some x \<Rightarrow> Some x)"

end
