(* ===== verification/Page_Reconcile.thy ===== *)
theory Page_Reconcile
  imports Models Iso_Format
begin

section \<open>Pages sent and never printed (app/printers/page_reconcile.py)\<close>

text \<open>
  The comparison of what was forwarded to a printer with how far its page counter moved, the
  record of the verdict on the printer row, the message, and the half-hourly sweep.  Page
  counts and counters are integers; \<open>expected * 0.5\<close> and \<open>pages / 2\<close> are exact in the range
  of page counts, so they are written with integers.  A table query without an \<open>ORDER BY\<close> is
  read in the order of the table.
\<close>

definition PAGES_NOT_PRINTED_REASON :: string where
  "PAGES_NOT_PRINTED_REASON = ''printops-pages-not-printed''"
definition PAGES_WINDOW :: timedelta where "PAGES_WINDOW = hours 24"
definition MIN_SHORTFALL :: int where "MIN_SHORTFALL = 5"
definition STALE_AFTER :: timedelta where "STALE_AFTER = hours 3"
definition MAX_DOCUMENTS_NAMED :: nat where "MAX_DOCUMENTS_NAMED = 3"

record sent_job =
  sent_completed_at :: datetime
  sent_pages :: int
  sent_duplex :: "bool option"
  sent_document_name :: "string option"

definition least_expected :: "sent_job \<Rightarrow> int" where
  "least_expected j = (if sent_duplex j = Some True then (sent_pages j + 1) div 2 else sent_pages j)"

record lost_window =
  lost_started_at :: datetime
  lost_ended_at :: datetime
  lost_expected :: int
  lost_counted :: int
  lost_documents :: "string list"
  lost_jobs :: nat

definition lost_shortfall :: "lost_window \<Rightarrow> int" where
  "lost_shortfall w = lost_expected w - lost_counted w"

text \<open>A verdict is its non-empty list of windows.\<close>

type_synonym unprinted_pages = "lost_window list"

definition unprinted_shortfall :: "unprinted_pages \<Rightarrow> int" where
  "unprinted_shortfall v = sum_list (map lost_shortfall v)"

definition unprinted_jobs :: "unprinted_pages \<Rightarrow> nat" where
  "unprinted_jobs v = sum_list (map lost_jobs v)"

definition unprinted_since :: "unprinted_pages \<Rightarrow> datetime" where
  "unprinted_since v = Min (set (map lost_started_at v))"

text \<open>\<open>seen.setdefault\<close> keeps the first place of each name.\<close>

fun first_seen :: "string list \<Rightarrow> string list \<Rightarrow> string list" where
  "first_seen seen [] = seen"
| "first_seen seen (x # xs) = first_seen (if x \<in> set seen then seen else seen @ [x]) xs"

definition unprinted_documents :: "unprinted_pages \<Rightarrow> string list" where
  "unprinted_documents v =
     first_seen [] (concat (map lost_documents (sort_key (\<lambda>w. - lost_shortfall w) v)))"

definition window_verdict :: "datetime \<Rightarrow> datetime \<Rightarrow> int \<Rightarrow> sent_job list \<Rightarrow> lost_window option" where
  "window_verdict started ended counted jobs =
     (if counted < 0 then None
      else
        (let expected = sum_list (map least_expected jobs)
         in if expected \<le> 0 then None
            else
              (let shortfall = expected - counted
               in if shortfall < MIN_SHORTFALL \<or> 2 * counted \<ge> expected then None
                  else Some \<lparr>lost_started_at = started, lost_ended_at = ended,
                        lost_expected = expected, lost_counted = counted,
                        lost_documents = map the (filter truthy (map sent_document_name jobs)),
                        lost_jobs = length jobs\<rparr>)))"

definition jobs_between :: "datetime \<Rightarrow> datetime \<Rightarrow> sent_job list \<Rightarrow> sent_job list" where
  "jobs_between started ended jobs =
     filter (\<lambda>j. started < sent_completed_at j \<and> sent_completed_at j \<le> ended) jobs"

fun lost_windows :: "(datetime \<times> int) list \<Rightarrow> sent_job list \<Rightarrow> lost_window list" where
  "lost_windows ((started, before) # (ended, after) # rest) jobs =
     (let inside = jobs_between started ended jobs;
          others = lost_windows ((ended, after) # rest) jobs
      in if inside = [] then others
         else (case window_verdict started ended (after - before) inside of
                 None \<Rightarrow> others
               | Some w \<Rightarrow> w # others))"
| "lost_windows _ jobs = []"

definition assess :: "(datetime \<times> int) list \<Rightarrow> sent_job list \<Rightarrow> unprinted_pages option" where
  "assess readings jobs =
     (if length readings < 2 then None
      else (let windows = lost_windows readings jobs in if windows = [] then None else Some windows))"

definition quoted :: "string \<Rightarrow> string" where
  "quoted name = [CHR 0x22] @ name @ [CHR 0x22]"

definition pages_reason :: "int \<Rightarrow> int \<Rightarrow> string list \<Rightarrow> string" where
  "pages_reason pages window_count documents =
     (let page_word = (if pages = 1 then ''page'' else ''pages'');
          place = (if window_count = 1 then ''one half-hour window''
                   else str_int window_count @ '' half-hour windows'');
          span = str_int (PAGES_WINDOW div hours 1) @ '' hours'';
          named = take MAX_DOCUMENTS_NAMED documents;
          others = length documents - length named;
          also_text = (if others > 0 then '', and '' @ str_nat others @ '' other document'' @
                         (if others > 1 then ''s'' else []) else []);
          docs = (if named = [] then []
                  else '' The jobs involved were '' @ py_join '', '' (map quoted named) @ also_text @ ''.'')
      in str_int pages @ '' '' @ page_word @ '' PrintOps sent to this printer in the last '' @ span @
         '' cannot be accounted for: across '' @ place @
         '' its own page counter moved far less than the jobs '' @
         ''delivered in that time should have moved it.'' @ docs @ '' A printer that accepts a '' @
         ''job, reports it completed and prints nothing is usually its firmware declining to '' @
         ''render the file rather than a fault you can see on the device '' @
         [CHR 0xE2, CHR 0x80, CHR 0x94] @ '' which means the '' @
         ''same document will keep failing while everything else prints normally. Worth '' @
         ''reprinting one of these from a different application to confirm before changing '' @
         ''anything about the queue.'')"

definition unprinted_reason :: "unprinted_pages \<Rightarrow> string" where
  "unprinted_reason v = pages_reason (unprinted_shortfall v) (int (length v)) (unprinted_documents v)"

definition to_record :: "unprinted_pages \<Rightarrow> datetime \<Rightarrow> json" where
  "to_record v now =
     JObj [(''shortfall'', json_integer (unprinted_shortfall v)),
           (''windows'', json_nat (length v)),
           (''jobs'', json_nat (unprinted_jobs v)),
           (''documents'', JList (map JStr (unprinted_documents v))),
           (''since'', JStr (isoformat (unprinted_since v))),
           (''assessed_at'', JStr (isoformat now))]"

text \<open>
  Reading the record back.  \<open>py_str\<close> is \<open>str(value)\<close> of a decoded value that is not a string;
  only a row PrintOps did not write has one.
\<close>

fun iterate_json :: "json \<Rightarrow> json list option" where
  "iterate_json (JList xs) = Some xs"
| "iterate_json (JStr s) = Some (map (\<lambda>c. JStr [c]) s)"
| "iterate_json (JObj kvs) = Some (map (JStr \<circ> fst) kvs)"
| "iterate_json _ = None"

fun text_of :: "(json \<Rightarrow> string) \<Rightarrow> json \<Rightarrow> string" where
  "text_of py_str (JStr s) = s"
| "text_of py_str v = py_str v"

definition read_documents :: "(json \<Rightarrow> string) \<Rightarrow> (string \<times> json) list \<Rightarrow> string list option" where
  "read_documents py_str kvs =
     (case map_of kvs ''documents'' of
        None \<Rightarrow> Some []
      | Some v \<Rightarrow> if json_bool v then map_option (map (text_of py_str)) (iterate_json v) else Some [])"

definition read_record ::
  "(json \<Rightarrow> string) \<Rightarrow> json \<Rightarrow> (datetime \<times> int \<times> int \<times> string list) option" where
  "read_record py_str record =
     (case record of
        JObj kvs \<Rightarrow>
          (case (map_of kvs ''assessed_at'', map_of kvs ''shortfall'', map_of kvs ''windows'') of
             (Some (JStr stamp), Some pages, Some windows) \<Rightarrow>
               (case (fromisoformat stamp, json_int pages, json_int windows, read_documents py_str kvs) of
                  (Some t, Some p, Some w, Some ds) \<Rightarrow> Some (t, p, w, ds)
                | _ \<Rightarrow> None)
           | _ \<Rightarrow> None)
      | _ \<Rightarrow> None)"

definition recorded_reason :: "(json \<Rightarrow> string) \<Rightarrow> json option \<Rightarrow> datetime \<Rightarrow> string option" where
  "recorded_reason py_str record now =
     (case record of
        None \<Rightarrow> None
      | Some r \<Rightarrow>
          if \<not> json_bool r then None
          else (case read_record py_str r of
                  None \<Rightarrow> None
                | Some (assessed_at, pages, windows, documents) \<Rightarrow>
                    if now - assessed_at > STALE_AFTER \<or> pages < MIN_SHORTFALL \<or> windows < 1
                    then None else Some (pages_reason pages windows documents)))"

subsection \<open>The sweep\<close>

record sweep_result =
  sweep_assessed :: nat
  sweep_flagged :: nat
  sweep_cleared :: nat

definition swept_printer :: "printer \<Rightarrow> bool" where
  "swept_printer p \<longleftrightarrow> printer_archived_at p = None \<and> \<not> printer_is_virtual p"

definition readings_for :: "datetime \<Rightarrow> counter_reading list \<Rightarrow> uuid \<Rightarrow> (datetime \<times> int) list" where
  "readings_for since readings pid =
     sort_key fst (map (\<lambda>r. (reading_at r, the (reading_total r)))
       (filter (\<lambda>r. reading_printer_id r = pid \<and> reading_at r \<ge> since \<and> reading_total r \<noteq> None)
          readings))"

definition sent_pages_of :: "job \<Rightarrow> int option" where
  "sent_pages_of j = coalesce (job_page_count j) (job_submitted_pages j)"

definition counts_as_sent :: "datetime \<Rightarrow> job \<Rightarrow> bool" where
  "counts_as_sent since j \<longleftrightarrow>
     job_status j = ''forwarded'' \<and>
     (case job_completed_at j of None \<Rightarrow> False | Some t \<Rightarrow> t \<ge> since) \<and>
     (case sent_pages_of j of None \<Rightarrow> False | Some n \<Rightarrow> n > 0) \<and>
     job_superseded_by j = None \<and>
     job_hold_reason j \<noteq> Some ''follow_me''"

definition sent_job_of :: "job \<Rightarrow> sent_job" where
  "sent_job_of j = \<lparr>sent_completed_at = the (job_completed_at j), sent_pages = the (sent_pages_of j),
     sent_duplex = job_duplex j, sent_document_name = job_document_name j\<rparr>"

definition jobs_sent :: "datetime \<Rightarrow> job list \<Rightarrow> uuid \<Rightarrow> sent_job list" where
  "jobs_sent since jobs pid =
     map sent_job_of (filter (\<lambda>j. job_printer_id j = pid \<and> counts_as_sent since j) jobs)"

definition sweep_printer ::
  "datetime \<Rightarrow> counter_reading list \<Rightarrow> job list \<Rightarrow> printer \<times> sweep_result \<Rightarrow> printer \<times> sweep_result" where
  "sweep_printer since readings jobs = (\<lambda>(p, result).
     (let rs = readings_for since readings (printer_id p)
      in if length rs < 2 then (p, result)
         else
           (let result = result\<lparr>sweep_assessed := sweep_assessed result + 1\<rparr>
            in case assess rs (jobs_sent since jobs (printer_id p)) of
                 None \<Rightarrow>
                   if printer_pages_not_printed p \<noteq> None
                   then (p\<lparr>printer_pages_not_printed := None\<rparr>,
                         result\<lparr>sweep_cleared := sweep_cleared result + 1\<rparr>)
                   else (p, result)
               | Some v \<Rightarrow>
                   (p\<lparr>printer_pages_not_printed := Some (to_record v (fst (last rs)))\<rparr>,
                    result\<lparr>sweep_flagged := sweep_flagged result + 1\<rparr>))))"

fun sweep_printers ::
  "datetime \<Rightarrow> counter_reading list \<Rightarrow> job list \<Rightarrow> printer list \<Rightarrow> sweep_result \<Rightarrow>
   printer list \<times> sweep_result" where
  "sweep_printers since readings jobs [] result = ([], result)"
| "sweep_printers since readings jobs (p # ps) result =
     (let (p', result') = (if swept_printer p then sweep_printer since readings jobs (p, result)
                           else (p, result));
          (ps', result'') = sweep_printers since readings jobs ps result'
      in (p' # ps', result''))"

definition sweep_unprinted_pages ::
  "printer list \<Rightarrow> counter_reading list \<Rightarrow> job list \<Rightarrow> datetime \<Rightarrow> printer list \<times> sweep_result" where
  "sweep_unprinted_pages printers readings jobs now =
     sweep_printers (now - PAGES_WINDOW) readings jobs printers
       \<lparr>sweep_assessed = 0, sweep_flagged = 0, sweep_cleared = 0\<rparr>"

subsection \<open>When a verdict is reached\<close>

definition lost_between :: "(datetime \<times> int) list \<Rightarrow> sent_job list \<Rightarrow> nat \<Rightarrow> bool" where
  "lost_between readings jobs i \<longleftrightarrow>
     (let inside = jobs_between (fst (readings ! i)) (fst (readings ! Suc i)) jobs;
          expected = sum_list (map least_expected inside);
          counted = snd (readings ! Suc i) - snd (readings ! i)
      in 0 \<le> counted \<and> counted + MIN_SHORTFALL \<le> expected \<and> 2 * counted < expected)"

lemma window_verdict_None:
  "window_verdict a b counted jobs = None \<longleftrightarrow>
   \<not> (0 \<le> counted \<and> counted + MIN_SHORTFALL \<le> sum_list (map least_expected jobs) \<and>
      2 * counted < sum_list (map least_expected jobs))"
  by (auto simp: window_verdict_def Let_def MIN_SHORTFALL_def)

lemma window_verdict_Some:
  "window_verdict a b counted jobs = Some w \<Longrightarrow>
   lost_expected w = sum_list (map least_expected jobs) \<and> lost_counted w = counted \<and>
   0 \<le> counted \<and> counted + MIN_SHORTFALL \<le> lost_expected w \<and> 2 * counted < lost_expected w \<and>
   lost_jobs w = length jobs \<and> lost_started_at w = a \<and> lost_ended_at w = b"
  by (auto simp: window_verdict_def Let_def split: if_splits)

lemma lost_windows_empty_iff:
  "lost_windows readings jobs = [] \<longleftrightarrow> \<not> (\<exists>i<length readings - 1. lost_between readings jobs i)"
proof (induction readings jobs rule: lost_windows.induct)
  case (1 a x b y rest jobs)
  have zero: "lost_between ((a, x) # (b, y) # rest) jobs 0 \<longleftrightarrow>
      jobs_between a b jobs \<noteq> [] \<and> window_verdict a b (y - x) (jobs_between a b jobs) \<noteq> None"
    by (auto simp: lost_between_def Let_def window_verdict_None MIN_SHORTFALL_def)
  have "(\<exists>i<length ((a, x) # (b, y) # rest) - 1. lost_between ((a, x) # (b, y) # rest) jobs i) \<longleftrightarrow>
      lost_between ((a, x) # (b, y) # rest) jobs 0 \<or>
      (\<exists>i<length ((b, y) # rest) - 1. lost_between ((b, y) # rest) jobs i)"
    by (simp add: Ex_less_Suc2 lost_between_def)
  with "1.IH" show ?case by (auto simp: Let_def zero split: option.splits)
qed simp_all

text \<open>
  The verdict on a printer is silence exactly when no pair of consecutive readings lost
  pages: the counter did not go backwards, fell at least five pages short of the least the jobs
  finished between the two readings could have produced, and moved by less than half of it.
\<close>

theorem assess_silent_iff:
  "assess readings jobs = None \<longleftrightarrow> \<not> (\<exists>i<length readings - 1. lost_between readings jobs i)"
  using lost_windows_empty_iff [of readings jobs] by (auto simp: assess_def Let_def)

subsection \<open>Duplex never raises an alarm\<close>

definition mark_duplex :: "(sent_job \<Rightarrow> bool) \<Rightarrow> sent_job \<Rightarrow> sent_job" where
  "mark_duplex d j = (if d j then j\<lparr>sent_duplex := Some True\<rparr> else j)"

lemma mark_duplex_least: "0 \<le> sent_pages j \<Longrightarrow> least_expected (mark_duplex d j) \<le> least_expected j"
  by (auto simp: mark_duplex_def least_expected_def)

lemma jobs_between_mark:
  "jobs_between a b (map (mark_duplex d) jobs) = map (mark_duplex d) (jobs_between a b jobs)"
  by (induction jobs) (auto simp: jobs_between_def mark_duplex_def)

lemma expected_mark:
  "\<forall>j\<in>set jobs. 0 \<le> sent_pages j \<Longrightarrow>
   sum_list (map least_expected (jobs_between a b (map (mark_duplex d) jobs))) \<le>
   sum_list (map least_expected (jobs_between a b jobs))"
  unfolding jobs_between_mark map_map
  by (rule sum_list_mono) (auto simp: jobs_between_def mark_duplex_least)

lemma lost_between_mark:
  "\<forall>j\<in>set jobs. 0 \<le> sent_pages j \<Longrightarrow> lost_between readings (map (mark_duplex d) jobs) i \<Longrightarrow>
   lost_between readings jobs i"
  using expected_mark [of jobs "fst (readings ! i)" "fst (readings ! Suc i)" d]
  by (auto simp: lost_between_def Let_def)

text \<open>
  Counting in doubt for the printer: whichever jobs turn out to have been printed on both
  sides, a history that raised no alarm without that knowledge raises none with it.
\<close>

theorem duplex_never_alarms:
  assumes "\<forall>j\<in>set jobs. 0 \<le> sent_pages j" "assess readings jobs = None"
  shows "assess readings (map (mark_duplex d) jobs) = None"
  using assms lost_between_mark [OF assms(1), of readings d]
  by (cases readings rule: remdups_adj.cases)
     (auto simp: assess_def Let_def lost_windows_empty_iff split: if_splits)

definition example_sent :: "sent_job list" where
  "example_sent = [\<lparr>sent_completed_at = 2, sent_pages = 8, sent_duplex = None, sent_document_name = None\<rparr>]"

theorem duplex_never_alarms_witness:
  "assess [(1, 100), (5, 106)] (map (mark_duplex (\<lambda>j. True)) example_sent) = None"
  by (rule duplex_never_alarms)
     (simp_all add: example_sent_def assess_def jobs_between_def window_verdict_def least_expected_def
        MIN_SHORTFALL_def)

subsection \<open>No page is counted twice\<close>

lemma jobs_between_split:
  fixes f :: "sent_job \<Rightarrow> 'a::ordered_comm_monoid_add"
  assumes "a \<le> b" "b \<le> c"
  shows "sum_list (map f (jobs_between a b jobs)) + sum_list (map f (jobs_between b c jobs)) =
    sum_list (map f (jobs_between a c jobs))"
  using assms by (induction jobs) (auto simp: jobs_between_def algebra_simps)

lemma sum_list_nonneg_pages:
  "\<forall>j\<in>set jobs. 0 \<le> sent_pages j \<Longrightarrow> 0 \<le> sum_list (map least_expected (jobs_between a b jobs))"
  by (rule sum_list_nonneg) (auto simp: jobs_between_def least_expected_def)

lemma jobs_between_self [simp]: "jobs_between a a jobs = []"
  by (simp add: jobs_between_def filter_empty_conv)

lemma lost_windows_within_sent:
  assumes "sorted (map fst readings)" "\<forall>j\<in>set jobs. 0 \<le> sent_pages j" "readings \<noteq> []"
  shows "sum_list (map lost_shortfall (lost_windows readings jobs)) \<le>
      sum_list (map least_expected (jobs_between (fst (hd readings)) (fst (last readings)) jobs)) \<and>
    sum_list (map lost_jobs (lost_windows readings jobs)) \<le>
      length (jobs_between (fst (hd readings)) (fst (last readings)) jobs)"
  using assms
proof (induction readings jobs rule: lost_windows.induct)
  case (1 a x b y rest jobs)
  define c where "c = fst (last ((b, y) # rest))"
  have ends: "fst (last ((a, x) # (b, y) # rest)) = c" by (simp add: c_def)
  let ?c = c
  let ?in = "jobs_between a b jobs"
  have ab: "a \<le> b" using "1.prems"(1) by simp
  have bc: "b \<le> ?c"
    using "1.prems"(1) unfolding c_def by (cases "rest = []") (auto dest: last_in_set)
  have pages: "sum_list (map least_expected ?in) + sum_list (map least_expected (jobs_between b ?c jobs)) =
      sum_list (map least_expected (jobs_between a ?c jobs))"
    using jobs_between_split [OF ab bc] .
  have count: "length ?in + length (jobs_between b ?c jobs) = length (jobs_between a ?c jobs)"
    using jobs_between_split [OF ab bc, of "\<lambda>_. 1::nat"] by (simp add: sum_list_triv)
  note nonneg = sum_list_nonneg_pages [OF "1.prems"(2), of a b]
  have ih: "sum_list (map lost_shortfall (lost_windows ((b, y) # rest) jobs)) \<le>
        sum_list (map least_expected (jobs_between b ?c jobs))"
      "sum_list (map lost_jobs (lost_windows ((b, y) # rest) jobs)) \<le> length (jobs_between b ?c jobs)"
    using "1.IH" "1.prems" by (auto simp: c_def)
  show ?case
  proof (cases "?in = [] \<or> window_verdict a b (y - x) ?in = None")
    case True
    then show ?thesis using ih pages count nonneg unfolding ends by (auto simp: Let_def)
  next
    case False
    then obtain w where w: "window_verdict a b (y - x) ?in = Some w" "?in \<noteq> []" by auto
    then have "lost_shortfall w \<le> sum_list (map least_expected ?in)" "lost_jobs w = length ?in"
      using window_verdict_Some [OF w(1)] by (auto simp: lost_shortfall_def)
    moreover from w have "lost_windows ((a, x) # (b, y) # rest) jobs = w # lost_windows ((b, y) # rest) jobs"
      by (simp add: Let_def)
    ultimately show ?thesis
      using ih pages count unfolding ends by simp
  qed
qed simp_all

lemma lost_windows_each:
  "w \<in> set (lost_windows readings jobs) \<Longrightarrow>
   MIN_SHORTFALL \<le> lost_shortfall w \<and> 0 \<le> lost_counted w \<and> 2 * lost_counted w < lost_expected w"
proof (induction readings jobs rule: lost_windows.induct)
  case (1 a x b y rest jobs)
  then show ?case
    using window_verdict_Some [of a b "y - x" "jobs_between a b jobs" w]
    by (auto simp: Let_def lost_shortfall_def split: if_splits option.splits)
qed simp_all

lemma lost_windows_shortfall:
  "MIN_SHORTFALL * int (length v) \<le> unprinted_shortfall v"
  if "\<forall>w\<in>set v. MIN_SHORTFALL \<le> lost_shortfall w"
  using that by (induction v) (auto simp: unprinted_shortfall_def algebra_simps)

lemma assess_SomeD:
  "assess readings jobs = Some v \<Longrightarrow> v = lost_windows readings jobs \<and> v \<noteq> [] \<and> readings \<noteq> []"
  by (auto simp: assess_def Let_def split: if_splits)

text \<open>
  What a verdict accuses the printer of is bounded by what it was sent: over readings in
  order of time, the missing pages are no more than the least that the jobs finished between
  the first and the last reading could have produced, no job is counted in two windows, and
  every window lost at least five pages and more than half of its own.
\<close>

theorem verdict_within_what_was_sent:
  assumes "sorted (map fst readings)" "\<forall>j\<in>set jobs. 0 \<le> sent_pages j"
  shows "case assess readings jobs of
      None \<Rightarrow> True
    | Some v \<Rightarrow>
        unprinted_shortfall v \<le> sum_list (map least_expected
            (jobs_between (fst (hd readings)) (fst (last readings)) jobs)) \<and>
        unprinted_jobs v \<le> length (jobs_between (fst (hd readings)) (fst (last readings)) jobs) \<and>
        5 * int (length v) \<le> unprinted_shortfall v \<and> v \<noteq> [] \<and>
        list_all (\<lambda>w. lost_expected w < 2 * lost_shortfall w) v"
proof (cases "assess readings jobs")
  case (Some v)
  note v = assess_SomeD [OF Some]
  have each: "\<forall>w\<in>set v. MIN_SHORTFALL \<le> lost_shortfall w \<and> lost_expected w < 2 * lost_shortfall w"
    using v lost_windows_each [of _ readings jobs] by (force simp: lost_shortfall_def)
  then show ?thesis
    using Some v lost_windows_within_sent [OF assms] lost_windows_shortfall [of v]
    by (auto simp: unprinted_shortfall_def unprinted_jobs_def list_all_iff MIN_SHORTFALL_def)
qed simp

theorem verdict_within_what_was_sent_witness:
  "case assess [(1, 100), (5, 100)] example_sent of None \<Rightarrow> False | Some v \<Rightarrow> unprinted_shortfall v \<le> 8"
proof -
  have "assess [(1, 100), (5, 100)] example_sent \<noteq> None"
    by (simp add: example_sent_def assess_def jobs_between_def window_verdict_def least_expected_def
        MIN_SHORTFALL_def)
  then show ?thesis
    using verdict_within_what_was_sent [of "[(1, 100), (5, 100)]" example_sent]
    by (auto simp: example_sent_def jobs_between_def least_expected_def split: option.splits)
qed

subsection \<open>What the row says is what was found\<close>

lemma assess_record:
  assumes "assess readings jobs = Some v"
  shows "MIN_SHORTFALL \<le> unprinted_shortfall v \<and> 1 \<le> length v"
proof -
  have "\<forall>w\<in>set v. MIN_SHORTFALL \<le> lost_shortfall w"
    using assess_SomeD [OF assms] lost_windows_each by blast
  from lost_windows_shortfall [OF this] assess_SomeD [OF assms]
  have "MIN_SHORTFALL * int (length v) \<le> unprinted_shortfall v" "1 \<le> length v"
    by (auto simp: Suc_le_eq)
  then show ?thesis by (simp add: MIN_SHORTFALL_def)
qed

lemma read_record_written:
  assumes "datable stamp"
  shows "read_record py_str (to_record v stamp) =
    Some (stamp, unprinted_shortfall v, int (length v), unprinted_documents v)"
proof -
  have docs: "read_documents py_str [(''shortfall'', a), (''windows'', b), (''jobs'', c),
      (''documents'', JList (map JStr ds)), (''since'', d), (''assessed_at'', e)] = Some ds"
    for a b c d e ds
    by (simp add: read_documents_def comp_def)
  then show ?thesis
    using iso.read_write [OF assms] by (simp add: read_record_def to_record_def docs)
qed

lemma recorded_reason_written:
  assumes "assess readings jobs = Some v" "datable stamp"
  shows "recorded_reason py_str (Some (to_record v stamp)) now =
    (if now - stamp > STALE_AFTER then None else Some (unprinted_reason v))"
proof -
  have "json_bool (to_record v stamp)" by (simp add: to_record_def)
  then show ?thesis
    using assess_record [OF assms(1)] read_record_written [OF assms(2), of py_str v]
    by (auto simp: recorded_reason_def unprinted_reason_def)
qed

text \<open>
  A printer the sweep could judge (two readings in the last day) is left with exactly the
  verdict: the message the status poll later reads off the row is the message of the fresh
  verdict for three hours after the newest reading it rests on and nothing after that, a
  printer with no shortfall is left with no message, and no other column of the row moves.
\<close>

theorem swept_row_tells_the_verdict:
  assumes "sweep_printer since readings jobs (p, r) = (p', r')"
    and "readings_for since readings (printer_id p) = rs" "2 \<le> length rs" "datable (fst (last rs))"
  shows "recorded_reason py_str (printer_pages_not_printed p') now =
      (case assess rs (jobs_sent since jobs (printer_id p)) of
         None \<Rightarrow> None
       | Some v \<Rightarrow> if now - fst (last rs) > STALE_AFTER then None else Some (unprinted_reason v)) \<and>
    p'\<lparr>printer_pages_not_printed := printer_pages_not_printed p\<rparr> = p"
proof (cases "assess rs (jobs_sent since jobs (printer_id p))")
  case None
  with assms show ?thesis
    by (auto simp: sweep_printer_def Let_def recorded_reason_def split: if_splits)
next
  case (Some v)
  with assms show ?thesis
    by (auto simp: sweep_printer_def Let_def recorded_reason_written [OF Some])
qed

definition example_readings :: "counter_reading list" where
  "example_readings =
     map (\<lambda>t. \<lparr>reading_printer_id = ''p'', reading_at = days 738000 + t, reading_total = Some 100,
            reading_copy = None, reading_print = None\<rparr>) [0, minutes 30]"

definition example_forwarded :: "job list" where
  "example_forwarded =
     [(job_defaults ''j'' ''p'' (days 738000))\<lparr>job_status := ''forwarded'', job_page_count := Some 8,
        job_completed_at := Some (days 738000 + minutes 5)\<rparr>]"

lemmas example_row_simps =
  example_readings_def example_forwarded_def job_defaults_def printer_defaults_def readings_for_def
  sweep_printer_def assess_def jobs_between_def window_verdict_def least_expected_def jobs_sent_def
  counts_as_sent_def sent_pages_of_def sent_job_of_def coalesce_def MIN_SHORTFALL_def minutes_def days_def

lemma example_run:
  "readings_for (days 738000) example_readings (printer_id (printer_defaults ''p'' ''LCACTC'')) =
     [(days 738000, 100), (days 738000 + minutes 30, 100)]"
  "assess [(days 738000, 100), (days 738000 + minutes 30, 100)]
     (jobs_sent (days 738000) example_forwarded (printer_id (printer_defaults ''p'' ''LCACTC''))) \<noteq> None"
  by (simp_all add: example_row_simps)

theorem swept_row_tells_the_verdict_witness:
  "recorded_reason (\<lambda>v. []) (printer_pages_not_printed (fst (sweep_printer (days 738000)
       example_readings example_forwarded (printer_defaults ''p'' ''LCACTC'', \<lparr>sweep_assessed = 0, sweep_flagged = 0, sweep_cleared = 0\<rparr>))))
     (days 738000 + hours 1) \<noteq> None"
proof -
  obtain p' r' where run: "sweep_printer (days 738000) example_readings example_forwarded
      (printer_defaults ''p'' ''LCACTC'', \<lparr>sweep_assessed = 0, sweep_flagged = 0, sweep_cleared = 0\<rparr>) = (p', r')" by fastforce
  have current: "\<not> days 738000 + hours 1 - (days 738000 + minutes 30) > STALE_AFTER"
    "datable (days 738000 + minutes 30)"
    by (simp_all add: datable_def MAXORDINAL_def days_def minutes_def hours_def STALE_AFTER_def)
  show ?thesis
    using swept_row_tells_the_verdict [OF run example_run(1), of "\<lambda>v. []" "days 738000 + hours 1"]
      example_run(2) current unfolding run by auto
qed

end
