(* ===== verification/Job_Reconcile.thy ===== *)
theory Job_Reconcile
  imports Models Job_Control
begin

section \<open>Jobs left mid-delivery (app/printers/job_reconcile.py)\<close>

text \<open>
  The sweep that closes job rows left saying "forwarding": which rows it asks about, which of
  them an earlier attempt at the same CUPS job makes moot, what cupsd's record makes of the
  others, and the counters it reports.  The table of jobs is a list of rows; the answers of
  ipptool are a parameter, read by \<open>Job_Control\<close>.
\<close>

definition STUCK_AFTER :: timedelta where "STUCK_AFTER = minutes 30"
definition UNRESOLVABLE_AFTER :: timedelta where "UNRESOLVABLE_AFTER = hours 2"
definition MAX_PER_SWEEP :: nat where "MAX_PER_SWEEP = 200"

record reconcile_result =
  rr_resolved :: nat
  rr_left_in_flight :: nat
  rr_unresolvable_kept :: nat
  rr_unasked :: nat

definition superseded_message :: "int \<Rightarrow> string" where
  "superseded_message n =
     ''Superseded '' @ [CHR 0xE2, CHR 0x80, CHR 0x94] @ '' the print server restarted CUPS job '' @
     str_int n @ '', and the later '' @ ''record of it has what was printed.''"

definition UNKNOWN_MESSAGE :: string where
  "UNKNOWN_MESSAGE =
     ''Outcome unknown '' @ [CHR 0xE2, CHR 0x80, CHR 0x94] @
     '' delivery stopped without reporting, and the print server no longer '' @
     ''has a record of this job. It may well have printed.''"

text \<open>What a job's colour mode was, given what the printer can do (printers/capabilities.py).\<close>

definition recorded_color_mode :: "(string, json) dict option \<Rightarrow> string option \<Rightarrow> string option" where
  "recorded_color_mode capabilities reported =
     (if reported \<noteq> Some ''color'' then reported
      else if map_of (list_or_empty capabilities) ''color_supported'' = Some (JBool False)
      then Some ''monochrome'' else reported)"

type_synonym cups_key = "uuid \<times> int option"

definition job_key :: "job \<Rightarrow> cups_key" where
  "job_key j = (job_printer_id j, job_cups_job_id j)"

definition latest_step ::
  "cups_key list \<Rightarrow> job \<Rightarrow> (cups_key, uuid \<times> datetime) dict \<Rightarrow> (cups_key, uuid \<times> datetime) dict" where
  "latest_step pairs row latest =
     (if job_key row \<notin> set pairs then latest
      else (case map_of latest (job_key row) of
              None \<Rightarrow> AList.update (job_key row) (job_id row, job_created_at row) latest
            | Some best \<Rightarrow>
                if job_created_at row > snd best
                then AList.update (job_key row) (job_id row, job_created_at row) latest else latest))"

definition superseding_job_ids :: "job list \<Rightarrow> job list \<Rightarrow> (uuid, uuid) dict" where
  "superseding_job_ids table candidates =
     (let pairs = map job_key (filter (\<lambda>j. job_cups_job_id j \<noteq> None) candidates);
          latest = fold (latest_step pairs) table []
      in fold (\<lambda>j superseded.
             case map_of latest (job_key j) of
               None \<Rightarrow> superseded
             | Some winner \<Rightarrow> if fst winner \<noteq> job_id j
                              then AList.update (job_id j) (fst winner) superseded else superseded)
           candidates [])"

text \<open>cupsd's verdict applied to one row; \<open>None\<close> when the row is not resolved.\<close>

definition resolve_row ::
  "job \<Rightarrow> cups_job_outcome \<Rightarrow> datetime \<Rightarrow> (string, json) dict option \<Rightarrow> job option" where
  "resolve_row j outcome now capabilities =
     (if in_flight outcome then None
      else if co_state outcome = Some JOB_STATE_COMPLETED then
        Some (j\<lparr>job_status := ''forwarded'', job_error_message := None,
                job_page_count := co_page_count outcome,
                job_color_mode := recorded_color_mode capabilities (co_color_mode outcome),
                job_duplex := co_duplex outcome, job_paper_size := co_paper_size outcome,
                job_completed_at := Some now\<rparr>)
      else if co_state outcome = Some JOB_STATE_ABORTED then
        Some (j\<lparr>job_status := ''failed'',
                job_error_message := Some (''Aborted at the print server.'' @
                  (if truthy (co_reason outcome)
                   then '' CUPS'' @ [CHR 0x27] @ ''s reason: '' @ the (co_reason outcome) @ ''.'' else [])),
                job_completed_at := Some now\<rparr>)
      else if co_state outcome = Some JOB_STATE_CANCELED then
        Some (j\<lparr>job_status := ''cancelled'',
                job_error_message := Some (''Cancelled at the print server '' @
                  [CHR 0xE2, CHR 0x80, CHR 0x94] @ '' CUPS ends a job'' @ [CHR 0x27] @ ''s delivery this way when it '' @
                  ''is cancelled, held or restarted.''),
                job_completed_at := Some now\<rparr>)
      else if co_state outcome = None then
        (if now - job_created_at j < UNRESOLVABLE_AFTER then None
         else Some (j\<lparr>job_status := ''cancelled'', job_error_message := Some UNKNOWN_MESSAGE,
                      job_completed_at := Some now\<rparr>))
      else None)"

definition stuck :: "datetime \<Rightarrow> job \<Rightarrow> bool" where
  "stuck now j \<longleftrightarrow> job_status j = ''forwarding'' \<and> job_created_at j < now - STUCK_AFTER"

definition stuck_candidates :: "datetime \<Rightarrow> nat \<Rightarrow> job list \<Rightarrow> job list" where
  "stuck_candidates now limit table = take limit (sort_key job_created_at (filter (stuck now) table))"

definition reconcile_one ::
  "(string \<Rightarrow> string \<Rightarrow> process_result) \<Rightarrow> (uuid, uuid) dict \<Rightarrow> (uuid \<Rightarrow> (string, json) dict option) \<Rightarrow>
   datetime \<Rightarrow> job \<Rightarrow> reconcile_result \<Rightarrow> job \<times> reconcile_result" where
  "reconcile_one ipptool superseded capabilities_of now j result =
     (case map_of superseded (job_id j) of
        Some winner \<Rightarrow>
          (j\<lparr>job_status := ''cancelled'', job_superseded_by := Some winner,
             job_error_message := Some (superseded_message (the (job_cups_job_id j))),
             job_completed_at := Some now\<rparr>,
           result\<lparr>rr_resolved := rr_resolved result + 1\<rparr>)
      | None \<Rightarrow>
          (case (case job_cups_job_id j of
                   None \<Rightarrow> Some no_record
                 | Some n \<Rightarrow> get_job_outcome ipptool (job_printer_id j) n) of
             None \<Rightarrow> (j, result\<lparr>rr_unasked := rr_unasked result + 1\<rparr>)
           | Some outcome \<Rightarrow>
               (case resolve_row j outcome now (capabilities_of (job_printer_id j)) of
                  Some j' \<Rightarrow> (j', result\<lparr>rr_resolved := rr_resolved result + 1\<rparr>)
                | None \<Rightarrow>
                    if co_state outcome = None
                    then (j, result\<lparr>rr_unresolvable_kept := rr_unresolvable_kept result + 1\<rparr>)
                    else (j, result\<lparr>rr_left_in_flight := rr_left_in_flight result + 1\<rparr>))))"

fun reconcile_rows ::
  "(job \<Rightarrow> reconcile_result \<Rightarrow> job \<times> reconcile_result) \<Rightarrow> job list \<Rightarrow> reconcile_result \<Rightarrow>
   job list \<times> reconcile_result" where
  "reconcile_rows step [] result = ([], result)"
| "reconcile_rows step (j # js) result =
     (let (j', result') = step j result; (js', result'') = reconcile_rows step js result'
      in (j' # js', result''))"

definition capabilities_by_printer :: "printer list \<Rightarrow> uuid \<Rightarrow> (string, json) dict option" where
  "capabilities_by_printer printers pid =
     (case find (\<lambda>p. printer_id p = pid) printers of None \<Rightarrow> None | Some p \<Rightarrow> printer_capabilities p)"

definition no_results :: reconcile_result where
  "no_results = \<lparr>rr_resolved = 0, rr_left_in_flight = 0, rr_unresolvable_kept = 0, rr_unasked = 0\<rparr>"

definition reconcile_stuck_jobs ::
  "(string \<Rightarrow> string \<Rightarrow> process_result) \<Rightarrow> printer list \<Rightarrow> job list \<Rightarrow> datetime \<Rightarrow> nat \<Rightarrow>
   job list \<times> reconcile_result" where
  "reconcile_stuck_jobs ipptool printers table now limit =
     (let candidates = stuck_candidates now limit table
      in if candidates = [] then (table, no_results)
         else
           (let superseded = superseding_job_ids table candidates;
                (rows, result) = reconcile_rows
                  (reconcile_one ipptool superseded (capabilities_by_printer printers) now)
                  candidates no_results
            in (if rr_resolved result > 0 then write_back job_id rows table else table, result)))"

subsection \<open>The latest attempt at a CUPS job\<close>

definition is_latest :: "job list \<Rightarrow> cups_key \<Rightarrow> uuid \<times> datetime \<Rightarrow> bool" where
  "is_latest table key w \<longleftrightarrow>
     (\<exists>row\<in>set table. job_key row = key \<and> (job_id row, job_created_at row) = w) \<and>
     (\<forall>row\<in>set table. job_key row = key \<longrightarrow> job_created_at row \<le> snd w)"

lemma latest_step_lookup:
  "map_of (latest_step pairs row latest) key =
     (if key = job_key row \<and> key \<in> set pairs \<and>
         (case map_of latest key of None \<Rightarrow> True | Some best \<Rightarrow> job_created_at row > snd best)
      then Some (job_id row, job_created_at row) else map_of latest key)"
  by (auto simp: latest_step_def update_conv' split: option.splits)

lemma latest_is_latest:
  "case map_of (fold (latest_step pairs) table []) key of
     None \<Rightarrow> key \<notin> set pairs \<or> (\<forall>row\<in>set table. job_key row \<noteq> key)
   | Some w \<Rightarrow> key \<in> set pairs \<and> is_latest table key w"
proof (induction table rule: rev_induct)
  case Nil
  then show ?case by simp
next
  case (snoc row table)
  have step: "map_of (fold (latest_step pairs) (table @ [row]) []) key =
      (if key = job_key row \<and> key \<in> set pairs \<and>
         (case map_of (fold (latest_step pairs) table []) key of
            None \<Rightarrow> True | Some best \<Rightarrow> job_created_at row > snd best)
      then Some (job_id row, job_created_at row) else map_of (fold (latest_step pairs) table []) key)"
    by (simp add: latest_step_lookup)
  show ?case
  proof (cases "map_of (fold (latest_step pairs) table []) key")
    case None
    with snoc.IH step show ?thesis by (auto simp: is_latest_def)
  next
    case (Some w)
    with snoc.IH step show ?thesis by (fastforce simp: is_latest_def)
  qed
qed

definition supersede_step :: "(cups_key, uuid \<times> datetime) dict \<Rightarrow> job \<Rightarrow> (uuid, uuid) dict \<Rightarrow> (uuid, uuid) dict" where
  "supersede_step latest j superseded =
     (case map_of latest (job_key j) of
        None \<Rightarrow> superseded
      | Some winner \<Rightarrow> if fst winner \<noteq> job_id j
                       then AList.update (job_id j) (fst winner) superseded else superseded)"

lemma supersede_step_lookup:
  "map_of (supersede_step latest j acc) i =
     (case map_of latest (job_key j) of
        Some w \<Rightarrow> if i = job_id j \<and> fst w \<noteq> i then Some (fst w) else map_of acc i
      | None \<Rightarrow> map_of acc i)"
  by (auto simp: supersede_step_def update_conv' split: option.splits)

lemma supersede_fold_lookup:
  assumes "distinct (map job_id cs)" "j \<in> set cs"
  shows "map_of (fold (supersede_step latest) cs acc) (job_id j) =
     (case map_of latest (job_key j) of
        Some w \<Rightarrow> if fst w \<noteq> job_id j then Some (fst w) else map_of acc (job_id j)
      | None \<Rightarrow> map_of acc (job_id j))"
  using assms
proof (induction cs rule: rev_induct)
  case (snoc c cs)
  have other: "map_of (fold (supersede_step latest) ds acc) i = map_of acc i"
    if "i \<notin> job_id ` set ds" for ds i
    using that by (induction ds rule: rev_induct) (auto simp: supersede_step_lookup split: option.splits)
  show ?case
  proof (cases "j = c")
    case True
    with snoc.prems have "job_id j \<notin> job_id ` set cs" by auto
    with True show ?thesis by (auto simp: supersede_step_lookup other split: option.splits)
  next
    case False
    with snoc.prems have "j \<in> set cs" by simp
    then have "job_id j \<in> job_id ` set cs" by (rule imageI)
    with snoc.prems have "job_id j \<noteq> job_id c" by auto
    with snoc \<open>j \<in> set cs\<close> show ?thesis by (auto simp: supersede_step_lookup split: option.splits)
  qed
qed simp

lemma superseding_lookup:
  assumes "distinct (map job_id candidates)" "j \<in> set candidates" "set candidates \<subseteq> set table"
  shows "case map_of (superseding_job_ids table candidates) (job_id j) of
      None \<Rightarrow> job_cups_job_id j = None \<or> (\<exists>t. is_latest table (job_key j) (job_id j, t))
    | Some w \<Rightarrow> job_cups_job_id j \<noteq> None \<and> w \<noteq> job_id j \<and> (\<exists>t. is_latest table (job_key j) (w, t))"
proof -
  let ?pairs = "map job_key (filter (\<lambda>j. job_cups_job_id j \<noteq> None) candidates)"
  let ?latest = "fold (latest_step ?pairs) table []"
  have eq: "superseding_job_ids table candidates = fold (supersede_step ?latest) candidates []"
    by (simp add: superseding_job_ids_def supersede_step_def [abs_def] Let_def)
  have pair: "job_key j \<in> set ?pairs \<longleftrightarrow> job_cups_job_id j \<noteq> None"
    using assms(2) by (auto simp: job_key_def)
  have found: "\<exists>row\<in>set table. job_key row = job_key j" using assms(2,3) by auto
  show ?thesis
    using latest_is_latest [where pairs = ?pairs and table = table and key = "job_key j"] pair found
    unfolding eq supersede_fold_lookup [OF assms(1,2)]
    by (auto split: option.splits)
qed

lemma one_winner_per_key:
  assumes "distinct (map job_id candidates)" "j \<in> set candidates" "k \<in> set candidates"
    "set candidates \<subseteq> set table" "job_key j = job_key k" "job_cups_job_id j \<noteq> None"
    "map_of (superseding_job_ids table candidates) (job_id j) = None"
    "map_of (superseding_job_ids table candidates) (job_id k) = None"
  shows "job_id j = job_id k"
proof -
  let ?pairs = "map job_key (filter (\<lambda>j. job_cups_job_id j \<noteq> None) candidates)"
  let ?latest = "fold (latest_step ?pairs) table []"
  have eq: "superseding_job_ids table candidates = fold (supersede_step ?latest) candidates []"
    by (simp add: superseding_job_ids_def supersede_step_def [abs_def] Let_def)
  have "job_key j \<in> set ?pairs" "\<exists>row\<in>set table. job_key row = job_key j"
    using assms(2,4,6) by auto
  then obtain w where "map_of ?latest (job_key j) = Some w"
    using latest_is_latest [where pairs = ?pairs and table = table and key = "job_key j"]
    by (auto split: option.splits)
  then show ?thesis
    using assms(5,7,8) supersede_fold_lookup [OF assms(1,2), of ?latest "[]"]
      supersede_fold_lookup [OF assms(1,3), of ?latest "[]"]
    unfolding eq by (auto split: if_splits)
qed

subsection \<open>One candidate\<close>

definition rr_total :: "reconcile_result \<Rightarrow> nat" where
  "rr_total r = rr_resolved r + rr_left_in_flight r + rr_unresolvable_kept r + rr_unasked r"

definition reconciled where
  "reconciled ipptool superseded caps now j = fst (reconcile_one ipptool superseded caps now j no_results)"

lemma reconcile_one_row: "fst (reconcile_one ipptool supd caps now j r) = reconciled ipptool supd caps now j"
  by (auto simp: reconcile_one_def reconciled_def split: option.splits)

lemma resolve_row_Some:
  "resolve_row j outcome now caps = Some j' \<Longrightarrow>
   job_status j' \<in> {''forwarded'', ''failed'', ''cancelled''} \<and> job_completed_at j' = Some now \<and>
   job_id j' = job_id j \<and> job_key j' = job_key j \<and> job_created_at j' = job_created_at j \<and>
   job_superseded_by j' = job_superseded_by j \<and>
   (job_status j' = ''forwarded'' \<longrightarrow> co_state outcome = Some JOB_STATE_COMPLETED)"
  by (auto simp: resolve_row_def job_key_def split: if_splits)

lemma reconcile_one_id: "job_id (fst (reconcile_one ipptool supd caps now j r)) = job_id j"
  by (auto simp: reconcile_one_def split: option.splits dest: resolve_row_Some)

lemma reconcile_one_counts:
  "rr_total (snd (reconcile_one ipptool supd caps now j r)) = Suc (rr_total r)"
  by (auto simp: reconcile_one_def rr_total_def split: option.splits)

lemma reconcile_one_resolved:
  assumes "job_status j = ''forwarding''"
  shows "rr_resolved (snd (reconcile_one ipptool supd caps now j r)) =
    rr_resolved r + (if reconciled ipptool supd caps now j = j then 0 else 1)"
proof -
  have "j' \<noteq> j" if "resolve_row j outcome now c = Some j'" for j' outcome c
    using resolve_row_Some [OF that] assms by auto
  moreover have "j\<lparr>job_status := ''cancelled'', job_superseded_by := w, job_error_message := m,
      job_completed_at := t\<rparr> \<noteq> j" for w m t
    by (rule notI, drule arg_cong [of _ _ job_status]) (simp add: assms)
  ultimately show ?thesis
    by (auto simp: reconcile_one_def reconciled_def split: option.splits)
qed

subsection \<open>The whole sweep\<close>

lemma reconcile_rows_run:
  assumes "\<And>j r. fst (step j r) = f j" "\<And>j r. rr_total (snd (step j r)) = Suc (rr_total r)"
  shows "fst (reconcile_rows step js r) = map f js \<and>
    rr_total (snd (reconcile_rows step js r)) = rr_total r + length js"
  using assms by (induction js arbitrary: r) (auto simp: case_prod_unfold Let_def)

lemma reconcile_rows_resolved:
  assumes "\<And>j r. j \<in> set js \<Longrightarrow> rr_resolved (snd (step j r)) = rr_resolved r + (if f j = j then 0 else 1)"
  shows "rr_resolved (snd (reconcile_rows step js r)) =
    rr_resolved r + length (filter (\<lambda>j. f j \<noteq> j) js)"
  using assms
  by (induction js arbitrary: r) (auto simp: case_prod_unfold Let_def)

lemma stuck_candidates_set:
  "set (stuck_candidates now limit table) \<subseteq> {j \<in> set table. stuck now j}"
  using set_take_subset [of limit "sort_key job_created_at (filter (stuck now) table)"]
  by (auto simp: stuck_candidates_def)

lemma stuck_candidates_distinct:
  assumes "distinct (map job_id table)"
  shows "distinct (map job_id (stuck_candidates now limit table))"
proof -
  have "distinct (filter (stuck now) table)" "inj_on job_id (set (filter (stuck now) table))"
    using assms by (auto simp: distinct_map inj_on_def)
  then have "distinct (map job_id (sort_key job_created_at (filter (stuck now) table)))"
    by (simp add: distinct_map)
  then show ?thesis by (simp add: stuck_candidates_def take_map [symmetric] distinct_take)
qed

definition sweep_row ::
  "(string \<Rightarrow> string \<Rightarrow> process_result) \<Rightarrow> printer list \<Rightarrow> job list \<Rightarrow> datetime \<Rightarrow> nat \<Rightarrow> job \<Rightarrow> job" where
  "sweep_row ipptool printers table now limit j =
     (if j \<in> set (stuck_candidates now limit table)
      then reconciled ipptool (superseding_job_ids table (stuck_candidates now limit table))
             (capabilities_by_printer printers) now j
      else j)"

lemma reconcile_stuck_jobs_rows:
  assumes "distinct (map job_id table)"
  shows "fst (reconcile_stuck_jobs ipptool printers table now limit) =
      map (sweep_row ipptool printers table now limit) table"
    and "rr_total (snd (reconcile_stuck_jobs ipptool printers table now limit)) =
      length (stuck_candidates now limit table)"
    and "rr_resolved (snd (reconcile_stuck_jobs ipptool printers table now limit)) =
      length (filter (\<lambda>j. sweep_row ipptool printers table now limit j \<noteq> j)
        (stuck_candidates now limit table))"
proof -
  let ?cs = "stuck_candidates now limit table"
  let ?step = "reconcile_one ipptool (superseding_job_ids table ?cs) (capabilities_by_printer printers) now"
  let ?f = "reconciled ipptool (superseding_job_ids table ?cs) (capabilities_by_printer printers) now"
  note run = reconcile_rows_run [of ?step ?f, OF reconcile_one_row reconcile_one_counts]
  have forwarding: "job_status j = ''forwarding''" if "j \<in> set ?cs" for j
    using stuck_candidates_set [of now limit table] that by (auto simp: stuck_def)
  have res: "rr_resolved (snd (reconcile_rows ?step ?cs no_results)) = length (filter (\<lambda>j. ?f j \<noteq> j) ?cs)"
    using reconcile_rows_resolved [of ?cs ?step ?f no_results] reconcile_one_resolved forwarding
    by (simp add: no_results_def)
  have sub: "set ?cs \<subseteq> set table" using stuck_candidates_set by blast
  have written: "write_back job_id (map ?f ?cs) table = map (\<lambda>r. if r \<in> set ?cs then ?f r else r) table"
    by (rule write_back_map) (use assms stuck_candidates_distinct sub in
        \<open>auto simp: reconciled_def reconcile_one_id\<close>)
  have same: "map (\<lambda>r. if r \<in> set ?cs then ?f r else r) table = table"
    if "length (filter (\<lambda>j. ?f j \<noteq> j) ?cs) = 0"
    using that by (auto simp: filter_empty_conv intro!: map_idI)
  show "fst (reconcile_stuck_jobs ipptool printers table now limit) =
      map (sweep_row ipptool printers table now limit) table"
    using run [of ?cs no_results] res written same
    by (auto simp: reconcile_stuck_jobs_def Let_def case_prod_unfold sweep_row_def [abs_def])
  show "rr_total (snd (reconcile_stuck_jobs ipptool printers table now limit)) = length ?cs"
    using run [of ?cs no_results]
    by (simp add: reconcile_stuck_jobs_def Let_def case_prod_unfold rr_total_def no_results_def)
  have "filter (\<lambda>j. sweep_row ipptool printers table now limit j \<noteq> j) ?cs = filter (\<lambda>j. ?f j \<noteq> j) ?cs"
    by (rule filter_cong) (simp_all add: sweep_row_def)
  with res show "rr_resolved (snd (reconcile_stuck_jobs ipptool printers table now limit)) =
      length (filter (\<lambda>j. sweep_row ipptool printers table now limit j \<noteq> j) ?cs)"
    by (simp add: reconcile_stuck_jobs_def Let_def case_prod_unfold no_results_def)
qed

lemma reconciled_superseded:
  "map_of supd (job_id j) = Some w \<Longrightarrow> reconciled ipptool supd caps now j =
     j\<lparr>job_status := ''cancelled'', job_superseded_by := Some w,
       job_error_message := Some (superseded_message (the (job_cups_job_id j))),
       job_completed_at := Some now\<rparr>"
  by (simp add: reconciled_def reconcile_one_def)

lemma reconciled_asked:
  assumes "map_of supd (job_id j) = None" "job_status j = ''forwarding''"
  shows "reconciled ipptool supd caps now j = j \<or>
    job_status (reconciled ipptool supd caps now j) \<in> {''forwarded'', ''failed'', ''cancelled''} \<and>
    job_completed_at (reconciled ipptool supd caps now j) = Some now \<and>
    job_superseded_by (reconciled ipptool supd caps now j) = job_superseded_by j"
  using assms
  by (auto simp: reconciled_def reconcile_one_def split: option.splits dest!: resolve_row_Some)

lemma reconciled_forwarded:
  assumes "job_status (reconciled ipptool supd caps now j) = ''forwarded''" "job_status j = ''forwarding''"
  shows "map_of supd (job_id j) = None \<and>
    (\<exists>n outcome. job_cups_job_id j = Some n \<and> get_job_outcome ipptool (job_printer_id j) n = Some outcome \<and>
       co_state outcome = Some JOB_STATE_COMPLETED)"
  using assms
  by (auto simp: reconciled_def reconcile_one_def no_record_def JOB_STATE_COMPLETED_def
      split: option.splits if_splits dest!: resolve_row_Some)

lemma sweep_row_candidate:
  "sweep_row ipptool printers table now limit j \<noteq> j \<Longrightarrow>
   j \<in> set (stuck_candidates now limit table) \<and> stuck now j \<and> j \<in> set table \<and>
   job_status j = ''forwarding''"
  using stuck_candidates_set [of now limit table] by (auto simp: sweep_row_def stuck_def split: if_splits)

text \<open>
  C36: the sweep closes only rows that were left delivering for more than half an hour.  Every
  row it changes ends forwarded, failed or cancelled, completed at the time of the sweep; it is
  forwarded only when cupsd itself says that job completed, and it is marked superseded exactly
  by the newest attempt at the same printer and CUPS job number.
\<close>

theorem sweep_closes_only_abandoned_rows:
  assumes "distinct (map job_id table)" "i < length table"
    and "fst (reconcile_stuck_jobs ipptool printers table now limit) = table'"
    and "j = table ! i" "j' = table' ! i" "j' \<noteq> j"
  shows "job_status j = ''forwarding'' \<and> job_created_at j < now - minutes 30 \<and>
    job_status j' \<in> {''forwarded'', ''failed'', ''cancelled''} \<and> job_completed_at j' = Some now \<and>
    (job_status j' \<noteq> ''forwarded'' \<or>
       (\<exists>n outcome. job_cups_job_id j = Some n \<and>
          get_job_outcome ipptool (job_printer_id j) n = Some outcome \<and>
          co_state outcome = Some JOB_STATE_COMPLETED)) \<and>
    (job_superseded_by j' = job_superseded_by j \<or>
       job_status j' = ''cancelled'' \<and>
       (\<exists>w t. job_superseded_by j' = Some w \<and> w \<noteq> job_id j \<and> is_latest table (job_key j) (w, t)))"
proof -
  let ?cs = "stuck_candidates now limit table"
  let ?supd = "superseding_job_ids table ?cs"
  have j': "j' = sweep_row ipptool printers table now limit j"
    using assms reconcile_stuck_jobs_rows(1) [OF assms(1)] by auto
  note c = sweep_row_candidate [of ipptool printers table now limit j, folded j', OF assms(6)]
  have rec: "j' = reconciled ipptool ?supd (capabilities_by_printer printers) now j"
    using j' c by (simp add: sweep_row_def)
  have old: "job_created_at j < now - minutes 30" using c by (simp add: stuck_def STUCK_AFTER_def)
  show ?thesis
  proof (cases "map_of ?supd (job_id j)")
    case None
    from reconciled_asked [OF None, of ipptool "capabilities_by_printer printers" now]
      reconciled_forwarded [of ipptool ?supd "capabilities_by_printer printers" now j]
    show ?thesis using c old rec assms(6) by auto
  next
    case (Some w)
    have "set ?cs \<subseteq> set table" using stuck_candidates_set by blast
    with superseding_lookup [OF stuck_candidates_distinct [OF assms(1)], of j now limit table] c Some
    have "w \<noteq> job_id j \<and> (\<exists>t. is_latest table (job_key j) (w, t))" by auto
    with reconciled_superseded [OF Some] show ?thesis using c old rec by auto
  qed
qed

text \<open>
  One print is counted once: two rows left delivering that the sweep records as forwarded,
  each with the page count cupsd keeps for its job, never stand for the same CUPS job of the
  same printer.
\<close>

theorem one_delivery_counted_once:
  assumes "distinct (map job_id table)"
    and "i < length table" "k < length table" "i \<noteq> k"
    and "fst (reconcile_stuck_jobs ipptool printers table now limit) = table'"
    and "job_status (table ! i) = ''forwarding''" "job_status (table' ! i) = ''forwarded''"
    and "job_status (table ! k) = ''forwarding''" "job_status (table' ! k) = ''forwarded''"
  shows "job_key (table ! i) \<noteq> job_key (table ! k)"
proof
  assume same: "job_key (table ! i) = job_key (table ! k)"
  let ?cs = "stuck_candidates now limit table"
  let ?supd = "superseding_job_ids table ?cs"
  have asked: "table ! m \<in> set ?cs \<and> map_of ?supd (job_id (table ! m)) = None \<and>
      job_cups_job_id (table ! m) \<noteq> None"
    if "m < length table" "job_status (table ! m) = ''forwarding''" "job_status (table' ! m) = ''forwarded''"
    for m
  proof -
    let ?j = "table ! m"
    have j': "table' ! m = sweep_row ipptool printers table now limit ?j"
      using that assms(5) reconcile_stuck_jobs_rows(1) [OF assms(1)] by auto
    then have "sweep_row ipptool printers table now limit ?j \<noteq> ?j" using that by auto
    note c = sweep_row_candidate [OF this]
    then have "job_status (reconciled ipptool ?supd (capabilities_by_printer printers) now ?j) = ''forwarded''"
      using j' that by (simp add: sweep_row_def)
    from reconciled_forwarded [OF this that(2)] c show ?thesis by auto
  qed
  have "set ?cs \<subseteq> set table" using stuck_candidates_set by blast
  with asked [OF assms(2,6,7)] asked [OF assms(3,8,9)] same
  have "job_id (table ! i) = job_id (table ! k)"
    by (intro one_winner_per_key [OF stuck_candidates_distinct [OF assms(1)]]) auto
  with assms(1-4) show False
    by (simp add: distinct_conv_nth)
qed

text \<open>
  Every candidate is accounted for exactly once - resolved, left in flight, kept as not yet
  old enough, or unasked - no sweep asks about more rows than its limit, and the resolved ones
  are exactly those whose row changed.
\<close>

theorem sweep_accounts_for_every_candidate:
  assumes "distinct (map job_id table)"
    and "reconcile_stuck_jobs ipptool printers table now limit = (table', r)"
  shows "rr_resolved r + rr_left_in_flight r + rr_unresolvable_kept r + rr_unasked r =
      min limit (length (filter (stuck now) table)) \<and>
    rr_resolved r = card {i. i < length table \<and> table' ! i \<noteq> table ! i}"
proof -
  let ?cs = "stuck_candidates now limit table"
  let ?g = "sweep_row ipptool printers table now limit"
  note rows = reconcile_stuck_jobs_rows [OF assms(1), of ipptool printers now limit, unfolded assms(2)]
  have total: "rr_resolved r + rr_left_in_flight r + rr_unresolvable_kept r + rr_unasked r =
      min limit (length (filter (stuck now) table))"
    using rows(2) by (simp add: rr_total_def stuck_candidates_def)
  have d: "distinct table" using assms(1) by (simp add: distinct_map)
  have dc: "distinct ?cs" using stuck_candidates_distinct [OF assms(1)] by (simp add: distinct_map)
  have sub: "set ?cs \<subseteq> set table" using stuck_candidates_set by blast
  have changed: "{i. i < length table \<and> table' ! i \<noteq> table ! i} =
      {i. i < length table \<and> table ! i \<in> {j \<in> set ?cs. ?g j \<noteq> j}}"
    using rows(1) sweep_row_candidate [of ipptool printers table now limit] by fastforce
  have "card {i. i < length table \<and> table' ! i \<noteq> table ! i} = card {j \<in> set ?cs. ?g j \<noteq> j}"
    unfolding changed by (rule card_positions [OF d]) (use sub in auto)
  moreover have "card {j \<in> set ?cs. ?g j \<noteq> j} = length (filter (\<lambda>j. ?g j \<noteq> j) ?cs)"
    using dc distinct_card [of "filter (\<lambda>j. ?g j \<noteq> j) ?cs"] by simp
  ultimately show ?thesis using rows(3) total by simp
qed

subsection \<open>A sweep on concrete rows\<close>

definition example_answer :: "string \<Rightarrow> string \<Rightarrow> process_result" where
  "example_answer queue request =
     Exited 0 (''<key>StatusCode</key><string>successful-ok</string>'' @
               ''<key>job-state</key><integer>9</integer>'') []"

definition stranded :: "uuid \<Rightarrow> datetime \<Rightarrow> int \<Rightarrow> job" where
  "stranded i created n =
     (job_defaults i ''p'' created)\<lparr>job_status := ''forwarding'', job_cups_job_id := Some n\<rparr>"

definition stranded_table :: "job list" where
  "stranded_table = [stranded ''a'' 0 7, stranded ''b'' (minutes 1) 7, stranded ''c'' (minutes 2) 8]"

definition stranded_swept :: "job list \<times> reconcile_result" where
  "stranded_swept = reconcile_stuck_jobs example_answer [] stranded_table (hours 1) MAX_PER_SWEEP"

lemma stranded_swept_rows:
  "map (\<lambda>j. (job_status j, job_superseded_by j)) (fst stranded_swept) =
     [(''cancelled'', Some ''b''), (''forwarded'', None), (''forwarded'', None)]"
  by code_simp

lemma stranded_ids: "distinct (map job_id stranded_table)" "length stranded_table = 3"
  by (simp_all add: stranded_table_def stranded_def job_defaults_def)

lemma stranded_statuses:
  "job_status (stranded_table ! 0) = ''forwarding''" "job_status (stranded_table ! 1) = ''forwarding''"
  "job_status (stranded_table ! 2) = ''forwarding''"
  by (simp_all add: stranded_table_def stranded_def job_defaults_def)

lemma stranded_swept_nth:
  "job_status (fst stranded_swept ! 0) = ''cancelled''"
  "job_superseded_by (fst stranded_swept ! 0) = Some ''b''"
  "job_status (fst stranded_swept ! 1) = ''forwarded''" "job_status (fst stranded_swept ! 2) = ''forwarded''"
proof -
  have "length (fst stranded_swept) = 3"
    using arg_cong [OF stranded_swept_rows, of length] by simp
  then show "job_status (fst stranded_swept ! 0) = ''cancelled''"
    "job_superseded_by (fst stranded_swept ! 0) = Some ''b''"
    "job_status (fst stranded_swept ! 1) = ''forwarded''" "job_status (fst stranded_swept ! 2) = ''forwarded''"
    using arg_cong [OF stranded_swept_rows, of "\<lambda>xs. xs ! 0"]
      arg_cong [OF stranded_swept_rows, of "\<lambda>xs. xs ! 1"]
      arg_cong [OF stranded_swept_rows, of "\<lambda>xs. xs ! 2"] by simp_all
qed

theorem sweep_closes_only_abandoned_rows_witness:
  "\<exists>t. is_latest stranded_table (job_key (stranded_table ! 0)) (''b'', t)"
proof -
  have "fst stranded_swept ! 0 \<noteq> stranded_table ! 0"
    using stranded_swept_nth(1) stranded_statuses(1) by auto
  from sweep_closes_only_abandoned_rows [OF stranded_ids(1) _ stranded_swept_def [symmetric,
        THEN arg_cong, of fst] refl refl this] stranded_ids(2) stranded_swept_nth(2) stranded_statuses(1)
  show ?thesis by (auto simp: stranded_table_def stranded_def job_defaults_def)
qed

theorem one_delivery_counted_once_witness:
  "job_key (stranded_table ! 1) \<noteq> job_key (stranded_table ! 2)"
  by (rule one_delivery_counted_once [OF stranded_ids(1) _ _ _ stranded_swept_def [symmetric,
        THEN arg_cong, of fst] stranded_statuses(2) stranded_swept_nth(3) stranded_statuses(3) stranded_swept_nth(4)])
    (simp_all add: stranded_ids)

theorem sweep_accounts_for_every_candidate_witness:
  "rr_resolved (snd stranded_swept) + rr_left_in_flight (snd stranded_swept) +
     rr_unresolvable_kept (snd stranded_swept) + rr_unasked (snd stranded_swept) = 3"
  using sweep_accounts_for_every_candidate [OF stranded_ids(1), of example_answer "[]" "hours 1"
      MAX_PER_SWEEP "fst stranded_swept" "snd stranded_swept"]
  by (simp add: stranded_swept_def [symmetric])
     (simp add: stranded_table_def stranded_def job_defaults_def stuck_def STUCK_AFTER_def py_simps
        MAX_PER_SWEEP_def)

end
