(* ===== verification/Notifications.thy ===== *)
theory Notifications
  imports Models
begin

section \<open>Conditions and the events they raise (app/notifications/conditions.py)\<close>

text \<open>
  A condition is observed on every pass; a row of \<open>notification_states\<close> remembers it, and an
  event is written once it has settled.  \<open>observe\<close> is the code's function run alone;
  \<open>session_step\<close> is the same code cut at its database statements, with any number of sessions
  interleaved (each statement is atomic, as a unique index and a compare-and-set make it).
  The callers that watch a printer's own errors (app/main.py) and a cartridge
  (app/printers/snmp_counters.py) are modelled on top.
\<close>

datatype notification_kind = PRINTER_ATTENTION | PRINTER_ERROR | TONER_LOW | QUOTA_EXCEEDED

fun kind_text :: "notification_kind \<Rightarrow> string" where
  "kind_text PRINTER_ATTENTION = ''printer.attention''"
| "kind_text PRINTER_ERROR = ''printer.error''"
| "kind_text TONER_LOW = ''toner.low''"
| "kind_text QUOTA_EXCEEDED = ''quota.exceeded''"

record notification_settings =
  nset_enabled :: bool
  nset_settle_minutes :: int
  nset_toner_low_percent :: int
  nset_notify_printer_attention :: bool
  nset_notify_printer_error :: bool
  nset_notify_toner_low :: bool
  nset_notify_quota_exceeded :: bool

fun enabled_flag :: "notification_kind \<Rightarrow> notification_settings \<Rightarrow> bool" where
  "enabled_flag PRINTER_ATTENTION s = nset_notify_printer_attention s"
| "enabled_flag PRINTER_ERROR s = nset_notify_printer_error s"
| "enabled_flag TONER_LOW s = nset_notify_toner_low s"
| "enabled_flag QUOTA_EXCEEDED s = nset_notify_quota_exceeded s"

definition kind_enabled :: "notification_settings option \<Rightarrow> notification_kind \<Rightarrow> bool" where
  "kind_enabled settings kind =
     (case settings of None \<Rightarrow> False
      | Some s \<Rightarrow> if \<not> nset_enabled s then False else enabled_flag kind s)"

record notification_state =
  ns_dedupe_key :: string
  ns_kind :: notification_kind
  ns_subject_type :: "string option"
  ns_subject_id :: "string option"
  ns_first_seen_at :: datetime
  ns_last_seen_at :: datetime
  ns_notified_at :: "datetime option"

record notification_event =
  ev_id :: uuid
  ev_created_at :: datetime
  ev_kind :: notification_kind
  ev_dedupe_key :: string
  ev_subject_type :: "string option"
  ev_subject_id :: "string option"
  ev_title :: string
  ev_body :: string
  ev_severity :: string
  ev_delivered_at :: "datetime option"
  ev_attempts :: int
  ev_next_attempt_at :: "datetime option"
  ev_last_error :: "string option"

record notify_db =
  nd_states :: "notification_state list"
  nd_events :: "notification_event list"

text \<open>The arguments of one call of \<open>observe\<close>; the id is the one the event row would get.\<close>

record observation =
  ob_kind :: notification_kind
  ob_dedupe_key :: string
  ob_title :: string
  ob_body :: string
  ob_subject_type :: "string option"
  ob_subject_id :: "string option"
  ob_severity :: string
  ob_raise_immediately :: bool
  ob_event_id :: uuid

definition find_state :: "string \<Rightarrow> notify_db \<Rightarrow> notification_state option" where
  "find_state key db = find (\<lambda>s. ns_dedupe_key s = key) (nd_states db)"

definition new_state ::
  "notification_settings option \<Rightarrow> observation \<Rightarrow> datetime \<Rightarrow> notification_state" where
  "new_state settings ob now =
     \<lparr>ns_dedupe_key = ob_dedupe_key ob, ns_kind = ob_kind ob, ns_subject_type = ob_subject_type ob,
      ns_subject_id = ob_subject_id ob, ns_first_seen_at = now, ns_last_seen_at = now,
      ns_notified_at = (if kind_enabled settings (ob_kind ob) then None else Some now)\<rparr>"

text \<open>\<open>None\<close> is the \<open>IntegrityError\<close> of the unique key.\<close>

definition insert_state :: "notification_state \<Rightarrow> notify_db \<Rightarrow> notify_db option" where
  "insert_state st db =
     (if find_state (ns_dedupe_key st) db \<noteq> None then None
      else Some (db\<lparr>nd_states := nd_states db @ [st]\<rparr>))"

definition touch_state :: "string \<Rightarrow> datetime \<Rightarrow> notify_db \<Rightarrow> notify_db" where
  "touch_state key now db =
     db\<lparr>nd_states := map (\<lambda>s. if ns_dedupe_key s = key then s\<lparr>ns_last_seen_at := now\<rparr> else s)
        (nd_states db)\<rparr>"

text \<open>What the row read and the settings say: whether this sighting goes on to claim the event.\<close>

definition due_to_raise ::
  "notification_settings option \<Rightarrow> observation \<Rightarrow> datetime \<Rightarrow> notification_state \<Rightarrow> bool" where
  "due_to_raise settings ob now st =
     (if ns_notified_at st \<noteq> None then False
      else if \<not> kind_enabled settings (ob_kind ob) then False
      else if \<not> ob_raise_immediately ob then
        (let settle = minutes (max 0 (case settings of None \<Rightarrow> 0 | Some s \<Rightarrow> nset_settle_minutes s))
         in \<not> now - ns_first_seen_at st < settle)
      else True)"

text \<open>The compare-and-set: the new table when the one row matched, \<open>None\<close> for a row count of 0.\<close>

definition claim_state :: "string \<Rightarrow> datetime \<Rightarrow> notify_db \<Rightarrow> notify_db option" where
  "claim_state key now db =
     (case find_state key db of
        None \<Rightarrow> None
      | Some st \<Rightarrow>
          if ns_notified_at st \<noteq> None then None
          else Some (db\<lparr>nd_states :=
             map (\<lambda>s. if ns_dedupe_key s = key
                      then s\<lparr>ns_notified_at := Some now, ns_last_seen_at := now\<rparr> else s)
               (nd_states db)\<rparr>))"

definition new_event :: "observation \<Rightarrow> datetime \<Rightarrow> notification_event" where
  "new_event ob now =
     \<lparr>ev_id = ob_event_id ob, ev_created_at = now, ev_kind = ob_kind ob,
      ev_dedupe_key = ob_dedupe_key ob, ev_subject_type = ob_subject_type ob,
      ev_subject_id = ob_subject_id ob, ev_title = ob_title ob, ev_body = ob_body ob,
      ev_severity = ob_severity ob, ev_delivered_at = None, ev_attempts = 0,
      ev_next_attempt_at = Some now, ev_last_error = None\<rparr>"

definition add_event :: "notification_event \<Rightarrow> notify_db \<Rightarrow> notify_db" where
  "add_event e db = db\<lparr>nd_events := nd_events db @ [e]\<rparr>"

definition examine ::
  "notification_settings option \<Rightarrow> observation \<Rightarrow> datetime \<Rightarrow> notification_state \<Rightarrow> notify_db \<Rightarrow>
   notification_event option \<times> notify_db" where
  "examine settings ob now st db =
     (let db = touch_state (ob_dedupe_key ob) now db
      in if \<not> due_to_raise settings ob now st then (None, db)
         else (case claim_state (ob_dedupe_key ob) now db of
                 None \<Rightarrow> (None, db)
               | Some db \<Rightarrow> (Some (new_event ob now), add_event (new_event ob now) db)))"

definition observe ::
  "notification_settings option \<Rightarrow> observation \<Rightarrow> datetime \<Rightarrow> notify_db \<Rightarrow>
   notification_event option \<times> notify_db" where
  "observe settings ob now db =
     (case find_state (ob_dedupe_key ob) db of
        Some st \<Rightarrow> examine settings ob now st db
      | None \<Rightarrow>
          (case insert_state (new_state settings ob now) db of
             None \<Rightarrow> (None, db)
           | Some db \<Rightarrow>
               if \<not> ob_raise_immediately ob then (None, db)
               else examine settings ob now (new_state settings ob now) db))"

definition clear_condition :: "string \<Rightarrow> notify_db \<Rightarrow> notify_db" where
  "clear_condition key db =
     db\<lparr>nd_states := filter (\<lambda>s. ns_dedupe_key s \<noteq> key) (nd_states db)\<rparr>"

text \<open>SQL's \<open>LIKE\<close>, with its two wildcards.\<close>

fun sql_like :: "string \<Rightarrow> string \<Rightarrow> bool" where
  "sql_like [] s = (s = [])"
| "sql_like (c # p) [] = (if c = CHR ''%'' then sql_like p [] else False)"
| "sql_like (c # p) (d # s) =
     (if c = CHR ''%'' then sql_like p (d # s) \<or> sql_like (c # p) s
      else (c = CHR ''_'' \<or> c = d) \<and> sql_like p s)"

definition clear_missing :: "string \<Rightarrow> string list \<Rightarrow> notify_db \<Rightarrow> notify_db" where
  "clear_missing pre still_true db =
     db\<lparr>nd_states := filter (\<lambda>s. \<not> (sql_like (pre @ ''%'') (ns_dedupe_key s) \<and>
        ns_dedupe_key s \<notin> set still_true)) (nd_states db)\<rparr>"

subsection \<open>The callers that watch printers and cartridges\<close>

definition printer_where :: "string option \<Rightarrow> string option \<Rightarrow> string" where
  "printer_where building room =
     (let place = py_join '' / '' (map the (filter truthy [building, room]))
      in if place \<noteq> [] then place @ [CHR 0x0A] else [])"

definition error_key :: "printer \<Rightarrow> string \<Rightarrow> string" where
  "error_key p reason = kind_text PRINTER_ERROR @ '':'' @ printer_id p @ '':'' @ reason"

definition error_observation :: "string \<Rightarrow> (string \<Rightarrow> uuid) \<Rightarrow> printer \<Rightarrow> string \<Rightarrow> observation" where
  "error_observation place ids p reason =
     \<lparr>ob_kind = PRINTER_ERROR, ob_dedupe_key = error_key p reason,
      ob_title = printer_name p @ '': '' @ reason,
      ob_body = place @ (if truthy (printer_status_message p) then the (printer_status_message p)
                         else ''The printer is reporting an error.''),
      ob_subject_type = Some ''printer'', ob_subject_id = Some (printer_id p),
      ob_severity = ''warning'', ob_raise_immediately = False, ob_event_id = ids reason\<rparr>"

definition active_reasons :: "printer \<Rightarrow> string list" where
  "active_reasons p =
     (if printer_status p = ''error''
      then (let reasons = list_or_empty (printer_status_reasons p)
            in if reasons = [] then [''error''] else reasons)
      else [])"

definition notify_printer_error ::
  "notification_settings option \<Rightarrow> string \<Rightarrow> (string \<Rightarrow> uuid) \<Rightarrow> printer \<Rightarrow> datetime \<Rightarrow> notify_db \<Rightarrow> notify_db" where
  "notify_printer_error settings place ids p now db =
     clear_missing (kind_text PRINTER_ERROR @ '':'' @ printer_id p @ '':'')
       (map (error_key p) (active_reasons p))
       (fold (\<lambda>reason db. snd (observe settings (error_observation place ids p reason) now db))
          (active_reasons p) db)"

definition toner_key :: "printer \<Rightarrow> string \<Rightarrow> string" where
  "toner_key p color = kind_text TONER_LOW @ '':'' @ printer_id p @ '':'' @ color"

definition notify_toner ::
  "notification_settings \<Rightarrow> string \<Rightarrow> uuid \<Rightarrow> printer \<Rightarrow> string \<Rightarrow> int \<Rightarrow> datetime \<Rightarrow> notify_db \<Rightarrow>
   notification_event option \<times> notify_db" where
  "notify_toner settings place eid p color level now db =
     (if level > nset_toner_low_percent settings then (None, clear_condition (toner_key p color) db)
      else observe (Some settings)
        \<lparr>ob_kind = TONER_LOW, ob_dedupe_key = toner_key p color,
         ob_title = printer_name p @ '': '' @ color @ '' toner at '' @ str_int level @ ''%'',
         ob_body = place @ ''The '' @ color @ '' cartridge is at '' @ str_int level @ ''%, '' @
           ''below the '' @ str_int (nset_toner_low_percent settings) @ ''% threshold.'',
         ob_subject_type = Some ''printer'', ob_subject_id = Some (printer_id p),
         ob_severity = ''warning'', ob_raise_immediately = False, ob_event_id = eid\<rparr> now db)"

subsection \<open>What each statement does to the row of a key\<close>

lemma find_map_same:
  assumes "\<And>s. ns_dedupe_key (f s) = ns_dedupe_key s"
  shows "find (\<lambda>s. ns_dedupe_key s = k) (map f xs) = map_option f (find (\<lambda>s. ns_dedupe_key s = k) xs)"
  by (induction xs) (simp_all add: assms)

lemma find_state_key: "find_state k db = Some st \<Longrightarrow> ns_dedupe_key st = k"
  by (auto simp: find_state_def find_Some_iff)

lemma find_touch [simp]:
  "find_state k (touch_state key now db) =
     map_option (\<lambda>s. if ns_dedupe_key s = key then s\<lparr>ns_last_seen_at := now\<rparr> else s) (find_state k db)"
  by (simp add: find_state_def touch_state_def find_map_same)

lemma find_append: "find P (xs @ ys) = (case find P xs of None \<Rightarrow> find P ys | Some x \<Rightarrow> Some x)"
  by (induction xs) auto

lemma find_insert:
  "insert_state st db = Some db' \<Longrightarrow>
   find_state k db' = (if k = ns_dedupe_key st then Some st else find_state k db)"
  by (auto simp: insert_state_def find_state_def find_append split: if_splits option.splits)

lemma insert_state_None: "insert_state st db = None \<longleftrightarrow> find_state (ns_dedupe_key st) db \<noteq> None"
  by (simp add: insert_state_def)

lemma find_claim:
  "claim_state key now db = Some db' \<Longrightarrow>
   (\<exists>st. find_state key db = Some st \<and> ns_notified_at st = None) \<and>
   find_state k db' = map_option (\<lambda>s. if ns_dedupe_key s = key
       then s\<lparr>ns_notified_at := Some now, ns_last_seen_at := now\<rparr> else s) (find_state k db)"
  by (auto simp: claim_state_def find_state_def find_map_same split: option.splits if_splits)

lemma claim_None:
  "claim_state key now db = None \<longleftrightarrow>
   (case find_state key db of None \<Rightarrow> True | Some st \<Rightarrow> ns_notified_at st \<noteq> None)"
  by (simp add: claim_state_def split: option.split)

lemma find_add_event [simp]: "find_state k (add_event e db) = find_state k db"
  by (simp add: find_state_def add_event_def)

lemma find_filter: "find P (filter Q xs) = find (\<lambda>x. Q x \<and> P x) xs"
  by (induction xs) auto

lemma find_cong: "(\<And>x. P x = Q x) \<Longrightarrow> find P xs = find Q xs"
  by (induction xs) auto

lemma find_clear [simp]:
  "find_state k (clear_condition key db) = (if k = key then None else find_state k db)"
  by (auto simp: find_state_def clear_condition_def find_filter find_None_iff intro!: find_cong)

lemmas state_of_key = find_insert insert_state_None find_claim claim_None

subsection \<open>The condition machine\<close>

text \<open>
  What the feature promises, without tables: a condition is absent, settling since its first
  sighting, or told (or known before anybody could be told).
\<close>

datatype condition = Absent | Settling datetime | Told

definition settle_time :: "notification_settings option \<Rightarrow> timedelta" where
  "settle_time settings = minutes (max 0 (case settings of None \<Rightarrow> 0 | Some s \<Rightarrow> nset_settle_minutes s))"

fun sight :: "bool \<Rightarrow> bool \<Rightarrow> timedelta \<Rightarrow> datetime \<Rightarrow> condition \<Rightarrow> bool \<times> condition" where
  "sight enabled immediate settle now Absent =
     (if \<not> enabled then (False, Told) else if immediate then (True, Told) else (False, Settling now))"
| "sight enabled immediate settle now (Settling t) =
     (if enabled \<and> (immediate \<or> settle \<le> now - t) then (True, Told) else (False, Settling t))"
| "sight enabled immediate settle now Told = (False, Told)"

definition condition_of :: "notify_db \<Rightarrow> string \<Rightarrow> condition" where
  "condition_of db k =
     (case find_state k db of
        None \<Rightarrow> Absent
      | Some st \<Rightarrow> if ns_notified_at st = None then Settling (ns_first_seen_at st) else Told)"

lemma due_iff:
  "due_to_raise settings ob now st \<longleftrightarrow>
     ns_notified_at st = None \<and> kind_enabled settings (ob_kind ob) \<and>
     (ob_raise_immediately ob \<or> settle_time settings \<le> now - ns_first_seen_at st)"
  unfolding due_to_raise_def settle_time_def Let_def not_less
  by (cases "ns_notified_at st = None"; cases "kind_enabled settings (ob_kind ob)";
      cases "ob_raise_immediately ob") simp_all

lemma examine_sight:
  assumes st: "find_state (ob_dedupe_key ob) db = Some st" and ob: "k = ob_dedupe_key ob"
  shows "(fst (examine settings ob now st db) \<noteq> None, condition_of (snd (examine settings ob now st db)) k) =
      sight (kind_enabled settings (ob_kind ob)) (ob_raise_immediately ob) (settle_time settings) now
        (condition_of db k)"
proof -
  have k: "ns_dedupe_key st = k" using find_state_key [OF st] ob by simp
  let ?db = "touch_state k now db"
  show ?thesis
  proof (cases "due_to_raise settings ob now st")
    case False
    then show ?thesis using st k ob
      by (auto simp: examine_def Let_def condition_of_def due_iff)
  next
    case True
    then have n: "ns_notified_at st = None" by (simp add: due_iff)
    then have "claim_state k now ?db \<noteq> None" using st ob by (simp add: claim_None)
    then obtain db2 where c: "claim_state k now ?db = Some db2" by auto
    from find_claim [OF c, of k] st k ob
    have "condition_of (add_event (new_event ob now) db2) k = Told"
      by (simp add: condition_of_def)
    with c True n st k ob show ?thesis
      by (auto simp: examine_def Let_def condition_of_def due_iff split: if_splits)
  qed
qed

lemma examine_other:
  assumes "k \<noteq> ob_dedupe_key ob"
  shows "condition_of (snd (examine settings ob now st db)) k = condition_of db k"
proof -
  have f: "find_state k (touch_state (ob_dedupe_key ob) now db) = find_state k db"
    using assms find_state_key [of k db] by (cases "find_state k db") auto
  have "find_state k db2 = find_state k db"
    if "claim_state (ob_dedupe_key ob) now (touch_state (ob_dedupe_key ob) now db) = Some db2" for db2
    using find_claim [OF that, of k] f assms find_state_key [of k db] by (cases "find_state k db") auto
  with f show ?thesis
    by (auto simp: examine_def Let_def condition_of_def split: option.splits)
qed

lemma observe_sight:
  assumes ob: "k = ob_dedupe_key ob"
  shows "(fst (observe settings ob now db) \<noteq> None, condition_of (snd (observe settings ob now db)) k) =
      sight (kind_enabled settings (ob_kind ob)) (ob_raise_immediately ob) (settle_time settings) now
        (condition_of db k)"
proof (cases "find_state k db")
  case (Some st)
  then show ?thesis using examine_sight [of ob db st k] ob by (simp add: observe_def)
next
  case None
  let ?st = "new_state settings ob now"
  have key: "ns_dedupe_key ?st = k" by (simp add: new_state_def ob)
  obtain db1 where ins: "insert_state ?st db = Some db1"
    using None key by (cases "insert_state ?st db") (auto simp: insert_state_None)
  have row: "find_state k db1 = Some ?st" using find_insert [OF ins] key by simp
  have c1: "condition_of db1 k = (if kind_enabled settings (ob_kind ob) then Settling now else Told)"
    by (simp add: condition_of_def row new_state_def)
  show ?thesis
  proof (cases "ob_raise_immediately ob")
    case False
    then show ?thesis using None ins c1 ob
      by (simp add: observe_def condition_of_def [of db])
  next
    case True
    then show ?thesis
      using None ins c1 ob examine_sight [of ob db1 ?st k settings now] row
      by (auto simp: observe_def condition_of_def [of db])
  qed
qed

lemma observe_other:
  assumes "k \<noteq> ob_dedupe_key ob"
  shows "condition_of (snd (observe settings ob now db)) k = condition_of db k"
proof -
  have "condition_of db1 k = condition_of db k" if "insert_state (new_state settings ob now) db = Some db1" for db1
    using find_insert [OF that, of k] assms by (simp add: condition_of_def new_state_def)
  then show ?thesis
    using examine_other [OF assms] by (auto simp: observe_def split: option.splits)
qed

lemma condition_of_observe:
  "condition_of (snd (observe settings ob now db)) =
     (condition_of db)(ob_dedupe_key ob :=
        snd (sight (kind_enabled settings (ob_kind ob)) (ob_raise_immediately ob)
               (settle_time settings) now (condition_of db (ob_dedupe_key ob))))"
proof
  fix k
  show "condition_of (snd (observe settings ob now db)) k = ((condition_of db)(ob_dedupe_key ob :=
        snd (sight (kind_enabled settings (ob_kind ob)) (ob_raise_immediately ob)
               (settle_time settings) now (condition_of db (ob_dedupe_key ob))))) k"
  proof (cases "k = ob_dedupe_key ob")
    case True
    with arg_cong [OF observe_sight [OF refl, of settings ob now db], of snd] show ?thesis by simp
  next
    case False
    with observe_other [OF False] show ?thesis by simp
  qed
qed

lemma condition_of_clear: "condition_of (clear_condition key db) = (condition_of db)(key := Absent)"
  by (auto simp: fun_eq_iff condition_of_def)

datatype notify_op =
    See "notification_settings option" observation datetime
  | Clear string

fun notify_step :: "notify_op \<Rightarrow> notify_db \<Rightarrow> bool \<times> notify_db" where
  "notify_step (See settings ob now) db =
     (let (e, db') = observe settings ob now db in (e \<noteq> None, db'))"
| "notify_step (Clear key) db = (False, clear_condition key db)"

fun machine_step :: "notify_op \<Rightarrow> (string \<Rightarrow> condition) \<Rightarrow> bool \<times> (string \<Rightarrow> condition)" where
  "machine_step (See settings ob now) c =
     (let (raised, c') = sight (kind_enabled settings (ob_kind ob)) (ob_raise_immediately ob)
            (settle_time settings) now (c (ob_dedupe_key ob))
      in (raised, c(ob_dedupe_key ob := c')))"
| "machine_step (Clear key) c = (False, c(key := Absent))"

fun outputs :: "('op \<Rightarrow> 's \<Rightarrow> bool \<times> 's) \<Rightarrow> 'op list \<Rightarrow> 's \<Rightarrow> bool list" where
  "outputs step [] s = []"
| "outputs step (x # xs) s = (let (b, s') = step x s in b # outputs step xs s')"

lemma notify_step_refines:
  "(fst (notify_step x db), condition_of (snd (notify_step x db))) = machine_step x (condition_of db)"
proof (cases x)
  case (See settings ob now)
  then show ?thesis
    using arg_cong [OF observe_sight [OF refl, of settings ob now db], of fst]
      condition_of_observe [of settings ob now db]
    by (simp add: Let_def case_prod_unfold)
qed (simp add: condition_of_clear)

text \<open>
  C33: over any history of sightings and clearings of any number of conditions, under settings
  that change in between, the table of states raises an event at exactly the sightings at
  which the condition machine does: a condition is told at most once until it is cleared, not
  before it has been there for the settle time since its first sighting (or at once when asked
  to), never while its kind is off, and never later when its kind was off at first sight.
\<close>

theorem notifications_refine_condition_machine:
  "outputs notify_step ops \<lparr>nd_states = [], nd_events = es\<rparr> = outputs machine_step ops (\<lambda>k. Absent)"
proof -
  have "outputs notify_step ops db = outputs machine_step ops (condition_of db)" for db
  proof (induction ops arbitrary: db)
    case (Cons x xs)
    then show ?case
      using notify_step_refines [of x db] by (auto simp: Let_def case_prod_unfold prod_eq_iff)
  qed simp
  moreover have "condition_of \<lparr>nd_states = [], nd_events = es\<rparr> = (\<lambda>k. Absent)"
    by (simp add: fun_eq_iff condition_of_def find_state_def)
  ultimately show ?thesis by metis
qed

subsection \<open>Several sessions at once\<close>

text \<open>
  A session in the middle of \<open>observe\<close>: about to look for the row, about to insert it, holding
  the row it read, or about to claim the event.  \<open>Failed\<close> is the \<open>StaleDataError\<close> of writing to
  a row another session has deleted.
\<close>

datatype phase =
    Looking "notification_settings option" observation datetime
  | Creating "notification_settings option" observation datetime
  | Examining "notification_settings option" observation datetime notification_state
  | Claiming "notification_settings option" observation datetime
  | Finished "notification_event option"
  | Failed

datatype label = Silent | Raised string | Cleared string

inductive session_step :: "notify_db \<times> phase \<Rightarrow> label \<Rightarrow> notify_db \<times> phase \<Rightarrow> bool" where
  look_found: "find_state (ob_dedupe_key ob) db = Some st \<Longrightarrow>
    session_step (db, Looking s ob now) Silent (db, Examining s ob now st)"
| look_missing: "find_state (ob_dedupe_key ob) db = None \<Longrightarrow>
    session_step (db, Looking s ob now) Silent (db, Creating s ob now)"
| create_lost: "insert_state (new_state s ob now) db = None \<Longrightarrow>
    session_step (db, Creating s ob now) Silent (db, Finished None)"
| create_settles: "insert_state (new_state s ob now) db = Some db' \<Longrightarrow> \<not> ob_raise_immediately ob \<Longrightarrow>
    session_step (db, Creating s ob now) Silent (db', Finished None)"
| create_raises: "insert_state (new_state s ob now) db = Some db' \<Longrightarrow> ob_raise_immediately ob \<Longrightarrow>
    session_step (db, Creating s ob now) Silent (db', Examining s ob now (new_state s ob now))"
| examine_gone: "find_state (ob_dedupe_key ob) db = None \<Longrightarrow>
    session_step (db, Examining s ob now st) Silent (db, Failed)"
| examine_quiet: "find_state (ob_dedupe_key ob) db \<noteq> None \<Longrightarrow> \<not> due_to_raise s ob now st \<Longrightarrow>
    session_step (db, Examining s ob now st) Silent
      (touch_state (ob_dedupe_key ob) now db, Finished None)"
| examine_due: "find_state (ob_dedupe_key ob) db \<noteq> None \<Longrightarrow> due_to_raise s ob now st \<Longrightarrow>
    session_step (db, Examining s ob now st) Silent
      (touch_state (ob_dedupe_key ob) now db, Claiming s ob now)"
| claim_lost: "claim_state (ob_dedupe_key ob) now db = None \<Longrightarrow>
    session_step (db, Claiming s ob now) Silent (db, Finished None)"
| claim_won: "claim_state (ob_dedupe_key ob) now db = Some db' \<Longrightarrow>
    session_step (db, Claiming s ob now) (Raised (ob_dedupe_key ob))
      (add_event (new_event ob now) db', Finished (Some (new_event ob now)))"

inductive_cases session_step_cases: "session_step (db, ph) l (db', ph')"

text \<open>
  The system: the tables and the phase of every session.  A session may start a pass whenever
  its last one is over, and any caller may clear a condition at any moment.
\<close>

inductive system_step ::
  "notify_db \<times> (nat \<Rightarrow> phase) \<Rightarrow> label \<Rightarrow> notify_db \<times> (nat \<Rightarrow> phase) \<Rightarrow> bool" where
  session: "session_step (db, phases i) l (db', ph) \<Longrightarrow> system_step (db, phases) l (db', phases(i := ph))"
| start: "phases i \<in> {Failed} \<union> range Finished \<Longrightarrow>
    system_step (db, phases) Silent (db, phases(i := Looking s ob now))"
| clears: "system_step (db, phases) (Cleared key) (clear_condition key db, phases)"

inductive reaches :: "notify_db \<times> (nat \<Rightarrow> phase) \<Rightarrow> label list \<Rightarrow> notify_db \<times> (nat \<Rightarrow> phase) \<Rightarrow> bool" where
  here: "reaches st [] st"
| step: "reaches st ls st' \<Longrightarrow> system_step st' l st'' \<Longrightarrow> reaches st (ls @ [l]) st''"

definition raised_step :: "string \<Rightarrow> label \<Rightarrow> nat \<Rightarrow> nat" where
  "raised_step key l n =
     (case l of Silent \<Rightarrow> n | Raised k \<Rightarrow> if k = key then Suc n else n
      | Cleared k \<Rightarrow> if k = key then 0 else n)"

definition raised_since_clear :: "string \<Rightarrow> label list \<Rightarrow> nat" where
  "raised_since_clear key ls = fold (raised_step key) ls 0"

fun is_raise :: "label \<Rightarrow> bool" where
  "is_raise (Raised k) = True"
| "is_raise _ = False"

text \<open>What one step does to the row of a key, and to the count of events since its last clearing.\<close>

definition told :: "notify_db \<Rightarrow> string \<Rightarrow> nat" where
  "told db key = (case find_state key db of None \<Rightarrow> 0
     | Some st \<Rightarrow> if ns_notified_at st = None then 0 else 1)"

lemma told_touch [simp]: "told (touch_state key now db) k = told db k"
  by (auto simp: told_def split: option.split)

lemma told_insert:
  "insert_state st db = Some db' \<Longrightarrow> told db k \<le> told db' k"
  using find_insert [of st db db' k] insert_state_None [of st db]
  by (auto simp: told_def split: option.splits if_splits)

lemma told_claim:
  assumes "claim_state key now db = Some db'"
  shows "told db' k = (if k = key then Suc (told db k) else told db k)"
  using find_claim [OF assms, of k] find_state_key [of k db]
  by (cases "find_state k db") (auto simp: told_def)

lemma told_other [simp]:
  "told (add_event e db) k = told db k" "told (clear_condition key db) k = (if k = key then 0 else told db k)"
  by (simp_all add: told_def)

lemma told_le_one: "told db k \<le> 1"
  by (auto simp: told_def split: option.split)

lemma session_step_told:
  "session_step (db, ph) l (db', ph') \<Longrightarrow> raised_step k l (told db k) \<le> told db' k"
  by (erule session_step_cases)
     (auto simp: raised_step_def told_insert told_claim)

lemma raised_step_mono: "m \<le> n \<Longrightarrow> raised_step k l m \<le> raised_step k l n"
  by (simp add: raised_step_def split: label.split)

lemma system_step_told:
  assumes "system_step (db, phases) l (db', phases')"
  shows "raised_step k l (told db k) \<le> told db' k"
  using assms by (cases rule: system_step.cases) (auto simp: raised_step_def dest: session_step_told [of _ _ _ _ _ k])

lemma session_step_events:
  "session_step (db, ph) l (db', ph') \<Longrightarrow>
   length (nd_events db') = length (nd_events db) + (if is_raise l then 1 else 0)"
  by (erule session_step_cases)
     (auto simp: insert_state_def touch_state_def claim_state_def add_event_def split: if_splits option.splits)

lemma system_step_events:
  "system_step (db, phases) l (db', phases') \<Longrightarrow>
   length (nd_events db') = length (nd_events db) + (if is_raise l then 1 else 0)"
  by (cases rule: system_step.cases)
     (auto simp: clear_condition_def dest: session_step_events)

lemma reaches_told:
  assumes "reaches (db, phases) ls (db', phases')"
  shows "raised_since_clear k ls \<le> told db' k \<and>
    length (nd_events db') = length (nd_events db) + length (filter is_raise ls)"
  using assms
proof (induction "(db, phases)" ls "(db', phases')" arbitrary: db' phases' rule: reaches.induct)
  case here
  then show ?case by (simp add: raised_since_clear_def)
next
  case (step ls st l)
  obtain db1 ph1 where st: "st = (db1, ph1)" by (cases st)
  from step.hyps(2) [OF st] have ih: "raised_since_clear k ls \<le> told db1 k"
    "length (nd_events db1) = length (nd_events db) + length (filter is_raise ls)" by auto
  have "raised_since_clear k (ls @ [l]) \<le> raised_step k l (told db1 k)"
    using ih(1) by (simp add: raised_since_clear_def raised_step_mono)
  with system_step_told [of db1 ph1 l db' phases' k] system_step_events [of db1 ph1 l db' phases']
    step.hyps(3) ih(2) st
  show ?case by (auto intro: order_trans)
qed

text \<open>
  C18: whatever the interleaving of sessions observing and clearing conditions, between two
  clearings of a condition at most one event is raised for it, and the table of events grows by
  exactly the events the sessions raised.
\<close>

theorem at_most_one_event_per_condition:
  assumes "reaches (db, phases) labels (db', phases')"
  shows "raised_since_clear key labels \<le> 1 \<and>
    length (nd_events db') = length (nd_events db) + length (filter is_raise labels)"
  using reaches_told [OF assms, of key] told_le_one [of db' key] by auto

definition example_sighting :: observation where
  "example_sighting =
     \<lparr>ob_kind = QUOTA_EXCEEDED, ob_dedupe_key = ''k'', ob_title = [], ob_body = [],
      ob_subject_type = None, ob_subject_id = None, ob_severity = ''warning'',
      ob_raise_immediately = True, ob_event_id = ''e''\<rparr>"

definition all_on :: notification_settings where
  "all_on = \<lparr>nset_enabled = True, nset_settle_minutes = 10, nset_toner_low_percent = 15,
     nset_notify_printer_attention = True, nset_notify_printer_error = True,
     nset_notify_toner_low = True, nset_notify_quota_exceeded = True\<rparr>"

lemma example_raise:
  "\<exists>st. reaches (\<lparr>nd_states = [], nd_events = []\<rparr>, \<lambda>_. Failed)
     ([] @ [Silent] @ [Silent] @ [Silent] @ [Silent] @ [Raised ''k'']) st"
proof -
  let ?ob = example_sighting and ?s = "Some all_on" and ?db = "\<lparr>nd_states = [], nd_events = []\<rparr>"
  let ?st = "new_state ?s ?ob 0"
  have key: "ob_dedupe_key ?ob = ''k''" by (simp add: example_sighting_def)
  have none: "find_state (ob_dedupe_key ?ob) ?db = None" by (simp add: find_state_def)
  obtain db1 where ins: "insert_state ?st ?db = Some db1"
    by (simp add: insert_state_def find_state_def)
  have row: "find_state (ob_dedupe_key ?ob) db1 = Some ?st"
    using find_insert [OF ins] by (simp add: new_state_def)
  have due: "due_to_raise ?s ?ob 0 ?st"
    by (simp add: due_iff new_state_def example_sighting_def all_on_def kind_enabled_def)
  then have "claim_state (ob_dedupe_key ?ob) 0 (touch_state (ob_dedupe_key ?ob) 0 db1) \<noteq> None"
    using row by (simp add: claim_None due_iff)
  then obtain db2 where claim: "claim_state (ob_dedupe_key ?ob) 0 (touch_state (ob_dedupe_key ?ob) 0 db1) = Some db2"
    by auto
  let ?init = "(?db, \<lambda>_. Failed)"
  let ?p = "\<lambda>ph. (\<lambda>_. Failed)(0 := ph)"
  have "system_step ?init Silent (?db, ?p (Looking ?s ?ob 0))" by (rule start) simp
  moreover have "system_step (?db, ?p (Looking ?s ?ob 0)) Silent (?db, (?p (Looking ?s ?ob 0))(0 := Creating ?s ?ob 0))"
    by (rule session, simp, rule look_missing [OF none])
  moreover have "system_step (?db, ?p (Creating ?s ?ob 0)) Silent (db1, (?p (Creating ?s ?ob 0))(0 := Examining ?s ?ob 0 ?st))"
    by (rule session, simp, rule create_raises [OF ins]) (simp add: example_sighting_def)
  moreover have "system_step (db1, ?p (Examining ?s ?ob 0 ?st)) Silent
      (touch_state (ob_dedupe_key ?ob) 0 db1, (?p (Examining ?s ?ob 0 ?st))(0 := Claiming ?s ?ob 0))"
    by (rule session, simp, rule examine_due [OF _ due]) (simp add: row)
  moreover have "system_step (touch_state (ob_dedupe_key ?ob) 0 db1, ?p (Claiming ?s ?ob 0)) (Raised (ob_dedupe_key ?ob))
      (add_event (new_event ?ob 0) db2, (?p (Claiming ?s ?ob 0))(0 := Finished (Some (new_event ?ob 0))))"
    by (rule session, simp, rule claim_won [OF claim])
  ultimately show ?thesis
    unfolding key append_assoc [symmetric]
    by (simp only: fun_upd_upd) (blast intro: reaches.intros)
qed

theorem at_most_one_event_per_condition_witness:
  "raised_since_clear ''k'' [Silent, Silent, Silent, Silent, Raised ''k''] \<le> 1"
proof -
  obtain db phases where "reaches (\<lparr>nd_states = [], nd_events = []\<rparr>, \<lambda>_. Failed)
     [Silent, Silent, Silent, Silent, Raised ''k''] (db, phases)" using example_raise by auto
  from at_most_one_event_per_condition [OF this, of "''k''"] show ?thesis by blast
qed

text \<open>The function is one session running alone.\<close>

inductive session_run :: "notify_db \<times> phase \<Rightarrow> notify_db \<times> phase \<Rightarrow> bool" where
  stop: "session_run s s"
| go: "session_step s l s' \<Longrightarrow> session_run s' s'' \<Longrightarrow> session_run s s''"

lemma examine_runs:
  assumes "find_state (ob_dedupe_key ob) db \<noteq> None"
  shows "session_run (db, Examining s ob now st)
    (snd (examine s ob now st db), Finished (fst (examine s ob now st db)))"
proof (cases "due_to_raise s ob now st")
  case False
  with examine_quiet [OF assms False] show ?thesis
    by (auto simp: examine_def Let_def intro: session_run.intros)
next
  case True
  note due = examine_due [OF assms True]
  show ?thesis
  proof (cases "claim_state (ob_dedupe_key ob) now (touch_state (ob_dedupe_key ob) now db)")
    case None
    with True go [OF due go [OF claim_lost [OF None] stop]] show ?thesis
      by (simp add: examine_def Let_def)
  next
    case (Some db')
    with True go [OF due go [OF claim_won [OF Some] stop]] show ?thesis
      by (simp add: examine_def Let_def)
  qed
qed

text \<open>
  \<open>observe\<close> called by one session with nobody in between is one complete run of the
  interleaved model, so everything proved for every interleaving holds of the function.
\<close>

theorem observe_is_a_session_run:
  "session_run (db, Looking settings ob now)
     (snd (observe settings ob now db), Finished (fst (observe settings ob now db)))"
proof (cases "find_state (ob_dedupe_key ob) db")
  case (Some st)
  with go [OF look_found [OF Some] examine_runs] show ?thesis by (simp add: observe_def)
next
  case None
  note missing = look_missing [OF None]
  let ?st = "new_state settings ob now"
  have key: "ns_dedupe_key ?st = ob_dedupe_key ob" by (simp add: new_state_def)
  obtain db' where ins: "insert_state ?st db = Some db'"
    using None key by (cases "insert_state ?st db") (auto simp: insert_state_None)
  have row: "find_state (ob_dedupe_key ob) db' \<noteq> None" using find_insert [OF ins] key by simp
  show ?thesis
  proof (cases "ob_raise_immediately ob")
    case False
    with None ins go [OF missing go [OF create_settles [OF ins] stop]] show ?thesis
      by (simp add: observe_def)
  next
    case True
    with None ins go [OF missing go [OF create_raises [OF ins True] examine_runs [OF row]]] show ?thesis
      by (simp add: observe_def)
  qed
qed

subsection \<open>One pass over a printer's errors\<close>

definition no_wildcards :: "string \<Rightarrow> bool" where
  "no_wildcards s \<longleftrightarrow> list_all (\<lambda>c. c \<noteq> CHR ''%'' \<and> c \<noteq> CHR ''_'') s"

lemma sql_like_percent: "sql_like ''%'' s"
  by (induction s) auto

lemma sql_like_prefix: "no_wildcards p \<Longrightarrow> sql_like (p @ ''%'') s = prefix p s"
proof (induction p arbitrary: s)
  case (Cons c p)
  then show ?case by (cases s) (auto simp: no_wildcards_def)
qed (simp add: sql_like_percent)

definition state_keys :: "notify_db \<Rightarrow> string set" where
  "state_keys db = ns_dedupe_key ` set (nd_states db)"

lemma keys_map_same:
  "(\<And>s. ns_dedupe_key (f s) = ns_dedupe_key s) \<Longrightarrow> ns_dedupe_key ` set (map f xs) = ns_dedupe_key ` set xs"
  by (induction xs) simp_all

lemma state_keys_touch [simp]: "state_keys (touch_state k now db) = state_keys db"
  unfolding state_keys_def touch_state_def by (simp del: set_map) (rule keys_map_same, simp)

lemma state_keys_claim: "claim_state k now db = Some db' \<Longrightarrow> state_keys db' = state_keys db"
  unfolding state_keys_def claim_state_def
  by (simp del: set_map split: option.splits if_splits, drule sym, simp del: set_map)
    (rule keys_map_same, simp)

lemma find_state_in_keys: "find_state k db = Some st \<Longrightarrow> k \<in> state_keys db"
  unfolding find_state_def find_Some_iff state_keys_def by (metis imageI nth_mem)

lemma state_keys_examine: "state_keys (snd (examine s ob now st db)) = state_keys db"
  by (auto simp: examine_def Let_def add_event_def state_keys_def [of "_\<lparr>nd_events := _\<rparr>"]
      state_keys_def [symmetric] dest: state_keys_claim split: option.split)

lemma state_keys_observe:
  "state_keys (snd (observe s ob now db)) = insert (ob_dedupe_key ob) (state_keys db)"
proof (cases "find_state (ob_dedupe_key ob) db")
  case (Some st)
  then have "ob_dedupe_key ob \<in> state_keys db" by (rule find_state_in_keys)
  with Some show ?thesis by (auto simp: observe_def state_keys_examine)
next
  case None
  then show ?thesis
    by (simp add: observe_def insert_state_def state_keys_examine new_state_def)
       (simp add: state_keys_def)
qed

lemma state_keys_observe_all:
  "state_keys (fold (\<lambda>r db. snd (observe s (error_observation place ids p r) now db)) rs db) =
   error_key p ` set rs \<union> state_keys db"
  by (induction rs arbitrary: db) (auto simp: state_keys_observe error_observation_def)

text \<open>
  After the pass over a printer the conditions remembered under that printer's errors are
  exactly its current reasons (none unless it is in error), so a fault that has gone is
  forgotten and reported again when it recurs; what is remembered about anything else stays.
\<close>

theorem printer_errors_mirror_the_printer:
  assumes "no_wildcards (printer_id p)"
  shows "state_keys (notify_printer_error settings place ids p now db) =
    {k \<in> state_keys db. \<not> prefix (kind_text PRINTER_ERROR @ '':'' @ printer_id p @ '':'') k} \<union>
    error_key p ` set (active_reasons p)"
proof -
  let ?pre = "kind_text PRINTER_ERROR @ '':'' @ printer_id p @ '':''"
  have plain: "no_wildcards ?pre" using assms by (simp add: no_wildcards_def)
  have own: "prefix ?pre (error_key p r)" for r by (simp add: error_key_def)
  have "state_keys (notify_printer_error settings place ids p now db) =
    {k \<in> error_key p ` set (active_reasons p) \<union> state_keys db.
       \<not> (prefix ?pre k \<and> k \<notin> error_key p ` set (active_reasons p))}"
    unfolding state_keys_observe_all [symmetric, where p = p and s = settings and place = place and
        ids = ids and now = now] notify_printer_error_def clear_missing_def sql_like_prefix [OF plain]
    by (auto simp: state_keys_def)
  with own show ?thesis by auto
qed

theorem printer_errors_mirror_the_printer_witness:
  "state_keys (notify_printer_error (Some all_on) [] (\<lambda>r. r)
      ((printer_defaults ''p'' ''LCACTC'')\<lparr>printer_status := ''error''\<rparr>) 0
      \<lparr>nd_states = [], nd_events = []\<rparr>) = {''printer.error:p:error''}"
  using printer_errors_mirror_the_printer [of "(printer_defaults ''p'' ''LCACTC'')\<lparr>printer_status := ''error''\<rparr>"
      "Some all_on" "[]" "\<lambda>r. r" 0 "\<lparr>nd_states = [], nd_events = []\<rparr>"]
  by (simp add: printer_defaults_def no_wildcards_def active_reasons_def error_key_def state_keys_def
      list_or_empty_def)

end
