(* ===== verification/Mail.thy ===== *)
theory Mail
  imports Prelude
begin

section \<open>Sending one message through the relay (app/mail/send.py)\<close>

text \<open>
  What is checked before a relay is contacted, the message built, and which answers of the
  relay are final.  The SMTP conversation itself (smtplib, with the decryption of the stored
  password) is a parameter: a function from the settings and the message to what it came to.
\<close>

record smtp_settings =
  smtp_enabled :: bool
  smtp_host :: string
  smtp_from_address :: string
  smtp_from_name :: string

record mail_message =
  mail_subject :: string
  mail_from :: string
  mail_to :: string
  mail_content :: string

record mail_error =
  me_message :: string
  me_permanent :: bool

text \<open>What the conversation came to; the texts are \<open>str(exc)\<close>.\<close>

datatype smtp_answer =
    SmtpSent
  | SmtpAuthenticationError "int option" string
  | SmtpRecipientsRefused "(string \<times> int) list" string
  | SmtpSenderRefused "int option" string
  | SmtpFailure string string \<comment> \<open>any other SMTPException or OSError: its type and text\<close>
  | SmtpUncaught

type_synonym relay = "smtp_settings \<Rightarrow> mail_message \<Rightarrow> smtp_answer"

text \<open>How a call of \<open>send_mail\<close> ends; \<open>Escaped\<close> is an exception other than \<open>MailError\<close>.\<close>

datatype mail_result = MailSent | MailFailed mail_error | Escaped

definition configured :: "smtp_settings option \<Rightarrow> mail_error + smtp_settings" where
  "configured settings =
     (case settings of
        None \<Rightarrow> Inl \<lparr>me_message = ''Email is not configured.'', me_permanent = True\<rparr>
      | Some s \<Rightarrow>
          if \<not> smtp_enabled s
          then Inl \<lparr>me_message = ''Email is not configured.'', me_permanent = True\<rparr>
          else if smtp_host s = [] \<or> smtp_from_address s = []
          then Inl \<lparr>me_message = ''Email needs a relay host and a from address.'', me_permanent = True\<rparr>
          else Inr s)"

text \<open>A header value of several lines is a \<open>ValueError\<close> of the email package: \<open>None\<close>.\<close>

definition header_ok :: "string \<Rightarrow> bool" where
  "header_ok v \<longleftrightarrow> length (splitlines v) \<le> 1"

definition build_message :: "smtp_settings \<Rightarrow> string \<Rightarrow> string \<Rightarrow> string \<Rightarrow> mail_message option" where
  "build_message settings to subject body =
     (let sender = (if smtp_from_name settings \<noteq> []
                    then smtp_from_name settings @ '' <'' @ smtp_from_address settings @ ''>''
                    else smtp_from_address settings)
      in if header_ok subject \<and> header_ok sender \<and> header_ok to
         then Some \<lparr>mail_subject = subject, mail_from = sender, mail_to = to, mail_content = body\<rparr>
         else None)"

definition is_permanent :: "int option \<Rightarrow> bool" where
  "is_permanent code = (case code of None \<Rightarrow> True | Some c \<Rightarrow> 500 \<le> c \<and> c < 600)"

definition refusal_codes :: "(string \<times> int) list \<Rightarrow> int list" where
  "refusal_codes recipients = map snd recipients"

definition send_blocking :: "relay \<Rightarrow> smtp_settings \<Rightarrow> mail_message \<Rightarrow> mail_result" where
  "send_blocking relay settings message =
     (case relay settings message of
        SmtpSent \<Rightarrow> MailSent
      | SmtpAuthenticationError code text \<Rightarrow>
          MailFailed \<lparr>me_message = ''Authentication rejected: '' @ text, me_permanent = is_permanent code\<rparr>
      | SmtpRecipientsRefused recipients text \<Rightarrow>
          (let codes = refusal_codes recipients
           in MailFailed \<lparr>me_message = ''Recipient refused: '' @ text,
                me_permanent = (if codes \<noteq> [] then list_all (\<lambda>c. is_permanent (Some c)) codes else True)\<rparr>)
      | SmtpSenderRefused code text \<Rightarrow>
          MailFailed \<lparr>me_message = ''Sender refused: '' @ text, me_permanent = is_permanent code\<rparr>
      | SmtpFailure name text \<Rightarrow>
          MailFailed \<lparr>me_message = name @ '': '' @ text, me_permanent = False\<rparr>
      | SmtpUncaught \<Rightarrow> Escaped)"

definition send_mail :: "relay \<Rightarrow> smtp_settings option \<Rightarrow> string \<Rightarrow> string \<Rightarrow> string \<Rightarrow> mail_result" where
  "send_mail relay settings to subject body =
     (case configured settings of
        Inl e \<Rightarrow> MailFailed e
      | Inr s \<Rightarrow>
          (case build_message s to subject body of
             None \<Rightarrow> Escaped
           | Some message \<Rightarrow> send_blocking relay s message))"

text \<open>
  A temporary answer of the relay (a code from 400 to 499: greylisting, a relay under load)
  is never taken for a final one, whichever exception carries it, and a mail is only given up
  for good when the relay is not configured or answered with a code of the 500 class or none.
\<close>

theorem temporary_refusals_are_retried:
  "case send_mail relay settings to subject body of
     MailFailed e \<Rightarrow>
       (me_permanent e \<longleftrightarrow>
          (case settings of
             None \<Rightarrow> True
           | Some s \<Rightarrow> \<not> smtp_enabled s \<or> smtp_host s = [] \<or> smtp_from_address s = [] \<or>
               (\<exists>message. build_message s to subject body = Some message \<and>
                 (case relay s message of
                    SmtpAuthenticationError code text \<Rightarrow> (case code of None \<Rightarrow> True | Some c \<Rightarrow> c \<in> {500..<600})
                  | SmtpSenderRefused code text \<Rightarrow> (case code of None \<Rightarrow> True | Some c \<Rightarrow> c \<in> {500..<600})
                  | SmtpRecipientsRefused rs text \<Rightarrow> set (refusal_codes rs) \<subseteq> {500..<600}
                  | _ \<Rightarrow> False))))
   | _ \<Rightarrow> True"
  by (auto simp: send_mail_def configured_def send_blocking_def Let_def is_permanent_def list_all_iff
      split: option.splits smtp_answer.splits if_splits)

end
