(* ===== verification/Delivery.thy ===== *)
theory Delivery
  imports Notifications Mail Backoff
begin

section \<open>Delivering events to channels (app/notifications/delivery.py)\<close>

text \<open>
  One pass of the delivery loop: which events are due, what is posted or mailed, and what the
  row remembers for the next pass.  The HTTP client and the mail relay are parameters; each
  answers once per channel and event in a pass.  An exception that is not a \<open>DeliveryError\<close>
  ends the pass: what was committed before stays.
\<close>

record notification_channel =
  ch_id :: uuid
  ch_kind :: string
  ch_name :: string
  ch_target :: string
  ch_enabled :: bool
  ch_last_error :: "string option"
  ch_last_success_at :: "datetime option"

definition MAX_DELIVERY_ATTEMPTS :: int where "MAX_DELIVERY_ATTEMPTS = 8"
definition BACKOFF_BASE_SECONDS :: int where "BACKOFF_BASE_SECONDS = 60"
definition BACKOFF_CAP_SECONDS :: int where "BACKOFF_CAP_SECONDS = 60 * 60"
definition BATCH_LIMIT :: nat where "BATCH_LIMIT = 20"

definition backoff_delay :: "int \<Rightarrow> timedelta" where
  "backoff_delay attempts =
     seconds (min (BACKOFF_BASE_SECONDS * 2 ^ nat (max 0 (attempts - 1))) BACKOFF_CAP_SECONDS)"

definition render_text :: "notification_event \<Rightarrow> string" where
  "render_text e =
     (let pre = (if ev_severity e = ''warning''
                 then [CHR 0xE2, CHR 0x9A, CHR 0xA0, CHR 0xEF, CHR 0xB8, CHR 0x8F]
                 else [CHR 0xE2, CHR 0x84, CHR 0xB9, CHR 0xEF, CHR 0xB8, CHR 0x8F])
      in pre @ '' *'' @ ev_title e @ ''*'' @ [CHR 0x0A] @ ev_body e)"

definition DISCORD_HOSTS :: "string list" where
  "DISCORD_HOSTS = [''discord.com'', ''discordapp.com'', ''ptb.discord.com'', ''canary.discord.com'']"

text \<open>\<open>urlparse(target).hostname\<close>: the host of the authority, without user and port, lower case.\<close>

definition is_alpha :: "char \<Rightarrow> bool" where
  "is_alpha c \<longleftrightarrow> (let n = of_char (ascii_lower c) :: nat in 97 \<le> n \<and> n \<le> 122)"

definition scheme_char :: "char \<Rightarrow> bool" where
  "scheme_char c \<longleftrightarrow> is_alpha c \<or> is_digit c \<or> c \<in> set ''+-.''"

definition after_scheme :: "string \<Rightarrow> string" where
  "after_scheme url =
     (let pre = takeWhile (\<lambda>c. c \<noteq> CHR '':'') url
      in if pre \<noteq> [] \<and> pre \<noteq> url \<and> is_alpha (hd pre) \<and> list_all scheme_char pre
         then drop (Suc (length pre)) url else url)"

definition url_hostname :: "string \<Rightarrow> string" where
  "url_hostname url =
     (let rest = after_scheme url;
          netloc = (if prefix ''//'' rest then takeWhile (\<lambda>c. c \<notin> set ''/?#'') (drop 2 rest) else []);
          hostinfo = rev (takeWhile (\<lambda>c. c \<noteq> CHR ''@'') (rev netloc));
          host = (if CHR ''['' \<in> set hostinfo
                  then takeWhile (\<lambda>c. c \<noteq> CHR '']'') (tl (dropWhile (\<lambda>c. c \<noteq> CHR ''['') hostinfo))
                  else takeWhile (\<lambda>c. c \<noteq> CHR '':'') hostinfo)
      in map ascii_lower host)"

definition webhook_payload :: "notification_event \<Rightarrow> string \<Rightarrow> (string, string) dict" where
  "webhook_payload e target =
     (let host = url_hostname target
      in if host \<in> set DISCORD_HOSTS \<or> suffix ''.discord.com'' host
         then [(''content'', render_text e)] else [(''text'', render_text e)])"

record delivery_error =
  de_message :: string
  de_permanent :: bool

datatype http_answer =
    HttpError string string \<comment> \<open>an httpx.HTTPError: its type and text\<close>
  | HttpResponse int string \<comment> \<open>status code and body\<close>

text \<open>What lies outside during one pass.\<close>

record outside =
  http_post :: "notification_channel \<Rightarrow> notification_event \<Rightarrow> (string, string) dict \<Rightarrow> http_answer"
  mail_relay :: "notification_channel \<Rightarrow> notification_event \<Rightarrow> relay"

datatype send_result = Sent | Refused delivery_error | Uncaught

definition send_to_channel ::
  "outside \<Rightarrow> notification_channel \<Rightarrow> notification_event \<Rightarrow> smtp_settings option \<Rightarrow> send_result" where
  "send_to_channel out ch e smtp =
     (if ch_kind ch = ''email'' then
        (case send_mail (mail_relay out ch e) smtp (ch_target ch) (ev_title e) (ev_body e) of
           MailSent \<Rightarrow> Sent
         | MailFailed err \<Rightarrow>
             Refused \<lparr>de_message = me_message err, de_permanent = me_permanent err\<rparr>
         | Escaped \<Rightarrow> Uncaught)
      else if ch_kind ch \<noteq> ''webhook'' then
        Refused \<lparr>de_message = ''Unsupported channel kind: '' @ [CHR 0x27] @ ch_kind ch @ [CHR 0x27],
                 de_permanent = True\<rparr>
      else
        (case http_post out ch e (webhook_payload e (ch_target ch)) of
           HttpError name text \<Rightarrow>
             Refused \<lparr>de_message = name @ '': '' @ text, de_permanent = False\<rparr>
         | HttpResponse code text \<Rightarrow>
             if 200 \<le> code \<and> code \<le> 299 then Sent
             else Refused \<lparr>de_message = ''HTTP '' @ str_int code @ '': '' @ take 200 text,
                    de_permanent = (400 \<le> code \<and> code < 500 \<and> code \<noteq> 429)\<rparr>))"

text \<open>The loop over the channels for one event; \<open>None\<close> when an exception escapes.\<close>

fun try_channels ::
  "outside \<Rightarrow> smtp_settings option \<Rightarrow> datetime \<Rightarrow> notification_event \<Rightarrow> notification_channel list \<Rightarrow>
   (notification_channel list \<times> string list \<times> bool) option" where
  "try_channels out smtp now e [] = Some ([], [], False)"
| "try_channels out smtp now e (ch # chs) =
     (case send_to_channel out ch e smtp of
        Uncaught \<Rightarrow> None
      | Refused err \<Rightarrow>
          map_option (\<lambda>(chs', errors, retryable).
            (ch\<lparr>ch_last_error := Some (take 500 (de_message err))\<rparr> # chs',
             (ch_name ch @ '': '' @ de_message err) # errors, \<not> de_permanent err \<or> retryable))
            (try_channels out smtp now e chs)
      | Sent \<Rightarrow>
          map_option (\<lambda>(chs', errors, retryable).
            (ch\<lparr>ch_last_error := None, ch_last_success_at := Some now\<rparr> # chs', errors, retryable))
            (try_channels out smtp now e chs))"

definition deliver_event ::
  "outside \<Rightarrow> smtp_settings option \<Rightarrow> datetime \<Rightarrow> notification_channel list \<Rightarrow> notification_event \<Rightarrow>
   (notification_channel list \<times> notification_event) option" where
  "deliver_event out smtp now channels e =
     (let e = e\<lparr>ev_attempts := ev_attempts e + 1\<rparr>
      in map_option (\<lambda>(channels', errors, retryable).
           (channels',
            if errors \<noteq> [] then
              (let e = e\<lparr>ev_last_error := Some (take 1000 (py_join ''; '' errors))\<rparr>
               in if \<not> retryable
                  then e\<lparr>ev_attempts := MAX_DELIVERY_ATTEMPTS, ev_next_attempt_at := None\<rparr>
                  else e\<lparr>ev_next_attempt_at := Some (now + backoff_delay (ev_attempts e))\<rparr>)
            else e\<lparr>ev_delivered_at := Some now, ev_last_error := None\<rparr>))
           (try_channels out smtp now e channels))"

definition due_event :: "datetime \<Rightarrow> notification_event \<Rightarrow> bool" where
  "due_event now e \<longleftrightarrow>
     ev_delivered_at e = None \<and> ev_attempts e < MAX_DELIVERY_ATTEMPTS \<and>
     (case ev_next_attempt_at e of None \<Rightarrow> False | Some t \<Rightarrow> t \<le> now)"

record delivery_db =
  dd_settings :: notification_settings
  dd_smtp :: smtp_settings
  dd_channels :: "notification_channel list"
  dd_events :: "notification_event list"

text \<open>How a pass ends: with its count, or by an escaped exception.\<close>

datatype pass_end = Delivered nat | Aborted

fun deliver_due ::
  "outside \<Rightarrow> smtp_settings option \<Rightarrow> datetime \<Rightarrow> notification_event list \<Rightarrow> nat \<Rightarrow> delivery_db \<Rightarrow>
   notification_channel list \<Rightarrow> pass_end \<times> delivery_db" where
  "deliver_due out smtp now [] delivered db channels = (Delivered delivered, db)"
| "deliver_due out smtp now (e # due) delivered db channels =
     (case deliver_event out smtp now channels e of
        None \<Rightarrow> (Aborted, db)
      | Some (channels', e') \<Rightarrow>
          deliver_due out smtp now due
            (if ev_delivered_at e' \<noteq> None then delivered + 1 else delivered)
            (db\<lparr>dd_events := write_back ev_id [e'] (dd_events db),
                dd_channels := write_back ch_id channels' (dd_channels db)\<rparr>)
            channels')"

definition deliver_pending :: "outside \<Rightarrow> datetime \<Rightarrow> delivery_db \<Rightarrow> pass_end \<times> delivery_db" where
  "deliver_pending out now db =
     (if \<not> nset_enabled (dd_settings db) then (Delivered 0, db)
      else
        (let channels = filter ch_enabled (dd_channels db)
         in if channels = [] then (Delivered 0, db)
            else
              (let smtp = (if list_ex (\<lambda>ch. ch_kind ch = ''email'') channels
                           then Some (dd_smtp db) else None);
                   due = take BATCH_LIMIT (sort_key ev_created_at (filter (due_event now) (dd_events db)))
               in deliver_due out smtp now due 0 db channels)))"

subsection \<open>The spacing of the attempts\<close>

interpretation delivery_wait: doubling_backoff "\<lambda>failures. backoff_delay (failures + 1)" "minutes 1" "hours 1"
proof
  fix f :: int
  assume f: "0 \<le> f"
  have "(2::int) ^ nat (1 + f) = 2 * 2 ^ nat f"
    using f by (simp add: nat_add_distrib)
  with f show "backoff_delay (f + 1 + 1) = min (2 * backoff_delay (f + 1)) (hours 1)"
    by (auto simp: backoff_delay_def BACKOFF_BASE_SECONDS_def BACKOFF_CAP_SECONDS_def py_simps min_def)
qed (simp_all add: backoff_delay_def BACKOFF_BASE_SECONDS_def BACKOFF_CAP_SECONDS_def py_simps)

text \<open>
  After its n-th attempt an event waits one minute doubled n - 1 times and at most an hour;
  the waits never shrink.
\<close>

theorem delivery_backoff_bounds:
  "backoff_delay (int n + 1) = min (minutes 1 * 2 ^ n) (hours 1) \<and>
   minutes 1 \<le> backoff_delay a \<and> backoff_delay a \<le> hours 1 \<and>
   backoff_delay a \<le> backoff_delay (a + int k)"
  using delivery_wait.wait_closed_form [of n] delivery_wait.wait_at_least_base [of "a - 1"]
    delivery_wait.wait_at_most_cap [of "a - 1"] delivery_wait.wait_mono [of "a - 1" "a + int k - 1"]
  by simp

subsection \<open>What becomes of one event\<close>

lemma try_channels_spec:
  assumes "try_channels out smtp now e chs = Some (chs', errors, retryable)"
  shows "(errors = [] \<longleftrightarrow> (\<forall>ch\<in>set chs. send_to_channel out ch e smtp = Sent)) \<and>
    (retryable \<longleftrightarrow> (\<exists>ch\<in>set chs. \<exists>err. send_to_channel out ch e smtp = Refused err \<and> \<not> de_permanent err)) \<and>
    map ch_id chs' = map ch_id chs \<and> (\<forall>ch\<in>set chs. send_to_channel out ch e smtp \<noteq> Uncaught)"
  using assms
proof (induction chs arbitrary: chs' errors retryable)
  case (Cons ch chs)
  then show ?case
    by (cases "try_channels out smtp now e chs") (auto split: send_result.splits)
qed simp


subsection \<open>Over many passes\<close>

definition closed :: "notification_event \<Rightarrow> bool" where
  "closed e \<longleftrightarrow> ev_delivered_at e \<noteq> None \<or> ev_attempts e \<ge> MAX_DELIVERY_ATTEMPTS"

definition later_row :: "notification_event \<Rightarrow> notification_event \<Rightarrow> bool" where
  "later_row e e' \<longleftrightarrow> ev_id e' = ev_id e \<and> ev_attempts e \<le> ev_attempts e' \<and>
     (ev_attempts e \<le> MAX_DELIVERY_ATTEMPTS \<longrightarrow> ev_attempts e' \<le> MAX_DELIVERY_ATTEMPTS) \<and>
     (closed e \<longrightarrow> e' = e)"

lemma later_row_refl [simp]: "later_row e e"
  by (simp add: later_row_def)

lemma later_row_trans: "later_row a b \<Longrightarrow> later_row b c \<Longrightarrow> later_row a c"
  by (auto simp: later_row_def)

definition later_rows :: "notification_event list \<Rightarrow> notification_event list \<Rightarrow> bool" where
  "later_rows es es' \<longleftrightarrow> list_all2 later_row es es'"

lemma later_rows_refl [simp]: "later_rows es es"
  by (simp add: later_rows_def list.rel_refl)

lemma later_rows_trans: "later_rows a b \<Longrightarrow> later_rows b c \<Longrightarrow> later_rows a c"
  unfolding later_rows_def by (rule list_all2_trans [OF later_row_trans])

lemma later_rows_ids: "later_rows es es' \<Longrightarrow> map ev_id es' = map ev_id es"
  unfolding later_rows_def by (induction rule: list_all2_induct) (auto simp: later_row_def)

lemma deliver_event_later:
  assumes "deliver_event out smtp now channels e = Some (channels', e')" "due_event now e"
  shows "later_row e e'"
proof -
  have due: "ev_delivered_at e = None" "ev_attempts e < MAX_DELIVERY_ATTEMPTS"
    using assms(2) by (auto simp: due_event_def)
  then have open_row: "\<not> closed e" by (simp add: closed_def)
  have "ev_id e' = ev_id e"
    using assms(1) by (auto simp: deliver_event_def Let_def)
  moreover have "ev_attempts e \<le> ev_attempts e' \<and> ev_attempts e' \<le> MAX_DELIVERY_ATTEMPTS"
    using assms(1) due by (auto simp: deliver_event_def Let_def)
  ultimately show ?thesis using open_row by (simp add: later_row_def)
qed

lemma write_back_one:
  "write_back ident [c] table = map (\<lambda>row. if ident c = ident row then c else row) table"
  by (simp add: write_back_def)

lemma deliver_due_later:
  assumes "distinct (map ev_id (dd_events db))" "distinct (map ev_id due)"
    "set due \<subseteq> set (dd_events db)" "\<forall>e\<in>set due. due_event now e"
  shows "later_rows (dd_events db) (dd_events (snd (deliver_due out smtp now due n db channels)))"
  using assms
proof (induction due arbitrary: n db channels)
  case (Cons e due)
  show ?case
  proof (cases "deliver_event out smtp now channels e")
    case (Some r)
    obtain channels' e' where r: "r = (channels', e')" by (cases r)
    have row: "later_row e e'" using deliver_event_later Some r Cons.prems(4) by auto
    then have id: "ev_id e' = ev_id e" by (simp add: later_row_def)
    let ?es = "write_back ev_id [e'] (dd_events db)"
    let ?db = "db\<lparr>dd_events := ?es, dd_channels := write_back ch_id channels' (dd_channels db)\<rparr>"
    have same: "x = e" if "x \<in> set (dd_events db)" "ev_id x = ev_id e" for x
      using that Cons.prems(1,3) by (auto simp: distinct_map dest: inj_onD)
    have first: "later_rows (dd_events db) ?es"
      unfolding later_rows_def write_back_one list_all2_map2
      by (rule list.rel_refl_strong) (use row same id in auto)
    have ids: "distinct (map ev_id ?es)" using later_rows_ids [OF first] Cons.prems(1) by simp
    have left: "set due \<subseteq> set ?es"
    proof
      fix x
      assume x: "x \<in> set due"
      then have "ev_id x \<in> ev_id ` set due" by (rule imageI)
      moreover have "ev_id e \<notin> ev_id ` set due" using Cons.prems(2) by simp
      ultimately have "ev_id x \<noteq> ev_id e" by metis
      moreover have "x \<in> set (dd_events db)" using x Cons.prems(3) by auto
      ultimately show "x \<in> set ?es" unfolding write_back_one using id by (force simp: image_iff)
    qed
    have "later_rows ?es (dd_events (snd (deliver_due out smtp now due
        (if ev_delivered_at e' \<noteq> None then n + 1 else n) ?db channels')))"
      using Cons.IH [of ?db] ids left Cons.prems(2,4) by simp
    with later_rows_trans [OF first] show ?thesis by (simp add: Some r)
  qed simp
qed simp

lemma deliver_pending_later:
  assumes "distinct (map ev_id (dd_events db))"
  shows "later_rows (dd_events db) (dd_events (snd (deliver_pending out now db)))"
proof -
  let ?due = "take BATCH_LIMIT (sort_key ev_created_at (filter (due_event now) (dd_events db)))"
  have sub: "set ?due \<subseteq> set (filter (due_event now) (dd_events db))"
    using set_take_subset [of BATCH_LIMIT "sort_key ev_created_at (filter (due_event now) (dd_events db))"]
    by simp
  have "distinct (map ev_id (filter (due_event now) (dd_events db)))"
    using assms by (rule distinct_map_filter)
  then have "distinct (map ev_id (sort_key ev_created_at (filter (due_event now) (dd_events db))))"
    by (simp add: distinct_map)
  then have "distinct (map ev_id ?due)" by (simp add: take_map [symmetric] distinct_take)
  then have run: "later_rows (dd_events db) (dd_events (snd (deliver_due out smtp now ?due 0 db chs)))"
    for smtp chs
    using sub assms by (intro deliver_due_later) auto
  show ?thesis
    by (simp only: deliver_pending_def Let_def run snd_conv later_rows_refl split: if_split) simp
qed

definition delivery_passes :: "(outside \<times> datetime) list \<Rightarrow> delivery_db \<Rightarrow> delivery_db" where
  "delivery_passes passes db = fold (\<lambda>(out, now) db. snd (deliver_pending out now db)) passes db"

lemma delivery_passes_later:
  assumes "distinct (map ev_id (dd_events db))"
  shows "later_rows (dd_events db) (dd_events (delivery_passes passes db))"
  using assms
proof (induction passes arbitrary: db)
  case (Cons x passes)
  obtain out now where x: "x = (out, now)" by (cases x)
  note first = deliver_pending_later [OF Cons.prems, of out now]
  have "distinct (map ev_id (dd_events (snd (deliver_pending out now db))))"
    using later_rows_ids [OF first] Cons.prems by simp
  from Cons.IH [OF this] later_rows_trans [OF first] show ?case
    by (simp add: delivery_passes_def x)
qed (simp add: delivery_passes_def)

text \<open>
  Through any number of passes, with any answers from the channels and even when a pass is
  cut short, no event row appears or disappears, no event is attempted more than eight times,
  and an event once delivered or given up is never sent or written again.
\<close>

theorem deliveries_are_bounded_and_final:
  assumes "distinct (map ev_id (dd_events db))" "i < length (dd_events db)"
    and "ev_attempts (dd_events db ! i) \<le> 8"
    and "dd_events (delivery_passes passes db) = es"
  shows "length es = length (dd_events db) \<and> ev_id (es ! i) = ev_id (dd_events db ! i) \<and>
    ev_attempts (dd_events db ! i) \<le> ev_attempts (es ! i) \<and> ev_attempts (es ! i) \<le> 8 \<and>
    (if ev_delivered_at (dd_events db ! i) \<noteq> None \<or> ev_attempts (dd_events db ! i) = 8
     then es ! i = dd_events db ! i else True)"
proof -
  have later: "list_all2 later_row (dd_events db) es"
    using delivery_passes_later [OF assms(1), of passes] assms(4) by (simp add: later_rows_def)
  then have "later_row (dd_events db ! i) (es ! i)" using assms(2) by (rule list_all2_nthD)
  with list_all2_lengthD [OF later] assms(3) show ?thesis
    by (auto simp: later_row_def closed_def MAX_DELIVERY_ATTEMPTS_def)
qed

definition example_queue :: delivery_db where
  "example_queue =
     \<lparr>dd_settings = all_on, dd_smtp = \<lparr>smtp_enabled = False, smtp_host = [], smtp_from_address = [],
        smtp_from_name = []\<rparr>,
      dd_channels = [\<lparr>ch_id = ''c'', ch_kind = ''webhook'', ch_name = ''it'', ch_target = ''https://chat.example/x'',
        ch_enabled = True, ch_last_error = None, ch_last_success_at = None\<rparr>],
      dd_events = [new_event example_sighting 0]\<rparr>"

definition silent_outside :: outside where
  "silent_outside = \<lparr>http_post = (\<lambda>c e p. HttpResponse 503 ''busy''), mail_relay = (\<lambda>c e s m. SmtpFailure ''OSError'' ''timed out'')\<rparr>"

definition example_passes :: "(outside \<times> datetime) list" where
  "example_passes = [(silent_outside, 0), (silent_outside, hours 1)]"

theorem deliveries_are_bounded_and_final_witness:
  "ev_attempts (dd_events (delivery_passes example_passes example_queue) ! 0) \<le> 8"
  using deliveries_are_bounded_and_final [of example_queue 0 example_passes]
  by (simp add: example_queue_def new_event_def)

end
