(* ===== verification/Quotas.thy ===== *)
theory Quotas
  imports Notifications Iso_Format
begin

section \<open>Page quotas and the reason a job is held (app/quotas/service.py)\<close>

text \<open>
  The calendar windows quotas are counted in, the quota that applies to a person at a printer,
  the pages already used, and the one decision whether a new job is held and why.  Datetimes
  are UTC.  The unique constraints of the quota and bypass tables make \<open>scalar_one_or_none\<close> a
  search for the first row.
\<close>

record user_quota =
  uq_printer_id :: uuid
  uq_user_email :: "string option"
  uq_period :: string
  uq_page_limit :: "int option"

text \<open>The tables the decision reads, and the notification tables it writes.\<close>

record quota_db =
  qd_enabled :: bool
  qd_quotas :: "user_quota list"
  qd_bypasses :: "(uuid \<times> string) list"
  qd_jobs :: "job list"
  qd_notification_settings :: notification_settings
  qd_notify :: notify_db

definition add_months :: "date \<Rightarrow> int \<Rightarrow> date_error + date" where
  "add_months d months =
     (let month_index = mon d - 1 + months;
          year = yr d + month_index div 12;
          month = month_index mod 12 + 1
      in mk_date year month 1)"

definition window_to :: "date \<Rightarrow> date_error + date \<Rightarrow> date_error + (datetime \<times> datetime)" where
  "window_to s e = (case e of Inl err \<Rightarrow> Inl err | Inr e \<Rightarrow> Inr (at_midnight s, at_midnight e))"

definition period_bounds :: "string \<Rightarrow> datetime \<Rightarrow> date_error + (datetime \<times> datetime)" where
  "period_bounds period now =
     (let day_start = date_of now in
      if period = ''daily'' then window_to day_start (date_add_days day_start 1)
      else if period = ''weekly'' then
        (case date_add_days day_start (- weekday day_start) of
           Inl err \<Rightarrow> Inl err
         | Inr week_start \<Rightarrow> window_to week_start (date_add_days week_start 7))
      else if period = ''monthly'' then
        (let month_start = Date (yr day_start) (mon day_start) 1
         in window_to month_start (add_months month_start 1))
      else if period = ''quarterly'' then
        (let quarter_start_month = (mon day_start - 1) div 3 * 3 + 1;
             quarter_start = Date (yr day_start) quarter_start_month 1
         in window_to quarter_start (add_months quarter_start 3))
      else if period = ''yearly'' then
        (let year_start = Date (yr day_start) 1 1
         in window_to year_start (mk_date (yr year_start + 1) 1 1))
      else Inl (ValueError (''Unknown quota period: '' @ [CHR 0x27] @ period @ [CHR 0x27])))"

definition QUOTA_PERIODS :: "string list" where
  "QUOTA_PERIODS = [''daily'', ''weekly'', ''monthly'', ''quarterly'', ''yearly'']"

definition get_user_quota :: "user_quota list \<Rightarrow> uuid \<Rightarrow> string \<Rightarrow> user_quota option" where
  "get_user_quota quotas pid email =
     find (\<lambda>q. uq_printer_id q = pid \<and> uq_user_email q = Some email) quotas"

definition get_blanket_quota :: "user_quota list \<Rightarrow> uuid \<Rightarrow> user_quota option" where
  "get_blanket_quota quotas pid = find (\<lambda>q. uq_printer_id q = pid \<and> uq_user_email q = None) quotas"

definition get_effective_quota :: "user_quota list \<Rightarrow> printer \<Rightarrow> string option \<Rightarrow> user_quota option" where
  "get_effective_quota quotas p email =
     (if printer_quota_mode p = ''exclude'' then
        (case email of
           None \<Rightarrow> get_blanket_quota quotas (printer_id p)
         | Some u \<Rightarrow>
             if get_user_quota quotas (printer_id p) u \<noteq> None then None
             else get_blanket_quota quotas (printer_id p))
      else
        (case email of None \<Rightarrow> None | Some u \<Rightarrow> get_user_quota quotas (printer_id p) u))"

definition get_pages_used :: "job list \<Rightarrow> uuid \<Rightarrow> string \<Rightarrow> datetime \<Rightarrow> datetime \<Rightarrow> int" where
  "get_pages_used jobs pid email s e =
     sum_list (map (\<lambda>j. int_or_zero (job_page_count j))
       (filter (\<lambda>j. job_printer_id j = pid \<and> job_submitted_by j = Some email \<and>
          s \<le> job_created_at j \<and> job_created_at j < e) jobs))"

definition has_release_bypass :: "(uuid \<times> string) list \<Rightarrow> uuid \<Rightarrow> string \<Rightarrow> bool" where
  "has_release_bypass bypasses pid email = ((pid, email) \<in> set bypasses)"

definition date_text :: "date \<Rightarrow> string" where
  "date_text d = digit4 (yr d) @ ''-'' @ digit2 (mon d) @ ''-'' @ digit2 (dy d)"

definition quota_observation ::
  "uuid \<Rightarrow> printer \<Rightarrow> string \<Rightarrow> user_quota \<Rightarrow> int \<Rightarrow> int \<Rightarrow> datetime \<Rightarrow> observation" where
  "quota_observation eid p u quota used limit s =
     \<lparr>ob_kind = QUOTA_EXCEEDED,
      ob_dedupe_key = kind_text QUOTA_EXCEEDED @ '':'' @ printer_id p @ '':'' @ u @ '':'' @
        date_text (date_of s),
      ob_title = u @ '' has reached their print quota'',
      ob_body = str_int used @ '' of '' @ str_int limit @ '' pages on '' @ printer_name p @ '' '' @
        ''for the '' @ uq_period quota @ '' period beginning '' @ date_text (date_of s) @ ''. '' @
        ''Further jobs are being held.'',
      ob_subject_type = Some ''user'', ob_subject_id = Some u, ob_severity = ''info'',
      ob_raise_immediately = True, ob_event_id = eid\<rparr>"

text \<open>\<open>eid\<close> is the id the notification event would get if this call raises one.\<close>

definition resolve_hold_reason ::
  "quota_db \<Rightarrow> printer \<Rightarrow> string option \<Rightarrow> datetime \<Rightarrow> uuid \<Rightarrow>
   date_error + (string option \<times> notify_db)" where
  "resolve_hold_reason db p submitted_by now eid =
     (let bypassed = (case submitted_by of None \<Rightarrow> False
            | Some u \<Rightarrow> has_release_bypass (qd_bypasses db) (printer_id p) u)
      in if (printer_release_required p \<or> printer_follow_me_enabled p) \<and> \<not> bypassed
         then Inr (Some (if printer_follow_me_enabled p then ''follow_me'' else ''pin_release''),
                   qd_notify db)
         else if printer_status p = ''offline'' then Inr (Some ''printer_offline'', qd_notify db)
         else
           (case submitted_by of
              None \<Rightarrow> Inr (None, qd_notify db)
            | Some u \<Rightarrow>
                if \<not> qd_enabled db then Inr (None, qd_notify db)
                else
                  (case get_effective_quota (qd_quotas db) p submitted_by of
                     None \<Rightarrow> Inr (None, qd_notify db)
                   | Some quota \<Rightarrow>
                       (case uq_page_limit quota of
                          None \<Rightarrow> Inr (None, qd_notify db)
                        | Some limit \<Rightarrow>
                            (case period_bounds (uq_period quota) now of
                               Inl err \<Rightarrow> Inl err
                             | Inr (s, e) \<Rightarrow>
                                 (let used = get_pages_used (qd_jobs db) (printer_id p) u s e
                                  in if used \<ge> limit
                                     then Inr (Some ''quota'',
                                       snd (observe (Some (qd_notification_settings db))
                                              (quota_observation eid p u quota used limit s) now
                                              (qd_notify db)))
                                     else Inr (None, qd_notify db)))))))"

subsection \<open>The periods partition time\<close>

text \<open>The window on the calendar, in dates.\<close>

definition period_dates :: "string \<Rightarrow> date \<Rightarrow> date_error + (date \<times> date)" where
  "period_dates period d =
     (if period = ''daily'' then map_sum id (Pair d) (date_add_days d 1)
      else if period = ''weekly'' then
        (case date_add_days d (- weekday d) of
           Inl err \<Rightarrow> Inl err
         | Inr week_start \<Rightarrow> map_sum id (Pair week_start) (date_add_days week_start 7))
      else if period = ''monthly'' then
        map_sum id (Pair (Date (yr d) (mon d) 1)) (add_months (Date (yr d) (mon d) 1) 1)
      else if period = ''quarterly'' then
        (let s = Date (yr d) ((mon d - 1) div 3 * 3 + 1) 1 in map_sum id (Pair s) (add_months s 3))
      else if period = ''yearly'' then
        map_sum id (Pair (Date (yr d) 1 1)) (mk_date (yr d + 1) 1 1)
      else Inl (ValueError (''Unknown quota period: '' @ [CHR 0x27] @ period @ [CHR 0x27])))"

lemma period_bounds_dates:
  "period_bounds period now =
     map_sum id (\<lambda>(s, e). (at_midnight s, at_midnight e)) (period_dates period (date_of now))"
  by (auto simp: period_bounds_def period_dates_def window_to_def Let_def split: sum.splits)

lemma date_less_simp: "Date y m d < Date y' m' d' \<longleftrightarrow> y < y' \<or> y = y' \<and> (m < m' \<or> m = m' \<and> d < d')"
  by (auto simp: less_date_def)

lemma date_le_simp: "Date y m d \<le> Date y' m' d' \<longleftrightarrow> y < y' \<or> y = y' \<and> (m < m' \<or> m = m' \<and> d \<le> d')"
  by (auto simp: less_eq_date_def less_date_def)

lemmas date_order = date_less_simp date_le_simp

definition middle_year :: "date \<Rightarrow> bool" where
  "middle_year d \<longleftrightarrow> valid_date d \<and> 2 \<le> yr d \<and> yr d \<le> 9998"

lemma middle_year_ordinal:
  assumes "middle_year d"
  shows "8 \<le> toordinal d \<and> toordinal d + 8 \<le> MAXORDINAL"
proof -
  have v: "valid_date (Date 1 1 8)" "valid_date (Date 9999 12 23)"
    by (simp_all add: days_in_month_def)
  have "Date 1 1 8 < d" "d < Date 9999 12 23" "valid_date d"
    using assms by (cases d; auto simp: middle_year_def date_order)+
  then have "toordinal (Date 1 1 8) < toordinal d" "toordinal d < toordinal (Date 9999 12 23)"
    using toordinal_less v by blast+
  then show ?thesis
    by (simp add: days_before_year_def days_before_month_def is_leap_def MAXORDINAL_def)
qed

text \<open>A period as the code computes it, and its window the period of every day in it.\<close>

definition tiles :: "string \<Rightarrow> date \<Rightarrow> bool" where
  "tiles period d \<longleftrightarrow> (\<exists>s e. period_dates period d = Inr (s, e) \<and> valid_date s \<and> valid_date e \<and>
     s \<le> d \<and> d < e \<and>
     (\<forall>d'. valid_date d' \<longrightarrow> s \<le> d' \<longrightarrow> d' < e \<longrightarrow> period_dates period d' = Inr (s, e)))"

lemma period_dates_daily: "date_add_days d 1 = Inr e \<Longrightarrow> period_dates ''daily'' d = Inr (d, e)"
  by (simp add: period_dates_def)

lemma tiles_daily: "middle_year d \<Longrightarrow> tiles ''daily'' d"
proof -
  assume m: "middle_year d"
  note o = middle_year_ordinal [OF m]
  have vd: "valid_date d" using m by (simp add: middle_year_def)
  obtain e where e: "date_add_days d 1 = Inr e"
    using o by (simp add: date_add_days_def Let_def)
  have ve: "valid_date e" "toordinal e = toordinal d + 1"
    using date_add_days_valid [OF e] date_add_days_toordinal [OF e] by auto
  have "d < e" using toordinal_less_iff [OF vd ve(1)] ve(2) by simp
  moreover have "d' = d" if "valid_date d'" "d \<le> d'" "d' < e" for d'
    using that vd ve toordinal_le_iff [OF vd that(1)] toordinal_less_iff [OF that(1) ve(1)]
      toordinal_inject [OF that(1) vd] by simp
  then have "period_dates ''daily'' d' = Inr (d, e)" if "valid_date d'" "d \<le> d'" "d' < e" for d'
    using that e by (metis period_dates_daily)
  ultimately show ?thesis
    using vd ve e by (auto simp: tiles_def period_dates_daily)
qed

lemma weekday_range: "0 \<le> weekday d \<and> weekday d \<le> 6"
  by (simp add: weekday_def)

lemma tiles_weekly: "middle_year d \<Longrightarrow> tiles ''weekly'' d"
proof -
  assume m: "middle_year d"
  note o = middle_year_ordinal [OF m]
  have vd: "valid_date d" using m by (simp add: middle_year_def)
  obtain s where s: "date_add_days d (- weekday d) = Inr s"
    using o weekday_range [of d] by (simp add: date_add_days_def Let_def)
  have vs: "valid_date s" "toordinal s = toordinal d - weekday d"
    using date_add_days_valid [OF s] date_add_days_toordinal [OF s] by auto
  obtain e where e: "date_add_days s 7 = Inr e"
    using o vs weekday_range [of d] by (simp add: date_add_days_def Let_def)
  have ve: "valid_date e" "toordinal e = toordinal s + 7"
    using date_add_days_valid [OF e] date_add_days_toordinal [OF e] by auto
  have "s \<le> d" using toordinal_le_iff [OF vs(1) vd] vs(2) weekday_range [of d] by simp
  moreover have "d < e" using toordinal_less_iff [OF vd ve(1)] vs(2) ve(2) weekday_range [of d] by simp
  moreover have "date_add_days d' (- weekday d') = Inr s" if "valid_date d'" "s \<le> d'" "d' < e" for d'
  proof -
    have r: "toordinal s \<le> toordinal d'" "toordinal d' < toordinal s + 7"
      using that vs ve toordinal_le_iff [OF vs(1) that(1)] toordinal_less_iff [OF that(1) ve(1)] by auto
    have z: "(toordinal s + 6) mod 7 = 0" using vs(2) unfolding weekday_def by presburger
    have "toordinal d' - weekday d' = toordinal s"
      using r z unfolding weekday_def by presburger
    with vs(1) toordinal_range [OF vs(1)] show ?thesis
      by (auto simp: date_add_days_def Let_def fromordinal_toordinal)
  qed
  ultimately show ?thesis
    using vs ve e s by (auto simp: tiles_def period_dates_def)
qed

text \<open>Windows that run from the first of one month to the first of a later one.\<close>

definition first_after :: "int \<Rightarrow> int \<Rightarrow> int \<Rightarrow> date" where
  "first_after y m n = (if m + n \<le> 12 then Date y (m + n) 1 else Date (y + 1) (m + n - 12) 1)"

lemma first_after_valid:
  assumes "2 \<le> y" "y \<le> 9998" "1 \<le> m" "0 < n" "m + n \<le> 13"
  shows "valid_date (Date y m 1) \<and> valid_date (first_after y m n)"
  using assms days_in_month_pos [of y m] days_in_month_pos [of y "m + n"] days_in_month_pos [of "y + 1" "m + n - 12"]
  by (auto simp: first_after_def)

lemma add_months_first:
  assumes "2 \<le> y" "y \<le> 9998" "1 \<le> m" "0 < n" "m + n \<le> 13"
  shows "add_months (Date y m 1) n = Inr (first_after y m n)"
proof -
  have "(m - 1 + n) div 12 = (if m + n \<le> 12 then 0 else 1)"
    "(m - 1 + n) mod 12 + 1 = (if m + n \<le> 12 then m + n else m + n - 12)"
  proof -
    define k where "k = m - 1 + n"
    have k: "1 \<le> k" "k \<le> 12" "m + n = k + 1" using assms by (simp_all add: k_def)
    have "k div 12 = (if k + 1 \<le> 12 then 0 else 1)" "k mod 12 + 1 = (if k + 1 \<le> 12 then k + 1 else k + 1 - 12)"
      using k(1,2) by (cases "k = 12"; simp)+
    then show "(m - 1 + n) div 12 = (if m + n \<le> 12 then 0 else 1)"
      "(m - 1 + n) mod 12 + 1 = (if m + n \<le> 12 then m + n else m + n - 12)"
      unfolding k(3) k_def [symmetric] by blast+
  qed
  then have "add_months (Date y m 1) n =
      (if m + n \<le> 12 then mk_date y (m + n) 1 else mk_date (y + 1) (m + n - 12) 1)"
    by (simp add: add_months_def Let_def)
  with first_after_valid [OF assms] show ?thesis
    by (auto simp: first_after_def mk_date_valid simp del: valid_date.simps)
qed

lemma in_months:
  assumes "1 \<le> m" "0 < n" "m + n \<le> 13" "valid_date (Date y' m' k)"
  shows "Date y m 1 \<le> Date y' m' k \<and> Date y' m' k < first_after y m n \<longleftrightarrow> y' = y \<and> m \<le> m' \<and> m' < m + n"
  using assms by (auto simp: first_after_def date_order split: if_splits)

lemma tiles_months:
  assumes d: "middle_year (Date y m k)"
    and period: "\<And>k' m'. 1 \<le> m' \<Longrightarrow> m' \<le> 12 \<Longrightarrow> s \<le> m' \<and> m' < s + n \<Longrightarrow>
        period_dates period (Date y m' k') = map_sum id (Pair (Date y s 1)) (add_months (Date y s 1) n)"
    and s: "1 \<le> s" "0 < n" "s + n \<le> 13" "s \<le> m" "m < s + n"
  shows "tiles period (Date y m k)"
proof -
  have v: "2 \<le> y" "y \<le> 9998" "valid_date (Date y m k)" using d by (auto simp: middle_year_def)
  have all: "period_dates period (Date y m' k') = Inr (Date y s 1, first_after y s n)"
    if "s \<le> m'" "m' < s + n" for m' k'
    using period [of m' k'] that s add_months_first [OF v(1,2) s(1-3)] by auto
  have "period_dates period d' = Inr (Date y s 1, first_after y s n)"
    if "valid_date d'" "Date y s 1 \<le> d'" "d' < first_after y s n" for d'
    using that in_months [OF s(1-3), of "yr d'" "mon d'" "dy d'" y] all [of "mon d'" "dy d'"]
    by (cases d') auto
  with all [OF s(4,5)] in_months [OF s(1-3) v(3), of y] s first_after_valid [OF v(1,2) s(1-3)]
  show ?thesis unfolding tiles_def by blast
qed

lemma tiles_calendar:
  assumes "middle_year d"
  shows "tiles ''monthly'' d" "tiles ''quarterly'' d" "tiles ''yearly'' d"
proof -
  obtain y m k where d: "d = Date y m k" by (cases d)
  have m: "1 \<le> m" "m \<le> 12" using assms d by (auto simp: middle_year_def)
  have v: "2 \<le> y" "y \<le> 9998" using assms d by (auto simp: middle_year_def)
  show "tiles ''monthly'' d"
    unfolding d by (rule tiles_months [where s = m and n = 1])
      (use assms d m in \<open>auto simp: period_dates_def\<close>)
  define q where "q = (m - 1) div 3"
  have t: "q * 3 \<le> m - 1" "m - 1 < q * 3 + 3"
    using div_mult_mod_eq [of "m - 1" 3] pos_mod_bound [of 3 "m - 1"] pos_mod_sign [of 3 "m - 1"]
    unfolding q_def by linarith+
  have "0 \<le> q" using m by (simp add: q_def pos_imp_zdiv_nonneg_iff)
  have "q \<le> 3" using t(1) m(2) by simp
  with \<open>0 \<le> q\<close> t m have q: "1 \<le> q * 3 + 1" "q * 3 + 1 + 3 \<le> 13" "q * 3 + 1 \<le> m" "m < q * 3 + 1 + 3"
    by linarith+
  have same: "(m' - 1) div 3 = q" if "q * 3 + 1 \<le> m'" "m' < q * 3 + 1 + 3" for m'
    using that by (intro int_div_pos_eq [of _ _ _ "m' - 1 - q * 3"]) auto
  show "tiles ''quarterly'' d"
    unfolding d
  proof (rule tiles_months [where s = "q * 3 + 1" and n = 3])
    show "period_dates ''quarterly'' (Date y m' k') =
        map_sum id (Pair (Date y (q * 3 + 1) 1)) (add_months (Date y (q * 3 + 1) 1) 3)"
      if "q * 3 + 1 \<le> m' \<and> m' < q * 3 + 1 + 3" for k' m'
      using same [of m'] that by (simp add: period_dates_def Let_def)
  qed (use assms d q in auto)
  have "mk_date (y + 1) 1 1 = add_months (Date y 1 1) 12"
    by (simp add: add_months_def)
  then show "tiles ''yearly'' d"
    unfolding d by (intro tiles_months [where s = 1 and n = 12])
      (use assms d m in \<open>auto simp: period_dates_def\<close>)
qed

lemma periods_tile: "period \<in> set QUOTA_PERIODS \<Longrightarrow> middle_year d \<Longrightarrow> tiles period d"
  using tiles_daily tiles_weekly tiles_calendar by (auto simp: QUOTA_PERIODS_def)

lemma date_of_valid: "datable t \<Longrightarrow> valid_date (date_of t) \<and> toordinal (date_of t) = t div days 1"
  by (simp add: datable_def date_of_def valid_fromordinal toordinal_fromordinal)

lemma mult_le_iff_le_div:
  assumes "0 < (k::int)"
  shows "n * k \<le> t \<longleftrightarrow> n \<le> t div k"
proof
  assume "n * k \<le> t"
  from zdiv_mono1 [OF this assms] assms show "n \<le> t div k" by simp
next
  assume "n \<le> t div k"
  then have "n * k \<le> t div k * k" using assms by (intro mult_right_mono) auto
  also have "\<dots> \<le> t" using div_mult_mod_eq [of t k] pos_mod_sign [OF assms, of t] by linarith
  finally show "n * k \<le> t" .
qed

lemma at_midnight_le: "datable t \<Longrightarrow> valid_date s \<Longrightarrow> at_midnight s \<le> t \<longleftrightarrow> s \<le> date_of t"
proof -
  assume t: "datable t" and s: "valid_date s"
  have "0 < days 1" by (simp add: days_def)
  then have "at_midnight s \<le> t \<longleftrightarrow> toordinal s \<le> t div days 1"
    unfolding at_midnight_def by (rule mult_le_iff_le_div)
  then show ?thesis using date_of_valid [OF t] toordinal_le_iff [OF s, of "date_of t"] by metis
qed

lemma less_at_midnight: "datable t \<Longrightarrow> valid_date e \<Longrightarrow> t < at_midnight e \<longleftrightarrow> date_of t < e"
  using at_midnight_le [of t e] by (auto simp: not_le [symmetric])

text \<open>
  The windows quotas are counted in tile the calendar.  For each of the five periods and
  every moment of the years 2 to 9998 the window exists, contains the moment, and is the window
  of every other moment in it - so no page is counted in two periods and none in no period.
\<close>

theorem quota_periods_partition_time:
  assumes "period \<in> set QUOTA_PERIODS" "datable now" "2 \<le> yr (date_of now)" "yr (date_of now) \<le> 9998"
  shows "\<exists>s e. period_bounds period now = Inr (s, e) \<and> s \<le> now \<and> now < e \<and>
    (\<forall>t. datable t \<and> s \<le> t \<and> t < e \<longrightarrow> period_bounds period t = Inr (s, e))"
proof -
  have "middle_year (date_of now)" using assms date_of_valid by (simp add: middle_year_def)
  from periods_tile [OF assms(1) this] obtain s e where se:
    "period_dates period (date_of now) = Inr (s, e)" "valid_date s" "valid_date e" "s \<le> date_of now"
    "date_of now < e"
    "\<And>d'. valid_date d' \<Longrightarrow> s \<le> d' \<Longrightarrow> d' < e \<Longrightarrow> period_dates period d' = Inr (s, e)"
    unfolding tiles_def by blast
  have "period_bounds period t = Inr (at_midnight s, at_midnight e)"
    if "datable t" "at_midnight s \<le> t" "t < at_midnight e" for t
    using that se date_of_valid [of t] at_midnight_le [of t s] less_at_midnight [of t e]
    by (simp add: period_bounds_dates)
  moreover have "at_midnight s \<le> now" "now < at_midnight e"
    using se at_midnight_le [OF assms(2)] less_at_midnight [OF assms(2)] by auto
  ultimately show ?thesis using assms(2) by blast
qed

theorem quota_periods_partition_time_witness:
  "\<exists>s e. period_bounds ''weekly'' (days 738000) = Inr (s, e) \<and> s \<le> days 738000 \<and> days 738000 < e"
proof -
  have "datable (days 738000)" by (simp add: datable_def MAXORDINAL_def days_def)
  moreover have "date_of (days 738000) = Date 2021 7 29" by code_simp
  ultimately show ?thesis
    using quota_periods_partition_time [of "''weekly''" "days 738000"] by (auto simp: QUOTA_PERIODS_def)
qed

subsection \<open>The order of the reasons\<close>

definition release_held :: "quota_db \<Rightarrow> printer \<Rightarrow> string option \<Rightarrow> bool" where
  "release_held db p u \<longleftrightarrow> (printer_release_required p \<or> printer_follow_me_enabled p) \<and>
     \<not> (\<exists>email. u = Some email \<and> (printer_id p, email) \<in> set (qd_bypasses db))"

definition over_quota :: "quota_db \<Rightarrow> printer \<Rightarrow> string option \<Rightarrow> datetime \<Rightarrow> bool" where
  "over_quota db p u now \<longleftrightarrow>
     (\<exists>email quota limit s e. u = Some email \<and> qd_enabled db \<and>
        get_effective_quota (qd_quotas db) p u = Some quota \<and> uq_page_limit quota = Some limit \<and>
        period_bounds (uq_period quota) now = Inr (s, e) \<and>
        limit \<le> get_pages_used (qd_jobs db) (printer_id p) email s e)"

text \<open>
  Why a job is held.  The release holds come first - follow-me before PIN release, and
  neither for a bypassed person - then an offline printer, then a quota already used up; nothing
  else holds a job; and only the quota hold writes anything.
\<close>

theorem hold_reason_precedence:
  "case resolve_hold_reason db p u now eid of
     Inl err \<Rightarrow> \<not> release_held db p u \<and> printer_status p \<noteq> ''offline'' \<and>
       (\<exists>quota. get_effective_quota (qd_quotas db) p u = Some quota \<and>
          period_bounds (uq_period quota) now = Inl err)
   | Inr (reason, ndb) \<Rightarrow>
       reason =
         (if release_held db p u
          then Some (if printer_follow_me_enabled p then ''follow_me'' else ''pin_release'')
          else if printer_status p = ''offline'' then Some ''printer_offline''
          else if over_quota db p u now then Some ''quota'' else None) \<and>
       (if reason = Some ''quota'' then True else ndb = qd_notify db)"
proof (cases u)
  case None
  then show ?thesis
    by (auto simp: resolve_hold_reason_def release_held_def over_quota_def Let_def)
next
  case (Some email)
  show ?thesis
  proof (cases "release_held db p u \<or> printer_status p = ''offline''")
    case True
    then show ?thesis using Some
      by (auto simp: resolve_hold_reason_def release_held_def has_release_bypass_def Let_def)
  next
    case False
    then have start: "resolve_hold_reason db p u now eid =
        (if \<not> qd_enabled db then Inr (None, qd_notify db)
         else (case get_effective_quota (qd_quotas db) p u of
             None \<Rightarrow> Inr (None, qd_notify db)
           | Some quota \<Rightarrow> (case uq_page_limit quota of
               None \<Rightarrow> Inr (None, qd_notify db)
             | Some limit \<Rightarrow> (case period_bounds (uq_period quota) now of
                 Inl err \<Rightarrow> Inl err
               | Inr (s, e) \<Rightarrow>
                   if get_pages_used (qd_jobs db) (printer_id p) email s e \<ge> limit
                   then Inr (Some ''quota'', snd (observe (Some (qd_notification_settings db))
                     (quota_observation eid p email quota (get_pages_used (qd_jobs db) (printer_id p) email s e) limit s)
                     now (qd_notify db)))
                   else Inr (None, qd_notify db)))))"
      using Some unfolding resolve_hold_reason_def Let_def
      by (auto simp: release_held_def has_release_bypass_def)
    have free: "\<not> release_held db p u" "printer_status p \<noteq> ''offline''" using False by auto
    show ?thesis
      unfolding start over_quota_def using free Some
      by (auto split: option.splits sum.splits prod.splits if_splits)
  qed
qed

subsection \<open>One message per person and period\<close>

lemma told_stays:
  assumes "condition_of db (ob_dedupe_key ob) = Told"
  shows "fst (observe settings ob now db) = None"
  using arg_cong [OF observe_sight [OF refl, of settings ob now db], of fst] assms by simp

lemma observe_immediate_repeats_not:
  assumes "ob_dedupe_key ob' = ob_dedupe_key ob" "ob_kind ob' = ob_kind ob" "ob_raise_immediately ob"
  shows "fst (observe settings ob' now' (snd (observe settings ob now db))) = None"
proof -
  let ?k = "ob_dedupe_key ob" and ?on = "kind_enabled settings (ob_kind ob)"
  let ?db = "snd (observe settings ob now db)"
  have c: "condition_of ?db ?k = snd (sight ?on True (settle_time settings) now (condition_of db ?k))"
    using arg_cong [OF observe_sight [OF refl, of settings ob now db], of snd] assms(3) by simp
  have r: "(fst (observe settings ob' now' ?db) \<noteq> None) =
      fst (sight ?on (ob_raise_immediately ob') (settle_time settings) now' (condition_of ?db ?k))"
    using arg_cong [OF observe_sight [OF refl, of settings ob' now' ?db], of fst] assms(1,2) by simp
  show ?thesis
  proof (cases ?on)
    case True
    then have "condition_of ?db ?k = Told" unfolding c by (cases "condition_of db ?k") auto
    then show ?thesis using r by simp
  next
    case False
    then show ?thesis using r unfolding c by (cases "condition_of db ?k") auto
  qed
qed

lemma examine_events:
  "nd_events (snd (examine s ob now st db)) = nd_events db @
     (case fst (examine s ob now st db) of None \<Rightarrow> [] | Some e \<Rightarrow> [e])"
  by (auto simp: examine_def Let_def touch_state_def claim_state_def add_event_def split: option.splits if_splits)

lemma observe_events:
  "nd_events (snd (observe s ob now db)) = nd_events db @
     (case fst (observe s ob now db) of None \<Rightarrow> [] | Some e \<Rightarrow> [e])"
  by (auto simp: observe_def examine_events insert_state_def split: option.splits if_splits)

text \<open>
  A person held at their quota is reported once for the period, however many jobs they go
  on to send in it: after one hold has been decided, a later decision on the same settings at
  any moment of the same period adds no event, whatever jobs arrived in between.
\<close>

theorem quota_reported_once_per_period:
  assumes "resolve_hold_reason db p (Some u) now eid = Inr (Some ''quota'', ndb)"
    and "get_effective_quota (qd_quotas db) p (Some u) = Some quota"
    and "uq_period quota \<in> set QUOTA_PERIODS" "datable now" "2 \<le> yr (date_of now)" "yr (date_of now) \<le> 9998"
    and "period_bounds (uq_period quota) now = Inr (s, e)" "datable later" "s \<le> later" "later < e"
    and "resolve_hold_reason (db\<lparr>qd_jobs := jobs, qd_notify := ndb\<rparr>) p (Some u) later eid' = Inr (reason, ndb')"
  shows "nd_events ndb' = nd_events ndb"
proof (cases "reason = Some ''quota''")
  case False
  with hold_reason_precedence [of "db\<lparr>qd_jobs := jobs, qd_notify := ndb\<rparr>" p "Some u" later eid'] assms(11)
  show ?thesis by auto
next
  case True
  have again: "period_bounds (uq_period quota) later = Inr (s, e)"
    using quota_periods_partition_time [OF assms(3-6)] assms(7-10) by auto
  have not_quota: "(if follow then ''follow_me'' else ''pin_release'') \<noteq> ''quota''" for follow :: bool
    by simp
  obtain limit where ndb: "ndb = snd (observe (Some (qd_notification_settings db))
      (quota_observation eid p u quota (get_pages_used (qd_jobs db) (printer_id p) u s e) limit s) now (qd_notify db))"
    and limit: "uq_page_limit quota = Some limit"
    using assms(1,2,7) not_quota
    by (auto simp: resolve_hold_reason_def Let_def split: if_splits option.splits)
  have ndb': "ndb' = snd (observe (Some (qd_notification_settings db))
      (quota_observation eid' p u quota (get_pages_used jobs (printer_id p) u s e) limit s) later ndb)"
    using assms(11) assms(2) again limit True not_quota
    by (auto simp: resolve_hold_reason_def Let_def split: if_splits)
  have "fst (observe (Some (qd_notification_settings db))
      (quota_observation eid' p u quota (get_pages_used jobs (printer_id p) u s e) limit s) later ndb) = None"
    unfolding ndb by (rule observe_immediate_repeats_not) (simp_all add: quota_observation_def)
  then show ?thesis unfolding ndb' by (simp add: observe_events)
qed

definition example_quotas :: quota_db where
  "example_quotas =
     \<lparr>qd_enabled = True,
      qd_quotas = [\<lparr>uq_printer_id = ''p'', uq_user_email = Some ''u'', uq_period = ''daily'', uq_page_limit = Some 0\<rparr>],
      qd_bypasses = [], qd_jobs = [], qd_notification_settings = all_on,
      qd_notify = \<lparr>nd_states = [], nd_events = []\<rparr>\<rparr>"

lemma example_period: "period_bounds ''daily'' (days 738000) = Inr (days 738000, days 738001)"
  "yr (date_of (days 738000)) = 2021"
  by code_simp+

theorem quota_reported_once_per_period_witness:
  "\<exists>ndb ndb'. resolve_hold_reason example_quotas (printer_defaults ''p'' ''LCACTC'') (Some ''u'') (days 738000) ''e1'' =
       Inr (Some ''quota'', ndb) \<and>
     resolve_hold_reason (example_quotas\<lparr>qd_jobs := [], qd_notify := ndb\<rparr>) (printer_defaults ''p'' ''LCACTC'')
       (Some ''u'') (days 738000 + hours 1) ''e2'' = Inr (Some ''quota'', ndb') \<and> nd_events ndb' = nd_events ndb"
proof -
  let ?p = "printer_defaults ''p'' ''LCACTC''"
  have t: "datable (days 738000)" "datable (days 738000 + hours 1)"
    "days 738000 \<le> days 738000 + hours 1" "days 738000 + hours 1 < days 738001"
    by (simp_all add: datable_def MAXORDINAL_def days_def hours_def)
  have q: "get_effective_quota (qd_quotas example_quotas) ?p (Some ''u'') = Some (hd (qd_quotas example_quotas))"
    "uq_period (hd (qd_quotas example_quotas)) = ''daily''" "qd_jobs example_quotas = []"
    "uq_page_limit (hd (qd_quotas example_quotas)) = Some 0" "qd_enabled example_quotas"
    by (simp_all add: example_quotas_def get_effective_quota_def get_user_quota_def printer_defaults_def)
  have free: "\<not> (printer_release_required ?p \<or> printer_follow_me_enabled ?p)" "printer_status ?p \<noteq> ''offline''"
    by (simp_all add: printer_defaults_def)
  have same: "period_bounds ''daily'' (days 738000 + hours 1) = Inr (days 738000, days 738001)"
    using quota_periods_partition_time [of "''daily''" "days 738000"] example_period t
    by (auto simp: QUOTA_PERIODS_def)
  obtain ndb where one: "resolve_hold_reason example_quotas ?p (Some ''u'') (days 738000) ''e1'' = Inr (Some ''quota'', ndb)"
    using free q example_period by (simp add: resolve_hold_reason_def get_pages_used_def)
  obtain ndb' where two: "resolve_hold_reason (example_quotas\<lparr>qd_jobs := [], qd_notify := ndb\<rparr>) ?p
       (Some ''u'') (days 738000 + hours 1) ''e2'' = Inr (Some ''quota'', ndb')"
    using free q same by (simp add: resolve_hold_reason_def get_pages_used_def)
  from quota_reported_once_per_period [OF one q(1) _ t(1) _ _ _ t(2-4) two] q(2) example_period one two
  show ?thesis by (auto simp: QUOTA_PERIODS_def)
qed

end
