(* ===== verification/Attribution.thy ===== *)
theory Attribution
  imports Models
begin

section \<open>Who sent a job (app/attribution/resolve.py)\<close>

text \<open>
  The ordered chain that turns the name CUPS reports and the host a job came from into a
  person: the ClassGuard lookup of the host's MAC address, the admin's device overrides, the
  Mosyle and Google Workspace device caches with the roster they are reconciled against, and
  the alias table.  Parameters: the HTTP answer of ClassGuard, the decryption of its token, and
  the case mapping of the language (\<open>py_lower\<close>) and of the database (\<open>sql_lower\<close>), which differ
  outside ASCII.  Exceptions that escape are the left value.
\<close>

datatype attribution_error = AttributeError | MultipleResultsFound | InvalidToken

subsection \<open>IP literals (ipaddress.ip_address)\<close>

fun split_on :: "char \<Rightarrow> string \<Rightarrow> string list" where
  "split_on sep [] = [[]]"
| "split_on sep (c # cs) =
     (if c = sep then [] # split_on sep cs
      else (case split_on sep cs of [] \<Rightarrow> [[c]] | part # parts \<Rightarrow> (c # part) # parts))"

definition is_octet :: "string \<Rightarrow> bool" where
  "is_octet s \<longleftrightarrow> isdigit s \<and> length s \<le> 3 \<and> (s = ''0'' \<or> hd s \<noteq> CHR ''0'') \<and> digits_value s \<le> 255"

definition is_ipv4 :: "string \<Rightarrow> bool" where
  "is_ipv4 s \<longleftrightarrow> (let parts = split_on CHR ''.'' s in length parts = 4 \<and> list_all is_octet parts)"

definition is_hextet :: "string \<Rightarrow> bool" where
  "is_hextet s \<longleftrightarrow> s \<noteq> [] \<and> length s \<le> 4 \<and> list_all (\<lambda>c. c \<in> set ''0123456789abcdefABCDEF'') s"

text \<open>The colon-separated parts, an IPv4 tail standing for two of them; \<open>None\<close> when it is malformed.\<close>

definition v6_parts :: "string \<Rightarrow> string list option" where
  "v6_parts s =
     (let parts = split_on CHR '':'' s
      in if length parts < 3 then None
         else if CHR ''.'' \<in> set (last parts)
         then (if is_ipv4 (last parts) then Some (butlast parts @ [''0'', ''0'']) else None)
         else Some parts)"

definition v6_ok :: "string list \<Rightarrow> bool" where
  "v6_ok parts =
     (let gaps = filter (\<lambda>i. parts ! i = []) [1..<length parts - 1]
      in if length parts > 9 \<or> length gaps > 1 then False
         else
           (case gaps of
              [] \<Rightarrow> length parts = 8 \<and> list_all is_hextet parts
            | gap # _ \<Rightarrow>
                (let hi = (if hd parts = [] then gap - 1 else gap);
                     lo = (if last parts = [] then length parts - gap - 2 else length parts - gap - 1)
                 in (hd parts \<noteq> [] \<or> hi = 0) \<and> (last parts \<noteq> [] \<or> lo = 0) \<and> hi + lo < 8 \<and>
                    list_all is_hextet (take hi parts) \<and>
                    list_all is_hextet (drop (length parts - lo) parts))))"

definition is_ipv6 :: "string \<Rightarrow> bool" where
  "is_ipv6 s =
     (let addr = takeWhile (\<lambda>c. c \<noteq> CHR ''%'') s; scope = drop (Suc (length addr)) s
      in if CHR ''/'' \<in> set s \<or> (CHR ''%'' \<in> set s \<and> (scope = [] \<or> CHR ''%'' \<in> set scope)) then False
         else (case v6_parts addr of None \<Rightarrow> False | Some parts \<Rightarrow> v6_ok parts))"

definition is_ip_address :: "string \<Rightarrow> bool" where
  "is_ip_address s \<longleftrightarrow> is_ipv4 s \<or> is_ipv6 s"

subsection \<open>ClassGuard (app/integrations/classguard.py)\<close>

record classguard_settings =
  cg_enabled :: bool
  cg_access_token_encrypted :: "string option"

text \<open>What the GET came to: an \<open>httpx.HTTPError\<close>, or a status with its decoded body, if it is JSON.\<close>

datatype lease_answer = LeaseUnreachable | LeaseResponse int "json option"

text \<open>\<open>ClassGuardError\<close> is \<open>Inr None\<close> here: every caller catches it and goes on without a MAC.\<close>

definition lookup_mac :: "(string \<Rightarrow> lease_answer) \<Rightarrow> string \<Rightarrow> attribution_error + json option" where
  "lookup_mac get ip =
     (case get ip of
        LeaseUnreachable \<Rightarrow> Inr None
      | LeaseResponse status body \<Rightarrow>
          if status \<noteq> 200 then Inr None
          else (case body of
                  None \<Rightarrow> Inr None
                | Some (JObj kvs) \<Rightarrow>
                    (case map_of kvs ''mac_address'' of
                       None \<Rightarrow> Inr None
                     | Some mac \<Rightarrow> if json_bool mac then Inr (Some mac) else Inr None)
                | Some _ \<Rightarrow> Inl AttributeError))"

record attribution_db =
  ad_classguard :: "classguard_settings option"
  ad_aliases :: "(string \<times> string) list"
  ad_overrides :: "(string \<times> string) list"
  ad_mosyle_enabled :: bool
  ad_mosyle_devices :: "(string \<times> string option \<times> string option) list" \<comment> \<open>MAC, e-mail, user name\<close>
  ad_workspace_enabled :: bool
  ad_workspace_devices :: "(string \<times> string option) list"
  ad_roster :: "string list" \<comment> \<open>the e-mail addresses of the Workspace accounts\<close>

record outside_world =
  ow_lease :: "string \<Rightarrow> lease_answer"
  ow_decrypt :: "string \<Rightarrow> string option"
  ow_py_lower :: "string \<Rightarrow> string"
  ow_sql_lower :: "string \<Rightarrow> string"

definition lookup_mac_for_source ::
  "outside_world \<Rightarrow> attribution_db \<Rightarrow> string \<Rightarrow> attribution_error + json option" where
  "lookup_mac_for_source w db source_host =
     (if \<not> is_ip_address source_host then Inr None
      else (case ad_classguard db of
              None \<Rightarrow> Inr None
            | Some settings \<Rightarrow>
                if \<not> cg_enabled settings then Inr None
                else (case cg_access_token_encrypted settings of
                        None \<Rightarrow> Inr None
                      | Some token \<Rightarrow>
                          if token = [] then Inr None
                          else (case ow_decrypt w token of
                                  None \<Rightarrow> Inl InvalidToken
                                | Some _ \<Rightarrow> lookup_mac (ow_lease w) source_host))))"

definition ascii_upper :: "char \<Rightarrow> char" where
  "ascii_upper c = (let n = of_char c :: nat in if 97 \<le> n \<and> n \<le> 122 then char_of (n - 32) else c)"

definition normalize_mac :: "string \<Rightarrow> string" where
  "normalize_mac mac = map (\<lambda>c. if c = CHR ''-'' then CHR '':'' else ascii_upper c) (py_strip mac)"

subsection \<open>The roster and the aliases\<close>

definition GENERIC_CUPS_USERS :: "string list" where
  "GENERIC_CUPS_USERS = ['''', ''anonymous'']"

definition looks_like_email :: "string \<Rightarrow> bool" where
  "looks_like_email v \<longleftrightarrow> CHR ''@'' \<in> set v"

text \<open>\<open>scalar_one_or_none\<close> on a column without a constraint of its own.\<close>

definition one_or_none :: "'a list \<Rightarrow> attribution_error + 'a option" where
  "one_or_none rows = (case rows of [] \<Rightarrow> Inr None | [r] \<Rightarrow> Inr (Some r) | _ \<Rightarrow> Inl MultipleResultsFound)"

definition find_roster_user_by_email ::
  "outside_world \<Rightarrow> string list \<Rightarrow> string \<Rightarrow> attribution_error + string option" where
  "find_roster_user_by_email w roster email =
     one_or_none (filter (\<lambda>e. ow_sql_lower w e = ow_py_lower w (py_strip email)) roster)"

definition find_attribution_alias ::
  "outside_world \<Rightarrow> (string \<times> string) list \<Rightarrow> string \<Rightarrow> string option" where
  "find_attribution_alias w aliases v = map_of aliases (ow_py_lower w (py_strip v))"

definition local_part :: "string \<Rightarrow> string" where
  "local_part email = takeWhile (\<lambda>c. c \<noteq> CHR ''@'') email"

definition find_roster_user_by_local_part ::
  "outside_world \<Rightarrow> string list \<Rightarrow> string \<Rightarrow> string option" where
  "find_roster_user_by_local_part w roster username =
     (let key = ow_py_lower w (py_strip username)
      in if key = [] then None
         else (case filter (\<lambda>e. ow_py_lower w (local_part e) = key) roster of
                 [m] \<Rightarrow> Some m
               | _ \<Rightarrow> None))"

subsection \<open>The chain\<close>

definition clean_cups_user :: "outside_world \<Rightarrow> string option \<Rightarrow> string option" where
  "clean_cups_user w cups_user =
     (case cups_user of
        None \<Rightarrow> None
      | Some u \<Rightarrow> if u \<noteq> [] \<and> ow_py_lower w (py_strip u) \<notin> set GENERIC_CUPS_USERS then Some u else None)"

definition source_mac ::
  "outside_world \<Rightarrow> attribution_db \<Rightarrow> string option \<Rightarrow> attribution_error + string option" where
  "source_mac w db source_host =
     (if \<not> truthy source_host then Inr None
      else (case lookup_mac_for_source w db (the source_host) of
              Inl e \<Rightarrow> Inl e
            | Inr None \<Rightarrow> Inr None
            | Inr (Some (JStr raw)) \<Rightarrow> Inr (Some (normalize_mac raw))
            | Inr (Some _) \<Rightarrow> Inl AttributeError))"

definition mosyle_user ::
  "outside_world \<Rightarrow> attribution_db \<Rightarrow> string \<Rightarrow> attribution_error + string option" where
  "mosyle_user w db mac =
     (if \<not> ad_mosyle_enabled db then Inr None
      else (case map_of (ad_mosyle_devices db) mac of
              None \<Rightarrow> Inr None
            | Some (email, name) \<Rightarrow>
                (case (if truthy email then find_roster_user_by_email w (ad_roster db) (the email)
                       else Inr None) of
                   Inl e \<Rightarrow> Inl e
                 | Inr m \<Rightarrow>
                     (let roster_match = (if m = None \<and> truthy name
                            then find_roster_user_by_local_part w (ad_roster db) (the name) else m)
                      in case roster_match of
                           Some u \<Rightarrow> Inr (Some u)
                         | None \<Rightarrow> if truthy email then Inr email else Inr None))))"

definition workspace_user :: "attribution_db \<Rightarrow> string \<Rightarrow> string option" where
  "workspace_user db mac =
     (if \<not> ad_workspace_enabled db then None
      else (case map_of (ad_workspace_devices db) mac of
              None \<Rightarrow> None
            | Some email \<Rightarrow> if truthy email then email else None))"

definition last_resort ::
  "outside_world \<Rightarrow> attribution_db \<Rightarrow> string option \<Rightarrow> string option \<Rightarrow> string option \<Rightarrow>
   string \<times> string \<times> string option" where
  "last_resort w db cups_user clean mac =
     (case clean of
        Some u \<Rightarrow>
          (case find_attribution_alias w (ad_aliases db) u of
             Some email \<Rightarrow> (email, ''alias'', mac)
           | None \<Rightarrow> (u, ''cups'', mac))
      | None \<Rightarrow> (if truthy cups_user then the cups_user else ''unknown'', ''unresolved'', mac))"

definition by_device ::
  "outside_world \<Rightarrow> attribution_db \<Rightarrow> string option \<Rightarrow> string option \<Rightarrow> string option \<Rightarrow>
   attribution_error + (string \<times> string \<times> string option)" where
  "by_device w db cups_user clean source_host =
     (case source_mac w db source_host of
        Inl e \<Rightarrow> Inl e
      | Inr mac \<Rightarrow>
          if \<not> truthy mac then Inr (last_resort w db cups_user clean mac)
          else
            (case map_of (ad_overrides db) (the mac) of
               Some email \<Rightarrow> Inr (email, ''override'', mac)
             | None \<Rightarrow>
                 (case mosyle_user w db (the mac) of
                    Inl e \<Rightarrow> Inl e
                  | Inr (Some u) \<Rightarrow> Inr (u, ''mosyle'', mac)
                  | Inr None \<Rightarrow>
                      (case workspace_user db (the mac) of
                         Some u \<Rightarrow> Inr (u, ''google_workspace'', mac)
                       | None \<Rightarrow> Inr (last_resort w db cups_user clean mac)))))"

definition resolve_user ::
  "outside_world \<Rightarrow> attribution_db \<Rightarrow> string option \<Rightarrow> string option \<Rightarrow>
   attribution_error + (string \<times> string \<times> string option)" where
  "resolve_user w db cups_user source_host =
     (let clean = clean_cups_user w cups_user in
      case clean of
        Some u \<Rightarrow>
          if looks_like_email u then
            (case find_attribution_alias w (ad_aliases db) u of
               Some email \<Rightarrow> Inr (email, ''alias'', None)
             | None \<Rightarrow> Inr (u, ''cups'', None))
          else by_device w db cups_user clean source_host
      | None \<Rightarrow> by_device w db cups_user clean source_host)"

subsection \<open>When the chain answers\<close>

definition bad_lease :: "lease_answer \<Rightarrow> bool" where
  "bad_lease a \<longleftrightarrow>
     (case a of
        LeaseResponse status (Some (JObj kvs)) \<Rightarrow>
          status = 200 \<and> (case map_of kvs ''mac_address'' of None \<Rightarrow> False
             | Some (JStr raw) \<Rightarrow> False | Some v \<Rightarrow> json_bool v)
      | LeaseResponse status (Some _) \<Rightarrow> status = 200
      | _ \<Rightarrow> False)"

definition undecryptable :: "outside_world \<Rightarrow> attribution_db \<Rightarrow> bool" where
  "undecryptable w db \<longleftrightarrow>
     (\<exists>settings token. ad_classguard db = Some settings \<and>
        cg_access_token_encrypted settings = Some token \<and> ow_decrypt w token = None)"

definition ambiguous_roster :: "outside_world \<Rightarrow> string list \<Rightarrow> bool" where
  "ambiguous_roster w roster \<longleftrightarrow>
     (\<exists>email. 2 \<le> length (filter (\<lambda>e. ow_sql_lower w e = email) roster))"

lemma source_mac_error:
  "source_mac w db (Some host) = Inl e \<Longrightarrow>
   (e = AttributeError \<and> bad_lease (ow_lease w host)) \<or> (e = InvalidToken \<and> undecryptable w db)"
  by (auto simp: source_mac_def lookup_mac_for_source_def lookup_mac_def bad_lease_def undecryptable_def
      split: if_splits option.splits sum.splits lease_answer.splits json.splits)

lemma one_or_none_error: "one_or_none rows = Inl e \<Longrightarrow> e = MultipleResultsFound \<and> 2 \<le> length rows"
  by (auto simp: one_or_none_def split: list.splits)

lemma mosyle_user_error:
  "mosyle_user w db mac = Inl e \<Longrightarrow> e = MultipleResultsFound \<and> ambiguous_roster w (ad_roster db)"
  by (auto simp: mosyle_user_def find_roster_user_by_email_def ambiguous_roster_def Let_def
      split: if_splits option.splits sum.splits dest!: one_or_none_error)

lemma last_resort_methods:
  "last_resort w db cups_user clean mac = (u, m, mac') \<Longrightarrow>
   m \<in> {''alias'', ''cups'', ''unresolved''} \<and> mac' = mac \<and> (m = ''unresolved'' \<longleftrightarrow> clean = None)"
  by (auto simp: last_resort_def split: option.splits)


subsection \<open>A device before a bare name, and no guesses\<close>

text \<open>
  A short user name that anybody may share is believed only when the device says nothing:
  whenever the chain settles for the name CUPS reported (or its alias) and the name is no
  e-mail address, the MAC it found has no override, Mosyle knows nobody for it and neither does
  Google Workspace - and the MAC is handed back whatever the method.
\<close>

theorem device_before_bare_name:
  assumes "resolve_user w db (Some name) source_host = Inr (user, how, Some mac)"
  shows "\<not> (clean_cups_user w (Some name) = Some name \<and> looks_like_email name) \<and>
    source_mac w db source_host = Inr (Some mac) \<and>
    (if mac \<noteq> [] \<and> how \<in> {''cups'', ''alias'', ''unresolved''}
     then map_of (ad_overrides db) mac = None \<and> mosyle_user w db mac = Inr None \<and> workspace_user db mac = None
     else True)"
proof -
  have clean: "clean_cups_user w (Some name) \<in> {None, Some name}" by (simp add: clean_cups_user_def)
  have dev: "by_device w db (Some name) (clean_cups_user w (Some name)) source_host = Inr (user, how, Some mac)"
    and bare: "\<not> (clean_cups_user w (Some name) = Some name \<and> looks_like_email name)"
    using assms clean by (auto simp: resolve_user_def Let_def split: option.splits if_splits)
  show ?thesis
  proof (cases "source_mac w db source_host")
    case (Inr m)
    with dev have "m = Some mac"
      by (auto simp: by_device_def split: if_splits option.splits sum.splits dest!: last_resort_methods)
    with dev Inr bare show ?thesis
      by (auto simp: by_device_def split: if_splits option.splits sum.splits)
  qed (use dev in \<open>simp add: by_device_def\<close>)
qed

text \<open>
  No guess between two people: a Mosyle user name stands for a roster address only when it
  is the local part of exactly one of them.
\<close>

theorem local_part_never_guesses:
  "case find_roster_user_by_local_part w roster name of
     None \<Rightarrow> True
   | Some email \<Rightarrow>
       filter (\<lambda>e. ow_py_lower w (local_part e) = ow_py_lower w (py_strip name)) roster = [email] \<and>
       ow_py_lower w (py_strip name) \<noteq> []"
  by (auto simp: find_roster_user_by_local_part_def Let_def split: list.splits option.splits if_splits)

definition example_world :: outside_world where
  "example_world =
     \<lparr>ow_lease = \<lambda>ip. LeaseResponse 200 (Some (JObj [(''mac_address'', JStr ''aa-bb'')])),
      ow_decrypt = Some, ow_py_lower = map (\<lambda>c. c), ow_sql_lower = map (\<lambda>c. c)\<rparr>"

definition example_attribution :: attribution_db where
  "example_attribution =
     \<lparr>ad_classguard = Some \<lparr>cg_enabled = True, cg_access_token_encrypted = Some ''t''\<rparr>,
      ad_aliases = [], ad_overrides = [], ad_mosyle_enabled = True, ad_mosyle_devices = [],
      ad_workspace_enabled = False, ad_workspace_devices = [], ad_roster = []\<rparr>"

lemma example_attribution_runs:
  "resolve_user example_world example_attribution (Some ''matt'') (Some ''10.0.0.7'') =
     Inr (''matt'', ''cups'', Some ''AA:BB'')"
  by code_simp

theorem device_before_bare_name_witness:
  "map_of (ad_overrides example_attribution) ''AA:BB'' = None \<and>
   mosyle_user example_world example_attribution ''AA:BB'' = Inr None"
  using device_before_bare_name [OF example_attribution_runs] by simp

end
