(* ===== verification/Release.thy ===== *)
theory Release
  imports Prelude
begin

section \<open>Handing a held document to CUPS (app/printers/release.py, app/printers/media_options.py)\<close>

text \<open>
  The options a job was submitted with, their splitting and the removal of the page size, and
  the \<open>lp\<close> command that delivers a held document.  \<open>lp\<close> is a parameter, a function from its
  argument vector.
\<close>

definition MEDIA_OPTION_KEYS :: "string list" where
  "MEDIA_OPTION_KEYS =
     [''media'', ''media-col'', ''media-size'', ''media-top-margin'', ''media-bottom-margin'',
      ''media-left-margin'', ''media-right-margin'', ''PageSize'', ''PageRegion'']"

text \<open>
  One character of the scan: the quote that is open and whether the character is escaped, after
  it; \<open>None\<close> for a separator, which ends the token and leaves nothing open.
\<close>

type_synonym scan_state = "char option \<times> bool"

definition option_char :: "scan_state \<Rightarrow> char \<Rightarrow> scan_state option" where
  "option_char st c =
     (let (quote, escaped) = st in
      if escaped then Some (quote, False)
      else if c = CHR 0x5C then Some (quote, True)
      else (case quote of
          Some q \<Rightarrow> Some (if c = q then None else quote, False)
        | None \<Rightarrow>
            if c = CHR 0x22 \<or> c = CHR 0x27 then Some (Some c, False)
            else if py_isspace c then None
            else Some (None, False)))"

fun split_options :: "scan_state \<Rightarrow> string \<Rightarrow> string \<Rightarrow> string list" where
  "split_options st current [] = (if current \<noteq> [] then [current] else [])"
| "split_options st current (c # cs) =
     (case option_char st c of
        Some st' \<Rightarrow> split_options st' (current @ [c]) cs
      | None \<Rightarrow> if current \<noteq> [] then current # split_options (None, False) [] cs
                else split_options (None, False) [] cs)"

definition split_job_options :: "string \<Rightarrow> string list" where
  "split_job_options s = split_options (None, False) [] s"

definition option_key :: "string \<Rightarrow> string" where
  "option_key token = takeWhile (\<lambda>c. c \<noteq> CHR ''='') token"

definition strip_media_options :: "string \<Rightarrow> string" where
  "strip_media_options s =
     py_join '' '' (filter (\<lambda>t. option_key t \<notin> set MEDIA_OPTION_KEYS) (split_job_options s))"

definition parse_job_options :: "string option \<Rightarrow> string list" where
  "parse_job_options raw =
     (case raw of None \<Rightarrow> []
      | Some s \<Rightarrow> if s = [] then [] else filter (\<lambda>t. CHR ''='' \<in> set t) (py_split s))"

text \<open>
  How a delivery ends: handed over with \<open>lp\<close>'s answer, a \<open>ReleaseError\<close>, or an exception nobody
  catches (a held job without a document makes the argument vector invalid).
\<close>

datatype release_answer = Handed string | ReleaseError string | ReleaseCrash

definition release_argv :: "uuid \<Rightarrow> string \<Rightarrow> string option \<Rightarrow> int option \<Rightarrow> string option \<Rightarrow> bool \<Rightarrow> string list" where
  "release_argv pid path document_name copy_count held_job_options drop_page_size =
     (let options = (if truthy held_job_options then the held_job_options else []);
          options = (if drop_page_size then strip_media_options options else options)
      in [''lp'', ''-d'', ''printops-release-'' @ pid] @
         (if int_or_zero copy_count \<noteq> 0 then [''-n'', str_int (the copy_count)] else []) @
         (if truthy document_name then [''-t'', the document_name] else []) @
         concat (map (\<lambda>opt. [''-o'', opt]) (parse_job_options (Some options))) @ [path])"

definition submit_released_job ::
  "runner \<Rightarrow> uuid \<Rightarrow> string option \<Rightarrow> string option \<Rightarrow> int option \<Rightarrow> string option \<Rightarrow> bool \<Rightarrow> release_answer" where
  "submit_released_job run pid held_file_path document_name copy_count held_job_options drop_page_size =
     (case held_file_path of
        None \<Rightarrow> ReleaseCrash
      | Some path \<Rightarrow>
          (case run (release_argv pid path document_name copy_count held_job_options drop_page_size) of
             FileNotFound \<Rightarrow>
               ReleaseError (''The `lp` command isn'' @ [CHR 0x27] @ ''t available on the PrintOps server.'')
           | TimedOut \<Rightarrow> ReleaseError ''Releasing the job timed out.''
           | OtherOSError e \<Rightarrow> ReleaseCrash
           | Exited rc out err \<Rightarrow>
               if rc \<noteq> 0 then
                 (let reason = py_strip (if err \<noteq> [] then err else out)
                  in if contains ''Unknown destination'' reason \<or> contains ''does not exist'' reason
                     then ReleaseError (''No internal release queue exists for this printer yet '' @
                       [CHR 0xE2, CHR 0x80, CHR 0x94] @ '' run '' @
                       ''scripts/sync_release_queue.sh '' @ pid @ '' on the print server first.'')
                     else ReleaseError (if reason \<noteq> [] then reason else ''lp exited with an error.''))
               else Handed (py_strip out)))"

subsection \<open>Tokens\<close>

text \<open>Reading a text without meeting a separator: the quote and escape it leaves open.\<close>

fun scan :: "scan_state \<Rightarrow> string \<Rightarrow> scan_state option" where
  "scan st [] = Some st"
| "scan st (c # cs) = (case option_char st c of None \<Rightarrow> None | Some st' \<Rightarrow> scan st' cs)"

lemma scan_snoc:
  "scan st (cs @ [c]) = (case scan st cs of None \<Rightarrow> None | Some st' \<Rightarrow> option_char st' c)"
  by (induction cs arbitrary: st) (auto split: option.split)

lemma split_options_token:
  "scan st t = Some st' \<Longrightarrow> split_options st current (t @ rest) = split_options st' (current @ t) rest"
  by (induction t arbitrary: st current) (auto split: option.splits)

lemma separator_neutral: "option_char st c = None \<Longrightarrow> st = (None, False)"
  by (cases st) (auto simp: option_char_def split: if_splits option.splits)

lemma option_char_space: "option_char (None, False) CHR '' '' = None"
  by (simp add: option_char_def py_isspace_def)

definition complete :: "string \<Rightarrow> bool" where
  "complete t \<longleftrightarrow> t \<noteq> [] \<and> scan (None, False) t = Some (None, False)"

definition readable :: "string \<Rightarrow> bool" where
  "readable t \<longleftrightarrow> t \<noteq> [] \<and> scan (None, False) t \<noteq> None"

text \<open>What splitting produces: complete tokens, the last one possibly left open.\<close>

definition token_list :: "string list \<Rightarrow> bool" where
  "token_list ts \<longleftrightarrow> list_all complete (butlast ts) \<and> list_all readable ts"

lemma complete_readable: "complete t \<Longrightarrow> readable t"
  by (simp add: complete_def readable_def)

lemma token_list_Cons: "complete t \<Longrightarrow> token_list ts \<Longrightarrow> token_list (t # ts)"
  by (simp add: token_list_def complete_readable)

lemma split_options_tokens:
  "scan (None, False) current = Some st \<Longrightarrow> token_list (split_options st current cs)"
proof (induction cs arbitrary: st current)
  case Nil
  then show ?case by (simp add: token_list_def readable_def)
next
  case (Cons c cs)
  have neutral: "token_list (split_options (None, False) [] cs)" by (rule Cons.IH) simp
  show ?case
  proof (cases "option_char st c")
    case (Some st')
    with Cons.prems have "scan (None, False) (current @ [c]) = Some st'" by (simp add: scan_snoc)
    from Cons.IH [OF this] Some show ?thesis by simp
  next
    case None
    from separator_neutral [OF None] Cons.prems have "current \<noteq> [] \<Longrightarrow> complete current"
      by (simp add: complete_def)
    with None neutral show ?thesis by (simp add: token_list_Cons)
  qed
qed

lemma token_list_split: "token_list (split_job_options s)"
  unfolding split_job_options_def by (rule split_options_tokens) simp

lemma split_join: "token_list ts \<Longrightarrow> split_options (None, False) [] (py_join '' '' ts) = ts"
proof (induction ts)
  case (Cons t ts)
  then obtain st where t: "scan (None, False) t = Some st" "t \<noteq> []"
    by (auto simp: token_list_def readable_def)
  show ?case
  proof (cases ts)
    case Nil
    with t split_options_token [OF t(1), of "[]" "[]"] show ?thesis by simp
  next
    case (Cons u us)
    with Cons.prems have c: "complete t" and rest: "token_list ts" by (auto simp: token_list_def)
    then have neutral: "scan (None, False) t = Some (None, False)" by (simp add: complete_def)
    have "py_join '' '' (t # ts) = t @ '' '' @ py_join '' '' ts" using Cons by simp
    moreover have "split_options (None, False) [] (t @ '' '' @ py_join '' '' ts) = t # ts"
      using split_options_token [OF neutral, of "[]" "'' '' @ py_join '' '' ts"] t(2) Cons.IH [OF rest]
      by (simp add: option_char_space)
    ultimately show ?thesis by simp
  qed
qed simp

lemma token_list_filter: "token_list ts \<Longrightarrow> token_list (filter P ts)"
proof (induction ts)
  case (Cons t ts)
  show ?case
  proof (cases ts)
    case Nil
    with Cons.prems show ?thesis by (simp add: token_list_def)
  next
    case (Cons u us)
    with Cons.prems have "complete t" "token_list ts" by (auto simp: token_list_def)
    with Cons.IH show ?thesis by (simp add: token_list_Cons)
  qed
qed (simp add: token_list_def)

lemma strip_media_tokens:
  "split_job_options (strip_media_options s) =
     filter (\<lambda>t. option_key t \<notin> set MEDIA_OPTION_KEYS) (split_job_options s)"
  using split_join [OF token_list_filter [OF token_list_split]]
  by (simp add: strip_media_options_def split_job_options_def)

text \<open>
  Removing the page size removes nothing else: read again, the stripped options are exactly
  the original tokens, in order and as cupsd wrote them, without those whose key is one of the
  media keys - quoted values with spaces, escapes and an unfinished last token included.
\<close>

theorem strip_media_keeps_the_rest:
  "split_job_options (strip_media_options s) =
     filter (\<lambda>t. option_key t \<notin> set MEDIA_OPTION_KEYS) (split_job_options s)"
  by (rule strip_media_tokens)

text \<open>
  What \<open>lp\<close> is finally given is split again at every blank, inside quotes too: a page size
  mentioned inside another option's quoted value is passed as an option of its own after the
  page size was stripped.
\<close>

theorem quoted_media_survives_the_strip:
  "\<exists>s. filter (\<lambda>t. option_key t \<in> set MEDIA_OPTION_KEYS) (split_job_options (strip_media_options s)) = [] \<and>
     filter (\<lambda>t. option_key t \<in> set MEDIA_OPTION_KEYS) (parse_job_options (Some (strip_media_options s))) \<noteq> []"
proof
  let ?s = "''note='' @ [CHR 0x22] @ ''x media=A4'' @ [CHR 0x22]"
  have "filter (\<lambda>t. option_key t \<in> set MEDIA_OPTION_KEYS)
      (parse_job_options (Some (strip_media_options ?s))) \<noteq> []"
    by code_simp
  then show "filter (\<lambda>t. option_key t \<in> set MEDIA_OPTION_KEYS) (split_job_options (strip_media_options ?s)) = [] \<and>
      filter (\<lambda>t. option_key t \<in> set MEDIA_OPTION_KEYS) (parse_job_options (Some (strip_media_options ?s))) \<noteq> []"
    by (simp only: strip_media_tokens filter_filter) (simp add: filter_empty_conv)
qed

end
