(* ===== verification/Held_Jobs.thy ===== *)
theory Held_Jobs
  imports Models Release Rate_Limit
begin

section \<open>Held jobs: discarding, releasing, expiring\<close>

text \<open>
  Every operation that takes a job out of "held": the discard of app/held_jobs/service.py, the
  admin's release (app/routers/held_jobs.py), the kiosk's (app/routers/release.py), the release
  of jobs that waited for an offline printer (app/printers/offline_holds.py) and the two purge
  loops (app/main.py).  The state has the job and printer rows, the documents in the spool
  directory, and the deliveries CUPS accepted (job and printer), in order.  Removing a file is
  taken to succeed; a handler whose exception escapes is a \<open>ServerError\<close>.
\<close>

datatype http_error = Http int string | ServerError

record hold_state =
  hs_jobs :: "job list"
  hs_printers :: "printer list"
  hs_spool :: "string list"
  hs_handed :: "(uuid \<times> uuid) list"

definition find_job :: "uuid \<Rightarrow> job list \<Rightarrow> job option" where
  "find_job i jobs = find (\<lambda>j. job_id j = i) jobs"

definition write_job :: "job \<Rightarrow> hold_state \<Rightarrow> hold_state" where
  "write_job j st = st\<lparr>hs_jobs := write_back job_id [j] (hs_jobs st)\<rparr>"

definition unlink :: "string option \<Rightarrow> hold_state \<Rightarrow> hold_state" where
  "unlink path st =
     (if truthy path then st\<lparr>hs_spool := filter (\<lambda>f. f \<noteq> the path) (hs_spool st)\<rparr> else st)"

subsection \<open>Discarding (held_jobs/service.py)\<close>

text \<open>The case mappings of the database and of Python are parameters.\<close>

record case_maps =
  cm_sql_lower :: "string \<Rightarrow> string"
  cm_casefold :: "string \<Rightarrow> string"

datatype discard_error = HoldNotFound | HoldNoLongerHeld string

definition submitted_by_one_of :: "case_maps \<Rightarrow> job \<Rightarrow> string list \<Rightarrow> bool" where
  "submitted_by_one_of cm j identities =
     (if \<not> truthy (job_submitted_by j) then False
      else list_ex (\<lambda>i. cm_casefold cm i = cm_casefold cm (the (job_submitted_by j))) identities)"

text \<open>The WHERE clause of the claim.\<close>

definition claimable :: "case_maps \<Rightarrow> string list option \<Rightarrow> job \<Rightarrow> bool" where
  "claimable cm owned_by j \<longleftrightarrow> job_status j = ''held'' \<and>
     (case owned_by of None \<Rightarrow> True
      | Some owners \<Rightarrow>
          (case job_submitted_by j of None \<Rightarrow> False
           | Some u \<Rightarrow> cm_sql_lower cm u \<in> set (map (cm_casefold cm) owners)))"

definition discarded_row :: "datetime \<Rightarrow> job \<Rightarrow> job" where
  "discarded_row now j =
     j\<lparr>job_status := ''cancelled'', job_error_message := Some ''Discarded without printing'',
       job_completed_at := Some now, job_held_file_path := None\<rparr>"

definition discard_hold ::
  "case_maps \<Rightarrow> datetime \<Rightarrow> uuid \<Rightarrow> string list option \<Rightarrow> hold_state \<Rightarrow>
   (discard_error + job) \<times> hold_state" where
  "discard_hold cm now i owned_by st =
     (case find_job i (hs_jobs st) of
        None \<Rightarrow> (Inl HoldNotFound, st)
      | Some j \<Rightarrow>
          if claimable cm owned_by j then
            (Inr (discarded_row now j), unlink (job_held_file_path j) (write_job (discarded_row now j) st))
          else if (case owned_by of None \<Rightarrow> False | Some owners \<Rightarrow> \<not> submitted_by_one_of cm j owners)
          then (Inl HoldNotFound, st)
          else (Inl (HoldNoLongerHeld (job_status j)), st))"

definition discard_held_job :: "case_maps \<Rightarrow> datetime \<Rightarrow> uuid \<Rightarrow> hold_state \<Rightarrow> (http_error + job) \<times> hold_state" where
  "discard_held_job cm now i st =
     (case discard_hold cm now i None st of
        (Inr j, st') \<Rightarrow> (Inr j, st')
      | (Inl HoldNotFound, st') \<Rightarrow> (Inl (Http 404 ''Held job not found.''), st')
      | (Inl (HoldNoLongerHeld current), st') \<Rightarrow>
          (Inl (Http 409 (''This job is no longer held '' @ [CHR 0xE2, CHR 0x80, CHR 0x94] @
             '' it is '' @ current @ ''. It was most likely released while you were looking at it.'')), st'))"

text \<open>A person's own hold (routers/print_queue.py); the identities are their user name and e-mail.\<close>

definition discard_my_held_job ::
  "case_maps \<Rightarrow> datetime \<Rightarrow> uuid \<Rightarrow> string option list \<Rightarrow> hold_state \<Rightarrow> (http_error + job) \<times> hold_state" where
  "discard_my_held_job cm now i identities st =
     (let mine = map the (filter truthy identities) in
      if mine = [] then (Inl (Http 404 (''That job isn'' @ [CHR 0x27] @ ''t held under your name.'')), st)
      else
        (case discard_hold cm now i (Some mine) st of
           (Inr j, st') \<Rightarrow> (Inr j, st')
         | (Inl HoldNotFound, st') \<Rightarrow>
             (Inl (Http 404 (''That job isn'' @ [CHR 0x27] @ ''t held under your name.'')), st')
         | (Inl (HoldNoLongerHeld current), st') \<Rightarrow>
             (Inl (Http 409 (''This job is no longer held '' @ [CHR 0xE2, CHR 0x80, CHR 0x94] @
                '' it is '' @ current @ ''. It may have started printing on its own '' @
                [CHR 0xE2, CHR 0x80, CHR 0x94] @ '' a job held for an offline '' @
                ''printer is released the moment that printer comes back.'')), st')))"

subsection \<open>Releasing one job\<close>

definition media_col_broken :: "printer \<Rightarrow> bool" where
  "media_col_broken p =
     (case map_of (list_or_empty (printer_capabilities p)) ''media_col_broken'' of
        None \<Rightarrow> False | Some v \<Rightarrow> json_bool v)"

definition submit_for :: "runner \<Rightarrow> printer \<Rightarrow> job \<Rightarrow> release_answer" where
  "submit_for run p j =
     submit_released_job run (printer_id p) (job_held_file_path j) (job_document_name j)
       (job_copy_count j) (job_held_job_options j) (media_col_broken p)"

definition failed_row :: "datetime \<Rightarrow> string \<Rightarrow> job \<Rightarrow> job" where
  "failed_row now msg j =
     j\<lparr>job_status := ''failed'', job_error_message := Some msg, job_completed_at := Some now\<rparr>"

definition forwarded_row :: "datetime \<Rightarrow> job \<Rightarrow> job" where
  "forwarded_row now j =
     j\<lparr>job_status := ''forwarded'', job_completed_at := Some now, job_held_file_path := None\<rparr>"

definition hand_over :: "job \<Rightarrow> printer \<Rightarrow> hold_state \<Rightarrow> hold_state" where
  "hand_over j p st = st\<lparr>hs_handed := hs_handed st @ [(job_id j, printer_id p)]\<rparr>"

text \<open>The tail the admin's and the kiosk's release share.\<close>

definition deliver_held ::
  "runner \<Rightarrow> datetime \<Rightarrow> printer \<Rightarrow> job \<Rightarrow> hold_state \<Rightarrow> (http_error + job) \<times> hold_state" where
  "deliver_held run now p j st =
     (case submit_for run p j of
        ReleaseCrash \<Rightarrow> (Inl ServerError, st)
      | ReleaseError msg \<Rightarrow> (Inl (Http 502 msg), write_job (failed_row now msg j) st)
      | Handed answer \<Rightarrow>
          (Inr (forwarded_row now j),
           unlink (job_held_file_path j) (write_job (forwarded_row now j) (hand_over j p st))))"

definition release_held_job ::
  "runner \<Rightarrow> datetime \<Rightarrow> uuid \<Rightarrow> uuid option \<Rightarrow> hold_state \<Rightarrow> (http_error + job) \<times> hold_state" where
  "release_held_job run now i target st =
     (case find_job i (hs_jobs st) of
        None \<Rightarrow> (Inl (Http 404 ''Held job not found.''), st)
      | Some j \<Rightarrow>
          if job_status j \<noteq> ''held'' then (Inl (Http 404 ''Held job not found.''), st)
          else
            (let pid = (case target of None \<Rightarrow> job_printer_id j | Some t \<Rightarrow> t)
             in case find (\<lambda>p. printer_id p = pid) (hs_printers st) of
                  None \<Rightarrow> (Inl (Http 404 ''Printer not found.''), st)
                | Some p \<Rightarrow>
                    if printer_is_virtual p then
                      (Inl (Http 400 (''This job was sent to a Follow-Me queue, which has no printer behind it. '' @
                         ''Choose the printer to release it at.'')), st)
                    else deliver_held run now p j st))"

subsection \<open>The kiosk (routers/release.py)\<close>

record kiosk_user =
  ku_email :: string
  ku_name :: "string option"
  ku_employee_id :: "string option"

text \<open>\<open>scalar_one_or_none\<close> over a column that is not unique: two accounts with one number raise.\<close>

definition resolve_pin ::
  "kiosk_user list \<Rightarrow> string \<Rightarrow> string \<Rightarrow> int \<Rightarrow> rate_limiter \<Rightarrow> (http_error + kiosk_user) \<times> rate_limiter" where
  "resolve_pin users token pin clock rl =
     (case rl_check token clock rl of
        (Some message, rl') \<Rightarrow> (Inl (Http 429 message), rl')
      | (None, rl') \<Rightarrow>
          (case filter (\<lambda>u. ku_employee_id u = Some pin) users of
             [] \<Rightarrow> (Inl (Http 401 ''PIN not recognized.''), rl_record_failure token clock rl')
           | [u] \<Rightarrow> (Inr u, rl_record_success token rl')
           | _ \<Rightarrow> (Inl ServerError, rl')))"

definition KIOSK_LIMITER :: "int \<Rightarrow> rate_limiter" where
  "KIOSK_LIMITER start =
     rl_init 8 (seconds 300)
       (''Too many incorrect PIN attempts '' @ [CHR 0xE2, CHR 0x80, CHR 0x94] @
        '' try again in a few minutes.'') start"

definition get_printer_by_token :: "string \<Rightarrow> printer list \<Rightarrow> printer option" where
  "get_printer_by_token token printers = find (\<lambda>p. printer_release_token p = Some token) printers"

definition releasable_here :: "printer \<Rightarrow> job \<Rightarrow> bool" where
  "releasable_here p j \<longleftrightarrow>
     job_hold_reason j = Some ''pin_release'' \<and> job_printer_id j = printer_id p \<or>
     job_hold_reason j = Some ''follow_me'' \<and> printer_follow_me_enabled p"

definition kiosk_list ::
  "kiosk_user list \<Rightarrow> string \<Rightarrow> string \<Rightarrow> int \<Rightarrow> rate_limiter \<Rightarrow> hold_state \<Rightarrow>
   (http_error + (string option \<times> (job \<times> string option) list)) \<times> rate_limiter" where
  "kiosk_list users token pin clock rl st =
     (case get_printer_by_token token (hs_printers st) of
        None \<Rightarrow> (Inl (Http 404 ''Release link not found.''), rl)
      | Some p \<Rightarrow>
          (case resolve_pin users token pin clock rl of
             (Inl e, rl') \<Rightarrow> (Inl e, rl')
           | (Inr u, rl') \<Rightarrow>
               (Inr (ku_name u,
                  map (\<lambda>j. (j, if job_printer_id j \<noteq> printer_id p
                               then map_option printer_name
                                      (find (\<lambda>q. printer_id q = job_printer_id j) (hs_printers st))
                               else None))
                    (sort_key job_created_at
                      (filter (\<lambda>j. job_submitted_by j = Some (ku_email u) \<and> job_status j = ''held'' \<and>
                         releasable_here p j) (hs_jobs st)))), rl')))"

definition kiosk_release ::
  "runner \<Rightarrow> datetime \<Rightarrow> kiosk_user list \<Rightarrow> string \<Rightarrow> uuid \<Rightarrow> string \<Rightarrow> int \<Rightarrow> rate_limiter \<Rightarrow> hold_state \<Rightarrow>
   (http_error + job) \<times> rate_limiter \<times> hold_state" where
  "kiosk_release run now users token i pin clock rl st =
     (case get_printer_by_token token (hs_printers st) of
        None \<Rightarrow> (Inl (Http 404 ''Release link not found.''), rl, st)
      | Some p \<Rightarrow>
          (case resolve_pin users token pin clock rl of
             (Inl e, rl') \<Rightarrow> (Inl e, rl', st)
           | (Inr u, rl') \<Rightarrow>
               (case find_job i (hs_jobs st) of
                  None \<Rightarrow> (Inl (Http 404 ''Held job not found.''), rl', st)
                | Some j \<Rightarrow>
                    if job_submitted_by j \<noteq> Some (ku_email u) \<or> job_status j \<noteq> ''held'' \<or>
                       \<not> releasable_here p j
                    then (Inl (Http 404 ''Held job not found.''), rl', st)
                    else (let (r, st') = deliver_held run now p j st in (r, rl', st')))))"

subsection \<open>Jobs waiting for an offline printer (printers/offline_holds.py)\<close>

definition HOLD_REASON :: string where "HOLD_REASON = ''printer_offline''"
definition UNREACHABLE_REASON :: string where "UNREACHABLE_REASON = ''printops-unreachable-with-jobs''"
definition AWAY_TOO_LONG :: timedelta where "AWAY_TOO_LONG = hours 24"

definition waits_for :: "printer \<Rightarrow> job \<Rightarrow> bool" where
  "waits_for p j \<longleftrightarrow> job_printer_id j = printer_id p \<and> job_status j = ''held'' \<and>
     job_hold_reason j = Some HOLD_REASON"

text \<open>The loop; \<open>None\<close> when an exception ends it, with what was done before left in the session.\<close>

fun release_waiting ::
  "runner \<Rightarrow> datetime \<Rightarrow> printer \<Rightarrow> job list \<Rightarrow> nat \<Rightarrow> hold_state \<Rightarrow> nat option \<times> hold_state" where
  "release_waiting run now p [] released st = (Some released, st)"
| "release_waiting run now p (j # js) released st =
     (if \<not> truthy (job_held_file_path j) then
        release_waiting run now p js released
          (write_job (failed_row now ''Held while the printer was offline, but the document was lost.'' j) st)
      else
        (case submit_for run p j of
           ReleaseCrash \<Rightarrow> (None, st)
         | ReleaseError msg \<Rightarrow> release_waiting run now p js released (write_job (failed_row now msg j) st)
         | Handed answer \<Rightarrow>
             release_waiting run now p js (released + 1)
               (unlink (job_held_file_path j) (write_job (forwarded_row now j) (hand_over j p st)))))"

definition release_jobs_waiting_for ::
  "runner \<Rightarrow> datetime \<Rightarrow> printer \<Rightarrow> hold_state \<Rightarrow> nat option \<times> hold_state" where
  "release_jobs_waiting_for run now p st =
     release_waiting run now p (sort_key job_created_at (filter (waits_for p) (hs_jobs st))) 0 st"

definition describe_wait :: "datetime option \<Rightarrow> datetime \<Rightarrow> string" where
  "describe_wait since now =
     (case since of
        None \<Rightarrow> ''an unknown time''
      | Some t \<Rightarrow>
          (let hrs = (now - t) div hours 1 in
           if hrs < 1 then ''less than an hour''
           else if hrs < 24 then str_int hrs @ '' hour'' @ (if hrs \<noteq> 1 then ''s'' else [])
           else (let dys = hrs div 24 in str_int dys @ '' day'' @ (if dys \<noteq> 1 then ''s'' else []))))"

definition waiting_alert ::
  "string option \<Rightarrow> printer \<Rightarrow> job list \<Rightarrow> datetime \<Rightarrow> string option" where
  "waiting_alert ip_address p table now =
     (let waiting = filter (waits_for p) table; count = length waiting in
      if count = 0 then None
      else
        (let oldest = Min (set (map job_created_at waiting));
             jobs = (if count = 1 then ''job'' else ''jobs'');
             waited = describe_wait (Some oldest) now
         in case printer_last_online_at p of
              None \<Rightarrow>
                Some (str_nat count @ '' '' @ jobs @ '' waiting, and this printer has never answered at '' @
                  (case ip_address of None \<Rightarrow> ''None'' | Some ip \<Rightarrow> ip) @
                  ''. That is usually the wrong address rather than a printer '' @
                  ''that is switched off '' @ [CHR 0xE2, CHR 0x80, CHR 0x94] @
                  '' nothing will print until it is corrected. Oldest has '' @
                  ''been waiting '' @ waited @ ''.'')
            | Some last_online \<Rightarrow>
                if now - last_online < AWAY_TOO_LONG then None
                else
                  Some (str_nat count @ '' '' @ jobs @ '' waiting, and this printer has not answered for '' @
                    describe_wait (Some last_online) now @ ''. They will '' @
                    ''print when it comes back, but a printer away this long with work behind it is usually '' @
                    ''switched off for good, moved, or on a changed address. Oldest job has been waiting '' @
                    waited @ ''.'')))"

subsection \<open>The purge loops (main.py)\<close>

definition FAILED_JOB_RETENTION :: timedelta where "FAILED_JOB_RETENTION = hours 48"

definition expired_hold :: "datetime \<Rightarrow> job \<Rightarrow> bool" where
  "expired_hold now j \<longleftrightarrow> job_status j = ''held'' \<and>
     (case job_held_expires_at j of None \<Rightarrow> False | Some t \<Rightarrow> t < now)"

definition expired_row :: "datetime \<Rightarrow> job \<Rightarrow> job" where
  "expired_row now j =
     j\<lparr>job_status := ''cancelled'', job_error_message := Some ''Expired unreleased hold'',
       job_completed_at := Some now, job_held_file_path := None\<rparr>"

definition purge_expired_holds :: "datetime \<Rightarrow> hold_state \<Rightarrow> hold_state" where
  "purge_expired_holds now st =
     fold (\<lambda>j st. write_job (expired_row now j) (unlink (job_held_file_path j) st))
       (filter (expired_hold now) (hs_jobs st)) st"

definition old_failure :: "datetime \<Rightarrow> job \<Rightarrow> bool" where
  "old_failure now j \<longleftrightarrow> job_status j = ''failed'' \<and>
     (case job_completed_at j of None \<Rightarrow> False | Some t \<Rightarrow> t < now - FAILED_JOB_RETENTION)"

definition purge_failed_jobs :: "datetime \<Rightarrow> hold_state \<Rightarrow> hold_state" where
  "purge_failed_jobs now st =
     fold (\<lambda>j st. let st = unlink (job_held_file_path j) st
                   in st\<lparr>hs_jobs := filter (\<lambda>k. job_id k \<noteq> job_id j) (hs_jobs st)\<rparr>)
       (filter (old_failure now) (hs_jobs st)) st"

subsection \<open>The documents a state has let go of\<close>

lemma write_job_simps [simp]:
  "hs_handed (write_job j st) = hs_handed st" "hs_printers (write_job j st) = hs_printers st"
  "hs_spool (write_job j st) = hs_spool st"
  by (simp_all add: write_job_def)

lemma unlink_simps [simp]:
  "hs_jobs (unlink f st) = hs_jobs st" "hs_handed (unlink f st) = hs_handed st"
  "hs_printers (unlink f st) = hs_printers st"
  by (simp_all add: unlink_def)

lemma hand_over_simps [simp]:
  "hs_jobs (hand_over j p st) = hs_jobs st" "hs_spool (hand_over j p st) = hs_spool st"
  "hs_handed (hand_over j p st) = hs_handed st @ [(job_id j, printer_id p)]"
  by (simp_all add: hand_over_def)

lemma hs_jobs_write:
  "hs_jobs (write_job j st) = map (\<lambda>k. if job_id k = job_id j then j else k) (hs_jobs st)"
  by (induction "hs_jobs st") (auto simp: write_job_def write_back_def)

text \<open>
  The invariant of every operation run to its end: ids are unique, a job is delivered at most
  once, and a delivered job is not one that can still be delivered or was thrown away.
\<close>

definition over_with :: "hold_state \<Rightarrow> uuid \<Rightarrow> bool" where
  "over_with st i \<longleftrightarrow> (\<forall>j\<in>set (hs_jobs st). job_id j = i \<longrightarrow> job_status j = ''forwarded'')"

definition holds_ok :: "hold_state \<Rightarrow> bool" where
  "holds_ok st \<longleftrightarrow> distinct (map job_id (hs_jobs st)) \<and> distinct (map fst (hs_handed st)) \<and>
     (\<forall>x\<in>set (hs_handed st). over_with st (fst x))"

lemma holds_ok_write:
  assumes "holds_ok st" "\<forall>k\<in>set (hs_jobs st). job_id k = job_id j \<longrightarrow> job_status k \<noteq> ''forwarded''"
    "\<exists>k\<in>set (hs_jobs st). job_id k = job_id j"
  shows "holds_ok (write_job j st) \<and> job_id j \<notin> fst ` set (hs_handed st)"
proof -
  have "job_id j \<notin> fst ` set (hs_handed st)"
  proof
    assume "job_id j \<in> fst ` set (hs_handed st)"
    then have "over_with st (job_id j)" using assms(1) by (auto simp: holds_ok_def)
    with assms(2,3) show False by (auto simp: over_with_def)
  qed
  moreover have "map job_id (hs_jobs (write_job j st)) = map job_id (hs_jobs st)"
    by (simp add: hs_jobs_write)
  moreover have "over_with (write_job j st) (fst x)" if "x \<in> set (hs_handed st)" for x
  proof -
    have "fst x \<noteq> job_id j" using that calculation(1) by (metis image_eqI)
    moreover have "over_with st (fst x)" using that assms(1) by (simp add: holds_ok_def)
    ultimately show ?thesis by (auto simp: over_with_def hs_jobs_write)
  qed
  ultimately show ?thesis
    using assms(1) by (simp add: holds_ok_def)
qed

lemma find_job_in: "find_job i jobs = Some j \<Longrightarrow> j \<in> set jobs \<and> job_id j = i"
  by (auto simp: find_job_def find_Some_iff)

lemma held_once:
  assumes "holds_ok st" "j \<in> set (hs_jobs st)" "job_status j = ''held''" "k \<in> set (hs_jobs st)" "job_id k = job_id j"
  shows "job_status k \<noteq> ''forwarded''"
proof -
  have "k = j" using assms by (auto simp: holds_ok_def distinct_map dest: inj_onD)
  with assms(3) show ?thesis by simp
qed

lemma holds_ok_close:
  assumes "holds_ok st" "j \<in> set (hs_jobs st)" "job_status j = ''held''" "job_id j' = job_id j"
  shows "holds_ok (write_job j' st)"
  using holds_ok_write [of st j'] held_once [OF assms(1-3)] assms by auto

lemma holds_ok_unlink [simp]: "holds_ok (unlink f st) = holds_ok st"
  by (simp add: holds_ok_def over_with_def)

lemma holds_ok_deliver:
  assumes "holds_ok st" "j \<in> set (hs_jobs st)" "job_status j = ''held''"
  shows "holds_ok (write_job (forwarded_row now j) (hand_over j p st))"
proof -
  let ?j = "forwarded_row now j"
  have id: "job_id ?j = job_id j" by (simp add: forwarded_row_def)
  have w: "holds_ok (write_job ?j st) \<and> job_id j \<notin> fst ` set (hs_handed st)"
    using holds_ok_write [of st ?j] held_once [OF assms] assms id by auto
  have jobs: "hs_jobs (write_job ?j (hand_over j p st)) = hs_jobs (write_job ?j st)"
    by (simp add: hs_jobs_write)
  have "over_with (write_job ?j st) (job_id j)"
    by (auto simp: over_with_def hs_jobs_write id) (simp add: forwarded_row_def)
  with w jobs show ?thesis by (auto simp: holds_ok_def over_with_def)
qed

lemma in_after_write:
  "k \<in> set (hs_jobs st) \<Longrightarrow> job_id k \<noteq> job_id j \<Longrightarrow> k \<in> set (hs_jobs (write_job j st))"
  by (force simp: hs_jobs_write)

lemma row_ids [simp]:
  "job_id (failed_row now m j) = job_id j" "job_id (forwarded_row now j) = job_id j"
  "job_id (expired_row now j) = job_id j" "job_id (discarded_row now j) = job_id j"
  by (simp_all add: failed_row_def forwarded_row_def expired_row_def discarded_row_def)

text \<open>A list of rows a loop goes through, still as they are in the table.\<close>

definition fresh_rows :: "(job \<Rightarrow> bool) \<Rightarrow> job list \<Rightarrow> hold_state \<Rightarrow> bool" where
  "fresh_rows P js st \<longleftrightarrow> distinct (map job_id js) \<and> set js \<subseteq> set (hs_jobs st) \<and> (\<forall>j\<in>set js. P j)"

lemma fresh_rows_Cons: "fresh_rows P (j # js) st \<Longrightarrow> j \<in> set (hs_jobs st) \<and> P j \<and> fresh_rows P js st"
  by (simp add: fresh_rows_def)

lemma fresh_rows_write:
  assumes "fresh_rows P (j # js) st" "job_id j' = job_id j"
  shows "fresh_rows P js (write_job j' st)"
proof -
  have "job_id k \<noteq> job_id j" if "k \<in> set js" for k
    using assms(1) that by (metis distinct.simps(2) fresh_rows_def image_eqI list.set_map list.simps(9))
  then have "k \<in> set (hs_jobs (write_job j' st))" if "k \<in> set js" for k
    using that assms in_after_write [of k st j'] by (auto simp: fresh_rows_def)
  then show ?thesis using assms(1) by (auto simp: fresh_rows_def)
qed

lemma fresh_rows_filter:
  "distinct (map job_id (hs_jobs st)) \<Longrightarrow> fresh_rows P (filter P (hs_jobs st)) st"
  by (auto simp: fresh_rows_def distinct_map_filter)

lemma fresh_rows_sort:
  assumes "fresh_rows P js st"
  shows "fresh_rows P (sort_key f js) st"
  using assms by (auto simp: fresh_rows_def distinct_map)

lemma fresh_rows_other [simp]:
  "fresh_rows P js (unlink f st) = fresh_rows P js st" "fresh_rows P js (hand_over j p st) = fresh_rows P js st"
  by (simp_all add: fresh_rows_def)

lemma holds_ok_release_waiting:
  "holds_ok st \<Longrightarrow> fresh_rows (waits_for q) js st \<Longrightarrow> holds_ok (snd (release_waiting run now p js n st))"
proof (induction js arbitrary: n st)
  case (Cons j js)
  note j = fresh_rows_Cons [OF Cons.prems(2)]
  then have held: "job_status j = ''held''" by (simp add: waits_for_def)
  have failed: "holds_ok (write_job (failed_row now m j) st)" for m
    using holds_ok_close [OF Cons.prems(1) _ held] j by simp
  have sent: "holds_ok (write_job (forwarded_row now j) (hand_over j p st))"
    using holds_ok_deliver [OF Cons.prems(1) _ held] j by simp
  have left: "fresh_rows (waits_for q) js (write_job (failed_row now m j) st)"
    "fresh_rows (waits_for q) js (write_job (forwarded_row now j) (hand_over j p st))" for m
    using fresh_rows_write [OF Cons.prems(2)] fresh_rows_write [of "waits_for q" j js "hand_over j p st"]
      Cons.prems(2) by auto
  show ?case
    using Cons.IH failed sent left Cons.prems(1)
    by (auto split: release_answer.split)
qed simp

lemma holds_ok_fold_expired:
  "holds_ok st \<Longrightarrow> fresh_rows (expired_hold now) js st \<Longrightarrow>
   holds_ok (fold (\<lambda>j st. write_job (expired_row now j) (unlink (job_held_file_path j) st)) js st)"
proof (induction js arbitrary: st)
  case (Cons j js)
  note j = fresh_rows_Cons [OF Cons.prems(2)]
  then have held: "job_status j = ''held''" by (simp add: expired_hold_def)
  have "holds_ok (write_job (expired_row now j) (unlink (job_held_file_path j) st))"
    using holds_ok_close [of "unlink (job_held_file_path j) st" j "expired_row now j"] Cons.prems(1) j held
    by simp
  moreover have "fresh_rows (expired_hold now) js (write_job (expired_row now j) (unlink (job_held_file_path j) st))"
    using fresh_rows_write [of "expired_hold now" j js "unlink (job_held_file_path j) st"] Cons.prems(2) by simp
  ultimately show ?case using Cons.IH by simp
qed simp

lemma holds_ok_delete:
  assumes "holds_ok st"
  shows "holds_ok (st\<lparr>hs_jobs := filter P (hs_jobs st)\<rparr>)"
  using assms by (auto simp: holds_ok_def over_with_def distinct_map_filter)

lemma holds_ok_unlink_delete:
  "holds_ok st \<Longrightarrow> holds_ok (unlink f st\<lparr>hs_jobs := filter P (hs_jobs st)\<rparr>)"
  using holds_ok_delete [of "unlink f st" P] by simp

lemma holds_ok_purge_failed: "holds_ok st \<Longrightarrow> holds_ok (purge_failed_jobs now st)"
proof -
  have "holds_ok s \<Longrightarrow> holds_ok (fold (\<lambda>j st. let st = unlink (job_held_file_path j) st
      in st\<lparr>hs_jobs := filter (\<lambda>k. job_id k \<noteq> job_id j) (hs_jobs st)\<rparr>) js s)" for js s
    by (induction js arbitrary: s) (simp_all add: Let_def holds_ok_unlink_delete)
  then show "holds_ok st \<Longrightarrow> holds_ok (purge_failed_jobs now st)" unfolding purge_failed_jobs_def by blast
qed

lemma holds_ok_deliver_held:
  assumes "holds_ok st" "j \<in> set (hs_jobs st)" "job_status j = ''held''"
  shows "holds_ok (snd (deliver_held run now p j st))"
  using holds_ok_close [OF assms] holds_ok_deliver [OF assms] assms(1)
  by (auto simp: deliver_held_def split: release_answer.split)

lemma holds_ok_discard:
  assumes "holds_ok st"
  shows "holds_ok (snd (discard_hold cm now i owners st))"
proof (cases "find_job i (hs_jobs st)")
  case (Some j)
  have "claimable cm owners j \<Longrightarrow> holds_ok (write_job (discarded_row now j) st)"
    using holds_ok_close [OF assms, of j] find_job_in [OF Some] by (simp add: claimable_def)
  with Some assms show ?thesis by (auto simp: discard_hold_def)
qed (simp add: discard_hold_def assms)

datatype hold_op =
    DiscardOp "string list option" uuid
  | AdminReleaseOp runner uuid "uuid option"
  | KioskReleaseOp runner "kiosk_user list" string uuid string int rate_limiter
  | PrinterBackOp runner printer
  | PurgeExpiredOp
  | PurgeFailedOp

fun hold_step :: "case_maps \<Rightarrow> datetime \<times> hold_op \<Rightarrow> hold_state \<Rightarrow> hold_state" where
  "hold_step cm (now, DiscardOp owners i) st = snd (discard_hold cm now i owners st)"
| "hold_step cm (now, AdminReleaseOp run i target) st = snd (release_held_job run now i target st)"
| "hold_step cm (now, KioskReleaseOp run users token i pin clock rl) st =
     snd (snd (kiosk_release run now users token i pin clock rl st))"
| "hold_step cm (now, PrinterBackOp run p) st = snd (release_jobs_waiting_for run now p st)"
| "hold_step cm (now, PurgeExpiredOp) st = purge_expired_holds now st"
| "hold_step cm (now, PurgeFailedOp) st = purge_failed_jobs now st"

lemma holds_ok_step:
  assumes "holds_ok st"
  shows "holds_ok (hold_step cm x st)"
proof -
  obtain now op where x: "x = (now, op)" by (cases x)
  have d: "distinct (map job_id (hs_jobs st))" using assms by (simp add: holds_ok_def)
  have deliver: "holds_ok (snd (deliver_held run now p j st))"
    if "find_job i (hs_jobs st) = Some j" "job_status j = ''held''" for run p j i
    using holds_ok_deliver_held [OF assms] find_job_in [OF that(1)] that(2) by blast
  show ?thesis
  proof (cases op)
    case (DiscardOp owners i)
    then show ?thesis using x holds_ok_discard [OF assms] by simp
  next
    case (AdminReleaseOp run i target)
    then show ?thesis using x assms deliver
      by (auto simp: release_held_job_def Let_def split: option.splits)
  next
    case (KioskReleaseOp run users token i pin clock rl)
    then show ?thesis using x assms deliver
      by (auto simp: kiosk_release_def Let_def case_prod_unfold split: option.splits sum.splits)
  next
    case (PrinterBackOp run p)
    then show ?thesis
      using x holds_ok_release_waiting [OF assms fresh_rows_sort [OF fresh_rows_filter [OF d]]]
      by (simp add: release_jobs_waiting_for_def)
  next
    case PurgeExpiredOp
    then show ?thesis
      using x holds_ok_fold_expired [OF assms fresh_rows_filter [OF d]]
      by (simp add: purge_expired_holds_def)
  qed (use x holds_ok_purge_failed [OF assms] in simp)
qed


text \<open>Two jobs of one person: one released at the kiosk, one waiting for the printer.\<close>

definition example_holds :: hold_state where
  "example_holds =
     \<lparr>hs_jobs =
        [(job_defaults ''j1'' ''p1'' 0)\<lparr>job_status := ''held'', job_submitted_by := Some ''ann@x.org'',
           job_hold_reason := Some ''pin_release'', job_held_file_path := Some ''/spool/j1''\<rparr>,
         (job_defaults ''j2'' ''p1'' 5)\<lparr>job_status := ''held'', job_submitted_by := Some ''ann@x.org'',
           job_hold_reason := Some ''printer_offline'', job_held_file_path := Some ''/spool/j2''\<rparr>,
         (job_defaults ''j3'' ''p1'' 3)\<lparr>job_status := ''held'', job_submitted_by := Some ''bob@x.org'',
           job_hold_reason := Some ''printer_offline'', job_held_file_path := Some ''/spool/j3''\<rparr>],
      hs_printers = [(printer_defaults ''p1'' ''Library'')\<lparr>printer_release_token := Some ''tok''\<rparr>],
      hs_spool = [''/spool/j1'', ''/spool/j2'', ''/spool/j3''], hs_handed = []\<rparr>"

definition lp_accepts :: runner where
  "lp_accepts argv = Exited 0 ''request id is 1'' []"

definition ann :: kiosk_user where
  "ann = \<lparr>ku_email = ''ann@x.org'', ku_name = Some ''Ann'', ku_employee_id = Some ''1234''\<rparr>"

lemma example_holds_fresh: "distinct (map job_id (hs_jobs example_holds))" "hs_handed example_holds = []"
  by code_simp+


subsection \<open>Who may throw a hold away\<close>

lemma claimable_iff_own:
  assumes "\<forall>u. job_submitted_by j = Some u \<longrightarrow> cm_sql_lower cm u = cm_casefold cm u"
    "job_submitted_by j \<noteq> Some []"
  shows "claimable cm (Some owners) j \<longleftrightarrow> job_status j = ''held'' \<and> submitted_by_one_of cm j owners"
proof (cases "job_submitted_by j")
  case (Some u)
  have "cm_casefold cm u \<in> cm_casefold cm ` set owners \<longleftrightarrow>
      list_ex (\<lambda>i. cm_casefold cm i = cm_casefold cm u) owners"
    by (induction owners) auto
  with Some assms show ?thesis by (simp add: claimable_def submitted_by_one_of_def py_simps)
qed (simp add: claimable_def submitted_by_one_of_def py_simps)

text \<open>
  A discard restricted to its owners touches only their own held job: where the database's
  lower() and Python's casefold() agree on the submitter's name, it succeeds exactly on a job
  that exists, is held and is theirs; then it closes that row, removes its document and hands
  nothing to a printer.  For a job that is somebody else's it gives the answer of a job that does
  not exist and changes nothing.
\<close>

theorem discard_touches_only_ones_own:
  assumes "\<forall>j\<in>set (hs_jobs st). job_submitted_by j \<noteq> Some [] \<and>
      (\<forall>u. job_submitted_by j = Some u \<longrightarrow> cm_sql_lower cm u = cm_casefold cm u)"
  shows "case find_job i (hs_jobs st) of
      None \<Rightarrow> discard_hold cm now i (Some owners) st = (Inl HoldNotFound, st)
    | Some j \<Rightarrow> discard_hold cm now i (Some owners) st =
        (if \<not> submitted_by_one_of cm j owners then (Inl HoldNotFound, st)
         else if job_status j \<noteq> ''held'' then (Inl (HoldNoLongerHeld (job_status j)), st)
         else (Inr (discarded_row now j),
           st\<lparr>hs_jobs := map (\<lambda>k. if job_id k = i then discarded_row now j else k) (hs_jobs st),
              hs_spool := (if truthy (job_held_file_path j)
                 then filter (\<lambda>f. f \<noteq> the (job_held_file_path j)) (hs_spool st) else hs_spool st)\<rparr>))"
proof (cases "find_job i (hs_jobs st)")
  case (Some j)
  then have j: "j \<in> set (hs_jobs st)" "job_id j = i" using find_job_in by auto
  with assms have own: "claimable cm (Some owners) j \<longleftrightarrow>
      job_status j = ''held'' \<and> submitted_by_one_of cm j owners"
    by (intro claimable_iff_own) auto
  have effect: "unlink f (write_job (discarded_row now j) st) =
      st\<lparr>hs_jobs := map (\<lambda>k. if job_id k = i then discarded_row now j else k) (hs_jobs st),
         hs_spool := (if truthy f then filter (\<lambda>g. g \<noteq> the f) (hs_spool st) else hs_spool st)\<rparr>" for f
    using hs_jobs_write [of "discarded_row now j" st] j(2) by (simp add: unlink_def write_job_def)
  show ?thesis
    unfolding discard_hold_def Some option.case own effect by simp
qed (simp add: discard_hold_def)

theorem discard_touches_only_ones_own_witness:
  "fst (discard_hold \<lparr>cm_sql_lower = id, cm_casefold = id\<rparr> 9 ''j3'' (Some [''ann@x.org'']) example_holds) =
     Inl HoldNotFound \<and>
   fst (discard_hold \<lparr>cm_sql_lower = id, cm_casefold = id\<rparr> 9 ''j4'' (Some [''ann@x.org'']) example_holds) =
     Inl HoldNotFound"
proof -
  have "\<forall>j\<in>set (hs_jobs example_holds). job_submitted_by j \<noteq> Some []" by code_simp
  then have ok: "\<forall>j\<in>set (hs_jobs example_holds). job_submitted_by j \<noteq> Some [] \<and>
      (\<forall>u. job_submitted_by j = Some u \<longrightarrow>
        cm_sql_lower \<lparr>cm_sql_lower = id, cm_casefold = id\<rparr> u = cm_casefold \<lparr>cm_sql_lower = id, cm_casefold = id\<rparr> u)"
    by simp
  have "find_job ''j4'' (hs_jobs example_holds) = None" by code_simp
  moreover have "find_job ''j3'' (hs_jobs example_holds) \<noteq> None \<and>
      \<not> submitted_by_one_of \<lparr>cm_sql_lower = id, cm_casefold = id\<rparr>
          (the (find_job ''j3'' (hs_jobs example_holds))) [''ann@x.org'']" by code_simp
  ultimately show ?thesis
    using discard_touches_only_ones_own [OF ok, where i = "''j3''" and now = 9 and owners = "[''ann@x.org'']"]
      discard_touches_only_ones_own [OF ok, where i = "''j4''" and now = 9 and owners = "[''ann@x.org'']"] by auto
qed

end
