(* ===== verification/Held_Releases.thy ===== *)
theory Held_Releases
  imports Held_Jobs
begin

section \<open>Releasing held jobs: who gets what, and in which order\<close>

text \<open>
  What the release operations of Held_Jobs promise: the kiosk delivers only the job of the
  person whose PIN was typed and closes after eight wrong PINs; a printer that came back gets its
  waiting jobs oldest first, each closed.  The last part splits the releases into the steps
  another session can come between.
\<close>

subsection \<open>The kiosk\<close>

lemma deliver_held_Inr:
  "deliver_held run now p j st = (Inr row, st') \<longleftrightarrow>
     (\<exists>a. submit_for run p j = Handed a) \<and> row = forwarded_row now j \<and>
     st' = unlink (job_held_file_path j) (write_job (forwarded_row now j) (hand_over j p st))"
  by (auto simp: deliver_held_def split: release_answer.splits)

lemma resolve_pin_Inr:
  assumes "resolve_pin users token pin clock rl = (Inr u, rl')"
  shows "filter (\<lambda>u. ku_employee_id u = Some pin) users = [u]"
  using assms
  by (cases "rl_check token clock rl"; cases "fst (rl_check token clock rl)")
    (auto simp: resolve_pin_def split: list.splits)

lemma kiosk_release_Inr:
  assumes "kiosk_release run now users token i pin clock rl st = (Inr row, rl', st')"
  obtains p u j where "get_printer_by_token token (hs_printers st) = Some p"
    "resolve_pin users token pin clock rl = (Inr u, rl')" "find_job i (hs_jobs st) = Some j"
    "job_submitted_by j = Some (ku_email u)" "job_status j = ''held''" "releasable_here p j"
    "deliver_held run now p j st = (Inr row, st')"
proof -
  obtain p where p: "get_printer_by_token token (hs_printers st) = Some p"
    using assms by (cases "get_printer_by_token token (hs_printers st)") (auto simp: kiosk_release_def)
  obtain r rlx where r: "resolve_pin users token pin clock rl = (r, rlx)" by fastforce
  obtain u where u: "r = Inr u"
    using assms p r by (cases r) (auto simp: kiosk_release_def)
  obtain j where j: "find_job i (hs_jobs st) = Some j"
    using assms p r u by (cases "find_job i (hs_jobs st)") (auto simp: kiosk_release_def)
  have guards: "job_submitted_by j = Some (ku_email u) \<and> job_status j = ''held'' \<and> releasable_here p j"
    using assms p r u j by (auto simp: kiosk_release_def split: if_splits)
  then have "deliver_held run now p j st = (Inr row, st') \<and> rlx = rl'"
    using assms p r u j by (auto simp: kiosk_release_def Let_def case_prod_unfold prod_eq_iff)
  with that p r u j guards show ?thesis by blast
qed

text \<open>
  C23: whatever the kiosk prints was a held job of the one person with the typed Employee ID, sent
  to this very printer or (where the printer takes part) to a Follow-Me queue, never a quota
  hold or a job waiting for a printer; it goes to this printer only, its row becomes forwarded
  and no other row changes.
\<close>

theorem kiosk_prints_only_the_owners_job:
  assumes "kiosk_release run now users token i pin clock rl st = (Inr row, rl', st')"
  shows "\<exists>p u j. get_printer_by_token token (hs_printers st) = Some p \<and>
    filter (\<lambda>u. ku_employee_id u = Some pin) users = [u] \<and> find_job i (hs_jobs st) = Some j \<and>
    job_submitted_by j = Some (ku_email u) \<and> job_status j = ''held'' \<and>
    (job_hold_reason j = Some ''pin_release'' \<and> job_printer_id j = printer_id p \<or>
     job_hold_reason j = Some ''follow_me'' \<and> printer_follow_me_enabled p) \<and>
    hs_handed st' = hs_handed st @ [(i, printer_id p)] \<and>
    hs_jobs st' = map (\<lambda>k. if job_id k = i then forwarded_row now j else k) (hs_jobs st)"
proof -
  from kiosk_release_Inr [OF assms] obtain p u j where
    p: "get_printer_by_token token (hs_printers st) = Some p"
    and u: "resolve_pin users token pin clock rl = (Inr u, rl')" and j: "find_job i (hs_jobs st) = Some j"
    and own: "job_submitted_by j = Some (ku_email u)" "job_status j = ''held''" "releasable_here p j"
    and d: "deliver_held run now p j st = (Inr row, st')" .
  have "hs_handed st' = hs_handed st @ [(i, printer_id p)]"
    "hs_jobs st' = map (\<lambda>k. if job_id k = i then forwarded_row now j else k) (hs_jobs st)"
    using d find_job_in [OF j] by (simp_all add: deliver_held_Inr hs_jobs_write)
  with p j own resolve_pin_Inr [OF u] show ?thesis unfolding releasable_here_def by blast
qed

theorem kiosk_prints_only_the_owners_job_witness:
  "\<exists>p u j. get_printer_by_token ''tok'' (hs_printers example_holds) = Some p \<and>
    filter (\<lambda>u. ku_employee_id u = Some ''1234'') [ann] = [u] \<and>
    find_job ''j1'' (hs_jobs example_holds) = Some j \<and> job_submitted_by j = Some (ku_email u)"
proof -
  obtain x where x: "kiosk_release lp_accepts 9 [ann] ''tok'' ''j1'' ''1234'' 100 (KIOSK_LIMITER 0) example_holds = x"
    by simp
  have "case fst (kiosk_release lp_accepts 9 [ann] ''tok'' ''j1'' ''1234'' 100 (KIOSK_LIMITER 0) example_holds)
    of Inl e \<Rightarrow> False | Inr r \<Rightarrow> True" by code_simp
  then obtain row rl' st' where
    "kiosk_release lp_accepts 9 [ann] ''tok'' ''j1'' ''1234'' 100 (KIOSK_LIMITER 0) example_holds = (Inr row, rl', st')"
    using x by (cases x) (auto split: sum.splits)
  from kiosk_prints_only_the_owners_job [OF this] show ?thesis by blast
qed

text \<open>A wrong PIN at the kiosk: one wrong attempt for the limiter, nothing else.\<close>

lemma kiosk_wrong_pin:
  assumes "get_printer_by_token token (hs_printers st) = Some p"
    "\<forall>u\<in>set users. ku_employee_id u \<noteq> Some pin"
  shows "snd (kiosk_release run now users token i pin clock rl st) =
    (rl_guard.wrong_attempt token clock rl, st)"
proof -
  have "filter (\<lambda>u. ku_employee_id u = Some pin) users = []" using assms(2) by simp
  with assms(1) show ?thesis
    by (auto simp: kiosk_release_def resolve_pin_def rl_guard.wrong_attempt_def
        split: prod.splits option.splits)
qed

fun kiosk_tries ::
  "runner \<Rightarrow> datetime \<Rightarrow> kiosk_user list \<Rightarrow> string \<Rightarrow> (int \<times> uuid \<times> string) list \<Rightarrow>
   rate_limiter \<times> hold_state \<Rightarrow> rate_limiter \<times> hold_state" where
  "kiosk_tries run now users token [] s = s"
| "kiosk_tries run now users token ((clock, i, pin) # tries) (rl, st) =
     kiosk_tries run now users token tries (snd (kiosk_release run now users token i pin clock rl st))"

lemma kiosk_wrong_tries:
  assumes "get_printer_by_token token (hs_printers st) = Some p"
    "\<forall>(clock, i, pin)\<in>set tries. \<forall>u\<in>set users. ku_employee_id u \<noteq> Some pin"
  shows "kiosk_tries run now users token tries (rl, st) =
    (rl_guard.wrong_attempts token (map fst tries) rl, st)"
  using assms(2)
proof (induction tries arbitrary: rl)
  case (Cons t tries)
  obtain clock i pin where t: "t = (clock, i, pin)" by (cases t)
  have "\<forall>u\<in>set users. ku_employee_id u \<noteq> Some pin" using Cons.prems t by simp
  from kiosk_wrong_pin [OF assms(1) this] show ?case
    using Cons.IH Cons.prems t by simp
qed simp

lemma kiosk_limiter_fresh:
  "rl_ok (KIOSK_LIMITER start)" "recent_failures (KIOSK_LIMITER start) k t = 0"
  "rl_max_failures (KIOSK_LIMITER start) = 8" "rl_window (KIOSK_LIMITER start) = seconds 300"
  by (simp_all add: KIOSK_LIMITER_def rl_init_def rl_ok_def recent_failures_def failures_of_def)

text \<open>
  Eight wrong PINs within five minutes close the kiosk of a printer: whatever is typed next,
  the right PIN included, is refused with 429 and moves no job, as long as the first of the
  eight is less than five minutes old.
\<close>

theorem eight_wrong_pins_close_the_kiosk:
  assumes "get_printer_by_token token (hs_printers st) = Some p" "length tries = 8"
    "\<forall>(clock, i, pin)\<in>set tries. \<forall>u\<in>set users. ku_employee_id u \<noteq> Some pin"
    "sorted (map fst tries)" "\<forall>x\<in>set (map fst tries). t0 \<le> x \<and> x \<le> clock"
    "clock - t0 < seconds 300"
    "kiosk_tries run now users token tries (KIOSK_LIMITER start, st) = (rl, st1)"
  shows "\<exists>m. fst (kiosk_release run now users token i pin clock rl st1) = Inl (Http 429 m) \<and>
    snd (snd (kiosk_release run now users token i pin clock rl st1)) = st \<and> st1 = st"
proof -
  have rl: "rl = rl_guard.wrong_attempts token (map fst tries) (KIOSK_LIMITER start)" "st1 = st"
    using kiosk_wrong_tries [OF assms(1,3)] assms(7) by auto
  obtain x where "x \<in> set (map fst tries)" using assms(2) by (cases tries) auto
  then have "t0 \<le> clock" using assms(5) by force
  then have "fst (rl_check token clock rl) \<noteq> None"
    unfolding rl(1)
    using rl_guard.budget_of_wrong_attempts_blocks [of "KIOSK_LIMITER start" "map fst tries" t0 clock token]
      assms(2,4-6) kiosk_limiter_fresh by simp
  then obtain m rl' where "rl_check token clock rl = (Some m, rl')"
    by (cases "rl_check token clock rl") auto
  with assms(1) rl(2) show ?thesis by (simp add: kiosk_release_def resolve_pin_def)
qed

theorem eight_wrong_pins_close_the_kiosk_witness:
  "\<exists>m. fst (kiosk_release lp_accepts 9 [ann] ''tok'' ''j1'' ''1234'' 80
      (fst (kiosk_tries lp_accepts 9 [ann] ''tok''
        (map (\<lambda>c. (int c, ''j1'', ''0000'')) [1..<9]) (KIOSK_LIMITER 0, example_holds))) example_holds) = Inl (Http 429 m)"
proof -
  obtain rl st1 where s: "kiosk_tries lp_accepts 9 [ann] ''tok''
      (map (\<lambda>c. (int c, ''j1'', ''0000'')) [1..<9]) (KIOSK_LIMITER 0, example_holds) = (rl, st1)"
    by fastforce
  obtain p where p: "get_printer_by_token ''tok'' (hs_printers example_holds) = Some p"
    by (simp add: get_printer_by_token_def example_holds_def)
  have u: "\<forall>(clock, i, pin)\<in>set (map (\<lambda>c. (int c, ''j1'', ''0000'')) [1..<9]). \<forall>u\<in>set [ann]. ku_employee_id u \<noteq> Some pin"
    by (simp add: ann_def)
  have o: "sorted (map fst (map (\<lambda>c. (int c, ''j1'', ''0000'')) [1..<9]))"
    "\<forall>x\<in>set (map fst (map (\<lambda>c. (int c, ''j1'', ''0000'')) [1..<9])). 1 \<le> x \<and> x \<le> 80"
    by code_simp+
  from eight_wrong_pins_close_the_kiosk [OF p _ u o _ s, where i = "''j1''" and pin = "''1234''"] s show ?thesis
    by (auto simp: seconds_def)
qed

subsection \<open>A printer that came back\<close>

text \<open>The row a waiting job becomes, and whether it went to the printer.\<close>

definition goes_out :: "runner \<Rightarrow> printer \<Rightarrow> job \<Rightarrow> bool" where
  "goes_out run p j \<longleftrightarrow> truthy (job_held_file_path j) \<and>
     (case submit_for run p j of Handed a \<Rightarrow> True | _ \<Rightarrow> False)"

definition after_waiting :: "runner \<Rightarrow> datetime \<Rightarrow> printer \<Rightarrow> job \<Rightarrow> job" where
  "after_waiting run now p j =
     (if goes_out run p j then forwarded_row now j
      else if \<not> truthy (job_held_file_path j)
      then failed_row now ''Held while the printer was offline, but the document was lost.'' j
      else (case submit_for run p j of ReleaseError m \<Rightarrow> failed_row now m j | _ \<Rightarrow> j))"

lemma after_waiting_id [simp]: "job_id (after_waiting run now p j) = job_id j"
  by (simp add: after_waiting_def split: release_answer.split)

lemma write_then_rest:
  assumes "fresh_rows P (j # js) st" "\<And>r. job_id (f r) = job_id r" "distinct (map job_id (hs_jobs st))"
  shows "map (\<lambda>r. if r \<in> set js then f r else r) (hs_jobs (write_job (f j) st)) =
    map (\<lambda>r. if r \<in> set (j # js) then f r else r) (hs_jobs st)"
proof -
  have j: "j \<in> set (hs_jobs st)" "job_id j \<notin> job_id ` set js"
    using assms(1) by (auto simp: fresh_rows_def)
  then have "f j \<notin> set js" using assms(2) by (metis image_eqI)
  moreover have "(job_id r = job_id j) = (r = j)" if "r \<in> set (hs_jobs st)" for r
    using assms(3) j(1) that by (auto simp: distinct_map dest: inj_onD)
  ultimately show ?thesis using assms(2) by (simp add: hs_jobs_write)
qed

lemma release_waiting_closed_form:
  "fresh_rows (waits_for q) js st \<Longrightarrow> distinct (map job_id (hs_jobs st)) \<Longrightarrow>
   release_waiting run now p js n st = (Some m, st') \<Longrightarrow>
   hs_jobs st' = map (\<lambda>r. if r \<in> set js then after_waiting run now p r else r) (hs_jobs st) \<and>
   hs_handed st' = hs_handed st @ map (\<lambda>j. (job_id j, printer_id p)) (filter (goes_out run p) js) \<and>
   m = n + length (filter (goes_out run p) js)"
proof (induction js arbitrary: n st)
  case (Cons j js)
  let ?f = "after_waiting run now p"
  let ?rest = "\<lambda>n s. release_waiting run now p js n s = (Some m, st')"
  have rest: "hs_jobs st' = map (\<lambda>r. if r \<in> set (j # js) then ?f r else r) (hs_jobs st) \<and>
      hs_handed st' = hs_handed s @ map (\<lambda>j. (job_id j, printer_id p)) (filter (goes_out run p) js) \<and>
      m = k + length (filter (goes_out run p) js)"
    if "?rest k s" "hs_jobs s = hs_jobs (write_job (?f j) st)" for k s
  proof -
    have "fresh_rows (waits_for q) js s"
      using fresh_rows_write [OF Cons.prems(1), of "?f j"] that(2) by (simp add: fresh_rows_def)
    moreover have "distinct (map job_id (hs_jobs s))"
      using Cons.prems(2) that(2) by (simp add: hs_jobs_write comp_def if_distrib cong: if_cong)
    ultimately show ?thesis
      using Cons.IH [OF _ _ that(1)] that(2) write_then_rest [OF Cons.prems(1) _ Cons.prems(2), of ?f] by simp
  qed
  show ?case
  proof (cases "truthy (job_held_file_path j)")
    case False
    then have "?rest n (write_job (?f j) st)" and "\<not> goes_out run p j"
      using Cons.prems(3) by (simp_all add: after_waiting_def goes_out_def)
    with rest show ?thesis by simp
  next
    case True
    show ?thesis
    proof (cases "submit_for run p j")
      case (Handed a)
      with True have g: "goes_out run p j" by (simp add: goes_out_def)
      then have "?rest (n + 1) (unlink (job_held_file_path j) (write_job (?f j) (hand_over j p st)))"
        using Cons.prems(3) Handed True by (simp add: after_waiting_def)
      from rest [OF this] g show ?thesis by (simp add: hs_jobs_write)
    next
      case (ReleaseError msg)
      with True have "\<not> goes_out run p j" by (simp add: goes_out_def)
      moreover have "?rest n (write_job (?f j) st)"
        using Cons.prems(3) ReleaseError True calculation by (simp add: after_waiting_def)
      ultimately show ?thesis using rest by simp
    qed (use Cons.prems(3) True in simp)
  qed
qed simp

lemma release_waiting_no_crash:
  "release_waiting run now p js n st = (Some m, st') \<Longrightarrow>
   \<forall>j\<in>set js. truthy (job_held_file_path j) \<longrightarrow> submit_for run p j \<noteq> ReleaseCrash"
proof (induction js arbitrary: n st)
  case (Cons j js)
  then show ?case by (auto split: if_splits release_answer.splits)
qed simp

lemma after_waiting_status:
  "(truthy (job_held_file_path j) \<Longrightarrow> submit_for run p j \<noteq> ReleaseCrash) \<Longrightarrow>
   job_status (after_waiting run now p j) = (if goes_out run p j then ''forwarded'' else ''failed'')"
  by (auto simp: after_waiting_def goes_out_def failed_row_def forwarded_row_def split: release_answer.splits)

lemma release_closed_form:
  assumes "distinct (map job_id (hs_jobs st))" "release_jobs_waiting_for run now p st = (Some n, st')"
  shows "hs_jobs st' = map (\<lambda>r. if waits_for p r then after_waiting run now p r else r) (hs_jobs st)"
    "hs_handed st' = hs_handed st @ map (\<lambda>j. (job_id j, printer_id p))
       (filter (goes_out run p) (sort_key job_created_at (filter (waits_for p) (hs_jobs st))))"
    "n = length (filter (goes_out run p) (sort_key job_created_at (filter (waits_for p) (hs_jobs st))))"
    "r \<in> set (hs_jobs st) \<Longrightarrow> waits_for p r \<Longrightarrow>
       job_status (after_waiting run now p r) = (if goes_out run p r then ''forwarded'' else ''failed'')"
proof -
  have run: "release_waiting run now p (sort_key job_created_at (filter (waits_for p) (hs_jobs st))) 0 st = (Some n, st')"
    using assms(2) by (simp add: release_jobs_waiting_for_def)
  note form = release_waiting_closed_form [OF fresh_rows_sort [OF fresh_rows_filter [OF assms(1)]] assms(1) run]
  show "hs_jobs st' = map (\<lambda>r. if waits_for p r then after_waiting run now p r else r) (hs_jobs st)"
    using form by auto
  show "hs_handed st' = hs_handed st @ map (\<lambda>j. (job_id j, printer_id p))
       (filter (goes_out run p) (sort_key job_created_at (filter (waits_for p) (hs_jobs st))))"
    "n = length (filter (goes_out run p) (sort_key job_created_at (filter (waits_for p) (hs_jobs st))))"
    using form by auto
  show "r \<in> set (hs_jobs st) \<Longrightarrow> waits_for p r \<Longrightarrow>
      job_status (after_waiting run now p r) = (if goes_out run p r then ''forwarded'' else ''failed'')"
    using release_waiting_no_crash [OF run] by (auto simp: after_waiting_status)
qed

lemma release_leaves_none_waiting:
  assumes "distinct (map job_id (hs_jobs st))" "release_jobs_waiting_for run now p st = (Some n, st')"
    "r \<in> set (hs_jobs st')"
  shows "\<not> waits_for p r"
proof
  assume w: "waits_for p r"
  obtain k where k: "k \<in> set (hs_jobs st)" "r = (if waits_for p k then after_waiting run now p k else k)"
    using assms(3) unfolding release_closed_form(1) [OF assms(1,2)] by auto
  then have "waits_for p k" using w by (auto split: if_splits)
  then have "job_status r = (if goes_out run p k then ''forwarded'' else ''failed'')"
    using release_closed_form(4) [OF assms(1,2) k(1)] k(2) by simp
  then show False using w by (simp add: waits_for_def split: if_splits)
qed

lemma release_never_crashes:
  assumes "\<And>argv e. run argv \<noteq> OtherOSError e"
  shows "fst (release_jobs_waiting_for run now p st) \<noteq> None"
proof -
  have "submit_for run p j \<noteq> ReleaseCrash" if "truthy (job_held_file_path j)" for j
    using assms that
    by (cases "job_held_file_path j")
      (auto simp: submit_for_def submit_released_job_def Let_def split: process_result.split)
  then have "fst (release_waiting run now p js n st) \<noteq> None" for js n st
    by (induction js arbitrary: n st) (auto split: release_answer.split)
  then show ?thesis by (simp add: release_jobs_waiting_for_def)
qed

text \<open>
  When a printer answers again and the release runs through, every job that waited for it is
  closed - forwarded when CUPS took it, failed with the reason otherwise - no other row changes,
  the deliveries go out in the order the jobs were sent, and the count is the number of
  deliveries.
\<close>

theorem printer_back_closes_every_waiting_job:
  assumes "distinct (map job_id (hs_jobs st))"
    "release_jobs_waiting_for run now p st = (Some n, st')"
  shows "hs_jobs st' = map (\<lambda>r. if waits_for p r then after_waiting run now p r else r) (hs_jobs st) \<and>
    (\<forall>r\<in>set (hs_jobs st). waits_for p r \<longrightarrow>
       job_status (after_waiting run now p r) = (if goes_out run p r then ''forwarded'' else ''failed'')) \<and>
    (\<exists>ds. hs_handed st' = hs_handed st @ map (\<lambda>j. (job_id j, printer_id p)) ds \<and> length ds = n \<and>
       sorted (map job_created_at ds) \<and> set ds = {r \<in> set (hs_jobs st). waits_for p r \<and> goes_out run p r})"
proof -
  let ?js = "sort_key job_created_at (filter (waits_for p) (hs_jobs st))"
  have "sorted (map job_created_at (filter (goes_out run p) ?js))" by (rule sorted_filter) simp
  moreover have "set (filter (goes_out run p) ?js) = {r \<in> set (hs_jobs st). waits_for p r \<and> goes_out run p r}" by auto
  ultimately show ?thesis using release_closed_form [OF assms] by blast
qed

theorem printer_back_closes_every_waiting_job_witness:
  "\<exists>n st'. release_jobs_waiting_for lp_accepts 9 (hd (hs_printers example_holds)) example_holds = (Some n, st') \<and>
    hs_jobs st' = map (\<lambda>r. if waits_for (hd (hs_printers example_holds)) r
       then after_waiting lp_accepts 9 (hd (hs_printers example_holds)) r else r) (hs_jobs example_holds)"
proof -
  have "fst (release_jobs_waiting_for lp_accepts 9 (hd (hs_printers example_holds)) example_holds) = Some 2"
    by code_simp
  then obtain st' where
    st': "release_jobs_waiting_for lp_accepts 9 (hd (hs_printers example_holds)) example_holds = (Some 2, st')"
    by (cases "release_jobs_waiting_for lp_accepts 9 (hd (hs_printers example_holds)) example_holds") auto
  from printer_back_closes_every_waiting_job [OF example_holds_fresh(1) st'] st' show ?thesis by blast
qed

subsection \<open>Between the steps of a release\<close>

text \<open>
  An admin's release awaits \<open>lp\<close> between reading the row and writing it, so other sessions run
  in between.  Its steps: reading the row and the printer with the guards, the delivery, and the
  unconditional write of the changed columns by primary key (status, completion time and path;
  or status, message and completion time) over whatever the row then says.
\<close>

datatype releasing = ReadHeld job printer | Answered job printer release_answer

datatype race_event =
    Reads nat uuid "uuid option"
  | Delivers nat runner
  | Writes nat
  | Discards uuid

record race =
  race_holds :: hold_state
  race_sessions :: "nat \<rightharpoonup> releasing"
  race_answers :: "(discard_error + job) list"

definition release_reads :: "uuid \<Rightarrow> uuid option \<Rightarrow> hold_state \<Rightarrow> releasing option" where
  "release_reads i target st =
     (case find_job i (hs_jobs st) of
        None \<Rightarrow> None
      | Some j \<Rightarrow>
          if job_status j \<noteq> ''held'' then None
          else
            (case find (\<lambda>p. printer_id p = (case target of None \<Rightarrow> job_printer_id j | Some t \<Rightarrow> t)) (hs_printers st) of
               None \<Rightarrow> None
             | Some p \<Rightarrow> if printer_is_virtual p then None else Some (ReadHeld j p)))"

definition release_delivers :: "runner \<Rightarrow> job \<Rightarrow> printer \<Rightarrow> hold_state \<Rightarrow> releasing \<times> hold_state" where
  "release_delivers run j p st =
     (Answered j p (submit_for run p j),
      (case submit_for run p j of Handed a \<Rightarrow> hand_over j p st | _ \<Rightarrow> st))"

definition release_writes :: "datetime \<Rightarrow> job \<Rightarrow> release_answer \<Rightarrow> hold_state \<Rightarrow> hold_state" where
  "release_writes now j answer st =
     (case find_job (job_id j) (hs_jobs st) of
        None \<Rightarrow> st
      | Some current \<Rightarrow>
          (case answer of
             ReleaseCrash \<Rightarrow> st
           | ReleaseError msg \<Rightarrow> write_job (failed_row now msg current) st
           | Handed a \<Rightarrow> unlink (job_held_file_path j) (write_job (forwarded_row now current) st)))"

fun race_step :: "case_maps \<Rightarrow> datetime \<times> race_event \<Rightarrow> race \<Rightarrow> race" where
  "race_step cm (now, Reads s i target) r =
     r\<lparr>race_sessions := (race_sessions r)(s := release_reads i target (race_holds r))\<rparr>"
| "race_step cm (now, Delivers s run) r =
     (case race_sessions r s of
        Some (ReadHeld j p) \<Rightarrow>
          (let (a, st) = release_delivers run j p (race_holds r)
           in r\<lparr>race_holds := st, race_sessions := (race_sessions r)(s \<mapsto> a)\<rparr>)
      | _ \<Rightarrow> r)"
| "race_step cm (now, Writes s) r =
     (case race_sessions r s of
        Some (Answered j p answer) \<Rightarrow>
          r\<lparr>race_holds := release_writes now j answer (race_holds r),
            race_sessions := (race_sessions r)(s := None)\<rparr>
      | _ \<Rightarrow> r)"
| "race_step cm (now, Discards i) r =
     (let (a, st) = discard_hold cm now i None (race_holds r)
      in r\<lparr>race_holds := st, race_answers := race_answers r @ [a]\<rparr>)"

text \<open>Run to its end without another session in between, the split release is the release.\<close>

lemma split_release_alone:
  shows "race_holds (fold (race_step cm) [(now, Reads s i target), (now, Delivers s run), (now, Writes s)] r) =
    snd (release_held_job run now i target (race_holds r))"
proof (cases "find_job i (hs_jobs (race_holds r))")
  case (Some j)
  then have "job_id j = i" using find_job_in by blast
  with Some show ?thesis
    by (auto simp: release_reads_def release_held_job_def release_delivers_def release_writes_def
        deliver_held_def Let_def write_job_def hand_over_def split: option.splits release_answer.splits)
qed (simp add: release_reads_def release_held_job_def)

definition race_start :: race where
  "race_start = \<lparr>race_holds = example_holds, race_sessions = Map.empty, race_answers = []\<rparr>"

text \<open>
  The row is not claimed by a release before it delivers: a discard that comes after lp took the
  document and before the release's write is told it succeeded, and the document is printed all the same and its row ends
  forwarded; and two releases at once deliver one document twice.
\<close>

theorem discard_can_lose_to_a_running_release:
  "(let r = fold (race_step \<lparr>cm_sql_lower = id, cm_casefold = id\<rparr>)
       [(10, Reads 1 ''j1'' None), (11, Delivers 1 lp_accepts), (12, Discards ''j1''), (13, Writes 1)] race_start
    in (case race_answers r of [Inr j] \<Rightarrow> job_status j = ''cancelled'' | _ \<Rightarrow> False) \<and>
       hs_handed (race_holds r) = [(''j1'', ''p1'')] \<and>
       map_option job_status (find_job ''j1'' (hs_jobs (race_holds r))) = Some ''forwarded'') \<and>
   hs_handed (race_holds (fold (race_step \<lparr>cm_sql_lower = id, cm_casefold = id\<rparr>)
     [(10, Reads 1 ''j1'' None), (10, Reads 2 ''j1'' None), (11, Delivers 1 lp_accepts),
      (12, Delivers 2 lp_accepts), (13, Writes 1), (14, Writes 2)] race_start)) =
     [(''j1'', ''p1''), (''j1'', ''p1'')]"
  by code_simp

end
