(* ===== verification/Job_Lifecycle.thy ===== *)
theory Job_Lifecycle
  imports Attribution Quotas Job_Reconcile Held_Jobs
begin

section \<open>The life of a job's row (app/routers/jobs.py)\<close>

text \<open>
  What the CUPS backend script reports and an admin cancels: \<open>create_job\<close> with the attribution,
  the hold decision and the closing of earlier attempts, \<open>update_job\<close> with the expiry of a hold,
  and \<open>cancel_job\<close> with its check that the CUPS number still names this job.  The rows are the
  job table of the quota tables.  The row of a new job has the id and time given to it; a printer
  that does not exist breaks the foreign key.
\<close>

record job_create =
  jc_printer_id :: uuid
  jc_cups_job_id :: "int option"
  jc_cups_job_uuid :: "string option"
  jc_submitted_by :: "string option"
  jc_file_size_bytes :: "int option"
  jc_source_host :: "string option"
  jc_document_name :: "string option"
  jc_copy_count :: "int option"
  jc_submitted_pages :: "int option"

record job_update =
  ju_status :: string
  ju_error_message :: "string option"
  ju_file_size_bytes :: "int option"
  ju_page_count :: "int option"
  ju_color_mode :: "string option"
  ju_duplex :: "bool option"
  ju_paper_size :: "string option"
  ju_held_file_path :: "string option"
  ju_held_job_options :: "string option"

record desk =
  dk_quota :: quota_db
  dk_printers :: "printer list"
  dk_attribution :: attribution_db
  dk_hold_expiry :: timedelta \<comment> \<open>hold_expiry_hours of the release settings\<close>

abbreviation dk_jobs :: "desk \<Rightarrow> job list" where
  "dk_jobs dk \<equiv> qd_jobs (dk_quota dk)"

definition set_jobs :: "job list \<Rightarrow> desk \<Rightarrow> desk" where
  "set_jobs js dk = dk\<lparr>dk_quota := dk_quota dk\<lparr>qd_jobs := js\<rparr>\<rparr>"

subsection \<open>A new attempt\<close>

definition SUPERSEDES_WITHIN :: timedelta where
  "SUPERSEDES_WITHIN = hours 6"

definition earlier_attempt :: "datetime \<Rightarrow> job \<Rightarrow> job \<Rightarrow> bool" where
  "earlier_attempt now j k \<longleftrightarrow>
     (if job_cups_job_uuid j \<noteq> None then job_cups_job_uuid k = job_cups_job_uuid j
      else job_printer_id k = job_printer_id j \<and> job_cups_job_id k = job_cups_job_id j \<and>
           job_cups_job_uuid k = None \<and> job_created_at k \<ge> now - SUPERSEDES_WITHIN) \<and>
     job_id k \<noteq> job_id j \<and> job_status k \<notin> {''forwarded'', ''held''}"

definition superseded_row :: "datetime \<Rightarrow> job \<Rightarrow> job \<Rightarrow> job" where
  "superseded_row now j k =
     k\<lparr>job_status := ''cancelled'', job_superseded_by := Some (job_id j),
       job_error_message := Some (''Superseded '' @ [CHR 0xE2, CHR 0x80, CHR 0x94] @
         '' the print server retried this job, and the later record of it '' @
         ''has what became of it.''),
       job_completed_at := (case job_completed_at k of None \<Rightarrow> Some now | Some t \<Rightarrow> Some t)\<rparr>"

definition supersede_earlier_attempts :: "datetime \<Rightarrow> job \<Rightarrow> job list \<Rightarrow> job list" where
  "supersede_earlier_attempts now j table =
     (if job_cups_job_id j = None \<and> job_cups_job_uuid j = None then table
      else map (\<lambda>k. if earlier_attempt now j k then superseded_row now j k else k) table)"

definition new_row ::
  "datetime \<Rightarrow> uuid \<Rightarrow> job_create \<Rightarrow> string \<times> string \<times> string option \<Rightarrow> string option \<Rightarrow> job" where
  "new_row now new payload attributed hold_reason =
     (case attributed of (user, attr_method, mac) \<Rightarrow>
        (job_defaults new (jc_printer_id payload) now)
          \<lparr>job_cups_job_id := jc_cups_job_id payload, job_cups_job_uuid := jc_cups_job_uuid payload,
           job_submitted_by := Some user, job_attribution_method := attr_method, job_mac_address := mac,
           job_file_size_bytes := jc_file_size_bytes payload, job_document_name := jc_document_name payload,
           job_copy_count := jc_copy_count payload, job_submitted_pages := jc_submitted_pages payload,
           job_status := ''forwarding'', job_hold_reason := hold_reason\<rparr>)"

definition create_job ::
  "outside_world \<Rightarrow> datetime \<Rightarrow> uuid \<Rightarrow> uuid \<Rightarrow> job_create \<Rightarrow> desk \<Rightarrow> (http_error + job) \<times> desk" where
  "create_job w now new eid payload dk =
     (case resolve_user w (dk_attribution dk) (jc_submitted_by payload) (jc_source_host payload) of
        Inl err \<Rightarrow> (Inl ServerError, dk)
      | Inr attributed \<Rightarrow>
          (case find (\<lambda>p. printer_id p = jc_printer_id payload) (dk_printers dk) of
             None \<Rightarrow> (Inl ServerError, dk)
           | Some p \<Rightarrow>
               if printer_archived_at p \<noteq> None then
                 (Inl (Http 409 ''This printer has been archived and no longer accepts jobs.''), dk)
               else
                 (case resolve_hold_reason (dk_quota dk) p (Some (fst attributed)) now eid of
                    Inl err \<Rightarrow> (Inl ServerError, dk)
                  | Inr (hold_reason, notes) \<Rightarrow>
                      (let j = new_row now new payload attributed hold_reason
                       in (Inr j,
                           dk\<lparr>dk_quota := dk_quota dk
                              \<lparr>qd_notify := notes,
                               qd_jobs := supersede_earlier_attempts now j (dk_jobs dk @ [j])\<rparr>\<rparr>)))))"

subsection \<open>The outcome the script reports\<close>

definition updated_row :: "datetime \<Rightarrow> timedelta \<Rightarrow> printer option \<Rightarrow> job_update \<Rightarrow> job \<Rightarrow> job" where
  "updated_row now expiry p payload j =
     (let j = j\<lparr>job_status := ju_status payload, job_error_message := ju_error_message payload,
                job_file_size_bytes := (case ju_file_size_bytes payload of
                   None \<Rightarrow> job_file_size_bytes j | Some n \<Rightarrow> Some n),
                job_page_count := ju_page_count payload,
                job_color_mode := recorded_color_mode
                  (case p of None \<Rightarrow> None | Some q \<Rightarrow> printer_capabilities q) (ju_color_mode payload),
                job_duplex := ju_duplex payload, job_paper_size := ju_paper_size payload\<rparr>
      in if ju_status payload = ''held'' then
           j\<lparr>job_held_file_path := ju_held_file_path payload,
             job_held_job_options := ju_held_job_options payload,
             job_held_expires_at :=
               (if job_hold_reason j = Some HOLD_REASON then None else Some (now + expiry))\<rparr>
         else j\<lparr>job_completed_at := Some now\<rparr>)"

definition replace_row :: "job \<Rightarrow> job list \<Rightarrow> job list" where
  "replace_row j table = map (\<lambda>k. if job_id k = job_id j then j else k) table"

definition update_job :: "datetime \<Rightarrow> uuid \<Rightarrow> job_update \<Rightarrow> desk \<Rightarrow> (http_error + job) \<times> desk" where
  "update_job now i payload dk =
     (case find_job i (dk_jobs dk) of
        None \<Rightarrow> (Inl (Http 404 ''Job not found''), dk)
      | Some j \<Rightarrow>
          (let j = updated_row now (dk_hold_expiry dk)
                     (find (\<lambda>p. printer_id p = job_printer_id j) (dk_printers dk)) payload j
           in (Inr j, set_jobs (replace_row j (dk_jobs dk)) dk)))"

subsection \<open>Cancelling\<close>

record cups_access =
  ca_ipptool :: "string \<Rightarrow> string \<Rightarrow> process_result"
  ca_user :: string
  ca_run :: runner

definition is_still_the_same_cups_job :: "case_maps \<Rightarrow> cups_access \<Rightarrow> job \<Rightarrow> int \<Rightarrow> bool" where
  "is_still_the_same_cups_job cm c j n =
     (case cups_identity (ca_ipptool c) (ca_user c) (job_printer_id j) n of
        None \<Rightarrow> False
      | Some identity \<Rightarrow>
          if truthy (job_cups_job_uuid j) \<and> truthy (ci_uuid identity)
          then job_cups_job_uuid j = ci_uuid identity
          else if truthy (job_submitted_by j) \<and> truthy (ci_owner identity)
          then cm_casefold cm (the (job_submitted_by j)) = cm_casefold cm (the (ci_owner identity))
          else False)"

definition cancelled_row :: "datetime \<Rightarrow> string \<Rightarrow> job \<Rightarrow> job" where
  "cancelled_row now username j =
     j\<lparr>job_status := ''cancelled'', job_error_message := Some (''Cancelled by '' @ username),
       job_completed_at := Some now\<rparr>"

definition cancel_job ::
  "case_maps \<Rightarrow> cups_access \<Rightarrow> datetime \<Rightarrow> uuid \<Rightarrow> string \<Rightarrow> desk \<Rightarrow> (http_error + job) \<times> desk" where
  "cancel_job cm c now i username dk =
     (case find_job i (dk_jobs dk) of
        None \<Rightarrow> (Inl (Http 404 ''Job not found''), dk)
      | Some j \<Rightarrow>
          if job_status j = ''forwarded'' then
            (Inl (Http 400 (''Job has already printed '' @ [CHR 0xE2, CHR 0x80, CHR 0x94] @
               '' there is nothing left to cancel.'')), dk)
          else if job_status j = ''held'' then
            (Inl (Http 400 ''Held jobs are discarded rather than cancelled.''), dk)
          else
            (case job_cups_job_id j of
               None \<Rightarrow> (Inl (Http 400 (''Job has no CUPS job id on record '' @
                  [CHR 0xE2, CHR 0x80, CHR 0x94] @ '' nothing to cancel.'')), dk)
             | Some n \<Rightarrow>
                 (let answer = (if job_status j = ''forwarding'' \<or> is_still_the_same_cups_job cm c j n
                                then cancel_cups_job (ca_run c) n else Inr ())
                  in case answer of
                       Inl (JobControlError m) \<Rightarrow> (Inl (Http 502 m), dk)
                     | Inl (ScriptOSError m) \<Rightarrow> (Inl ServerError, dk)
                     | Inr u \<Rightarrow> (Inr (cancelled_row now username j),
                                 set_jobs (replace_row (cancelled_row now username j) (dk_jobs dk)) dk))))"

subsection \<open>What a retry rewrites\<close>

lemma dk_jobs_set [simp]: "dk_jobs (set_jobs js dk) = js"
  by (simp add: set_jobs_def)

lemma create_job_Inr:
  assumes "create_job w now new eid payload dk = (Inr j, dk')"
  shows "job_id j = new \<and> job_cups_job_uuid j = jc_cups_job_uuid payload \<and>
    job_cups_job_id j = jc_cups_job_id payload \<and> job_printer_id j = jc_printer_id payload \<and>
    job_status j = ''forwarding'' \<and> job_created_at j = now \<and>
    dk_jobs dk' = supersede_earlier_attempts now j (dk_jobs dk @ [j])"
  using assms
  by (auto simp: create_job_def new_row_def job_defaults_def Let_def split: sum.splits option.splits if_splits)

lemma create_job_Inl: "create_job w now new eid payload dk = (Inl e, dk') \<Longrightarrow> dk' = dk"
  by (auto simp: create_job_def Let_def split: sum.splits option.splits if_splits)

lemma superseded_row_simps [simp]:
  "job_id (superseded_row now j k) = job_id k" "job_status (superseded_row now j k) = ''cancelled''"
  "job_cups_job_uuid (superseded_row now j k) = job_cups_job_uuid k"
  by (simp_all add: superseded_row_def)

lemma not_earlier_self: "\<not> earlier_attempt now j j"
  by (simp add: earlier_attempt_def)

text \<open>
  Registering an attempt appends its row and rewrites earlier rows only when they are attempts
  at the same CUPS job - the same uuid, or where neither has one the same printer and number
  within six hours - and neither delivered nor held; each rewritten row is cancelled and names
  the new one.
\<close>

theorem retry_rewrites_only_its_own_trail:
  assumes "create_job w now new eid payload dk = (Inr j, dk')" "new \<notin> job_id ` set (dk_jobs dk)"
  shows "\<exists>f. dk_jobs dk' = map f (dk_jobs dk) @ [j] \<and>
    (\<forall>k\<in>set (dk_jobs dk). f k = k \<or>
       job_status k \<noteq> ''forwarded'' \<and> job_status k \<noteq> ''held'' \<and>
       job_status (f k) = ''cancelled'' \<and> job_superseded_by (f k) = Some new \<and>
       (if jc_cups_job_uuid payload \<noteq> None then job_cups_job_uuid k = jc_cups_job_uuid payload
        else jc_cups_job_id payload \<noteq> None \<and> job_cups_job_uuid k = None \<and>
          job_printer_id k = jc_printer_id payload \<and> job_cups_job_id k = jc_cups_job_id payload \<and>
          now - job_created_at k \<le> hours 6))"
proof -
  let ?f = "\<lambda>k. if job_cups_job_id j = None \<and> job_cups_job_uuid j = None then k
    else if earlier_attempt now j k then superseded_row now j k else k"
  note j = create_job_Inr [OF assms(1)]
  have "dk_jobs dk' = map ?f (dk_jobs dk) @ [j]"
    using j by (cases "job_cups_job_id j = None \<and> job_cups_job_uuid j = None")
      (auto simp: supersede_earlier_attempts_def not_earlier_self)
  moreover have "job_superseded_by (superseded_row now j k) = Some new" for k
    using j by (simp add: superseded_row_def)
  ultimately show ?thesis
    using j by (intro exI [of _ ?f]) (auto simp: earlier_attempt_def SUPERSEDES_WITHIN_def)
qed

subsection \<open>One CUPS job, one failure\<close>

datatype job_event =
    Created outside_world uuid uuid job_create
  | Updated uuid job_update
  | Cancelled case_maps cups_access uuid string

fun job_step :: "datetime \<times> job_event \<Rightarrow> desk \<Rightarrow> desk" where
  "job_step (now, Created w new eid payload) dk = snd (create_job w now new eid payload dk)"
| "job_step (now, Updated i payload) dk = snd (update_job now i payload dk)"
| "job_step (now, Cancelled cm c i username) dk = snd (cancel_job cm c now i username dk)"

text \<open>The rows of one CUPS job, in the order they were registered.\<close>

definition attempts :: "string \<Rightarrow> job list \<Rightarrow> job list" where
  "attempts u table = filter (\<lambda>j. job_cups_job_uuid j = Some u) table"

text \<open>
  What cupsd does: ids are fresh, and the outcome reported is that of the last attempt (cupsd
  runs one backend for a job at a time).
\<close>

fun orderly_event :: "datetime \<times> job_event \<Rightarrow> desk \<Rightarrow> bool" where
  "orderly_event (now, Created w new eid payload) dk = (new \<notin> job_id ` set (dk_jobs dk))"
| "orderly_event (now, Updated i payload) dk =
     (case find_job i (dk_jobs dk) of None \<Rightarrow> True
      | Some j \<Rightarrow> (case job_cups_job_uuid j of None \<Rightarrow> True
         | Some u \<Rightarrow> job_id (last (attempts u (dk_jobs dk))) = i))"
| "orderly_event (now, Cancelled cm c i username) dk = True"

fun orderly :: "(datetime \<times> job_event) list \<Rightarrow> desk \<Rightarrow> bool" where
  "orderly [] dk = True"
| "orderly (e # es) dk = (orderly_event e dk \<and> orderly es (job_step e dk))"

definition trail_closed :: "job list \<Rightarrow> bool" where
  "trail_closed table \<longleftrightarrow> distinct (map job_id table) \<and>
     (\<forall>u. \<forall>j\<in>set (butlast (attempts u table)). job_status j \<in> {''cancelled'', ''forwarded'', ''held''})"

lemma attempts_map:
  "(\<And>k. k \<in> set table \<Longrightarrow> job_cups_job_uuid (f k) = job_cups_job_uuid k) \<Longrightarrow>
   attempts u (map f table) = map f (attempts u table)"
  by (induction table) (auto simp: attempts_def)

lemma in_butlast_map: "x \<in> set (butlast (map f xs)) \<Longrightarrow> \<exists>k\<in>set (butlast xs). x = f k"
  by (auto simp: map_butlast [symmetric])

lemma trail_closed_map:
  assumes "trail_closed table" "\<And>k. k \<in> set table \<Longrightarrow> job_cups_job_uuid (f k) = job_cups_job_uuid k"
    "\<And>k. k \<in> set table \<Longrightarrow> job_id (f k) = job_id k"
    "\<And>u k. k \<in> set (butlast (attempts u table)) \<Longrightarrow> f k = k \<or> job_status (f k) = ''cancelled''"
  shows "trail_closed (map f table)"
proof -
  have "map job_id (map f table) = map job_id table" using assms(3) by simp
  then have "distinct (map job_id (map f table))" using assms(1) by (simp only: trail_closed_def)
  moreover have "job_status j \<in> {''cancelled'', ''forwarded'', ''held''}"
    if j: "j \<in> set (butlast (attempts u (map f table)))" for u j
  proof -
    have "attempts u (map f table) = map f (attempts u table)" by (rule attempts_map) (rule assms(2))
    then obtain k where "k \<in> set (butlast (attempts u table))" "j = f k"
      using j in_butlast_map [of j f "attempts u table"] by auto
    with assms(1,4) show ?thesis by (fastforce simp: trail_closed_def)
  qed
  ultimately show ?thesis unfolding trail_closed_def by blast
qed

lemma trail_closed_replace:
  assumes "trail_closed table" "find_job i table = Some j" "job_id j' = job_id j"
    "job_cups_job_uuid j' = job_cups_job_uuid j"
    "job_status j' = ''cancelled'' \<or>
       (\<forall>u. job_cups_job_uuid j = Some u \<longrightarrow> job_id (last (attempts u table)) = i)"
  shows "trail_closed (replace_row j' table)"
proof -
  have j: "j \<in> set table" "job_id j = i" using find_job_in [OF assms(2)] by auto
  have only: "k = j" if "k \<in> set table" "job_id k = i" for k
    using assms(1) j that by (auto simp: trail_closed_def distinct_map dest: inj_onD)
  have "k \<noteq> j" if "k \<in> set (butlast (attempts u table))" "job_status j' \<noteq> ''cancelled''" for u k
  proof
    assume "k = j"
    with that(1) have u: "j \<in> set (attempts u table)" by (metis in_set_butlastD)
    then have "job_id (last (attempts u table)) = i" using assms(5) that(2) by (auto simp: attempts_def)
    moreover have "distinct (map job_id (attempts u table))"
      using assms(1) by (simp add: trail_closed_def attempts_def distinct_map_filter)
    then have "distinct (map job_id (butlast (attempts u table)) @ [job_id (last (attempts u table))])"
      using u by (metis append_butlast_last_id empty_iff empty_set list.simps(8,9) map_append)
    ultimately show False using that(1) \<open>k = j\<close> j(2) by (metis distinct_append
          disjoint_iff list.set_intros(1) image_eqI list.set_map)
  qed
  moreover have "k \<in> set table" if "k \<in> set (butlast (attempts u table))" for u k
    using in_set_butlastD [OF that] by (simp add: attempts_def)
  ultimately have keep: "k \<in> set (butlast (attempts u table)) \<Longrightarrow> job_status j' \<noteq> ''cancelled'' \<Longrightarrow> job_id k \<noteq> i"
    for u k using only by blast
  show ?thesis unfolding replace_row_def
  proof (rule trail_closed_map [OF assms(1)])
    fix k
    assume k: "k \<in> set table"
    show "job_cups_job_uuid (if job_id k = job_id j' then j' else k) = job_cups_job_uuid k"
      using only [OF k] assms(3,4) j(2) by simp
    show "job_id (if job_id k = job_id j' then j' else k) = job_id k" by simp
  next
    fix u k
    assume k: "k \<in> set (butlast (attempts u table))"
    show "(if job_id k = job_id j' then j' else k) = k \<or>
        job_status (if job_id k = job_id j' then j' else k) = ''cancelled''"
      using keep [OF k] assms(3) j(2) by (cases "job_status j' = ''cancelled''") simp_all
  qed
qed

lemma trail_closed_create:
  assumes "trail_closed table" "job_id j \<notin> job_id ` set table"
  shows "trail_closed (supersede_earlier_attempts now j (table @ [j]))"
proof -
  let ?f = "\<lambda>k. if earlier_attempt now j k then superseded_row now j k else k"
  have appended: "trail_closed (map ?f table)"
    using assms(1) by (rule trail_closed_map) auto
  have distinct: "distinct (map job_id (supersede_earlier_attempts now j (table @ [j])))"
    using assms by (auto simp: supersede_earlier_attempts_def trail_closed_def not_earlier_self comp_def
        if_distrib cong: if_cong)
  have "job_status k \<in> {''cancelled'', ''forwarded'', ''held''}"
    if k: "k \<in> set (butlast (attempts u (supersede_earlier_attempts now j (table @ [j]))))" for u k
  proof (cases "job_cups_job_uuid j")
    case None
    then have "attempts u (supersede_earlier_attempts now j (table @ [j])) =
        (if job_cups_job_id j = None then attempts u table else attempts u (map ?f table))"
      by (simp add: supersede_earlier_attempts_def attempts_def not_earlier_self)
    with k assms(1) appended show ?thesis by (auto simp: trail_closed_def split: if_splits)
  next
    case (Some v)
    have all: "supersede_earlier_attempts now j (table @ [j]) = map ?f table @ [j]"
      using Some by (simp add: supersede_earlier_attempts_def not_earlier_self)
    show ?thesis
    proof (cases "u = v")
      case True
      then have "k \<in> set (attempts v (map ?f table))"
        using k Some by (simp add: all attempts_def)
      then obtain i where i: "i \<in> set table" "k = ?f i" "job_cups_job_uuid i = Some v"
        by (auto simp: attempts_def split: if_splits)
      then have "job_id i \<noteq> job_id j" using assms(2) by (metis image_eqI)
      with i Some show ?thesis by (auto simp: earlier_attempt_def)
    next
      case False
      then have "k \<in> set (butlast (attempts u (map ?f table)))" using k Some by (simp add: all attempts_def)
      with appended show ?thesis by (auto simp: trail_closed_def)
    qed
  qed
  with distinct show ?thesis by (auto simp: trail_closed_def)
qed

lemma cancel_job_effect:
  "snd (cancel_job cm c now i username dk) = dk \<or>
   (\<exists>j. find_job i (dk_jobs dk) = Some j \<and>
      snd (cancel_job cm c now i username dk) =
        set_jobs (replace_row (cancelled_row now username j) (dk_jobs dk)) dk)"
  by (simp add: cancel_job_def Let_def split: option.split sum.split control_error.split)

lemma create_job_effect:
  "snd (create_job w now new eid payload dk) = dk \<or>
   (\<exists>j. job_id j = new \<and>
      dk_jobs (snd (create_job w now new eid payload dk)) = supersede_earlier_attempts now j (dk_jobs dk @ [j]))"
proof (cases "create_job w now new eid payload dk")
  case (Pair r dk')
  show ?thesis
  proof (cases r)
    case (Inl err)
    then show ?thesis using Pair create_job_Inl by simp
  next
    case (Inr j)
    have "job_id j = new \<and> dk_jobs dk' = supersede_earlier_attempts now j (dk_jobs dk @ [j])"
      using create_job_Inr [OF Pair [unfolded Inr]] by blast
    then show ?thesis unfolding Pair snd_conv by blast
  qed
qed

lemma trail_closed_step:
  assumes "trail_closed (dk_jobs dk)" "orderly_event e dk"
  shows "trail_closed (dk_jobs (job_step e dk))"
proof -
  obtain now ev where e: "e = (now, ev)" by (cases e)
  show ?thesis
  proof (cases ev)
    case (Created w new eid payload)
    with assms(2) e have fresh: "new \<notin> job_id ` set (dk_jobs dk)" by simp
    have "trail_closed (dk_jobs (snd (create_job w now new eid payload dk)))"
      using create_job_effect [of w now new eid payload dk]
    proof
      assume "\<exists>j. job_id j = new \<and> dk_jobs (snd (create_job w now new eid payload dk)) =
        supersede_earlier_attempts now j (dk_jobs dk @ [j])"
      then obtain j where j: "job_id j = new" "dk_jobs (snd (create_job w now new eid payload dk)) =
        supersede_earlier_attempts now j (dk_jobs dk @ [j])" by blast
      show ?thesis unfolding j(2) using assms(1) fresh j(1) by (intro trail_closed_create) simp_all
    qed (simp only: assms(1))
    then show ?thesis by (simp only: e Created job_step.simps)
  next
    case (Updated i payload)
    show ?thesis
    proof (cases "find_job i (dk_jobs dk)")
      case (Some j)
      then have "trail_closed (replace_row (updated_row now x p payload j) (dk_jobs dk))" for x p
        using assms Updated e
        by (intro trail_closed_replace [OF assms(1) Some]) (auto simp: updated_row_def Let_def)
      with Some Updated e show ?thesis by (simp add: update_job_def Let_def)
    qed (use assms Updated e in \<open>simp add: update_job_def\<close>)
  next
    case (Cancelled cm c i username)
    have "trail_closed (replace_row (cancelled_row now username j) (dk_jobs dk))"
      if "find_job i (dk_jobs dk) = Some j" for j
      by (rule trail_closed_replace [OF assms(1) that]) (simp_all add: cancelled_row_def)
    then have "trail_closed (dk_jobs (snd (cancel_job cm c now i username dk)))"
      using assms(1) cancel_job_effect [of cm c now i username dk] by (metis dk_jobs_set)
    then show ?thesis by (simp only: e Cancelled job_step.simps)
  qed
qed

lemma one_live_of_trail:
  assumes "trail_closed table"
  shows "length (filter (\<lambda>j. job_cups_job_uuid j = Some u \<and> job_status j = ''failed'') table) \<le> 1"
proof -
  have split: "filter (\<lambda>j. job_cups_job_uuid j = Some u \<and> job_status j = ''failed'') table =
      filter (\<lambda>j. job_status j = ''failed'') (attempts u table)"
    by (simp add: attempts_def conj_commute)
  have none: "filter (\<lambda>j. job_status j = ''failed'') (butlast (attempts u table)) = []"
    using assms by (fastforce simp: trail_closed_def filter_empty_conv)
  show ?thesis
  proof (cases "attempts u table = []")
    case False
    then have "attempts u table = butlast (attempts u table) @ [last (attempts u table)]" by simp
    then have "filter (\<lambda>j. job_status j = ''failed'') (attempts u table) =
        filter (\<lambda>j. job_status j = ''failed'') [last (attempts u table)]"
      using none by (metis append_Nil filter_append)
    then show ?thesis unfolding split by simp
  qed (simp add: split)
qed

text \<open>
  C14: however often cupsd retries a job, at most one row of it is recorded as failed: over any
  sequence of registrations, outcomes reported for the latest attempt and cancellations,
  starting from an empty table.
\<close>

theorem one_failure_per_cups_job:
  assumes "dk_jobs dk = []" "orderly events dk"
  shows "length (filter (\<lambda>j. job_cups_job_uuid j = Some u \<and> job_status j = ''failed'')
    (dk_jobs (fold job_step events dk))) \<le> 1"
proof -
  have "trail_closed (dk_jobs d) \<Longrightarrow> orderly events d \<Longrightarrow> trail_closed (dk_jobs (fold job_step events d))" for d
    by (induction events arbitrary: d) (simp_all add: trail_closed_step)
  moreover have "trail_closed (dk_jobs dk)" using assms(1) by (simp add: trail_closed_def attempts_def)
  ultimately show ?thesis using assms(2) one_live_of_trail by blast
qed

text \<open>A desk with one printer and nobody in the directories.\<close>

definition quiet_world :: outside_world where
  "quiet_world = \<lparr>ow_lease = (\<lambda>ip. LeaseUnreachable), ow_decrypt = (\<lambda>t. None), ow_py_lower = id, ow_sql_lower = id\<rparr>"

definition example_desk :: desk where
  "example_desk =
     \<lparr>dk_quota = \<lparr>qd_enabled = False, qd_quotas = [], qd_bypasses = [], qd_jobs = [],
        qd_notification_settings = qd_notification_settings example_quotas, qd_notify = \<lparr>nd_states = [], nd_events = []\<rparr>\<rparr>,
      dk_printers = [printer_defaults ''p1'' ''Library''],
      dk_attribution = \<lparr>ad_classguard = None, ad_aliases = [], ad_overrides = [], ad_mosyle_enabled = False,
        ad_mosyle_devices = [], ad_workspace_enabled = False, ad_workspace_devices = [], ad_roster = []\<rparr>,
      dk_hold_expiry = hours 48\<rparr>"

definition attempt_payload :: job_create where
  "attempt_payload = \<lparr>jc_printer_id = ''p1'', jc_cups_job_id = Some 4584, jc_cups_job_uuid = Some ''u'',
     jc_submitted_by = Some ''ann@x.org'', jc_file_size_bytes = None, jc_source_host = None,
     jc_document_name = None, jc_copy_count = None, jc_submitted_pages = None\<rparr>"

definition reported :: "string \<Rightarrow> job_update" where
  "reported status = \<lparr>ju_status = status, ju_error_message = None, ju_file_size_bytes = None, ju_page_count = None,
     ju_color_mode = None, ju_duplex = None, ju_paper_size = None, ju_held_file_path = Some ''/spool/x'',
     ju_held_job_options = None\<rparr>"

definition example_events :: "(datetime \<times> job_event) list" where
  "example_events = [(0, Created quiet_world ''a1'' ''e1'' attempt_payload), (1, Updated ''a1'' (reported ''failed'')),
     (2, Created quiet_world ''a2'' ''e2'' attempt_payload), (3, Updated ''a2'' (reported ''failed''))]"

theorem one_failure_per_cups_job_witness:
  "length (filter (\<lambda>j. job_cups_job_uuid j = Some ''u'' \<and> job_status j = ''failed'')
     (dk_jobs (fold job_step example_events example_desk))) \<le> 1"
proof -
  have "dk_jobs example_desk = []" by code_simp
  moreover have "orderly example_events example_desk" by code_simp
  ultimately show ?thesis by (rule one_failure_per_cups_job)
qed

theorem retry_rewrites_only_its_own_trail_witness:
  "\<exists>j dk' f. create_job quiet_world 9 ''a3'' ''e3'' attempt_payload (fold job_step example_events example_desk) = (Inr j, dk') \<and>
     dk_jobs dk' = map f (dk_jobs (fold job_step example_events example_desk)) @ [j]"
proof -
  let ?dk = "fold job_step example_events example_desk"
  have "case fst (create_job quiet_world 9 ''a3'' ''e3'' attempt_payload ?dk) of Inl e \<Rightarrow> False | Inr j \<Rightarrow> True"
    by code_simp
  then obtain j dk' where r: "create_job quiet_world 9 ''a3'' ''e3'' attempt_payload ?dk = (Inr j, dk')"
    by (cases "create_job quiet_world 9 ''a3'' ''e3'' attempt_payload ?dk") (auto split: sum.splits)
  have "''a3'' \<notin> job_id ` set (dk_jobs ?dk)" by code_simp
  from retry_rewrites_only_its_own_trail [OF r this] r show ?thesis by blast
qed

subsection \<open>Cancelling\<close>

text \<open>
  Cancelling a row that has ended (cancelled or failed, say) never reaches for a CUPS number
  that now belongs to another job: when cupsd has no such job, or one with another uuid, the row
  is closed whatever the cancel command would have answered - it is not run.
\<close>

theorem cancel_spares_a_reused_number:
  assumes "find_job i (dk_jobs dk) = Some j" "job_status j \<notin> {''forwarded'', ''held'', ''forwarding''}"
    "job_cups_job_id j = Some n"
    "case cups_identity (ca_ipptool c) (ca_user c) (job_printer_id j) n of None \<Rightarrow> True
     | Some k \<Rightarrow> truthy (job_cups_job_uuid j) \<and> truthy (ci_uuid k) \<and> ci_uuid k \<noteq> job_cups_job_uuid j"
  shows "cancel_job cm (c\<lparr>ca_run := run\<rparr>) now i username dk =
    (Inr (cancelled_row now username j),
     set_jobs (replace_row (cancelled_row now username j) (dk_jobs dk)) dk)"
proof -
  have "\<not> is_still_the_same_cups_job cm (c\<lparr>ca_run := run\<rparr>) j n"
    using assms(4) by (auto simp: is_still_the_same_cups_job_def split: option.splits)
  with assms(1-3) show ?thesis by (simp add: cancel_job_def)
qed

definition mute_cups :: cups_access where
  "mute_cups = \<lparr>ca_ipptool = (\<lambda>u r. TimedOut), ca_user = ''printops'', ca_run = (\<lambda>argv. FileNotFound)\<rparr>"

theorem cancel_spares_a_reused_number_witness:
  "\<exists>j. fst (cancel_job \<lparr>cm_sql_lower = id, cm_casefold = id\<rparr> mute_cups 9 ''a2'' ''admin''
     (fold job_step example_events example_desk)) = Inr (cancelled_row 9 ''admin'' j)"
proof -
  let ?dk = "fold job_step example_events example_desk"
  let ?j = "the (find_job ''a2'' (dk_jobs ?dk))"
  have j: "find_job ''a2'' (dk_jobs ?dk) = Some ?j" by code_simp
  have s: "job_status ?j \<notin> {''forwarded'', ''held'', ''forwarding''}" by code_simp
  have n: "job_cups_job_id ?j = Some 4584" by code_simp
  have c: "case cups_identity (ca_ipptool mute_cups) (ca_user mute_cups) (job_printer_id ?j) 4584 of None \<Rightarrow> True
     | Some k \<Rightarrow> truthy (job_cups_job_uuid ?j) \<and> truthy (ci_uuid k) \<and> ci_uuid k \<noteq> job_cups_job_uuid ?j" by code_simp
  have "mute_cups\<lparr>ca_run := (\<lambda>argv. FileNotFound)\<rparr> = mute_cups" by (simp add: mute_cups_def)
  with cancel_spares_a_reused_number [OF j s n c, of _ "\<lambda>argv. FileNotFound"] show ?thesis by auto
qed

subsection \<open>When a hold runs out\<close>

text \<open>
  A job held for an absent printer is never taken by the expiry purge, however long it waits;
  every other hold is taken exactly by the purges that run later than the configured hours after
  it was reported.
\<close>

theorem only_uncollected_holds_expire:
  assumes "update_job now i payload dk = (Inr j, dk')" "ju_status payload = ''held''"
  shows "expired_hold t j \<longleftrightarrow> job_hold_reason j \<noteq> Some HOLD_REASON \<and> now + dk_hold_expiry dk < t"
  using assms by (auto simp: update_job_def updated_row_def expired_hold_def Let_def split: option.splits if_splits)

theorem only_uncollected_holds_expire_witness:
  "case fst (update_job 10 ''a2'' (reported ''held'') (fold job_step example_events example_desk)) of
     Inl e \<Rightarrow> False | Inr j \<Rightarrow> expired_hold (hours 100) j \<longleftrightarrow> job_hold_reason j \<noteq> Some HOLD_REASON \<and> 10 + hours 48 < hours 100"
proof -
  let ?dk = "fold job_step example_events example_desk"
  have "case fst (update_job 10 ''a2'' (reported ''held'') ?dk) of Inl e \<Rightarrow> False | Inr j \<Rightarrow> True" by code_simp
  then obtain j dk' where r: "update_job 10 ''a2'' (reported ''held'') ?dk = (Inr j, dk')"
    by (cases "update_job 10 ''a2'' (reported ''held'') ?dk") (auto split: sum.splits)
  have h: "ju_status (reported ''held'') = ''held''" "dk_hold_expiry ?dk = hours 48" by code_simp+
  from only_uncollected_holds_expire [OF r h(1), of "hours 100"] r h(2) show ?thesis by simp
qed

end
