(* ===== verification/Printer_Status.thy ===== *)
theory Printer_Status
  imports Models Queue_Recovery Queue_Stall Network_Health Page_Reconcile
begin

section \<open>The status of a printer (app/printers/status.py)\<close>

text \<open>
  One status check of a printer: the debounced probe, the log of the network path, the stopped
  CUPS queue, the stalled head job and the two warnings, then - for a printer that came back -
  the rediscovery and the rationed queue resync; with the room left in cupsd
  (app/printers/cups_health.py) and the sync scripts (app/printers/queue_sync.py).  The module
  dictionaries of queue_recovery and queue_stall are the memory of the check.  One reading of the
  clock stands for those of one check.  The probe, the commands, the two files cups_health reads and
  the capabilities a device reports are parameters.
\<close>

subsection \<open>Room in cupsd (cups_health.py)\<close>

definition DEFAULT_MAX_CLIENTS :: nat where "DEFAULT_MAX_CLIENTS = 100"
definition CUPS_SOCKET :: string where "CUPS_SOCKET = ''/run/cups/cups.sock''"

text \<open>The digits after the directive's name, when the text starts with the directive.\<close>

definition directive_value :: "string \<Rightarrow> string option" where
  "directive_value s =
     (let rest = dropWhile py_isspace s in
      if map ascii_lower (take 10 rest) \<noteq> ''maxclients'' then None
      else (let v = drop 10 rest; digits = takeWhile is_digit (dropWhile py_isspace v)
            in if v \<noteq> [] \<and> py_isspace (hd v) \<and> digits \<noteq> [] then Some digits else None))"

fun search_directive :: "bool \<Rightarrow> string \<Rightarrow> string option" where
  "search_directive line_start [] = None"
| "search_directive line_start (c # cs) =
     (case (if line_start then directive_value (c # cs) else None) of
        Some v \<Rightarrow> Some v
      | None \<Rightarrow> search_directive (c = CHR 0x0A) cs)"

definition max_clients :: "string option \<Rightarrow> nat" where
  "max_clients conf =
     (case conf of
        None \<Rightarrow> DEFAULT_MAX_CLIENTS
      | Some text \<Rightarrow>
          (case search_directive True text of
             None \<Rightarrow> DEFAULT_MAX_CLIENTS
           | Some digits \<Rightarrow> if digits_value digits = 0 then DEFAULT_MAX_CLIENTS else digits_value digits))"

definition open_connections :: "string option \<Rightarrow> nat option" where
  "open_connections proc_net_unix =
     map_option (\<lambda>text. length (filter
       (\<lambda>line. let parts = py_split line in
          length parts \<ge> 8 \<and> last parts = CUPS_SOCKET \<and> parts ! 5 = ''03'') (splitlines text)))
       proc_net_unix"

text \<open>\<open>count >= limit * 0.6\<close>: the float product is exact where it matters, on multiples of five.\<close>

definition is_saturated :: "string option \<Rightarrow> string option \<Rightarrow> bool" where
  "is_saturated proc_net_unix conf =
     (case open_connections proc_net_unix of
        None \<Rightarrow> False
      | Some count \<Rightarrow> 5 * count \<ge> 3 * max_clients conf)"

subsection \<open>The sync scripts (queue_sync.py)\<close>

datatype sync_error = QueueSyncError string | SyncOSError string

definition run_sync :: "runner \<Rightarrow> string \<Rightarrow> string \<Rightarrow> int \<Rightarrow> sync_error + unit" where
  "run_sync run script pid timeout =
     (case run [script, pid] of
        FileNotFound \<Rightarrow> Inl (QueueSyncError (script @ '' not found on the PrintOps server.''))
      | OtherOSError e \<Rightarrow> Inl (SyncOSError e)
      | TimedOut \<Rightarrow> Inl (QueueSyncError (script @ '' timed out after '' @ str_int timeout @ ''s.''))
      | Exited rc out err \<Rightarrow>
          if rc \<noteq> 0 then
            (let reason = py_strip (if err \<noteq> [] then err else out)
             in Inl (QueueSyncError
               (if reason \<noteq> [] then reason else script @ '' exited '' @ str_int rc @ ''.'')))
          else Inr ())"

definition sync_queue :: "runner \<Rightarrow> string \<Rightarrow> bool \<Rightarrow> sync_error + unit" where
  "sync_queue run pid is_virtual =
     (case run_sync run ''sync_cups_queue.sh'' pid 90 of
        Inl e \<Rightarrow> Inl e
      | Inr u \<Rightarrow> if is_virtual then Inr () else run_sync run ''sync_release_queue.sh'' pid 90)"

definition remove_queue :: "runner \<Rightarrow> string \<Rightarrow> sync_error + unit" where
  "remove_queue run pid =
     (case run_sync run ''remove_cups_queue.sh'' pid 20 of
        Inl e \<Rightarrow> Inl e
      | Inr u \<Rightarrow> run_sync run ''remove_release_queue.sh'' pid 20)"

subsection \<open>One check\<close>

definition CONSECUTIVE_PROBE_FAILURES_BEFORE_OFFLINE :: int where
  "CONSECUTIVE_PROBE_FAILURES_BEFORE_OFFLINE = 2"

definition PRINTER_STATE_STOPPED :: int where "PRINTER_STATE_STOPPED = 5"

record printer_state_result =
  psr_state :: "int option"
  psr_reasons :: "string list"
  psr_message :: "string option"

record poll_world =
  pw_probe :: "string + printer_state_result" \<comment> \<open>the probe's error or its answer\<close>
  pw_seconds :: rat
  pw_run :: runner
  pw_proc :: "string option"
  pw_conf :: "string option"
  pw_capabilities :: "string + (string, json) dict"
  pw_py_str :: "json \<Rightarrow> string"

record poll_memory =
  pm_attempts :: attempts
  pm_observations :: observations

datatype 'a poll_end = Finished 'a | Crashed

abbreviation saturated :: "poll_world \<Rightarrow> bool" where
  "saturated w \<equiv> is_saturated (pw_proc w) (pw_conf w)"

definition derive_status :: "int option \<Rightarrow> string list \<Rightarrow> string \<times> string option" where
  "derive_status printer_state state_reasons =
     (let reasons = filter (\<lambda>r. r \<noteq> ''none'') state_reasons;
          first = (case reasons of [] \<Rightarrow> None | r # rs \<Rightarrow> Some r)
      in if list_ex (\<lambda>r. suffix ''-error'' r) reasons \<or> printer_state = Some PRINTER_STATE_STOPPED
         then (''error'', first)
         else if printer_state \<in> {Some 3, Some 4} then (''online'', first)
         else (''unknown'', None))"

text \<open>The probe's effect on the row, up to and including the time of the check.\<close>

definition probed_row :: "poll_world \<Rightarrow> datetime \<Rightarrow> printer \<Rightarrow> printer" where
  "probed_row w now p =
     (case pw_probe w of
        Inl err \<Rightarrow>
          (let n = printer_status_probe_failures p + 1
           in if n \<ge> CONSECUTIVE_PROBE_FAILURES_BEFORE_OFFLINE
              then p\<lparr>printer_status_probe_failures := n, printer_status := ''offline'',
                     printer_status_reasons := None, printer_status_message := Some err\<rparr>
              else p\<lparr>printer_status_probe_failures := n\<rparr>)
      | Inr r \<Rightarrow>
          (case derive_status (psr_state r) (psr_reasons r) of (status, message) \<Rightarrow>
             p\<lparr>printer_status_probe_failures := 0, printer_status := status,
               printer_status_reasons := or_none (filter (\<lambda>x. x \<noteq> ''none'') (psr_reasons r)),
               printer_status_message := (if truthy (psr_message r) then psr_message r else message),
               printer_last_online_at := coalesce (printer_status_checked_at p) (Some now)\<rparr>))
       \<lparr>printer_status_checked_at := Some now\<rparr>"

definition answered :: "poll_world \<Rightarrow> bool" where
  "answered w = (case pw_probe w of Inl err \<Rightarrow> False | Inr r \<Rightarrow> True)"

definition add_reason :: "string \<Rightarrow> printer \<Rightarrow> printer" where
  "add_reason reason p =
     p\<lparr>printer_status_reasons := Some (list_or_empty (printer_status_reasons p) @ [reason])\<rparr>"

definition mark_paused :: "local_queue_state \<Rightarrow> bool \<Rightarrow> printer \<Rightarrow> printer" where
  "mark_paused state resumed p =
     (let p = p\<lparr>printer_status_message := Some (paused_reason state resumed)\<rparr>
      in if resumed then p
         else add_reason QUEUE_PAUSED_REASON (p\<lparr>printer_status := ''error''\<rparr>))"

text \<open>Whether the queue was found stopped and is the diagnosis; the row and the memory after.\<close>

definition apply_queue_recovery ::
  "poll_world \<Rightarrow> bool \<Rightarrow> datetime \<Rightarrow> printer \<Rightarrow> poll_memory \<Rightarrow> bool poll_end \<times> printer \<times> poll_memory" where
  "apply_queue_recovery w manual now p mem =
     (let pid = printer_id p in
      if saturated w then (Finished False, p, mem)
      else
        (case get_local_queue_state (pw_run w) pid of
           None \<Rightarrow> (Finished False, p, mem\<lparr>pm_attempts := recovery_forget pid (pm_attempts mem)\<rparr>)
         | Some state \<Rightarrow>
             if \<not> lq_stopped state
             then (Finished False, p, mem\<lparr>pm_attempts := recovery_forget pid (pm_attempts mem)\<rparr>)
             else
               (let mem = mem\<lparr>pm_observations := stall_forget pid (pm_observations mem)\<rparr> in
                if \<not> answered w \<or> printer_status p \<noteq> ''online'' then
                  (Finished False, add_reason QUEUE_PAUSED_REASON p,
                   if printer_status p \<noteq> ''online''
                   then mem\<lparr>pm_attempts := note_still_stopped pid (note_device_away pid (pm_attempts mem))\<rparr>
                   else mem)
                else
                  (let attempts = note_device_back pid now (pm_attempts mem) in
                   if \<not> (manual \<or> resume_due pid now attempts)
                   then (Finished True, mark_paused state False p,
                         mem\<lparr>pm_attempts := note_still_stopped pid attempts\<rparr>)
                   else
                     (case resume_queue (pw_run w) pid now attempts of
                        (Inl (QueueResumeError e), attempts) \<Rightarrow>
                          (Finished True, mark_paused state False p, mem\<lparr>pm_attempts := attempts\<rparr>)
                      | (Inl (UncaughtOSError e), attempts) \<Rightarrow> (Crashed, p, mem\<lparr>pm_attempts := attempts\<rparr>)
                      | (Inr u, attempts) \<Rightarrow>
                          (Finished True, mark_paused state True p, mem\<lparr>pm_attempts := attempts\<rparr>))))))"

definition apply_queue_stall ::
  "poll_world \<Rightarrow> datetime \<Rightarrow> printer \<Rightarrow> poll_memory \<Rightarrow> printer \<times> poll_memory" where
  "apply_queue_stall w now p mem =
     (let pid = printer_id p;
          forgotten = mem\<lparr>pm_observations := stall_forget pid (pm_observations mem)\<rparr> in
      if printer_status p \<noteq> ''online'' then (p, forgotten)
      else if saturated w then (p, forgotten)
      else
        (let snapshot = read_queue (pw_run w) pid in
         case stall_observe pid snapshot now (pm_observations mem) of
           (stuck_for, obs) \<Rightarrow>
             (case (stuck_for, snapshot) of
                (Some d, Some snap) \<Rightarrow>
                  (add_reason ''printops-queue-stalled''
                     (p\<lparr>printer_status := ''error'', printer_status_message := Some (stall_reason d snap)\<rparr>),
                   mem\<lparr>pm_observations := obs\<rparr>)
              | _ \<Rightarrow> (p, mem\<lparr>pm_observations := obs\<rparr>))))"

definition apply_network_flap :: "network_flap option \<Rightarrow> printer \<Rightarrow> printer" where
  "apply_network_flap flap p =
     (case flap of
        None \<Rightarrow> p
      | Some f \<Rightarrow>
          if printer_status p \<noteq> ''online'' then p
          else add_reason NETWORK_UNSTABLE_REASON (p\<lparr>printer_status_message := Some (flap_reason f)\<rparr>))"

definition apply_pages_not_printed :: "(json \<Rightarrow> string) \<Rightarrow> datetime \<Rightarrow> printer \<Rightarrow> printer" where
  "apply_pages_not_printed py_str now p =
     (if printer_status p \<noteq> ''online'' then p
      else (case recorded_reason py_str (printer_pages_not_printed p) now of
              None \<Rightarrow> p
            | Some reason \<Rightarrow>
                add_reason PAGES_NOT_PRINTED_REASON (p\<lparr>printer_status_message := Some reason\<rparr>)))"

text \<open>The steps after the probe and its log entry.\<close>

definition diagnose ::
  "poll_world \<Rightarrow> bool \<Rightarrow> datetime \<Rightarrow> network_flap option \<Rightarrow> printer \<Rightarrow> poll_memory \<Rightarrow>
   unit poll_end \<times> printer \<times> poll_memory" where
  "diagnose w manual now flap p mem =
     (case apply_queue_recovery w manual now p mem of
        (Crashed, p, mem) \<Rightarrow> (Crashed, p, mem)
      | (Finished True, p, mem) \<Rightarrow> (Finished (), p, mem)
      | (Finished False, p, mem) \<Rightarrow>
          if \<not> answered w
          then (Finished (), p, mem\<lparr>pm_observations := stall_forget (printer_id p) (pm_observations mem)\<rparr>)
          else
            (case apply_queue_stall w now p mem of
               (p, mem) \<Rightarrow>
                 (Finished (), apply_pages_not_printed (pw_py_str w) now (apply_network_flap flap p), mem)))"

definition refresh_printer_status ::
  "poll_world \<Rightarrow> bool \<Rightarrow> datetime \<Rightarrow> printer \<Rightarrow> poll_memory \<Rightarrow> unit poll_end \<times> printer \<times> poll_memory" where
  "refresh_printer_status w manual now p mem =
     (let p = probed_row w now p in
      case network_observe (printer_network_probe_log p) (answered w) (Some (pw_seconds w)) now of
        Inl err \<Rightarrow> (Crashed, p, mem)
      | Inr (entries, flap) \<Rightarrow>
          diagnose w manual now flap (p\<lparr>printer_network_probe_log := Some entries\<rparr>) mem)"

subsection \<open>Coming back online\<close>

definition AUTO_RESYNC_COOLDOWN :: timedelta where "AUTO_RESYNC_COOLDOWN = minutes 30"
definition MAX_AUTO_RESYNC_BACKOFF :: timedelta where "MAX_AUTO_RESYNC_BACKOFF = hours 6"
definition RESYNC_MAX_DOUBLINGS :: int where "RESYNC_MAX_DOUBLINGS = 16"

definition resync_wait :: "int \<Rightarrow> timedelta" where
  "resync_wait n =
     (if n \<le> 0 then AUTO_RESYNC_COOLDOWN
      else (let doublings = min n RESYNC_MAX_DOUBLINGS
            in min (AUTO_RESYNC_COOLDOWN * 2 ^ nat doublings) MAX_AUTO_RESYNC_BACKOFF))"

definition auto_resync_backoff :: "printer \<Rightarrow> timedelta" where
  "auto_resync_backoff p = resync_wait (printer_auto_queue_sync_failures p)"

definition auto_resync_due :: "printer \<Rightarrow> datetime \<Rightarrow> bool" where
  "auto_resync_due p now =
     (case printer_last_auto_queue_sync_at p of
        None \<Rightarrow> True
      | Some last_sync \<Rightarrow> now - last_sync \<ge> auto_resync_backoff p)"

definition run_automatic_queue_sync :: "poll_world \<Rightarrow> datetime \<Rightarrow> printer \<Rightarrow> bool poll_end \<times> printer" where
  "run_automatic_queue_sync w now p =
     (if \<not> auto_resync_due p now then (Finished False, p)
      else if saturated w then (Finished False, p)
      else
        (case active_job_count (pw_run w) (printer_id p) of
           None \<Rightarrow> (Finished False, p)
         | Some active \<Rightarrow>
             if active > 0 then (Finished False, p)
             else
               (let p = p\<lparr>printer_last_auto_queue_sync_at := Some now\<rparr> in
                case sync_queue (pw_run w) (printer_id p) False of
                  Inr u \<Rightarrow> (Finished True, p\<lparr>printer_queue_sync_error := None, printer_auto_queue_sync_failures := 0\<rparr>)
                | Inl (QueueSyncError e) \<Rightarrow>
                    (Finished True, p\<lparr>printer_queue_sync_error := Some e,
                       printer_auto_queue_sync_failures := printer_auto_queue_sync_failures p + 1\<rparr>)
                | Inl (SyncOSError e) \<Rightarrow> (Crashed, p))))"

text \<open>The capability columns of the record; the connection columns a probe may adopt are not in it.\<close>

definition refresh_printer_capabilities :: "poll_world \<Rightarrow> printer \<Rightarrow> printer" where
  "refresh_printer_capabilities w p =
     (case pw_capabilities w of
        Inl err \<Rightarrow> p\<lparr>printer_capabilities_error := Some err\<rparr>
      | Inr caps \<Rightarrow> p\<lparr>printer_capabilities := Some caps, printer_capabilities_error := None\<rparr>)"

definition refresh_printer_status_and_rediscover ::
  "poll_world \<Rightarrow> bool \<Rightarrow> datetime \<Rightarrow> printer \<Rightarrow> poll_memory \<Rightarrow> unit poll_end \<times> printer \<times> poll_memory" where
  "refresh_printer_status_and_rediscover w manual now p mem =
     (let was_online = (printer_status p = ''online'') in
      case refresh_printer_status w manual now p mem of
        (Crashed, p, mem) \<Rightarrow> (Crashed, p, mem)
      | (Finished u, p, mem) \<Rightarrow>
          if printer_status p \<noteq> ''online'' \<or> was_online then (Finished (), p, mem)
          else
            (case run_automatic_queue_sync w now (refresh_printer_capabilities w p) of
               (Crashed, p) \<Rightarrow> (Crashed, p, mem)
             | (Finished attempted, p) \<Rightarrow> (Finished (), p, mem)))"

subsection \<open>The steps after the probe keep the debounce\<close>

lemma add_reason_simps [simp]:
  "printer_status (add_reason r p) = printer_status p" "printer_id (add_reason r p) = printer_id p"
  "printer_status_probe_failures (add_reason r p) = printer_status_probe_failures p"
  "printer_status_reasons (add_reason r p) = Some (list_or_empty (printer_status_reasons p) @ [r])"
  "printer_pages_not_printed (add_reason r p) = printer_pages_not_printed p"
  by (simp_all add: add_reason_def)

lemma mark_paused_simps [simp]:
  "printer_status (mark_paused st resumed p) = (if resumed then printer_status p else ''error'')"
  "printer_status_probe_failures (mark_paused st resumed p) = printer_status_probe_failures p"
  "printer_status_reasons (mark_paused st resumed p) =
     (if resumed then printer_status_reasons p
      else Some (list_or_empty (printer_status_reasons p) @ [QUEUE_PAUSED_REASON]))"
  by (simp_all add: mark_paused_def Let_def)

lemma recovery_row:
  "apply_queue_recovery w manual now p mem = (r, p', mem') \<Longrightarrow>
   printer_status_probe_failures p' = printer_status_probe_failures p \<and>
   (printer_status p' = printer_status p \<or> printer_status p = ''online'' \<and> printer_status p' = ''error'')"
  unfolding apply_queue_recovery_def Let_def
  by (auto split: if_splits option.splits sum.splits prod.splits resume_error.splits)

lemma stall_row:
  "apply_queue_stall w now p mem = (p', mem') \<Longrightarrow>
   printer_status_probe_failures p' = printer_status_probe_failures p \<and>
   (printer_status p' = printer_status p \<or> printer_status p = ''online'' \<and> printer_status p' = ''error'')"
  unfolding apply_queue_stall_def Let_def
  by (auto split: if_splits option.splits prod.splits)

lemma warnings_row [simp]:
  "printer_status (apply_pages_not_printed f now p) = printer_status p"
  "printer_status (apply_network_flap flap p) = printer_status p"
  "printer_status_probe_failures (apply_pages_not_printed f now p) = printer_status_probe_failures p"
  "printer_status_probe_failures (apply_network_flap flap p) = printer_status_probe_failures p"
  by (simp_all add: apply_pages_not_printed_def apply_network_flap_def split: option.split)

definition settled_from :: "printer \<Rightarrow> printer \<Rightarrow> bool" where
  "settled_from p p' \<longleftrightarrow> printer_status_probe_failures p' = printer_status_probe_failures p \<and>
     (printer_status p' = printer_status p \<or> printer_status p = ''online'' \<and> printer_status p' = ''error'')"

lemma diagnose_row: "diagnose w manual now flap p mem = (r, p', mem') \<Longrightarrow> settled_from p p'"
proof -
  assume d: "diagnose w manual now flap p mem = (r, p', mem')"
  obtain e q m where r: "apply_queue_recovery w manual now p mem = (e, q, m)" by (metis prod_cases3)
  obtain q2 m2 where s: "apply_queue_stall w now q m = (q2, m2)" by fastforce
  from recovery_row [OF r] stall_row [OF s] d show ?thesis
    by (auto simp: diagnose_def r s settled_from_def split: poll_end.splits bool.splits if_splits)
qed

lemma refresh_row:
  assumes "refresh_printer_status w manual now p mem = (r, p', mem')"
  shows "settled_from (probed_row w now p) p'"
proof (cases "network_observe (printer_network_probe_log (probed_row w now p)) (answered w) (Some (pw_seconds w)) now")
  case (Inl e)
  with assms show ?thesis by (simp add: refresh_printer_status_def Let_def settled_from_def)
next
  case (Inr x)
  obtain entries flap where x: "x = (entries, flap)" by (cases x)
  have "diagnose w manual now flap (probed_row w now p\<lparr>printer_network_probe_log := Some entries\<rparr>) mem = (r, p', mem')"
    using assms by (simp add: refresh_printer_status_def Let_def Inr x)
  from diagnose_row [OF this] show ?thesis by (simp add: settled_from_def)
qed

lemma derive_status_values: "fst (derive_status st rs) \<in> {''error'', ''online'', ''unknown''}"
  by (simp add: derive_status_def Let_def)

text \<open>A run of checks of one printer; what a check that crashed left on the row is kept.\<close>

fun checks :: "(poll_world \<times> bool \<times> datetime) list \<Rightarrow> printer \<times> poll_memory \<Rightarrow> printer \<times> poll_memory" where
  "checks [] s = s"
| "checks ((w, manual, now) # cs) (p, mem) = checks cs (snd (refresh_printer_status w manual now p mem))"

fun trailing_misses :: "nat \<Rightarrow> poll_world list \<Rightarrow> nat" where
  "trailing_misses n [] = n"
| "trailing_misses n (w # ws) = trailing_misses (if answered w then 0 else n + 1) ws"

lemma trailing_misses_snoc:
  "trailing_misses n (ws @ [w]) = (if answered w then 0 else trailing_misses n ws + 1)"
  by (induction ws arbitrary: n) auto

lemma trailing_misses_rev: "trailing_misses 0 ws = length (takeWhile (\<lambda>w. \<not> answered w) (rev ws))"
  by (induction ws rule: rev_induct) (simp_all add: trailing_misses_snoc)

lemma probed_debounce:
  assumes "printer_status_probe_failures p = int n" "printer_status p = ''offline'' \<longleftrightarrow> 2 \<le> n"
  shows "printer_status_probe_failures (probed_row w now p) = int (if answered w then 0 else n + 1) \<and>
    (printer_status (probed_row w now p) = ''offline'' \<longleftrightarrow> 2 \<le> (if answered w then 0 else n + 1))"
proof (cases "pw_probe w")
  case (Inl e)
  then show ?thesis
    using assms by (auto simp: probed_row_def answered_def Let_def CONSECUTIVE_PROBE_FAILURES_BEFORE_OFFLINE_def)
next
  case (Inr r)
  have "fst (derive_status (psr_state r) (psr_reasons r)) \<noteq> ''offline''"
    using derive_status_values [of "psr_state r" "psr_reasons r"] by auto
  with Inr show ?thesis by (simp add: probed_row_def answered_def case_prod_unfold)
qed

lemma checks_debounce:
  assumes "printer_status_probe_failures p = int n" "printer_status p = ''offline'' \<longleftrightarrow> 2 \<le> n"
  shows "printer_status_probe_failures (fst (checks cs (p, mem))) = int (trailing_misses n (map fst cs)) \<and>
    (printer_status (fst (checks cs (p, mem))) = ''offline'' \<longleftrightarrow> 2 \<le> trailing_misses n (map fst cs))"
  using assms
proof (induction cs arbitrary: p mem n)
  case (Cons c cs)
  obtain w manual now where c: "c = (w, manual, now)" by (metis prod_cases3)
  obtain r p' mem' where r: "refresh_printer_status w manual now p mem = (r, p', mem')" by (metis prod_cases3)
  have "printer_status_probe_failures p' = int (if answered w then 0 else n + 1) \<and>
      (printer_status p' = ''offline'' \<longleftrightarrow> 2 \<le> (if answered w then 0 else n + 1))"
    using probed_debounce [OF Cons.prems, of w now] refresh_row [OF r] by (auto simp: settled_from_def)
  with Cons.IH show ?case unfolding c by (simp add: r)
qed simp

text \<open>
  C27: one lost probe is not an outage and two in a row are: after any run of checks of a printer
  not yet counted out - manual ones included, whatever its queue, its network path and its pages
  say, and even when a check ends in an exception - the row reads offline exactly when the last two
  probes went unanswered.
\<close>

theorem offline_means_two_misses_in_a_row:
  assumes "printer_status_probe_failures p = 0" "printer_status p \<noteq> ''offline''"
  shows "printer_status (fst (checks cs (p, mem))) = ''offline'' \<longleftrightarrow>
    2 \<le> length (takeWhile (\<lambda>(w, manual, now). \<not> answered w) (rev cs))"
proof -
  have "takeWhile (\<lambda>w. \<not> answered w) (rev (map fst cs)) =
      map fst (takeWhile (\<lambda>(w, manual, now). \<not> answered w) (rev cs))"
    by (simp add: rev_map takeWhile_map comp_def case_prod_unfold)
  then have "trailing_misses 0 (map fst cs) = length (takeWhile (\<lambda>(w, manual, now). \<not> answered w) (rev cs))"
    by (simp add: trailing_misses_rev)
  with checks_debounce [of p 0 cs mem] assms show ?thesis by simp
qed

text \<open>A printer that is idle, and one that does not answer; every command fails to start.\<close>

definition idle_world :: poll_world where
  "idle_world = \<lparr>pw_probe = Inr \<lparr>psr_state = Some 3, psr_reasons = [''none''], psr_message = None\<rparr>,
     pw_seconds = 0, pw_run = (\<lambda>argv. FileNotFound), pw_proc = None, pw_conf = None,
     pw_capabilities = Inl ''no answer'', pw_py_str = (\<lambda>v. [])\<rparr>"

definition dark_world :: poll_world where
  "dark_world = idle_world\<lparr>pw_probe := Inl ''timed out''\<rparr>"

definition blank_memory :: poll_memory where
  "blank_memory = \<lparr>pm_attempts = [], pm_observations = []\<rparr>"

theorem offline_means_two_misses_in_a_row_witness:
  "printer_status (fst (checks [(idle_world, False, 0), (dark_world, False, minutes 1), (dark_world, True, minutes 2)]
     (printer_defaults ''p'' ''Lab'', blank_memory))) = ''offline''"
  using offline_means_two_misses_in_a_row [of "printer_defaults ''p'' ''Lab''"
      "[(idle_world, False, 0), (dark_world, False, minutes 1), (dark_world, True, minutes 2)]" blank_memory]
  by (simp add: printer_defaults_def answered_def idle_world_def dark_world_def)

subsection \<open>When a stopped queue is started again\<close>

text \<open>The commands a check asks about a printer's queue, the resume script aside.\<close>

lemma lpstat_same: "(\<And>argv. hd argv = ''lpstat'' \<Longrightarrow> run' argv = run argv) \<Longrightarrow> lpstat run' qs = lpstat run qs"
  by (simp add: lpstat_def)

lemma asks_same:
  assumes "\<And>argv. hd argv = ''lpstat'' \<Longrightarrow> run' argv = run argv"
  shows "get_local_queue_state run' pid = get_local_queue_state run pid" "read_queue run' pid = read_queue run pid"
proof -
  have eq: "lpstat run' = lpstat run" using lpstat_same [of run' run] assms by blast
  show "get_local_queue_state run' pid = get_local_queue_state run pid"
    unfolding get_local_queue_state_def eq ..
qed (simp add: read_queue_def assms)

lemma answered_run [simp]: "answered (w\<lparr>pw_run := run'\<rparr>) = answered w"
  by (simp add: answered_def)

lemma probed_row_run [simp]: "probed_row (w\<lparr>pw_run := run'\<rparr>) now p = probed_row w now p"
  by (simp add: probed_row_def)

lemma resume_not_reached:
  assumes "\<not> answered w \<or> printer_status p \<noteq> ''online'' \<or>
      \<not> manual \<and> \<not> resume_due (printer_id p) now (note_device_back (printer_id p) now (pm_attempts mem))"
    and "\<And>argv. hd argv = ''lpstat'' \<Longrightarrow> run' argv = pw_run w argv"
  shows "apply_queue_recovery (w\<lparr>pw_run := run'\<rparr>) manual now p mem = apply_queue_recovery w manual now p mem"
  using assms(1) asks_same(1) [OF assms(2)]
  by (simp add: apply_queue_recovery_def Let_def split: option.split)

lemma probed_row_keeps [simp]:
  "printer_id (probed_row w now p) = printer_id p"
  by (simp add: probed_row_def Let_def case_prod_unfold split: sum.split)

lemma probed_online:
  "answered w \<Longrightarrow> (printer_status (probed_row w now p) = ''online'') =
     (case pw_probe w of Inl e \<Rightarrow> False | Inr r \<Rightarrow> fst (derive_status (psr_state r) (psr_reasons r)) = ''online'')"
  by (auto simp: answered_def probed_row_def case_prod_unfold split: sum.splits)

text \<open>
  A stopped queue is started again only for a device that answered this very probe and reads
  healthy, and then only on a person's request or off its cooldown.  In every other case the check
  never runs the resume script: its outcome, the row and the memory are the same whatever
  that script would do.
\<close>

theorem only_a_healthy_answer_resumes:
  assumes "case pw_probe w of Inl err \<Rightarrow> True
    | Inr r \<Rightarrow> fst (derive_status (psr_state r) (psr_reasons r)) \<noteq> ''online'' \<or>
        \<not> manual \<and> \<not> resume_due (printer_id p) now (note_device_back (printer_id p) now (pm_attempts mem))"
    and "\<And>argv. hd argv \<noteq> RESUME_SCRIPT_NAME \<Longrightarrow> run' argv = pw_run w argv"
  shows "refresh_printer_status (w\<lparr>pw_run := run'\<rparr>) manual now p mem = refresh_printer_status w manual now p mem"
proof -
  let ?p = "probed_row w now p"
  have asks: "run' argv = pw_run w argv" if "hd argv = ''lpstat''" for argv
    using assms(2) that by (simp add: RESUME_SCRIPT_NAME_def)
  have blocked: "\<not> answered w \<or> printer_status ?p \<noteq> ''online'' \<or>
      \<not> manual \<and> \<not> resume_due (printer_id p) now (note_device_back (printer_id p) now (pm_attempts mem))"
    using assms(1) by (auto simp: answered_def probed_row_def case_prod_unfold split: sum.splits)
  have "apply_queue_recovery (w\<lparr>pw_run := run'\<rparr>) manual now (?p\<lparr>printer_network_probe_log := l\<rparr>) mem =
      apply_queue_recovery w manual now (?p\<lparr>printer_network_probe_log := l\<rparr>) mem" for l
    using blocked asks by (intro resume_not_reached) auto
  moreover have "apply_queue_stall (w\<lparr>pw_run := run'\<rparr>) now q m = apply_queue_stall w now q m" for q m
  proof -
    have same: "pw_proc (w\<lparr>pw_run := run'\<rparr>) = pw_proc w" "pw_conf (w\<lparr>pw_run := run'\<rparr>) = pw_conf w"
      "read_queue (pw_run (w\<lparr>pw_run := run'\<rparr>)) pid = read_queue (pw_run w) pid" for pid
      using asks_same(2) [OF asks] by simp_all
    show ?thesis unfolding apply_queue_stall_def same ..
  qed
  ultimately have "diagnose (w\<lparr>pw_run := run'\<rparr>) manual now flap (?p\<lparr>printer_network_probe_log := l\<rparr>) mem =
      diagnose w manual now flap (?p\<lparr>printer_network_probe_log := l\<rparr>) mem" for flap l
    by (simp add: diagnose_def split: prod.split poll_end.split bool.split)
  then show ?thesis
    by (cases "network_observe (printer_network_probe_log ?p) (answered w) (Some (pw_seconds w)) now")
      (simp_all add: refresh_printer_status_def case_prod_unfold)
qed

text \<open>lpstat answers that both queues of the printer are stopped; the script would start them.\<close>

definition stopped_runner :: runner where
  "stopped_runner argv =
     (if hd argv = ''lpstat'' then Exited 0 ''printer printops-p disabled since today -'' []
      else Exited 0 [] [])"

theorem only_a_healthy_answer_resumes_witness:
  "refresh_printer_status (dark_world\<lparr>pw_run := (\<lambda>argv. if hd argv = RESUME_SCRIPT_NAME then TimedOut else stopped_runner argv)\<rparr>)
     True 0 (printer_defaults ''p'' ''Lab'') blank_memory =
   refresh_printer_status (dark_world\<lparr>pw_run := stopped_runner\<rparr>) True 0 (printer_defaults ''p'' ''Lab'') blank_memory"
  using only_a_healthy_answer_resumes [where w = "dark_world\<lparr>pw_run := stopped_runner\<rparr>" and manual = True
      and p = "printer_defaults ''p'' ''Lab''" and now = 0 and mem = blank_memory
      and run' = "\<lambda>argv. if hd argv = RESUME_SCRIPT_NAME then TimedOut else stopped_runner argv"]
  by (simp add: dark_world_def)

subsection \<open>Why an answering printer reads error\<close>

text \<open>The reasons PrintOps itself adds for a queue that needs somebody.\<close>

definition queue_fault :: "printer \<Rightarrow> bool" where
  "queue_fault p \<longleftrightarrow> QUEUE_PAUSED_REASON \<in> set (list_or_empty (printer_status_reasons p)) \<or>
     ''printops-queue-stalled'' \<in> set (list_or_empty (printer_status_reasons p))"

lemma warning_reasons:
  "queue_fault (apply_pages_not_printed f now p) = queue_fault p" "queue_fault (apply_network_flap flap p) = queue_fault p"
  by (auto simp: queue_fault_def apply_pages_not_printed_def apply_network_flap_def list_or_empty_def
      PAGES_NOT_PRINTED_REASON_def NETWORK_UNSTABLE_REASON_def QUEUE_PAUSED_REASON_def split: option.split)

lemma recovery_fault:
  assumes "apply_queue_recovery w manual now p mem = (Finished b, p', mem')" "printer_status p = ''online''"
    "\<not> queue_fault p" "answered w"
  shows "(printer_status p' = ''error'' \<longleftrightarrow> queue_fault p') \<and> (\<not> b \<longrightarrow> p' = p)"
proof -
  have paused: "queue_fault (mark_paused st r p) \<longleftrightarrow> \<not> r" for st r
    using assms(3) by (cases r) (auto simp: queue_fault_def list_or_empty_def)
  note eq = assms(1) [unfolded apply_queue_recovery_def Let_def]
  have "p' = p \<and> \<not> b \<or> b \<and> (\<exists>st r. p' = mark_paused st r p)"
  proof (cases "get_local_queue_state (pw_run w) (printer_id p)")
    case (Some state)
    let ?a = "note_device_back (printer_id p) now (pm_attempts mem)"
    show ?thesis
    proof (cases "saturated w \<or> \<not> lq_stopped state")
      case True
      with eq Some show ?thesis by (cases "saturated w") simp_all
    next
      case False
      show ?thesis
      proof (cases "manual \<or> resume_due (printer_id p) now ?a")
        case due: True
        obtain res att where r: "resume_queue (pw_run w) (printer_id p) now ?a = (res, att)" by fastforce
        have "b \<and> (\<exists>r. p' = mark_paused state r p)"
        proof (cases res)
          case (Inl e)
          with eq assms(2,4) Some False due r show ?thesis
            by (cases e) auto
        next
          case (Inr u)
          with eq assms(2,4) Some False due r show ?thesis
            by auto
        qed
        then show ?thesis by blast
      next
        case not_due: False
        with eq assms(2,4) Some False show ?thesis by auto
      qed
    qed
  qed (use eq in \<open>simp split: if_splits\<close>)
  then show ?thesis
  proof
    assume "b \<and> (\<exists>st r. p' = mark_paused st r p)"
    then obtain st r where r: "b" "p' = mark_paused st r p" by blast
    show ?thesis unfolding r(2) paused using r(1) assms(2) by simp
  qed (use assms(2,3) in simp)
qed

lemma stall_fault:
  assumes "apply_queue_stall w now p mem = (p', mem')" "printer_status p = ''online''" "\<not> queue_fault p"
  shows "printer_status p' = ''error'' \<longleftrightarrow> queue_fault p'"
proof -
  have "p' = p \<or> (\<exists>m. p' = add_reason ''printops-queue-stalled''
      (p\<lparr>printer_status := ''error'', printer_status_message := m\<rparr>))"
    using assms(1) unfolding apply_queue_stall_def Let_def
    by (auto split: if_splits option.splits prod.splits)
  moreover have "queue_fault (add_reason ''printops-queue-stalled'' q)" for q
    by (simp add: queue_fault_def list_or_empty_def)
  ultimately show ?thesis using assms(2,3) by auto
qed

text \<open>
  A printer that answered and called itself healthy ends its check as online or error, and
  reads error exactly when a reason says its queue is stopped or stalled.  Neither a lossy network
  path nor pages that never came out puts an error on a working machine.
\<close>

theorem healthy_printer_errs_only_for_its_queue:
  assumes "refresh_printer_status w manual now p mem = (Finished (), p', mem')" "pw_probe w = Inr r"
    "fst (derive_status (psr_state r) (psr_reasons r)) = ''online''"
    "\<not> set (psr_reasons r) \<inter> {QUEUE_PAUSED_REASON, ''printops-queue-stalled''} \<noteq> {}"
  shows "printer_status p' \<in> {''online'', ''error''} \<and> (printer_status p' = ''error'' \<longleftrightarrow> queue_fault p')"
proof -
  let ?p = "probed_row w now p"
  have ans: "answered w" using assms(2) by (simp add: answered_def)
  obtain entries flap where net:
    "network_observe (printer_network_probe_log ?p) (answered w) (Some (pw_seconds w)) now = Inr (entries, flap)"
    using assms(1) by (auto simp: refresh_printer_status_def Let_def split: sum.splits)
  let ?q = "?p\<lparr>printer_network_probe_log := Some entries\<rparr>"
  have on: "printer_status ?q = ''online''"
    using assms(2,3) by (simp add: probed_row_def case_prod_unfold)
  have no: "\<not> queue_fault ?q"
    using assms(2,4) by (auto simp: queue_fault_def probed_row_def case_prod_unfold list_or_empty_def or_none_def)
  have d: "diagnose w manual now flap ?q mem = (Finished (), p', mem')"
    using assms(1) net by (simp add: refresh_printer_status_def Let_def)
  obtain e q m where rec: "apply_queue_recovery w manual now ?q mem = (e, q, m)" by (metis prod_cases3)
  obtain q2 m2 where st: "apply_queue_stall w now q m = (q2, m2)" by fastforce
  have "e \<noteq> Crashed" using d rec by (auto simp: diagnose_def)
  then obtain b where b: "e = Finished b" by (cases e) auto
  note fault = recovery_fault [OF rec [unfolded b] on no ans]
  have "printer_status p' = ''error'' \<longleftrightarrow> queue_fault p'"
  proof (cases b)
    case True
    with d rec b have "p' = q" by (simp add: diagnose_def)
    with fault show ?thesis by blast
  next
    case False
    with d rec b st ans have "p' = apply_pages_not_printed (pw_py_str w) now (apply_network_flap flap q2)"
      by (simp add: diagnose_def)
    moreover have "printer_status q2 = ''error'' \<longleftrightarrow> queue_fault q2"
      using stall_fault [OF st] fault False on no by blast
    ultimately show ?thesis by (simp add: warning_reasons)
  qed
  with refresh_row [OF assms(1)] on show ?thesis by (auto simp: settled_from_def)
qed

theorem healthy_printer_errs_only_for_its_queue_witness:
  "\<exists>p'. fst (snd (refresh_printer_status (idle_world\<lparr>pw_run := (\<lambda>argv. if hd argv = RESUME_SCRIPT_NAME then TimedOut
       else stopped_runner argv)\<rparr>) False 0 (printer_defaults ''p'' ''Lab'') blank_memory)) = p' \<and>
     (printer_status p' = ''error'' \<longleftrightarrow> queue_fault p')"
proof -
  let ?w = "idle_world\<lparr>pw_run := (\<lambda>argv. if hd argv = RESUME_SCRIPT_NAME then TimedOut else stopped_runner argv)\<rparr>"
  let ?r = "\<lparr>psr_state = Some 3, psr_reasons = [''none''], psr_message = None\<rparr>"
  have "fst (refresh_printer_status ?w False 0 (printer_defaults ''p'' ''Lab'') blank_memory) = Finished ()"
    by code_simp
  moreover obtain e p' mem' where r: "refresh_printer_status ?w False 0 (printer_defaults ''p'' ''Lab'') blank_memory =
      (e, p', mem')" using prod_cases3 by blast
  ultimately have run: "refresh_printer_status ?w False 0 (printer_defaults ''p'' ''Lab'') blank_memory =
      (Finished (), p', mem')" by simp
  have "pw_probe ?w = Inr ?r" by (simp add: idle_world_def)
  from healthy_printer_errs_only_for_its_queue [OF run this] run show ?thesis
    by (simp add: derive_status_def QUEUE_PAUSED_REASON_def PRINTER_STATE_STOPPED_def)
qed

subsection \<open>The automatic resync\<close>

lemmas resync_constants = AUTO_RESYNC_COOLDOWN_def MAX_AUTO_RESYNC_BACKOFF_def RESYNC_MAX_DOUBLINGS_def py_simps

interpretation resync_backoff: doubling_backoff resync_wait AUTO_RESYNC_COOLDOWN MAX_AUTO_RESYNC_BACKOFF
proof unfold_locales
  fix f :: int
  show "f \<le> 0 \<Longrightarrow> resync_wait f = AUTO_RESYNC_COOLDOWN" by (simp add: resync_wait_def)
  show "0 \<le> f \<Longrightarrow> resync_wait (f + 1) = min (2 * resync_wait f) MAX_AUTO_RESYNC_BACKOFF"
  proof (cases "f < 16")
    case True
    assume "0 \<le> f"
    then have "nat (f + 1) = Suc (nat f)" by simp
    with True \<open>0 \<le> f\<close> show ?thesis
      by (auto simp: resync_wait_def resync_constants Let_def min_def)
  qed (simp add: resync_wait_def resync_constants Let_def)
qed (simp_all add: resync_constants)

lemma sync_attempted:
  assumes "run_automatic_queue_sync w now p = (r, p')"
  shows "if r = Finished False then p' = p
    else auto_resync_due p now \<and> \<not> saturated w \<and> active_job_count (pw_run w) (printer_id p) = Some 0 \<and>
      printer_last_auto_queue_sync_at p' = Some now \<and>
      (case r of Crashed \<Rightarrow> printer_auto_queue_sync_failures p' = printer_auto_queue_sync_failures p
       | Finished a \<Rightarrow> a \<and> printer_auto_queue_sync_failures p' =
           (if sync_queue (pw_run w) (printer_id p) False = Inr () then 0
            else printer_auto_queue_sync_failures p + 1))"
  using assms unfolding run_automatic_queue_sync_def Let_def
  by (auto split: if_splits option.splits sum.splits sync_error.splits)

text \<open>The times at which a sequence of calls for one printer ran the sync scripts.\<close>

fun sync_times :: "(poll_world \<times> datetime) list \<Rightarrow> printer \<Rightarrow> datetime list" where
  "sync_times [] p = []"
| "sync_times ((w, now) # calls) p =
     (case run_automatic_queue_sync w now p of
        (r, p') \<Rightarrow> (if r = Finished False then [] else [now]) @ sync_times calls p')"

lemma sync_times_after:
  assumes "printer_last_auto_queue_sync_at p = Some t0" "t \<in> set (sync_times calls p)" "sorted (map snd calls)"
  shows "t0 + AUTO_RESYNC_COOLDOWN \<le> t"
  using assms
proof (induction calls arbitrary: p t0)
  case (Cons c calls)
  obtain w now where c: "c = (w, now)" by (cases c)
  obtain r p' where r: "run_automatic_queue_sync w now p = (r, p')" by fastforce
  note step = sync_attempted [OF r]
  show ?case
  proof (cases "r = Finished False")
    case True
    with Cons.IH [of p t0] Cons.prems step c r show ?thesis by auto
  next
    case False
    with step Cons.prems(1) have "t0 + AUTO_RESYNC_COOLDOWN \<le> now"
      using resync_backoff.wait_at_least_base [of "printer_auto_queue_sync_failures p"]
      by (auto simp: auto_resync_due_def auto_resync_backoff_def)
    with Cons.IH [of p' now] Cons.prems(2,3) step False c r show ?thesis
      by (auto simp: resync_constants)
  qed
qed simp

lemma sync_times_spaced:
  "sorted (map snd calls) \<Longrightarrow> sorted_wrt (\<lambda>s t. s + AUTO_RESYNC_COOLDOWN \<le> t) (sync_times calls p)"
proof (induction calls arbitrary: p)
  case (Cons c calls)
  obtain w now where c: "c = (w, now)" by (cases c)
  obtain r p' where r: "run_automatic_queue_sync w now p = (r, p')" by fastforce
  have later: "now + AUTO_RESYNC_COOLDOWN \<le> t" if "r \<noteq> Finished False" "t \<in> set (sync_times calls p')" for t
  proof -
    have "printer_last_auto_queue_sync_at p' = Some now" using sync_attempted [OF r] that(1) by simp
    from sync_times_after [OF this that(2)] Cons.prems show ?thesis by simp
  qed
  with Cons c r show ?case by simp
qed simp

text \<open>
  PrintOps's own queue resyncs of one printer are at least half an hour apart, however often
  it comes back online; the wait doubles with every failure in a row up to six hours; and none runs
  while a job is on the queue, while the queue cannot be read or while cupsd is short of room.
\<close>

theorem automatic_resyncs_are_rationed:
  assumes "sorted (map snd calls)"
  shows "sorted_wrt (\<lambda>s t. s + minutes 30 \<le> t) (sync_times calls p) \<and>
    auto_resync_backoff p = min (minutes 30 * 2 ^ nat (printer_auto_queue_sync_failures p)) (hours 6) \<and>
    (case run_automatic_queue_sync w now p of (r, p') \<Rightarrow>
       (if r = Finished False then p' = p
        else active_job_count (pw_run w) (printer_id p) = Some 0 \<and> \<not> saturated w \<and> auto_resync_due p now))"
proof -
  obtain r p' where r: "run_automatic_queue_sync w now p = (r, p')" by fastforce
  have "auto_resync_backoff p = min (minutes 30 * 2 ^ nat (printer_auto_queue_sync_failures p)) (hours 6)"
    unfolding auto_resync_backoff_def resync_backoff.wait_of_int
    by (simp add: AUTO_RESYNC_COOLDOWN_def MAX_AUTO_RESYNC_BACKOFF_def)
  with sync_times_spaced [OF assms, of p] sync_attempted [OF r] r show ?thesis
    by (auto simp: AUTO_RESYNC_COOLDOWN_def)
qed

definition empty_queue_world :: poll_world where
  "empty_queue_world = idle_world\<lparr>pw_run := (\<lambda>argv. Exited 0 [] [])\<rparr>"

theorem automatic_resyncs_are_rationed_witness:
  "sorted_wrt (\<lambda>s t. s + minutes 30 \<le> t)
     (sync_times [(empty_queue_world, 0), (empty_queue_world, minutes 10), (empty_queue_world, minutes 40)]
        (printer_defaults ''p'' ''Lab'')) \<and>
   sync_times [(empty_queue_world, 0), (empty_queue_world, minutes 10), (empty_queue_world, minutes 40)]
        (printer_defaults ''p'' ''Lab'') = [0, minutes 40]"
proof
  let ?calls = "[(empty_queue_world, 0), (empty_queue_world, minutes 10), (empty_queue_world, minutes 40)]"
  have "sorted (map snd ?calls)" by (simp add: minutes_def)
  from automatic_resyncs_are_rationed [OF this]
  show "sorted_wrt (\<lambda>s t. s + minutes 30 \<le> t) (sync_times ?calls (printer_defaults ''p'' ''Lab''))" by blast
  show "sync_times ?calls (printer_defaults ''p'' ''Lab'') = [0, minutes 40]" by code_simp
qed

end
