(* ===== verification/Status_Cycle.thy ===== *)
theory Status_Cycle
  imports Printer_Status Held_Releases Notifications
begin

section \<open>A pass of the status poll loop (app/main.py)\<close>

text \<open>
  What the loop does every minute: every printer that is neither archived nor virtual is checked,
  then, in turn, its errors are reported as conditions, the jobs that waited for it are released
  when it reads online, and an alert is raised when it does not and jobs are waiting.  An exception in
  a check leaves what it wrote on the row; one in the second part skips the rest of that printer's
  part.  The checks run concurrently on rows and table entries of their own; they are put in the
  order of the table.  The building, room and address columns are parameters.
\<close>

record fleet =
  fl_holds :: hold_state
  fl_memory :: poll_memory
  fl_notify :: notify_db

record surroundings =
  su_where :: "printer \<Rightarrow> string" \<comment> \<open>the lines of \<open>printer_where\<close>\<close>
  su_address :: "printer \<Rightarrow> string option"
  su_settings :: "notification_settings option"
  su_event_ids :: "printer \<Rightarrow> string \<Rightarrow> uuid"

definition attention_key :: "printer \<Rightarrow> string" where
  "attention_key p = kind_text PRINTER_ATTENTION @ '':'' @ printer_id p"

definition polled :: "printer \<Rightarrow> bool" where
  "polled p \<longleftrightarrow> printer_archived_at p = None \<and> \<not> printer_is_virtual p"

fun refresh_all ::
  "(printer \<Rightarrow> poll_world) \<Rightarrow> datetime \<Rightarrow> printer list \<Rightarrow> poll_memory \<Rightarrow> printer list \<times> poll_memory" where
  "refresh_all w now [] mem = ([], mem)"
| "refresh_all w now (p # ps) mem =
     (case refresh_printer_status_and_rediscover (w p) False now p mem of
        (r, p', mem') \<Rightarrow> (case refresh_all w now ps mem' of (ps', mem'') \<Rightarrow> (p' # ps', mem'')))"

definition alert_observation :: "surroundings \<Rightarrow> printer \<Rightarrow> string \<Rightarrow> observation" where
  "alert_observation su p alert =
     \<lparr>ob_kind = PRINTER_ATTENTION, ob_dedupe_key = attention_key p,
      ob_title = printer_name p @ '' needs attention'', ob_body = su_where su p @ alert,
      ob_subject_type = Some ''printer'', ob_subject_id = Some (printer_id p),
      ob_severity = ''warning'', ob_raise_immediately = False, ob_event_id = su_event_ids su p UNREACHABLE_REASON\<rparr>"

definition alerted_row :: "string \<Rightarrow> printer \<Rightarrow> printer" where
  "alerted_row alert p = add_reason UNREACHABLE_REASON (p\<lparr>printer_status_message := Some alert\<rparr>)"

definition write_printer :: "printer \<Rightarrow> hold_state \<Rightarrow> hold_state" where
  "write_printer p st = st\<lparr>hs_printers := write_back printer_id [p] (hs_printers st)\<rparr>"

definition after_check ::
  "surroundings \<Rightarrow> (printer \<Rightarrow> poll_world) \<Rightarrow> datetime \<Rightarrow> printer \<Rightarrow> fleet \<Rightarrow> fleet" where
  "after_check su w now p fl =
     (let notify = notify_printer_error (su_settings su) (su_where su p) (su_event_ids su p) p now (fl_notify fl);
          fl = fl\<lparr>fl_notify := notify\<rparr> in
      if printer_status p = ''online'' then
        (case release_jobs_waiting_for (pw_run (w p)) now p (fl_holds fl) of
           (None, st) \<Rightarrow> fl\<lparr>fl_holds := st\<rparr>
         | (Some n, st) \<Rightarrow>
             fl\<lparr>fl_holds := st, fl_notify := clear_condition (attention_key p) (fl_notify fl)\<rparr>)
      else
        (case waiting_alert (su_address su p) p (hs_jobs (fl_holds fl)) now of
           None \<Rightarrow> fl\<lparr>fl_notify := clear_condition (attention_key p) (fl_notify fl)\<rparr>
         | Some alert \<Rightarrow>
             if alert = [] then fl\<lparr>fl_notify := clear_condition (attention_key p) (fl_notify fl)\<rparr>
             else
               fl\<lparr>fl_holds := write_printer (alerted_row alert p) (fl_holds fl),
                  fl_notify := snd (observe (su_settings su) (alert_observation su (alerted_row alert p) alert)
                                      now (fl_notify fl))\<rparr>))"

definition status_cycle ::
  "surroundings \<Rightarrow> (printer \<Rightarrow> poll_world) \<Rightarrow> datetime \<Rightarrow> fleet \<Rightarrow> fleet" where
  "status_cycle su w now fl =
     (case refresh_all w now (filter polled (hs_printers (fl_holds fl))) (fl_memory fl) of
        (ps, mem) \<Rightarrow>
          fold (after_check su w now) ps
            (fl\<lparr>fl_holds := (fl_holds fl)\<lparr>hs_printers := write_back printer_id ps (hs_printers (fl_holds fl))\<rparr>,
                fl_memory := mem\<rparr>))"

subsection \<open>Which capability changes reach the queue\<close>

definition QUEUE_AFFECTING_CAPABILITIES :: "string list" where
  "QUEUE_AFFECTING_CAPABILITIES = [''default_media_size'', ''media_trays'', ''color_supported'']"

text \<open>\<open>dict.get\<close> gives None both for a missing key and for a null.\<close>

definition get_capability :: "(string, json) dict \<Rightarrow> string \<Rightarrow> json" where
  "get_capability caps key = (case map_of caps key of None \<Rightarrow> JNull | Some v \<Rightarrow> v)"

definition queue_affecting_capability_change :: "(string, json) dict \<Rightarrow> (string, json) dict \<Rightarrow> bool" where
  "queue_affecting_capability_change previous current =
     list_ex (\<lambda>key. get_capability previous key \<noteq> get_capability current key) QUEUE_AFFECTING_CAPABILITIES"

text \<open>One printer's part of the capability rediscovery loop.\<close>

definition rediscover_one :: "poll_world \<Rightarrow> datetime \<Rightarrow> printer \<Rightarrow> printer" where
  "rediscover_one w now p =
     (let previous = list_or_empty (printer_capabilities p);
          p = refresh_printer_capabilities w p
      in if queue_affecting_capability_change previous (list_or_empty (printer_capabilities p))
         then snd (run_automatic_queue_sync w now p) else p)"

subsection \<open>Waiting jobs only become fewer\<close>

definition waiting :: "printer \<Rightarrow> hold_state \<Rightarrow> job set" where
  "waiting p st = {j \<in> set (hs_jobs st). waits_for p j}"

lemma waiting_simps [simp]:
  "waiting p (unlink f st) = waiting p st" "waiting p (hand_over j q st) = waiting p st"
  "waiting p (write_printer q st) = waiting p st" "waiting p (st\<lparr>hs_printers := ps\<rparr>) = waiting p st"
  by (simp_all add: waiting_def write_printer_def)

lemma waiting_write: "job_status j \<noteq> ''held'' \<Longrightarrow> waiting p (write_job j st) \<subseteq> waiting p st"
  by (auto simp: waiting_def hs_jobs_write waits_for_def)

lemma closed_statuses [simp]:
  "job_status (failed_row now m j) = ''failed''" "job_status (forwarded_row now j) = ''forwarded''"
  by (simp_all add: failed_row_def forwarded_row_def)

lemma waiting_release: "waiting q (snd (release_waiting run now p js n st)) \<subseteq> waiting q st"
proof (induction js arbitrary: n st)
  case (Cons j js)
  have failed: "waiting q (write_job (failed_row now m j) st) \<subseteq> waiting q st" for m
    by (rule waiting_write) simp
  have sent: "waiting q (write_job (forwarded_row now j) (hand_over j p st)) \<subseteq> waiting q st"
    using waiting_write [of "forwarded_row now j" q "hand_over j p st"] by simp
  show ?case
    using order_trans [OF Cons.IH failed] order_trans [OF Cons.IH] sent
    by (auto split: release_answer.split)
qed simp

lemma after_check_waiting: "waiting q (fl_holds (after_check su w now p fl)) \<subseteq> waiting q (fl_holds fl)"
proof -
  obtain r st where r: "release_jobs_waiting_for (pw_run (w p)) now p (fl_holds fl) = (r, st)" by fastforce
  have "waiting q st \<subseteq> waiting q (fl_holds fl)"
    using waiting_release [of q "pw_run (w p)" now p _ 0 "fl_holds fl"] r
    by (metis release_jobs_waiting_for_def snd_conv)
  then show ?thesis
    by (simp add: after_check_def Let_def r split: option.split)
qed

lemma fold_waiting: "waiting q (fl_holds (fold (after_check su w now) ps fl)) \<subseteq> waiting q (fl_holds fl)"
  by (induction ps arbitrary: fl) (auto dest: subsetD [OF after_check_waiting])

lemma release_waiting_ids: "map job_id (hs_jobs (snd (release_waiting run now p js n st))) = map job_id (hs_jobs st)"
proof (induction js arbitrary: n st)
  case (Cons j js)
  have "map job_id (hs_jobs (write_job j' st)) = map job_id (hs_jobs st)" for j' st
    by (simp add: hs_jobs_write)
  with Cons show ?case by (simp split: release_answer.split)
qed simp

lemma after_check_ids: "map job_id (hs_jobs (fl_holds (after_check su w now p fl))) = map job_id (hs_jobs (fl_holds fl))"
proof -
  obtain r st where r: "release_jobs_waiting_for (pw_run (w p)) now p (fl_holds fl) = (r, st)" by fastforce
  then have "map job_id (hs_jobs st) = map job_id (hs_jobs (fl_holds fl))"
    using release_waiting_ids by (metis release_jobs_waiting_for_def snd_conv)
  then show ?thesis by (simp add: after_check_def Let_def r write_printer_def split: option.split)
qed

lemma fold_ids:
  "map job_id (hs_jobs (fl_holds (fold (after_check su w now) ps fl))) = map job_id (hs_jobs (fl_holds fl))"
  by (induction ps arbitrary: fl) (simp_all add: after_check_ids)

lemma after_check_online:
  assumes "distinct (map job_id (hs_jobs (fl_holds fl)))" "printer_status q = ''online''"
    "\<And>argv e. pw_run (w q) argv \<noteq> OtherOSError e"
  shows "waiting q (fl_holds (after_check su w now q fl)) = {}"
proof -
  obtain n st where r: "release_jobs_waiting_for (pw_run (w q)) now q (fl_holds fl) = (Some n, st)"
    using release_never_crashes [of "pw_run (w q)" now q "fl_holds fl"] assms(3)
    by (cases "release_jobs_waiting_for (pw_run (w q)) now q (fl_holds fl)") auto
  have "waiting q st = {}" using release_leaves_none_waiting [OF assms(1) r] by (auto simp: waiting_def)
  then show ?thesis using assms(2) by (simp add: after_check_def r Let_def)
qed

lemma cycle_serves:
  assumes "distinct (map job_id (hs_jobs (fl_holds fl)))" "q \<in> set ps" "printer_status q = ''online''"
    "\<And>argv e. pw_run (w q) argv \<noteq> OtherOSError e"
  shows "waiting q (fl_holds (fold (after_check su w now) ps fl)) = {}"
proof -
  obtain xs ys where ps: "ps = xs @ q # ys" using assms(2) by (meson split_list)
  let ?fl = "fold (after_check su w now) xs fl"
  have "waiting q (fl_holds (after_check su w now q ?fl)) = {}"
    using assms(1,3,4) by (intro after_check_online) (simp_all add: fold_ids)
  then show ?thesis
    using fold_waiting [of q su w now ys "after_check su w now q ?fl"] by (simp add: ps)
qed

text \<open>
  C8: an online printer strands nothing: after a pass of the status loop no job is left waiting
  for a printer whose check ended online, whether it just came back or was online all along and
  a job slipped in, and whatever became of the other printers - as long as the lp command can be
  started.
\<close>

theorem online_printers_strand_no_job:
  assumes "distinct (map job_id (hs_jobs (fl_holds fl)))"
    "q \<in> set (fst (refresh_all w now (filter polled (hs_printers (fl_holds fl))) (fl_memory fl)))"
    "printer_status q = ''online''" "\<And>argv e. pw_run (w q) argv \<noteq> OtherOSError e"
    "j \<in> set (hs_jobs (fl_holds (status_cycle su w now fl)))"
  shows "\<not> (job_printer_id j = printer_id q \<and> job_status j = ''held'' \<and> job_hold_reason j = Some ''printer_offline'')"
proof -
  obtain ps mem where ps: "refresh_all w now (filter polled (hs_printers (fl_holds fl))) (fl_memory fl) = (ps, mem)"
    by fastforce
  have "waiting q (fl_holds (status_cycle su w now fl)) = {}"
    unfolding status_cycle_def ps prod.case
    using assms(1-4) ps by (intro cycle_serves) simp_all
  with assms(5) show ?thesis by (auto simp: waiting_def waits_for_def HOLD_REASON_def)
qed

definition example_fleet :: fleet where
  "example_fleet = \<lparr>fl_holds = example_holds, fl_memory = blank_memory, fl_notify = \<lparr>nd_states = [], nd_events = []\<rparr>\<rparr>"

definition example_surroundings :: surroundings where
  "example_surroundings = \<lparr>su_where = (\<lambda>p. []), su_address = (\<lambda>p. None), su_settings = None, su_event_ids = (\<lambda>p r. [])\<rparr>"

definition accepting_world :: poll_world where
  "accepting_world = idle_world\<lparr>pw_run := (\<lambda>argv. if hd argv = ''lp'' then Exited 0 [] [] else FileNotFound)\<rparr>"

theorem online_printers_strand_no_job_witness:
  "list_all (\<lambda>j. \<not> (job_printer_id j = ''p1'' \<and> job_status j = ''held'' \<and> job_hold_reason j = Some ''printer_offline''))
     (hs_jobs (fl_holds (status_cycle example_surroundings (\<lambda>p. accepting_world) 9 example_fleet)))"
proof -
  let ?ps = "fst (refresh_all (\<lambda>p. accepting_world) 9 (filter polled (hs_printers (fl_holds example_fleet)))
      (fl_memory example_fleet))"
  have ids: "distinct (map job_id (hs_jobs (fl_holds example_fleet)))"
    using example_holds_fresh by (simp add: example_fleet_def)
  have one: "map (\<lambda>q. (printer_id q, printer_status q)) ?ps = [(''p1'', ''online'')]" by code_simp
  then obtain q where q: "q \<in> set ?ps" "printer_id q = ''p1''" "printer_status q = ''online''"
    by (cases ?ps) auto
  have lp: "pw_run accepting_world argv \<noteq> OtherOSError e" for argv e by (simp add: accepting_world_def)
  show ?thesis
    using online_printers_strand_no_job [OF ids q(1,3) lp] q(2) by (auto simp: list_all_iff)
qed

end
