(* ===== verification/Print_Queue.thy ===== *)
theory Print_Queue
  imports Attribution Held_Jobs Queue_Stall Calendar "HOL-Library.Product_Lexorder"
    "HOL-Library.List_Lexorder" "HOL-Library.Char_ord" "HOL-Library.Multiset"
begin

section \<open>The line a person is standing in\<close>

text \<open>
  What is queued, asked of cupsd (app/printers/print_queue.py), the page that shows a person the
  queues they stand in, and the two things they may do there - let others go first, and take that
  back (app/routers/print_queue.py).  The module dictionary \<open>_YIELDED_FROM\<close> is the state.  The
  decoded property list of ipptool's answer is a parameter (\<open>None\<close> when there is none); its
  texts and numbers have the types IPP gives them.  The owner cache of a request answers what
  \<open>resolve_user\<close> answers.
\<close>

subsection \<open>Queued jobs (printers/print_queue.py)\<close>

definition QUEUE_NAME_PREFIX :: string where "QUEUE_NAME_PREFIX = ''printops-''"
definition NORMAL_PRIORITY :: int where "NORMAL_PRIORITY = 50"
definition YIELDED_PRIORITY :: int where "YIELDED_PRIORITY = 1"

type_synonym yielded_from = "((uuid option \<times> int) \<times> int) list"

definition remember_priority_before_yield :: "uuid option \<Rightarrow> int \<Rightarrow> int \<Rightarrow> yielded_from \<Rightarrow> yielded_from" where
  "remember_priority_before_yield pid n priority yf = AList.update (pid, n) priority yf"

definition priority_before_yield :: "uuid option \<Rightarrow> int \<Rightarrow> yielded_from \<Rightarrow> int option" where
  "priority_before_yield pid n yf = map_of yf (pid, n)"

definition forget_priority_before_yield :: "uuid option \<Rightarrow> int \<Rightarrow> yielded_from \<Rightarrow> yielded_from" where
  "forget_priority_before_yield pid n yf = AList.delete (pid, n) yf"

definition VISIBLE_STATES :: "int list" where
  "VISIBLE_STATES = [JOB_STATE_PENDING, JOB_STATE_PENDING_HELD, JOB_STATE_PROCESSING, JOB_STATE_PROCESSING_STOPPED]"

record queued_job =
  qj_cups_job_id :: int
  qj_printer_id :: "uuid option"
  qj_owner :: "string option"
  qj_source_host :: "string option"
  qj_document_name :: "string option"
  qj_size_bytes :: "int option"
  qj_priority :: int
  qj_state :: int
  qj_created_at :: "datetime option"

definition is_waiting :: "queued_job \<Rightarrow> bool" where
  "is_waiting j \<longleftrightarrow> qj_state j \<in> {JOB_STATE_PENDING, JOB_STATE_PROCESSING_STOPPED}"

definition is_printing :: "queued_job \<Rightarrow> bool" where
  "is_printing j \<longleftrightarrow> qj_state j = JOB_STATE_PROCESSING"

definition is_held :: "queued_job \<Rightarrow> bool" where
  "is_held j \<longleftrightarrow> qj_state j = JOB_STATE_PENDING_HELD"

definition is_yielded :: "queued_job \<Rightarrow> bool" where
  "is_yielded j \<longleftrightarrow> qj_priority j < NORMAL_PRIORITY"

definition belongs_to :: "(string \<Rightarrow> string) \<Rightarrow> string option list \<Rightarrow> queued_job \<Rightarrow> bool" where
  "belongs_to casefold identities j =
     (if \<not> truthy (qj_owner j) then False
      else list_ex (\<lambda>i. truthy i \<and> casefold (the i) = casefold (the (qj_owner j))) identities)"

definition printer_id_from_queue_uri :: "string option \<Rightarrow> uuid option" where
  "printer_id_from_queue_uri uri =
     (if \<not> truthy uri then None
      else
        (let trimmed = rev (dropWhile (\<lambda>c. c = CHR ''/'') (rev (the uri)));
             queue_name = rev (takeWhile (\<lambda>c. c \<noteq> CHR ''/'') (rev trimmed))
         in if \<not> prefix QUEUE_NAME_PREFIX queue_name then None
            else or_none (drop (length QUEUE_NAME_PREFIX) queue_name)))"

definition attribute_int :: "(string, json) dict \<Rightarrow> string \<Rightarrow> int option" where
  "attribute_int attrs key = (case map_of attrs key of Some (JNum r) \<Rightarrow> Some \<lfloor>r\<rfloor> | _ \<Rightarrow> None)"

definition attribute_text :: "(string, json) dict \<Rightarrow> string \<Rightarrow> string option" where
  "attribute_text attrs key = (case map_of attrs key of Some (JStr s) \<Rightarrow> Some s | _ \<Rightarrow> None)"

definition fromtimestamp :: "int \<Rightarrow> datetime" where
  "fromtimestamp s = at_midnight (Date 1970 1 1) + seconds s"

definition int_or :: "int option \<Rightarrow> int \<Rightarrow> int" where
  "int_or v d = (case v of None \<Rightarrow> d | Some n \<Rightarrow> if n = 0 then d else n)"

definition as_job :: "(string, json) dict \<Rightarrow> queued_job option" where
  "as_job attrs =
     (case attribute_int attrs ''job-id'' of
        None \<Rightarrow> None
      | Some n \<Rightarrow>
          Some \<lparr>qj_cups_job_id = n,
                qj_printer_id = printer_id_from_queue_uri (attribute_text attrs ''job-printer-uri''),
                qj_owner = attribute_text attrs ''job-originating-user-name'',
                qj_source_host = attribute_text attrs ''job-originating-host-name'',
                qj_document_name = attribute_text attrs ''job-name'',
                qj_size_bytes = map_option (\<lambda>kb. kb * 1024) (attribute_int attrs ''job-k-octets''),
                qj_priority = int_or (attribute_int attrs ''job-priority'') NORMAL_PRIORITY,
                qj_state = int_or (attribute_int attrs ''job-state'') 0,
                qj_created_at = map_option fromtimestamp (attribute_int attrs ''time-at-creation'')\<rparr>)"

definition queue_order :: "queued_job \<Rightarrow> bool \<times> bool \<times> int \<times> int" where
  "queue_order j = (\<not> is_printing j, is_held j, - qj_priority j, qj_cups_job_id j)"

definition queued_jobs :: "(string, json) dict option \<Rightarrow> queued_job list option" where
  "queued_jobs answer =
     (case answer of
        None \<Rightarrow> None
      | Some parsed \<Rightarrow>
          (case map_of parsed ''Tests'' of
             Some (JList (JObj test # others)) \<Rightarrow>
               if map_of test ''StatusCode'' \<noteq> Some (JStr ''successful-ok'') then None
               else
                 (let groups = (case map_of test ''ResponseAttributes'' of Some (JList gs) \<Rightarrow> gs | _ \<Rightarrow> []);
                      jobs = List.map_filter (\<lambda>g. case g of JObj attrs \<Rightarrow> as_job attrs | _ \<Rightarrow> None) groups
                  in Some (sort_key queue_order (filter (\<lambda>j. qj_state j \<in> set VISIBLE_STATES) jobs)))
           | _ \<Rightarrow> None))"

subsection \<open>Whose job it is (routers/print_queue.py)\<close>

record viewer =
  vw_username :: "string option"
  vw_email :: "string option"

definition identities :: "viewer \<Rightarrow> string option list" where
  "identities u = [vw_username u, vw_email u]"

record directory =
  dr_world :: outside_world
  dr_db :: attribution_db
  dr_case :: case_maps

definition owns :: "directory \<Rightarrow> viewer \<Rightarrow> queued_job \<Rightarrow> attribution_error + bool" where
  "owns dr u j =
     (let casefold = cm_casefold (dr_case dr) in
      if belongs_to casefold (identities u) j then Inr True
      else if \<not> truthy (qj_owner j) then Inr False
      else
        (case resolve_user (dr_world dr) (dr_db dr) (qj_owner j) (qj_source_host j) of
           Inl e \<Rightarrow> Inl e
         | Inr (attributed, how, mac) \<Rightarrow>
             Inr (list_ex (\<lambda>i. truthy i \<and> casefold (the i) = casefold attributed) (identities u))))"

fun owned :: "directory \<Rightarrow> viewer \<Rightarrow> queued_job list \<Rightarrow> attribution_error + queued_job list" where
  "owned dr u [] = Inr []"
| "owned dr u (j # js) =
     (case owns dr u j of
        Inl e \<Rightarrow> Inl e
      | Inr mine \<Rightarrow>
          (case owned dr u js of
             Inl e \<Rightarrow> Inl e
           | Inr rest \<Rightarrow> Inr (if mine then j # rest else rest)))"

definition state_label :: "queued_job \<Rightarrow> string" where
  "state_label j =
     (if is_printing j then ''printing''
      else if qj_state j = JOB_STATE_PENDING_HELD then ''held'' else ''waiting'')"

definition CUPSD_UNREACHABLE :: string where
  "CUPSD_UNREACHABLE = ''The print server didn'' @ [CHR 0x27] @ ''t answer when asked what is queued. Try again shortly.''"

definition my_queued_jobs ::
  "directory \<Rightarrow> viewer \<Rightarrow> queued_job list option \<Rightarrow> http_error + queued_job list" where
  "my_queued_jobs dr u jobs =
     (case jobs of
        None \<Rightarrow> Inl (Http 503 CUPSD_UNREACHABLE)
      | Some js \<Rightarrow> (case owned dr u js of Inl e \<Rightarrow> Inl ServerError | Inr mine \<Rightarrow> Inr mine))"

subsection \<open>The page\<close>

record queue_row =
  qr_cups_job_id :: int
  qr_position :: nat
  qr_mine :: bool
  qr_document_name :: "string option"
  qr_size_bytes :: "int option"
  qr_state :: string
  qr_yielded :: bool
  qr_can_yield :: bool
  qr_can_restore :: bool
  qr_submitted_at :: "datetime option"

record printer_queue =
  pq_printer_id :: uuid
  pq_printer_name :: string
  pq_jobs :: "queue_row list"
  pq_my_job_count :: nat
  pq_total_job_count :: nat

record held_row =
  hr_job_id :: uuid
  hr_cups_job_id :: "int option"
  hr_printer_id :: uuid
  hr_printer_name :: string
  hr_document_name :: "string option"
  hr_size_bytes :: "int option"
  hr_reason :: "string option"
  hr_submitted_at :: datetime
  hr_expires_at :: "datetime option"

record queue_page =
  qp_queues :: "printer_queue list"
  qp_held :: "held_row list"
  qp_queue_unavailable :: bool

definition my_held_jobs :: "case_maps \<Rightarrow> datetime \<Rightarrow> viewer \<Rightarrow> hold_state \<Rightarrow> held_row list" where
  "my_held_jobs cm now u st =
     (let ids = map (\<lambda>i. cm_casefold cm (the i)) (filter truthy (identities u)) in
      if ids = [] then []
      else
        List.map_filter
          (\<lambda>j. map_option (\<lambda>p. \<lparr>hr_job_id = job_id j, hr_cups_job_id = job_cups_job_id j,
                 hr_printer_id = job_printer_id j, hr_printer_name = printer_name p,
                 hr_document_name = job_document_name j, hr_size_bytes = job_file_size_bytes j,
                 hr_reason = job_hold_reason j, hr_submitted_at = job_created_at j,
                 hr_expires_at = job_held_expires_at j\<rparr>)
               (find (\<lambda>p. printer_id p = job_printer_id j) (hs_printers st)))
          (sort_key job_created_at
            (filter (\<lambda>j. job_status j = ''held'' \<and>
               (case job_submitted_by j of None \<Rightarrow> False | Some s \<Rightarrow> cm_sql_lower cm s \<in> set ids) \<and>
               (case job_held_expires_at j of None \<Rightarrow> True | Some t \<Rightarrow> t > now)) (hs_jobs st))))"

definition queue_row_of :: "yielded_from \<Rightarrow> nat \<Rightarrow> bool \<Rightarrow> queued_job \<Rightarrow> queue_row" where
  "queue_row_of yf position mine j =
     \<lparr>qr_cups_job_id = qj_cups_job_id j, qr_position = position, qr_mine = mine,
      qr_document_name = (if mine then qj_document_name j else None), qr_size_bytes = qj_size_bytes j,
      qr_state = state_label j, qr_yielded = is_yielded j,
      qr_can_yield = (mine \<and> is_waiting j \<and> \<not> is_yielded j),
      qr_can_restore = (mine \<and> is_waiting j \<and> is_yielded j \<and>
         priority_before_yield (qj_printer_id j) (qj_cups_job_id j) yf \<noteq> None),
      qr_submitted_at = qj_created_at j\<rparr>"

fun queue_rows :: "directory \<Rightarrow> viewer \<Rightarrow> yielded_from \<Rightarrow> nat \<Rightarrow> queued_job list \<Rightarrow> attribution_error + queue_row list" where
  "queue_rows dr u yf position [] = Inr []"
| "queue_rows dr u yf position (j # js) =
     (case owns dr u j of
        Inl e \<Rightarrow> Inl e
      | Inr mine \<Rightarrow>
          (case queue_rows dr u yf (position + 1) js of
             Inl e \<Rightarrow> Inl e
           | Inr rows \<Rightarrow> Inr (queue_row_of yf position mine j # rows)))"

definition printer_queue_of ::
  "directory \<Rightarrow> viewer \<Rightarrow> yielded_from \<Rightarrow> queued_job list \<Rightarrow> printer \<Rightarrow> attribution_error + printer_queue" where
  "printer_queue_of dr u yf jobs p =
     (case queue_rows dr u yf 1
        (sort_key queue_order (filter (\<lambda>j. qj_printer_id j = Some (printer_id p)) jobs)) of
        Inl e \<Rightarrow> Inl e
      | Inr rows \<Rightarrow>
          Inr \<lparr>pq_printer_id = printer_id p, pq_printer_name = printer_name p, pq_jobs = rows,
               pq_my_job_count = length (filter qr_mine rows), pq_total_job_count = length rows\<rparr>)"

fun printer_queues ::
  "directory \<Rightarrow> viewer \<Rightarrow> yielded_from \<Rightarrow> queued_job list \<Rightarrow> printer list \<Rightarrow> attribution_error + printer_queue list" where
  "printer_queues dr u yf jobs [] = Inr []"
| "printer_queues dr u yf jobs (p # ps) =
     (case printer_queue_of dr u yf jobs p of
        Inl e \<Rightarrow> Inl e
      | Inr q \<Rightarrow>
          (case printer_queues dr u yf jobs ps of Inl e \<Rightarrow> Inl e | Inr qs \<Rightarrow> Inr (q # qs)))"

text \<open>\<open>UUID(text)\<close> in its hyphenated or plain form; anything else raises.\<close>

definition is_uuid_text :: "string \<Rightarrow> bool" where
  "is_uuid_text s \<longleftrightarrow> (let digits = filter (\<lambda>c. c \<noteq> CHR ''-'') s in
     length digits = 32 \<and> list_all (\<lambda>c. c \<in> set ''0123456789abcdefABCDEF'') digits)"

text \<open>The queues are sorted by the printers' names; the set of printers has no order of its own.\<close>

definition get_my_print_queue ::
  "directory \<Rightarrow> datetime \<Rightarrow> viewer \<Rightarrow> queued_job list option \<Rightarrow> yielded_from \<Rightarrow> hold_state \<Rightarrow> http_error + queue_page" where
  "get_my_print_queue dr now u jobs yf st =
     (let held = my_held_jobs (dr_case dr) now u st in
      case jobs of
        None \<Rightarrow> Inr \<lparr>qp_queues = [], qp_held = held, qp_queue_unavailable = True\<rparr>
      | Some js \<Rightarrow>
          (case owned dr u js of
             Inl e \<Rightarrow> Inl ServerError
           | Inr mine \<Rightarrow>
               (let mine_by_printer = remdups (List.map_filter qj_printer_id mine) in
                if \<not> list_all is_uuid_text mine_by_printer then Inl ServerError
                else
                  (case printer_queues dr u yf js
                     (filter (\<lambda>p. printer_id p \<in> set mine_by_printer) (hs_printers st)) of
                     Inl e \<Rightarrow> Inl ServerError
                   | Inr queues \<Rightarrow>
                       Inr \<lparr>qp_queues = sort_key pq_printer_name queues, qp_held = held,
                            qp_queue_unavailable = False\<rparr>))))"

subsection \<open>Letting others go first\<close>

text \<open>The value of a successful answer is the priority the job was given.\<close>

definition reprioritise ::
  "directory \<Rightarrow> viewer \<Rightarrow> runner \<Rightarrow> queued_job list option \<Rightarrow> int \<Rightarrow> bool \<Rightarrow> yielded_from \<Rightarrow>
   (http_error + int) \<times> yielded_from" where
  "reprioritise dr u run jobs n yielding yf =
     (case my_queued_jobs dr u jobs of
        Inl e \<Rightarrow> (Inl e, yf)
      | Inr mine \<Rightarrow>
          (case find (\<lambda>j. qj_cups_job_id j = n) mine of
             None \<Rightarrow>
               (Inl (Http 404 (''That job isn'' @ [CHR 0x27] @ ''t waiting in a queue under your name.'')), yf)
           | Some j \<Rightarrow>
               if is_printing j then
                 (Inl (Http 400 (''This job has already started printing, so it can'' @ [CHR 0x27] @ ''t be moved.'')), yf)
               else if \<not> is_waiting j then
                 (Inl (Http 400 (''This job is being held rather than waiting its turn, so it can'' @
                    [CHR 0x27] @ ''t be moved.'')), yf)
               else
                 (case (if yielding then Some YIELDED_PRIORITY
                        else priority_before_yield (qj_printer_id j) n yf) of
                    None \<Rightarrow>
                      (Inl (Http 400 (''PrintOps no longer knows where this job was before it moved back, so it '' @
                         ''can'' @ [CHR 0x27] @ ''t be put back in line. It will still print, after the jobs ahead of it.'')), yf)
                  | Some priority \<Rightarrow>
                      (case set_cups_job_priority run n priority of
                         Inl (JobControlError m) \<Rightarrow> (Inl (Http 502 m), yf)
                       | Inl (ScriptOSError m) \<Rightarrow> (Inl ServerError, yf)
                       | Inr ok \<Rightarrow>
                           (Inr priority,
                            if yielding then remember_priority_before_yield (qj_printer_id j) n (qj_priority j) yf
                            else forget_priority_before_yield (qj_printer_id j) n yf)))))"

subsection \<open>What the page tells about other people's jobs\<close>

text \<open>The titles of the jobs somebody does not own, replaced by anything.\<close>

definition retitled :: "directory \<Rightarrow> viewer \<Rightarrow> (queued_job \<Rightarrow> string option) \<Rightarrow> queued_job \<Rightarrow> queued_job" where
  "retitled dr u title j =
     (if owns dr u j = Inr True then j else j\<lparr>qj_document_name := title j\<rparr>)"

lemma retitled_simps [simp]:
  "qj_cups_job_id (retitled dr u t j) = qj_cups_job_id j" "qj_printer_id (retitled dr u t j) = qj_printer_id j"
  "qj_owner (retitled dr u t j) = qj_owner j" "qj_source_host (retitled dr u t j) = qj_source_host j"
  "qj_priority (retitled dr u t j) = qj_priority j" "qj_state (retitled dr u t j) = qj_state j"
  "qj_size_bytes (retitled dr u t j) = qj_size_bytes j" "qj_created_at (retitled dr u t j) = qj_created_at j"
  by (simp_all add: retitled_def)

lemma owns_retitled [simp]: "owns dr u (retitled dr u t j) = owns dr u j"
  unfolding owns_def belongs_to_def retitled_simps ..

lemma owned_retitled: "owned dr u (map (retitled dr u t) js) = map_sum id (map (retitled dr u t)) (owned dr u js)"
  by (induction js) (simp_all split: sum.split)

lemma row_retitled:
  "owns dr u j = Inr mine \<Longrightarrow> queue_row_of yf n mine (retitled dr u t j) = queue_row_of yf n mine j"
  by (cases mine) (simp_all add: queue_row_of_def retitled_def state_label_def is_yielded_def is_waiting_def
      is_printing_def)

lemma rows_retitled: "queue_rows dr u yf n (map (retitled dr u t) js) = queue_rows dr u yf n js"
  by (induction js arbitrary: n) (simp_all add: row_retitled split: sum.split)

lemma insort_key_map:
  "(\<And>x. k (f x) = k x) \<Longrightarrow> insort_key k (f x) (map f xs) = map f (insort_key k x xs)"
  by (induction xs) simp_all

lemma sort_key_map: "(\<And>x. k (f x) = k x) \<Longrightarrow> sort_key k (map f xs) = map f (sort_key k xs)"
  by (induction xs) (simp_all add: insort_key_map)

lemma queue_order_retitled [simp]: "queue_order (retitled dr u t j) = queue_order j"
  by (simp add: queue_order_def is_printing_def is_held_def)

lemma printer_queue_retitled:
  "printer_queue_of dr u yf (map (retitled dr u t) js) p = printer_queue_of dr u yf js p"
  by (simp add: printer_queue_of_def filter_map comp_def sort_key_map rows_retitled)

lemma printer_queues_retitled:
  "printer_queues dr u yf (map (retitled dr u t) js) ps = printer_queues dr u yf js ps"
  by (induction ps) (simp_all add: printer_queue_retitled split: sum.split)

lemma map_filter_retitled: "List.map_filter qj_printer_id (map (retitled dr u t) js) = List.map_filter qj_printer_id js"
  by (induction js) (simp_all add: List.map_filter_simps split: option.split)


subsection \<open>The order of the line\<close>

lemma queue_rows_in_order:
  "queue_rows dr u yf n js = Inr rows \<Longrightarrow>
   map qr_cups_job_id rows = map qj_cups_job_id js \<and> map qr_position rows = [n..<n + length js]"
proof (induction js arbitrary: n rows)
  case (Cons j js)
  obtain mine rest where r: "owns dr u j = Inr mine" "queue_rows dr u yf (n + 1) js = Inr rest"
    "rows = queue_row_of yf n mine j # rest"
    using Cons.prems by (auto split: sum.splits)
  with Cons.IH [OF r(2)] show ?case by (simp add: queue_row_of_def upt_conv_Cons del: upt_Suc)
qed simp

lemma printer_queues_each:
  "printer_queues dr u yf js ps = Inr qs \<Longrightarrow> q \<in> set qs \<Longrightarrow>
   \<exists>p\<in>set ps. printer_queue_of dr u yf js p = Inr q"
  by (induction ps arbitrary: qs) (auto split: sum.splits)

definition before_in_line :: "queued_job \<Rightarrow> queued_job \<Rightarrow> bool" where
  "before_in_line j k \<longleftrightarrow>
     (if is_printing j \<noteq> is_printing k then is_printing j
      else if is_held j \<noteq> is_held k then is_held k
      else if qj_priority j \<noteq> qj_priority k then qj_priority k < qj_priority j
      else qj_cups_job_id j \<le> qj_cups_job_id k)"

lemma queue_order_le: "queue_order j \<le> queue_order k \<longleftrightarrow> before_in_line j k"
  by (auto simp: queue_order_def before_in_line_def less_eq_prod_def)

text \<open>
  A queue on the page is the whole line of that printer, numbered from one in the order cupsd
  prints it: what is printing first, held jobs last, a higher priority before a lower one and an
  older job before a younger; no job is missing and none is shown twice.
\<close>

theorem page_shows_the_line_in_printing_order:
  assumes "get_my_print_queue dr now u (Some js) yf st = Inr page" "q \<in> set (qp_queues page)"
  shows "\<exists>line. mset line = mset (filter (\<lambda>j. qj_printer_id j = Some (pq_printer_id q)) js) \<and>
    sorted_wrt before_in_line line \<and> map qr_cups_job_id (pq_jobs q) = map qj_cups_job_id line \<and>
    map qr_position (pq_jobs q) = [1..<Suc (length line)] \<and> pq_total_job_count q = length line"
proof -
  obtain ps queues where "printer_queues dr u yf js ps = Inr queues" "qp_queues page = sort_key pq_printer_name queues"
    using assms(1) by (auto simp: get_my_print_queue_def Let_def split: sum.splits if_splits)
  with assms(2) obtain p where q: "printer_queue_of dr u yf js p = Inr q"
    using printer_queues_each by fastforce
  let ?line = "sort_key queue_order (filter (\<lambda>j. qj_printer_id j = Some (printer_id p)) js)"
  obtain rows where rows: "queue_rows dr u yf 1 ?line = Inr rows" and id: "pq_printer_id q = printer_id p"
    and jobs: "pq_jobs q = rows" "pq_total_job_count q = length rows"
    using q by (auto simp: printer_queue_of_def split: sum.splits)
  have "sorted_wrt before_in_line ?line"
    using sorted_sort_key [of queue_order "filter (\<lambda>j. qj_printer_id j = Some (printer_id p)) js"]
    by (simp add: sorted_map queue_order_le)
  moreover have "length rows = length ?line"
    using queue_rows_in_order [OF rows] by (metis length_map)
  ultimately show ?thesis
    using queue_rows_in_order [OF rows] id jobs by (intro exI [of _ ?line]) (simp del: upt_Suc)
qed

subsection \<open>cupsd's line under yields and restores\<close>

text \<open>
  The jobs cupsd has, what PrintOps remembers, and the priority every job was submitted with.
  An attempt to move a job changes cupsd's line when the script succeeded.
\<close>

record print_line =
  ln_queue :: "queued_job list"
  ln_yielded :: yielded_from
  ln_submitted :: "(int \<times> int) list"

definition cupsd_answer :: "print_line \<Rightarrow> queued_job list option" where
  "cupsd_answer l = Some (sort_key queue_order (filter (\<lambda>j. qj_state j \<in> set VISIBLE_STATES) (ln_queue l)))"

definition set_priority :: "int \<Rightarrow> int \<Rightarrow> queued_job \<Rightarrow> queued_job" where
  "set_priority n priority j = (if qj_cups_job_id j = n then j\<lparr>qj_priority := priority\<rparr> else j)"

definition attempt_move :: "directory \<Rightarrow> viewer \<Rightarrow> runner \<Rightarrow> int \<Rightarrow> bool \<Rightarrow> print_line \<Rightarrow> print_line" where
  "attempt_move dr u run n yielding l =
     (case reprioritise dr u run (cupsd_answer l) n yielding (ln_yielded l) of
        (Inl e, yf) \<Rightarrow> l\<lparr>ln_yielded := yf\<rparr>
      | (Inr priority, yf) \<Rightarrow>
          l\<lparr>ln_queue := map (set_priority n priority) (ln_queue l), ln_yielded := yf\<rparr>)"

inductive line_step :: "directory \<Rightarrow> print_line \<Rightarrow> print_line \<Rightarrow> bool" for dr where
  submits: "qj_cups_job_id j \<notin> fst ` set (ln_submitted l) \<Longrightarrow> YIELDED_PRIORITY \<le> qj_priority j \<Longrightarrow>
    line_step dr l (l\<lparr>ln_queue := ln_queue l @ [j],
      ln_submitted := (qj_cups_job_id j, qj_priority j) # ln_submitted l\<rparr>)"
| moves: "line_step dr l (attempt_move dr u run n yielding l)"
| progresses: "line_step dr l (l\<lparr>ln_queue := map (\<lambda>j. j\<lparr>qj_state := f j\<rparr>) (ln_queue l)\<rparr>)"
| leaves: "line_step dr l (l\<lparr>ln_queue := filter (\<lambda>j. qj_cups_job_id j \<noteq> n) (ln_queue l)\<rparr>)"

inductive line_reached :: "directory \<Rightarrow> print_line \<Rightarrow> bool" for dr where
  empty_line: "line_reached dr \<lparr>ln_queue = [], ln_yielded = [], ln_submitted = []\<rparr>"
| next_step: "line_reached dr l \<Longrightarrow> line_step dr l l' \<Longrightarrow> line_reached dr l'"

inductive_cases line_stepE: "line_step dr l l'"

lemma owned_sound: "owned dr u js = Inr mine \<Longrightarrow> j \<in> set mine \<Longrightarrow> j \<in> set js \<and> owns dr u j = Inr True"
  by (induction js arbitrary: mine) (auto split: sum.splits if_splits)

lemma reprioritise_Inr:
  assumes "reprioritise dr u run (Some js) n yielding yf = (Inr priority, yf')"
  obtains j where "j \<in> set js" "qj_cups_job_id j = n" "is_waiting j" "owns dr u j = Inr True"
    "if yielding then priority = YIELDED_PRIORITY \<and> yf' = remember_priority_before_yield (qj_printer_id j) n (qj_priority j) yf
     else priority_before_yield (qj_printer_id j) n yf = Some priority \<and>
       yf' = forget_priority_before_yield (qj_printer_id j) n yf"
proof -
  obtain mine where mine: "owned dr u js = Inr mine"
    using assms by (cases "owned dr u js") (auto simp: reprioritise_def my_queued_jobs_def)
  obtain j where j: "find (\<lambda>j. qj_cups_job_id j = n) mine = Some j"
    using assms mine by (cases "find (\<lambda>j. qj_cups_job_id j = n) mine") (auto simp: reprioritise_def my_queued_jobs_def)
  then have "j \<in> set mine" "qj_cups_job_id j = n" by (auto simp: find_Some_iff)
  with owned_sound [OF mine] have "j \<in> set js" "owns dr u j = Inr True" "qj_cups_job_id j = n" by auto
  moreover have "is_waiting j"
    "if yielding then priority = YIELDED_PRIORITY \<and> yf' = remember_priority_before_yield (qj_printer_id j) n (qj_priority j) yf
     else priority_before_yield (qj_printer_id j) n yf = Some priority \<and>
       yf' = forget_priority_before_yield (qj_printer_id j) n yf"
    using assms mine j
    by (auto simp: reprioritise_def my_queued_jobs_def split: if_splits option.splits sum.splits control_error.splits)
  ultimately show ?thesis using that by blast
qed

lemma reprioritise_Inl: "reprioritise dr u run jobs n yielding yf = (Inl e, yf') \<Longrightarrow> yf' = yf"
  by (auto simp: reprioritise_def split: if_splits option.splits sum.splits control_error.splits)

text \<open>No job above its submitted priority, and no remembered priority above it either.\<close>

definition none_promoted :: "print_line \<Rightarrow> bool" where
  "none_promoted l \<longleftrightarrow>
     (\<forall>j\<in>set (ln_queue l). \<exists>q. map_of (ln_submitted l) (qj_cups_job_id j) = Some q \<and>
        qj_priority j \<le> q \<and> YIELDED_PRIORITY \<le> q) \<and>
     (\<forall>pid n r. map_of (ln_yielded l) (pid, n) = Some r \<longrightarrow>
        (\<exists>q. map_of (ln_submitted l) n = Some q \<and> r \<le> q))"

lemma none_promoted_move:
  assumes ok: "none_promoted l"
  shows "none_promoted (attempt_move dr u run n yielding l)"
proof (cases "reprioritise dr u run (cupsd_answer l) n yielding (ln_yielded l)")
  case (Pair r yf)
  show ?thesis
  proof (cases r)
    case (Inl e)
    with Pair reprioritise_Inl [of dr u run "cupsd_answer l" n yielding "ln_yielded l" e yf] ok show ?thesis
      by (simp add: attempt_move_def)
  next
    case (Inr priority)
    from Pair Inr have "reprioritise dr u run (Some (sort_key queue_order
        (filter (\<lambda>j. qj_state j \<in> set VISIBLE_STATES) (ln_queue l)))) n yielding (ln_yielded l) = (Inr priority, yf)"
      by (simp add: cupsd_answer_def)
    from reprioritise_Inr [OF this] obtain j where in_line: "j \<in> set (sort_key queue_order
        (filter (\<lambda>j. qj_state j \<in> set VISIBLE_STATES) (ln_queue l)))" and n: "qj_cups_job_id j = n"
      and eff: "if yielding then priority = YIELDED_PRIORITY \<and> yf = remember_priority_before_yield (qj_printer_id j) n (qj_priority j) (ln_yielded l)
        else priority_before_yield (qj_printer_id j) n (ln_yielded l) = Some priority \<and>
          yf = forget_priority_before_yield (qj_printer_id j) n (ln_yielded l)" .
    from in_line n have j: "j \<in> set (ln_queue l)" "qj_cups_job_id j = n" by simp_all
    obtain q where q: "map_of (ln_submitted l) n = Some q" "qj_priority j \<le> q" "YIELDED_PRIORITY \<le> q"
      using ok j by (auto simp: none_promoted_def)
    have kept: "\<exists>q. map_of (ln_submitted l) i = Some q \<and> x \<le> q" if "map_of (ln_yielded l) (pid, i) = Some x" for pid i x
      using ok that unfolding none_promoted_def by blast
    have "priority \<le> q"
      using eff q kept [of "qj_printer_id j" n priority] by (cases yielding) (auto simp: priority_before_yield_def)
    moreover have "\<exists>q. map_of (ln_submitted l) i = Some q \<and> x \<le> q" if "map_of yf (pid, i) = Some x" for pid i x
      using eff q ok that
      by (cases yielding) (auto simp: none_promoted_def remember_priority_before_yield_def
          forget_priority_before_yield_def update_conv' delete_conv' split: if_splits)
    ultimately show ?thesis
      using ok q Pair Inr by (auto simp: none_promoted_def attempt_move_def set_priority_def)
  qed
qed

lemma none_promoted_step: "line_step dr l l' \<Longrightarrow> none_promoted l \<Longrightarrow> none_promoted l'"
proof (erule line_stepE)
  fix j
  assume "none_promoted l" "qj_cups_job_id j \<notin> fst ` set (ln_submitted l)" "YIELDED_PRIORITY \<le> qj_priority j"
    "l' = l\<lparr>ln_queue := ln_queue l @ [j], ln_submitted := (qj_cups_job_id j, qj_priority j) # ln_submitted l\<rparr>"
  moreover from this have "map_of (ln_submitted l) (qj_cups_job_id j) = None" by (simp add: map_of_eq_None_iff)
  ultimately show "none_promoted l'" by (fastforce simp: none_promoted_def)
qed (auto simp: none_promoted_move, auto simp: none_promoted_def)

text \<open>
  The yield button is no queue jump: however people submit, yield, restore and cancel, no job
  ever stands at a higher priority than the one it was submitted with - as long as cupsd does not
  hand out a job number twice.
\<close>

theorem yielding_never_promotes:
  assumes "line_reached dr l" "j \<in> set (ln_queue l)"
  shows "\<exists>q. map_of (ln_submitted l) (qj_cups_job_id j) = Some q \<and> qj_priority j \<le> q"
proof -
  have "none_promoted l"
    using assms(1) by (induction rule: line_reached.induct) (auto simp: none_promoted_step, simp add: none_promoted_def)
  with assms(2) show ?thesis by (auto simp: none_promoted_def)
qed

subsection \<open>Taking a yield back\<close>

lemma set_priority_simps [simp]:
  "qj_cups_job_id (set_priority n p j) = qj_cups_job_id j" "qj_state (set_priority n p j) = qj_state j"
  "qj_printer_id (set_priority n p j) = qj_printer_id j" "qj_owner (set_priority n p j) = qj_owner j"
  "qj_source_host (set_priority n p j) = qj_source_host j" "is_waiting (set_priority n p j) = is_waiting j"
  by (simp_all add: set_priority_def is_waiting_def)

lemma owns_set_priority [simp]: "owns dr u (set_priority n p j) = owns dr u j"
  unfolding owns_def belongs_to_def set_priority_simps ..

lemma set_priority_twice: "set_priority n p (set_priority n q j) = set_priority n p j"
  by (simp add: set_priority_def)

lemma owned_all:
  "\<forall>j\<in>set js. \<exists>b. owns dr u j = Inr b \<Longrightarrow> owned dr u js = Inr (filter (\<lambda>j. owns dr u j = Inr True) js)"
  by (induction js) (auto split: sum.split)

lemma find_unique: "j \<in> set xs \<Longrightarrow> P j \<Longrightarrow> (\<And>k. k \<in> set xs \<Longrightarrow> P k \<Longrightarrow> k = j) \<Longrightarrow> find P xs = Some j"
proof (induction xs)
  case (Cons x xs)
  show ?case
  proof (cases "P x")
    case True
    then have "x = j" by (rule Cons.prems(3) [rotated]) simp
    with True show ?thesis by simp
  next
    case False
    with Cons.prems(1,2) have "j \<in> set xs" by auto
    then have "find P xs = Some j" by (rule Cons.IH [OF _ Cons.prems(2)]) (rule Cons.prems(3), simp_all)
    with False show ?thesis by simp
  qed
qed simp

text \<open>A waiting job of the viewer on a server whose directories and scripts answer.\<close>

definition movable :: "directory \<Rightarrow> viewer \<Rightarrow> runner \<Rightarrow> print_line \<Rightarrow> queued_job \<Rightarrow> bool" where
  "movable dr u run l j \<longleftrightarrow> distinct (map qj_cups_job_id (ln_queue l)) \<and> j \<in> set (ln_queue l) \<and>
     is_waiting j \<and> owns dr u j = Inr True \<and> (\<forall>k\<in>set (ln_queue l). \<exists>b. owns dr u k = Inr b) \<and>
     (\<forall>p. set_cups_job_priority run (qj_cups_job_id j) p = Inr ())"

lemma my_job_found:
  assumes "movable dr u run l j"
  shows "case my_queued_jobs dr u (cupsd_answer l) of Inl e \<Rightarrow> False
    | Inr mine \<Rightarrow> find (\<lambda>k. qj_cups_job_id k = qj_cups_job_id j) mine = Some j"
proof -
  let ?js = "sort_key queue_order (filter (\<lambda>j. qj_state j \<in> set VISIBLE_STATES) (ln_queue l))"
  have all: "\<forall>k\<in>set ?js. \<exists>b. owns dr u k = Inr b" using assms by (auto simp: movable_def)
  have "j \<in> set ?js"
    using assms by (auto simp: movable_def is_waiting_def VISIBLE_STATES_def)
  moreover have "k = j" if "k \<in> set ?js" "qj_cups_job_id k = qj_cups_job_id j" for k
    using assms that by (auto simp: movable_def distinct_map dest: inj_onD)
  ultimately have "find (\<lambda>k. qj_cups_job_id k = qj_cups_job_id j) (filter (\<lambda>j. owns dr u j = Inr True) ?js) = Some j"
    using assms by (intro find_unique) (auto simp: movable_def)
  then show ?thesis by (simp add: my_queued_jobs_def cupsd_answer_def owned_all [OF all])
qed

lemma waiting_not_printing: "is_waiting j \<Longrightarrow> \<not> is_printing j"
  by (auto simp: is_waiting_def is_printing_def job_states)

lemma yield_effect:
  assumes "movable dr u run l j"
  shows "attempt_move dr u run (qj_cups_job_id j) True l =
    l\<lparr>ln_queue := map (set_priority (qj_cups_job_id j) YIELDED_PRIORITY) (ln_queue l),
      ln_yielded := AList.update (qj_printer_id j, qj_cups_job_id j) (qj_priority j) (ln_yielded l)\<rparr>"
  using my_job_found [OF assms] assms waiting_not_printing [of j]
  by (auto simp: attempt_move_def reprioritise_def movable_def remember_priority_before_yield_def split: sum.splits)

lemma restore_effect:
  assumes "movable dr u run l j" "map_of (ln_yielded l) (qj_printer_id j, qj_cups_job_id j) = Some p"
  shows "attempt_move dr u run (qj_cups_job_id j) False l =
    l\<lparr>ln_queue := map (set_priority (qj_cups_job_id j) p) (ln_queue l),
      ln_yielded := AList.delete (qj_printer_id j, qj_cups_job_id j) (ln_yielded l)\<rparr>"
  using my_job_found [OF assms(1)] assms waiting_not_printing [of j]
  by (auto simp: attempt_move_def reprioritise_def movable_def priority_before_yield_def
      forget_priority_before_yield_def split: sum.splits)

lemma movable_set:
  assumes "movable dr u run l j"
  shows "movable dr u run (l\<lparr>ln_queue := map (set_priority (qj_cups_job_id j) p) (ln_queue l), ln_yielded := yf\<rparr>)
    (set_priority (qj_cups_job_id j) p j)"
  using assms by (auto simp: movable_def comp_def)

lemma yields_effect:
  assumes "movable dr u run l j"
  shows "\<exists>yf. (attempt_move dr u run (qj_cups_job_id j) True ^^ Suc k) l =
      l\<lparr>ln_queue := map (set_priority (qj_cups_job_id j) YIELDED_PRIORITY) (ln_queue l), ln_yielded := yf\<rparr> \<and>
    map_of yf (qj_printer_id j, qj_cups_job_id j) = Some (if k = 0 then qj_priority j else YIELDED_PRIORITY)"
proof (induction k)
  case 0
  show ?case
    unfolding funpow.simps o_apply id_apply yield_effect [OF assms]
    by (intro exI conjI) (rule refl, simp add: update_conv')
next
  case (Suc k)
  let ?n = "qj_cups_job_id j"
  let ?j = "set_priority ?n YIELDED_PRIORITY j"
  from Suc obtain yf where yf: "(attempt_move dr u run ?n True ^^ Suc k) l =
      l\<lparr>ln_queue := map (set_priority ?n YIELDED_PRIORITY) (ln_queue l), ln_yielded := yf\<rparr>" by blast
  have "(attempt_move dr u run ?n True ^^ Suc (Suc k)) l =
      attempt_move dr u run (qj_cups_job_id ?j) True ((attempt_move dr u run ?n True ^^ Suc k) l)" by simp
  also have "\<dots> = l\<lparr>ln_queue := map (set_priority ?n YIELDED_PRIORITY) (ln_queue l),
      ln_yielded := AList.update (qj_printer_id j, ?n) (qj_priority ?j) yf\<rparr>"
    unfolding yf yield_effect [OF movable_set [OF assms]] by (simp add: comp_def set_priority_twice)
  finally have eq: "(attempt_move dr u run ?n True ^^ Suc (Suc k)) l = l\<lparr>ln_queue := map (set_priority ?n YIELDED_PRIORITY) (ln_queue l),
      ln_yielded := AList.update (qj_printer_id j, ?n) (qj_priority ?j) yf\<rparr>" .
  show ?case unfolding eq
    by (intro exI conjI) (rule refl, simp add: update_conv' set_priority_def)
qed

text \<open>
  One yield can be taken back: restoring a waiting job puts it at exactly the priority it had.
  Yielding it again before, which nothing refuses, loses that: the second yield remembers the
  lowered priority, and restoring then leaves the job behind everything else.
\<close>

theorem restore_undoes_one_yield_only:
  assumes "movable dr u run l j"
  shows "ln_queue (attempt_move dr u run (qj_cups_job_id j) False
      ((attempt_move dr u run (qj_cups_job_id j) True ^^ Suc k) l)) =
    (if k = 0 then ln_queue l
     else map (set_priority (qj_cups_job_id j) YIELDED_PRIORITY) (ln_queue l))"
proof -
  let ?n = "qj_cups_job_id j"
  obtain yf where yf: "(attempt_move dr u run ?n True ^^ Suc k) l =
      l\<lparr>ln_queue := map (set_priority ?n YIELDED_PRIORITY) (ln_queue l), ln_yielded := yf\<rparr>"
    "map_of yf (qj_printer_id j, ?n) = Some (if k = 0 then qj_priority j else YIELDED_PRIORITY)"
    using yields_effect [OF assms] by blast
  let ?j = "set_priority ?n YIELDED_PRIORITY j"
  have "ln_queue (attempt_move dr u run (qj_cups_job_id ?j) False
      (l\<lparr>ln_queue := map (set_priority ?n YIELDED_PRIORITY) (ln_queue l), ln_yielded := yf\<rparr>)) =
      map (set_priority ?n (if k = 0 then qj_priority j else YIELDED_PRIORITY)) (ln_queue l)"
    using restore_effect [OF movable_set [OF assms, where p = YIELDED_PRIORITY and yf = yf]] yf(2)
    by (simp add: comp_def set_priority_twice)
  moreover have "map (set_priority ?n (qj_priority j)) (ln_queue l) = ln_queue l"
  proof (rule map_idI)
    fix k
    assume "k \<in> set (ln_queue l)"
    then have "qj_cups_job_id k = ?n \<Longrightarrow> k = j"
      using assms by (auto simp: movable_def distinct_map dest: inj_onD)
    then show "set_priority ?n (qj_priority j) k = k" by (auto simp: set_priority_def)
  qed
  ultimately show ?thesis unfolding yf(1) by simp
qed

definition example_job :: "int \<Rightarrow> string \<Rightarrow> queued_job" where
  "example_job n owner = \<lparr>qj_cups_job_id = n, qj_printer_id = Some (replicate 32 (CHR ''a'')), qj_owner = Some owner,
     qj_source_host = None, qj_document_name = Some ''Mass parts'', qj_size_bytes = Some 2048, qj_priority = 50,
     qj_state = 3, qj_created_at = None\<rparr>"

definition example_directory :: directory where
  "example_directory = \<lparr>dr_world = example_world, dr_db = example_attribution,
     dr_case = \<lparr>cm_sql_lower = id, cm_casefold = id\<rparr>\<rparr>"

definition choir :: viewer where
  "choir = \<lparr>vw_username = Some ''choir@x.org'', vw_email = None\<rparr>"

definition example_line :: print_line where
  "example_line = \<lparr>ln_queue = [example_job 7 ''choir@x.org'', example_job 8 ''ann@x.org''], ln_yielded = [],
     ln_submitted = [(7, 50), (8, 50)]\<rparr>"

definition obedient :: runner where
  "obedient argv = Exited 0 [] []"

theorem restore_undoes_one_yield_only_witness:
  "ln_queue (attempt_move example_directory choir obedient 7 False
      ((attempt_move example_directory choir obedient 7 True ^^ 1) example_line)) = ln_queue example_line"
proof -
  have own: "owns example_directory choir (example_job 7 ''choir@x.org'') = Inr True"
    "owns example_directory choir (example_job 8 ''ann@x.org'') = Inr False" by code_simp+
  have "movable example_directory choir obedient example_line (example_job 7 ''choir@x.org'')"
    using own unfolding movable_def
    by (auto simp: example_line_def obedient_def set_cups_job_priority_def run_args_def)
      (simp_all add: example_job_def is_waiting_def job_states)
  from restore_undoes_one_yield_only [OF this, of 0] show ?thesis by (simp add: example_job_def)
qed

theorem yielding_never_promotes_witness:
  "\<exists>l. line_reached example_directory l \<and> (\<exists>j\<in>set (ln_queue l). qj_cups_job_id j = 7 \<and>
     (\<exists>q. map_of (ln_submitted l) (qj_cups_job_id j) = Some q \<and> qj_priority j \<le> q))"
proof -
  let ?j = "example_job 7 ''choir@x.org''"
  let ?l = "\<lparr>ln_queue = [], ln_yielded = [], ln_submitted = []\<rparr>\<lparr>ln_queue := [] @ [?j],
      ln_submitted := (qj_cups_job_id ?j, qj_priority ?j) # []\<rparr>"
  have "line_step example_directory \<lparr>ln_queue = [], ln_yielded = [], ln_submitted = []\<rparr> ?l"
    using line_step.submits [of ?j "\<lparr>ln_queue = [], ln_yielded = [], ln_submitted = []\<rparr>" example_directory]
    by (simp add: example_job_def YIELDED_PRIORITY_def)
  then have l: "line_reached example_directory ?l"
    using line_reached.next_step line_reached.empty_line by blast
  have j: "?j \<in> set (ln_queue ?l)" by simp
  have "qj_cups_job_id ?j = 7" by (simp add: example_job_def)
  then show ?thesis using yielding_never_promotes [OF l j] l j by blast
qed

theorem page_shows_the_line_in_printing_order_witness:
  "\<exists>page (q :: printer_queue) (line :: queued_job list). get_my_print_queue example_directory 0 choir (Some (ln_queue example_line)) []
      (example_holds\<lparr>hs_printers := [printer_defaults (replicate 32 (CHR ''a'')) ''Choir room'']\<rparr>) = Inr page \<and>
    map qr_cups_job_id (pq_jobs q) = map qj_cups_job_id line \<and> sorted_wrt before_in_line line"
proof -
  let ?st = "example_holds\<lparr>hs_printers := [printer_defaults (replicate 32 (CHR ''a'')) ''Choir room'']\<rparr>"
  let ?answer = "get_my_print_queue example_directory 0 choir (Some (ln_queue example_line)) [] ?st"
  have "case ?answer of Inl e \<Rightarrow> False | Inr page \<Rightarrow> qp_queues page \<noteq> []" by code_simp
  then obtain page where page: "?answer = Inr page" "qp_queues page \<noteq> []" by (auto split: sum.splits)
  then obtain q where q: "q \<in> set (qp_queues page)" using list.set_sel(1) by blast
  from page_shows_the_line_in_printing_order [OF page(1) q] obtain line :: "queued_job list" where
    "map qr_cups_job_id (pq_jobs q) = map qj_cups_job_id line" "sorted_wrt before_in_line line" by blast
  with page(1) show ?thesis by blast
qed

end
