(* ===== verification/Backend.thy ===== *)
theory Backend
  imports Job_Lifecycle Job_Control
begin

section \<open>The CUPS backend script (infra/cups/backends/printops)\<close>

text \<open>
  The script cupsd runs for every job of a PrintOps queue, as a machine that advances from one
  outside interaction to the next: read the token and the queue's address, look the printer up,
  register the job, then either take custody of the document and mark the job held, or run CUPS's
  own \<open>ipp\<close> backend and report how that ended.  A signal from cupsd can arrive between any two
  steps.  The API it talks to is the model of app/routers/jobs.py; what the link to it, the file
  system, pdfinfo, ipptool and the \<open>ipp\<close> backend do are parameters.
\<close>

subsection \<open>What the script reads off its arguments\<close>

text \<open>The lines of a text file, with universal newlines.\<close>

fun text_lines :: "string \<Rightarrow> string \<Rightarrow> string list" where
  "text_lines acc [] = (if acc = [] then [] else [rev acc])"
| "text_lines acc (c # cs) =
     (if c = CHR 0x0A then rev acc # text_lines [] cs
      else if c = CHR 0x0D then rev acc #
        (case cs of d # ds \<Rightarrow> if d = CHR 0x0A then text_lines [] ds else text_lines [] cs | [] \<Rightarrow> [])
      else text_lines (c # acc) cs)"

text \<open>\<open>None\<close> is the \<open>OSError\<close> or the \<open>RuntimeError\<close>; the caller treats them alike.\<close>

definition load_backend_token :: "string option \<Rightarrow> string option" where
  "load_backend_token env_file =
     (case env_file of
        None \<Rightarrow> None
      | Some text \<Rightarrow>
          (case find (prefix ''PRINTOPS_BACKEND_TOKEN='') (text_lines [] text) of
             None \<Rightarrow> None
           | Some line \<Rightarrow> Some (drop (length ''PRINTOPS_BACKEND_TOKEN='') (py_strip line))))"

definition option_token :: "string \<Rightarrow> string \<Rightarrow> string option" where
  "option_token name job_options =
     (case find (prefix name) (py_split job_options) of
        None \<Rightarrow> None | Some token \<Rightarrow> or_none (drop (length name) token))"

definition parse_source_host :: "string \<Rightarrow> string option" where
  "parse_source_host job_options = option_token ''job-originating-host-name='' job_options"

definition parse_job_uuid :: "string \<Rightarrow> string option" where
  "parse_job_uuid job_options = option_token ''job-uuid='' job_options"

definition PARTIAL_DOCUMENT_OPTIONS :: "string list" where
  "PARTIAL_DOCUMENT_OPTIONS = [''page-ranges'', ''page-set'', ''number-up'', ''Nup'']"

definition prints_part_of_document :: "string \<Rightarrow> bool" where
  "prints_part_of_document options =
     list_ex (\<lambda>name. contains (map ascii_lower name) (map ascii_lower options)) PARTIAL_DOCUMENT_OPTIONS"

text \<open>The first match of \<open>^Pages:\<close>, white space, digits up to the end of the line.\<close>

definition pages_here :: "string \<Rightarrow> string option" where
  "pages_here s =
     (case drop_prefix ''Pages:'' s of
        None \<Rightarrow> None
      | Some rest \<Rightarrow>
          (let value = dropWhile py_isspace rest; digits = takeWhile is_digit value;
               after = dropWhile is_digit value
           in if rest \<noteq> [] \<and> py_isspace (hd rest) \<and> digits \<noteq> [] \<and> (after = [] \<or> hd after = CHR 0x0A)
              then Some digits else None))"

fun search_pages :: "bool \<Rightarrow> string \<Rightarrow> string option" where
  "search_pages line_start [] = None"
| "search_pages line_start (c # cs) =
     (case (if line_start then pages_here (c # cs) else None) of
        Some digits \<Rightarrow> Some digits
      | None \<Rightarrow> search_pages (c = CHR 0x0A) cs)"

definition count_submitted_pages ::
  "(string \<Rightarrow> string option) \<Rightarrow> runner \<Rightarrow> string option \<Rightarrow> int option \<Rightarrow> string \<Rightarrow> int option" where
  "count_submitted_pages files pdfinfo filename copies options =
     (if \<not> truthy filename then None
      else if prints_part_of_document options then None
      else
        (case files (the filename) of
           None \<Rightarrow> None
         | Some content \<Rightarrow>
             if take 5 content \<noteq> ''%PDF-'' then None
             else
               (case pdfinfo [''pdfinfo'', the filename] of
                  Exited rc out err \<Rightarrow>
                    if rc \<noteq> 0 then None
                    else
                      (case search_pages True out of
                         None \<Rightarrow> None
                       | Some digits \<Rightarrow>
                           (let pages = int (digits_value digits)
                            in if pages \<le> 0 then None
                               else Some (pages * max (if int_or_zero copies = 0 then 1 else int_or_zero copies) 1)))
                | _ \<Rightarrow> None)))"

subsection \<open>What cupsd says of a finished job\<close>

record completion =
  cp_page_count :: "int option"
  cp_color_mode :: "string option"
  cp_duplex :: "bool option"
  cp_paper_size :: "string option"

definition no_completion :: completion where
  "no_completion = \<lparr>cp_page_count = None, cp_color_mode = None, cp_duplex = None, cp_paper_size = None\<rparr>"

definition JOB_COMPLETION_ATTRIBUTES :: "string list" where
  "JOB_COMPLETION_ATTRIBUTES =
     [''job-media-sheets-completed'', ''sides'', ''output-mode'', ''print-color-mode'', ''media'']"

definition completion_request :: "string \<Rightarrow> string \<Rightarrow> string" where
  "completion_request queue_name number =
     concat (map (\<lambda>line. line @ [CHR 0x0A])
       [''{'',
        ''    OPERATION Get-Job-Attributes'',
        ''    GROUP operation-attributes-tag'',
        ''    ATTR charset attributes-charset utf-8'',
        ''    ATTR language attributes-natural-language en'',
        ''    ATTR uri printer-uri ipp://localhost/printers/'' @ queue_name,
        ''    ATTR integer job-id '' @ number,
        ''    ATTR keyword requested-attributes '' @ py_join '','' JOB_COMPLETION_ATTRIBUTES,
        ''}''])"

definition completion_of :: "string \<Rightarrow> completion" where
  "completion_of output =
     (let sheets = plist_value ''job-media-sheets-completed'' output;
          color_mode_raw = (if truthy (plist_value ''output-mode'' output)
                            then plist_value ''output-mode'' output
                            else plist_value ''print-color-mode'' output)
      in \<lparr>cp_page_count = (case sheets of None \<Rightarrow> None
            | Some n \<Rightarrow> if isdigit n then Some (int (digits_value n)) else None),
          cp_color_mode = map_option (\<lambda>m. if contains ''monochrome'' m then ''monochrome'' else ''color'')
            color_mode_raw,
          cp_duplex = map_option (prefix ''two-sided'') (plist_value ''sides'' output),
          cp_paper_size = plist_value ''media'' output\<rparr>)"

definition get_job_completion_attributes ::
  "(string \<Rightarrow> string \<Rightarrow> process_result) \<Rightarrow> string \<Rightarrow> string \<Rightarrow> completion" where
  "get_job_completion_attributes ipptool queue_name number =
     (case ipptool queue_name (completion_request queue_name number) of
        Exited rc out err \<Rightarrow> completion_of out | _ \<Rightarrow> no_completion)"

subsection \<open>Asking the API\<close>

text \<open>
  A request reaches the API and is answered, is refused (\<open>URLError\<close>), or its connection breaks
  after it was sent - handled by the API or not - which \<open>urllib\<close> raises as an \<open>OSError\<close> or an
  \<open>HTTPException\<close>, neither a \<open>URLError\<close>.  An error status is an \<open>HTTPError\<close>.
\<close>

datatype link = Up | Refused | Dropped bool

datatype 'a api_answer = Answered 'a | ApiError | ApiCrash

fun api_request :: "link \<Rightarrow> (desk \<Rightarrow> (http_error + 'a) \<times> desk) \<Rightarrow> desk \<Rightarrow> 'a api_answer \<times> desk" where
  "api_request Up handler dk =
     (case handler dk of (Inl e, dk') \<Rightarrow> (ApiError, dk') | (Inr a, dk') \<Rightarrow> (Answered a, dk'))"
| "api_request Refused handler dk = (ApiError, dk)"
| "api_request (Dropped handled) handler dk = (ApiCrash, if handled then snd (handler dk) else dk)"

text \<open>The connection columns of a printer's row, and what the API serialises of them.\<close>

record printer_address =
  pa_ip_address :: "string option"
  pa_port :: int
  pa_use_tls :: bool
  pa_ipp_path :: "string option"
  pa_ipp_path_detected :: "string option"

record connection =
  cn_ip_address :: "string option"
  cn_port :: int
  cn_use_tls :: bool
  cn_ipp_path :: "string option"
  cn_media_col_broken :: bool

definition effective_ipp_path :: "printer_address \<Rightarrow> string option" where
  "effective_ipp_path a = (if truthy (pa_ipp_path a) then pa_ipp_path a else pa_ipp_path_detected a)"

definition get_printer_connection ::
  "(printer \<Rightarrow> printer_address) \<Rightarrow> uuid \<Rightarrow> desk \<Rightarrow> (http_error + connection) \<times> desk" where
  "get_printer_connection address pid dk =
     (case find (\<lambda>p. printer_id p = pid) (dk_printers dk) of
        None \<Rightarrow> (Inl (Http 404 ''Printer not found''), dk)
      | Some p \<Rightarrow>
          (Inr \<lparr>cn_ip_address = pa_ip_address (address p), cn_port = pa_port (address p),
                cn_use_tls = pa_use_tls (address p), cn_ipp_path = effective_ipp_path (address p),
                cn_media_col_broken = media_col_broken p\<rparr>, dk))"

definition real_uri :: "connection \<Rightarrow> string" where
  "real_uri c =
     (if cn_use_tls c then ''ipps'' else ''ipp'') @ ''://'' @
     (case cn_ip_address c of None \<Rightarrow> ''None'' | Some a \<Rightarrow> a) @ '':'' @ str_int (cn_port c) @
     (if truthy (cn_ipp_path c) then the (cn_ipp_path c) else ''/ipp/print'')"

subsection \<open>The state of one run\<close>

text \<open>
  \<open>bw_child\<close> is a run of the \<open>ipp\<close> backend, given its arguments, its device URI and the document
  on its standard input: its exit status, and how many bytes went into the pipe before it closed
  its end.  \<open>bw_pipe_buffer\<close> is the size of the buffer Python puts before that pipe.
\<close>

record backend_world =
  bw_env_file :: "string option"
  bw_device_uri :: string
  bw_queue :: "string option" \<comment> \<open>the PRINTER variable\<close>
  bw_files :: "string \<Rightarrow> string option"
  bw_stdin :: string
  bw_spool_writable :: bool
  bw_pdfinfo :: runner
  bw_ipptool :: "string \<Rightarrow> string \<Rightarrow> process_result"
  bw_child :: "string list \<Rightarrow> string \<Rightarrow> string option \<Rightarrow> int \<times> int"
  bw_pipe_buffer :: int
  bw_address :: "printer \<Rightarrow> printer_address"
  bw_outside :: outside_world
  bw_job_id :: uuid
  bw_event_id :: uuid
  bw_lookup_link :: link
  bw_register_link :: link
  bw_report_link :: link
  bw_signal_link :: link

text \<open>One run of the \<open>ipp\<close> backend; \<open>None\<close> for the document when it is named in the arguments.\<close>

record sending =
  se_uri :: string
  se_argv :: "string list"
  se_stdin :: "string option"

datatype script_phase =
    Starting
  | Located connection
  | Registered connection job
  | Spooled job string
  | Sending job \<comment> \<open>the \<open>ipp\<close> backend runs, the signal handlers are in place\<close>
  | Sent job int "int option" \<comment> \<open>its exit status and the size counted\<close>
  | Told job int \<comment> \<open>the API has taken the report, the answer is on its way\<close>
  | Over int \<comment> \<open>the exit status; negative when a signal killed the script\<close>

record script =
  sc_phase :: script_phase
  sc_job :: "job option" \<comment> \<open>the answer to the registration\<close>
  sc_desk :: desk
  sc_spool :: "(string, string) dict"
  sc_sent :: "sending list"

record invocation =
  iv_job_id :: string
  iv_user :: string
  iv_title :: string
  iv_copies :: string
  iv_options :: string
  iv_filename :: "string option"

text \<open>\<open>sys.argv[1:]\<close>; \<open>None\<close> when there are fewer than five.\<close>

definition invocation_of :: "string list \<Rightarrow> invocation option" where
  "invocation_of argv =
     (case argv of
        a # b # c # d # e # rest \<Rightarrow>
          Some \<lparr>iv_job_id = a, iv_user = b, iv_title = c, iv_copies = d, iv_options = e,
                iv_filename = (case rest of [] \<Rightarrow> None | f # others \<Rightarrow> Some f)\<rparr>
      | _ \<Rightarrow> None)"

definition printer_id_of_uri :: "string \<Rightarrow> string" where
  "printer_id_of_uri uri =
     takeWhile (\<lambda>c. c \<noteq> CHR ''/'')
       (if prefix ''printops://'' uri then drop (length ''printops://'') uri else uri)"

text \<open>The document as the script finds it: a file when one is named, else its standard input.\<close>

definition document_of :: "backend_world \<Rightarrow> invocation \<Rightarrow> string option" where
  "document_of w iv =
     (if truthy (iv_filename iv) then bw_files w (the (iv_filename iv)) else Some (bw_stdin w))"

subsection \<open>The steps\<close>

definition over :: "int \<Rightarrow> script \<Rightarrow> script" where
  "over status st = st\<lparr>sc_phase := Over status\<rparr>"

text \<open>
  Everything before the registration.  An exception nobody catches ends the process with
  status 1, as the returns for the caught ones do.
\<close>

definition start_up :: "backend_world \<Rightarrow> string list \<Rightarrow> script \<Rightarrow> script" where
  "start_up w argv st =
     (if argv = [] then over 0 st
      else
        (case invocation_of argv of
           None \<Rightarrow> over 1 st
         | Some iv \<Rightarrow>
             (case load_backend_token (bw_env_file w) of
                None \<Rightarrow> over 1 st
              | Some token \<Rightarrow>
                  (let pid = printer_id_of_uri (bw_device_uri w)
                   in if pid = [] then over 1 st
                      else
                        (case api_request (bw_lookup_link w) (get_printer_connection (bw_address w) pid) (sc_desk st) of
                           (Answered c, dk) \<Rightarrow> st\<lparr>sc_phase := Located c, sc_desk := dk\<rparr>
                         | (_, dk) \<Rightarrow> over 1 (st\<lparr>sc_desk := dk\<rparr>))))))"

definition create_payload :: "backend_world \<Rightarrow> invocation \<Rightarrow> int \<Rightarrow> job_create" where
  "create_payload w iv number =
     (let copy_count = (if isdigit (iv_copies iv) then Some (int (digits_value (iv_copies iv))) else None)
      in \<lparr>jc_printer_id = printer_id_of_uri (bw_device_uri w), jc_cups_job_id = Some number,
          jc_cups_job_uuid = parse_job_uuid (iv_options iv), jc_submitted_by = Some (iv_user iv),
          jc_file_size_bytes =
            (if truthy (iv_filename iv) then map_option (\<lambda>d. int (length d)) (bw_files w (the (iv_filename iv)))
             else None),
          jc_source_host = parse_source_host (iv_options iv), jc_document_name = or_none (iv_title iv),
          jc_copy_count = copy_count,
          jc_submitted_pages =
            count_submitted_pages (bw_files w) (bw_pdfinfo w) (iv_filename iv) copy_count (iv_options iv)\<rparr>)"

definition register :: "backend_world \<Rightarrow> invocation \<Rightarrow> datetime \<Rightarrow> connection \<Rightarrow> script \<Rightarrow> script" where
  "register w iv now c st =
     (case read_signed (iv_job_id iv) of
        None \<Rightarrow> over 1 st
      | Some number \<Rightarrow>
          (case api_request (bw_register_link w)
                  (create_job (bw_outside w) now (bw_job_id w) (bw_event_id w) (create_payload w iv number))
                  (sc_desk st) of
             (Answered j, dk) \<Rightarrow> st\<lparr>sc_phase := Registered c j, sc_job := Some j, sc_desk := dk\<rparr>
           | (_, dk) \<Rightarrow> over 1 (st\<lparr>sc_desk := dk\<rparr>)))"

definition HELD_SPOOL_DIR :: string where "HELD_SPOOL_DIR = ''/var/spool/printops-held''"

definition spool_held_file :: "backend_world \<Rightarrow> invocation \<Rightarrow> job \<Rightarrow> script \<Rightarrow> script" where
  "spool_held_file w iv j st =
     (if \<not> bw_spool_writable w then over 1 st
      else
        (case document_of w iv of
           None \<Rightarrow> over 1 st
         | Some content \<Rightarrow>
             (let dest = HELD_SPOOL_DIR @ ''/'' @ job_id j
              in st\<lparr>sc_phase := Spooled j dest, sc_spool := AList.update dest content (sc_spool st)\<rparr>)))"

definition update_status :: "string \<Rightarrow> job_update" where
  "update_status status =
     \<lparr>ju_status = status, ju_error_message = None, ju_file_size_bytes = None, ju_page_count = None,
      ju_color_mode = None, ju_duplex = None, ju_paper_size = None, ju_held_file_path = None,
      ju_held_job_options = None\<rparr>"

definition held_payload :: "invocation \<Rightarrow> string \<Rightarrow> script \<Rightarrow> job_update" where
  "held_payload iv path st =
     (update_status ''held'')\<lparr>ju_held_file_path := Some path, ju_held_job_options := Some (iv_options iv),
        ju_file_size_bytes := map_option (\<lambda>d. int (length d)) (map_of (sc_spool st) path)\<rparr>"

definition mark_held :: "backend_world \<Rightarrow> invocation \<Rightarrow> datetime \<Rightarrow> job \<Rightarrow> string \<Rightarrow> script \<Rightarrow> script" where
  "mark_held w iv now j path st =
     (case api_request (bw_report_link w) (update_job now (job_id j) (held_payload iv path st)) (sc_desk st) of
        (Answered row, dk) \<Rightarrow> over 0 (st\<lparr>sc_desk := dk\<rparr>)
      | (_, dk) \<Rightarrow> over 1 (st\<lparr>sc_desk := dk\<rparr>))"

definition forwarded_options :: "connection \<Rightarrow> string \<Rightarrow> string" where
  "forwarded_options c job_options =
     (if cn_media_col_broken c then strip_media_options job_options else job_options)"

definition launch :: "backend_world \<Rightarrow> invocation \<Rightarrow> connection \<Rightarrow> job \<Rightarrow> script \<Rightarrow> script" where
  "launch w iv c j st =
     (let argv = [''/usr/lib/cups/backend/ipp'', iv_job_id iv, iv_user iv, iv_title iv, iv_copies iv,
            forwarded_options c (iv_options iv)] @ (if truthy (iv_filename iv) then [the (iv_filename iv)] else [])
      in st\<lparr>sc_phase := Sending j,
            sc_sent := sc_sent st @ [\<lparr>se_uri = real_uri c, se_argv = argv,
              se_stdin = (if truthy (iv_filename iv) then None else Some (bw_stdin w))\<rparr>]\<rparr>)"

text \<open>
  Piping the document in chunks of 262144 bytes to a child that took the first \<open>taken\<close> bytes: the
  size counted, or \<open>None\<close> when closing the pipe raises.  A chunk larger than the buffer is written
  through it and its failure is caught; a last one that fits stays in the buffer until the close.
\<close>

definition CHUNK :: int where "CHUNK = 262144"

definition pipe_document :: "int \<Rightarrow> int \<Rightarrow> int \<Rightarrow> int option" where
  "pipe_document buffer bytes taken =
     (let whole = bytes div CHUNK * CHUNK in
      if taken \<ge> bytes then Some bytes
      else if taken < whole then Some (taken div CHUNK * CHUNK)
      else if bytes - whole > buffer then Some whole
      else None)"

definition deliver :: "backend_world \<Rightarrow> invocation \<Rightarrow> job \<Rightarrow> script \<Rightarrow> script" where
  "deliver w iv j st =
     (let s = last (sc_sent st); (exit_code, taken) = bw_child w (se_argv s) (se_uri s) (se_stdin s)
      in case se_stdin s of
           None \<Rightarrow> st\<lparr>sc_phase := Sent j exit_code
              (map_option (\<lambda>d. int (length d)) (bw_files w (the (iv_filename iv))))\<rparr>
         | Some document \<Rightarrow>
             (case pipe_document (bw_pipe_buffer w) (int (length document)) taken of
                None \<Rightarrow> over 1 st
              | Some counted \<Rightarrow> st\<lparr>sc_phase := Sent j exit_code (Some counted)\<rparr>))"

definition final_payload :: "backend_world \<Rightarrow> invocation \<Rightarrow> int \<Rightarrow> int option \<Rightarrow> job_update" where
  "final_payload w iv exit_code counted =
     (let queue = (if truthy (bw_queue w) then the (bw_queue w)
                   else ''printops-'' @ printer_id_of_uri (bw_device_uri w));
          attrs = (if exit_code = 0 then get_job_completion_attributes (bw_ipptool w) queue (iv_job_id iv)
                   else no_completion)
      in (update_status (if exit_code = 0 then ''forwarded'' else ''failed''))
           \<lparr>ju_error_message := (if exit_code = 0 then None
               else Some (''ipp backend exited '' @ str_int exit_code)),
            ju_file_size_bytes := counted, ju_page_count := cp_page_count attrs,
            ju_color_mode := cp_color_mode attrs, ju_duplex := cp_duplex attrs,
            ju_paper_size := cp_paper_size attrs\<rparr>)"

text \<open>The exit status of \<open>sys.exit\<close> is the low byte.\<close>

definition finish :: "int \<Rightarrow> script \<Rightarrow> script" where
  "finish exit_code st = over (exit_code mod 256) st"

definition report :: "backend_world \<Rightarrow> invocation \<Rightarrow> datetime \<Rightarrow> job \<Rightarrow> int \<Rightarrow> int option \<Rightarrow> script \<Rightarrow> script" where
  "report w iv now j exit_code counted st =
     (let handled = st\<lparr>sc_phase := Told j exit_code,
            sc_desk := snd (update_job now (job_id j) (final_payload w iv exit_code counted) (sc_desk st))\<rparr>
      in case bw_report_link w of
           Up \<Rightarrow> handled
         | Refused \<Rightarrow> finish exit_code st
         | Dropped reached \<Rightarrow> if reached then handled else over 1 st)"

definition answer_read :: "backend_world \<Rightarrow> int \<Rightarrow> script \<Rightarrow> script" where
  "answer_read w exit_code st = (if bw_report_link w = Up then finish exit_code st else over 1 st)"

definition advance :: "backend_world \<Rightarrow> string list \<Rightarrow> datetime \<Rightarrow> script \<Rightarrow> script" where
  "advance w argv now st =
     (case invocation_of argv of
        None \<Rightarrow> start_up w argv st
      | Some iv \<Rightarrow>
          (case sc_phase st of
             Starting \<Rightarrow> start_up w argv st
           | Located c \<Rightarrow> register w iv now c st
           | Registered c j \<Rightarrow> if truthy (job_hold_reason j) then spool_held_file w iv j st else launch w iv c j st
           | Spooled j path \<Rightarrow> mark_held w iv now j path st
           | Sending j \<Rightarrow> deliver w iv j st
           | Sent j exit_code counted \<Rightarrow> report w iv now j exit_code counted st
           | Told j exit_code \<Rightarrow> answer_read w exit_code st
           | Over status \<Rightarrow> st))"

subsection \<open>Signals\<close>

datatype signal = SIGTERM | SIGINT

fun signum :: "signal \<Rightarrow> int" where
  "signum SIGTERM = 15"
| "signum SIGINT = 2"

fun signal_name :: "signal \<Rightarrow> string" where
  "signal_name SIGTERM = ''SIGTERM''"
| "signal_name SIGINT = ''SIGINT''"

definition signalled_payload :: "signal \<Rightarrow> job_update" where
  "signalled_payload sig =
     (update_status ''cancelled'')\<lparr>ju_error_message := Some (''Ended at the print server '' @
        [CHR 0xE2, CHR 0x80, CHR 0x94] @ '' CUPS signalled delivery to stop ('' @ signal_name sig @
        ''), which it does when a job is cancelled, held or restarted.'')\<rparr>"

definition handle_signal :: "backend_world \<Rightarrow> signal \<Rightarrow> datetime \<Rightarrow> job \<Rightarrow> script \<Rightarrow> script" where
  "handle_signal w sig now j st =
     over (128 + signum sig)
       (st\<lparr>sc_desk := snd (api_request (bw_signal_link w) (update_job now (job_id j) (signalled_payload sig)) (sc_desk st))\<rparr>)"

text \<open>Before the handlers are installed a signal simply kills the script; afterwards they run.\<close>

definition signalled :: "backend_world \<Rightarrow> signal \<Rightarrow> datetime \<Rightarrow> script \<Rightarrow> script" where
  "signalled w sig now st =
     (case sc_phase st of
        Sending j \<Rightarrow> handle_signal w sig now j st
      | Sent j exit_code counted \<Rightarrow> handle_signal w sig now j st
      | Told j exit_code \<Rightarrow> handle_signal w sig now j st
      | Over status \<Rightarrow> st
      | _ \<Rightarrow> over (- signum sig) st)"

subsection \<open>Runs with signals and the rest of the system in between\<close>

definition fresh_script :: "desk \<Rightarrow> (string, string) dict \<Rightarrow> script" where
  "fresh_script dk spool =
     \<lparr>sc_phase = Starting, sc_job = None, sc_desk = dk, sc_spool = spool, sc_sent = []\<rparr>"

text \<open>
  Between two steps of the script anything may happen to the API's tables: other jobs, an admin,
  the background loops.  The document in custody is nobody else's before the row says held.
\<close>

inductive script_step :: "backend_world \<Rightarrow> string list \<Rightarrow> script \<Rightarrow> script \<Rightarrow> bool" for w argv where
  advances: "script_step w argv st (advance w argv now st)"
| interrupted: "script_step w argv st (signalled w sig now st)"
| environment: "script_step w argv st (st\<lparr>sc_desk := dk\<rparr>)"

inductive script_reached :: "backend_world \<Rightarrow> string list \<Rightarrow> script \<Rightarrow> bool" for w argv where
  fresh: "script_reached w argv (fresh_script dk spool)"
| next_step: "script_reached w argv st \<Longrightarrow> script_step w argv st st' \<Longrightarrow> script_reached w argv st'"

inductive_cases script_stepE: "script_step w argv st st'"

text \<open>What became of the document of a run that cupsd is told succeeded.\<close>

definition kept_or_delivered :: "backend_world \<Rightarrow> invocation \<Rightarrow> script \<Rightarrow> bool" where
  "kept_or_delivered w iv st \<longleftrightarrow>
     (case sc_job st of
        None \<Rightarrow> False
      | Some j \<Rightarrow>
          if truthy (job_hold_reason j) then
            sc_sent st = [] \<and> document_of w iv \<noteq> None \<and>
            map_of (sc_spool st) (HELD_SPOOL_DIR @ ''/'' @ job_id j) = document_of w iv
          else
            (case sc_sent st of
               [s] \<Rightarrow> fst (bw_child w (se_argv s) (se_uri s) (se_stdin s)) = 0
             | _ \<Rightarrow> False))"

fun phase_ok :: "backend_world \<Rightarrow> invocation \<Rightarrow> script \<Rightarrow> script_phase \<Rightarrow> bool" where
  "phase_ok w iv st Starting = (sc_job st = None \<and> sc_sent st = [])"
| "phase_ok w iv st (Located c) = (sc_job st = None \<and> sc_sent st = [])"
| "phase_ok w iv st (Registered c j) = (sc_job st = Some j \<and> sc_sent st = [])"
| "phase_ok w iv st (Spooled j path) = (sc_job st = Some j \<and> truthy (job_hold_reason j) \<and> kept_or_delivered w iv st)"
| "phase_ok w iv st (Sending j) =
     (sc_job st = Some j \<and> \<not> truthy (job_hold_reason j) \<and> length (sc_sent st) = 1)"
| "phase_ok w iv st (Sent j rc n) =
     (sc_job st = Some j \<and> \<not> truthy (job_hold_reason j) \<and> length (sc_sent st) = 1 \<and>
      (rc = 0 \<longrightarrow> kept_or_delivered w iv st) \<and> - 256 < rc \<and> rc < 256)"
| "phase_ok w iv st (Told j rc) =
     (sc_job st = Some j \<and> \<not> truthy (job_hold_reason j) \<and> length (sc_sent st) = 1 \<and>
      (rc = 0 \<longrightarrow> kept_or_delivered w iv st) \<and> - 256 < rc \<and> rc < 256)"
| "phase_ok w iv st (Over status) =
     ((status = 0 \<longrightarrow> kept_or_delivered w iv st) \<and>
      (sc_sent st \<noteq> [] \<longrightarrow> length (sc_sent st) = 1 \<and> (\<exists>j. sc_job st = Some j \<and> \<not> truthy (job_hold_reason j))))"

definition script_ok :: "backend_world \<Rightarrow> invocation \<Rightarrow> script \<Rightarrow> bool" where
  "script_ok w iv st \<longleftrightarrow> phase_ok w iv st (sc_phase st)"

lemma kept_or_delivered_simps [simp]:
  "kept_or_delivered w iv (st\<lparr>sc_desk := dk\<rparr>) = kept_or_delivered w iv st"
  "kept_or_delivered w iv (st\<lparr>sc_phase := ph\<rparr>) = kept_or_delivered w iv st"
  by (simp_all add: kept_or_delivered_def cong: option.case_cong list.case_cong if_cong)

lemma phase_ok_simps [simp]:
  "phase_ok w iv (st\<lparr>sc_desk := dk\<rparr>) ph = phase_ok w iv st ph"
  "phase_ok w iv (st\<lparr>sc_phase := ph'\<rparr>) ph = phase_ok w iv st ph"
  by (cases ph; simp)+

lemma script_ok_over: "phase_ok w iv st (Over status) \<Longrightarrow> script_ok w iv (over status st)"
  by (simp add: script_ok_def over_def del: phase_ok.simps)

lemma script_ok_start_up:
  assumes "script_ok w iv st" "sc_phase st = Starting" "invocation_of argv = Some iv"
  shows "script_ok w iv (start_up w argv st)"
proof -
  have ne: "argv \<noteq> []" using assms(3) by (auto simp: invocation_of_def)
  have "script_ok w iv (over 1 (st\<lparr>sc_desk := dk\<rparr>))" "script_ok w iv (over 1 st)"
    "script_ok w iv (st\<lparr>sc_phase := Located c, sc_desk := dk\<rparr>)" for c dk
    using assms(1,2) by (simp_all add: script_ok_def over_def)
  with ne assms(3) show ?thesis
    by (auto simp: start_up_def Let_def split: option.splits prod.splits api_answer.splits)
qed

lemma script_ok_register:
  assumes "script_ok w iv st" "sc_phase st = Located c"
  shows "script_ok w iv (register w iv now c st)"
proof -
  have "script_ok w iv (over 1 (st\<lparr>sc_desk := dk\<rparr>))" "script_ok w iv (over 1 st)"
    "script_ok w iv (st\<lparr>sc_phase := Registered c j, sc_job := Some j, sc_desk := dk\<rparr>)" for j dk
    using assms by (simp_all add: script_ok_def over_def)
  then show ?thesis by (auto simp: register_def split: option.splits prod.splits api_answer.splits)
qed

lemma script_ok_hold:
  assumes "script_ok w iv st" "sc_phase st = Registered c j" "truthy (job_hold_reason j)"
  shows "script_ok w iv (spool_held_file w iv j st)"
proof -
  have "script_ok w iv (over 1 st)" using assms by (simp add: script_ok_def over_def)
  moreover have "script_ok w iv (st\<lparr>sc_phase := Spooled j (HELD_SPOOL_DIR @ ''/'' @ job_id j),
      sc_spool := AList.update (HELD_SPOOL_DIR @ ''/'' @ job_id j) content (sc_spool st)\<rparr>)"
    if "document_of w iv = Some content" for content
    using assms that by (simp add: script_ok_def kept_or_delivered_def update_conv')
  ultimately show ?thesis by (simp add: spool_held_file_def Let_def split: option.split)
qed

lemma script_ok_mark_held:
  assumes "script_ok w iv st" "sc_phase st = Spooled j path"
  shows "script_ok w iv (mark_held w iv now j path st)"
proof -
  have ok: "phase_ok w iv st (Over status)" for status
    using assms by (auto simp: script_ok_def kept_or_delivered_def)
  have "script_ok w iv (over status (st\<lparr>sc_desk := dk\<rparr>))" for status dk
    by (rule script_ok_over) (simp only: phase_ok_simps ok)
  then show ?thesis by (auto simp: mark_held_def split: prod.splits api_answer.splits)
qed

lemma script_ok_launch:
  assumes "script_ok w iv st" "sc_phase st = Registered c j" "\<not> truthy (job_hold_reason j)"
  shows "script_ok w iv (launch w iv c j st)"
  using assms by (simp add: script_ok_def launch_def)

text \<open>Exit statuses and signal numbers as waitpid reports them.\<close>

definition child_statuses :: "backend_world \<Rightarrow> bool" where
  "child_statuses w \<longleftrightarrow> (\<forall>a u d. - 256 < fst (bw_child w a u d) \<and> fst (bw_child w a u d) < 256)"

lemma script_ok_deliver:
  assumes "script_ok w iv st" "sc_phase st = Sending j" "child_statuses w"
  shows "script_ok w iv (deliver w iv j st)"
proof -
  from assms(1,2) obtain s where s: "sc_sent st = [s]"
    by (auto simp: script_ok_def length_Suc_conv numeral_eq_Suc)
  obtain rc taken where child: "bw_child w (se_argv s) (se_uri s) (se_stdin s) = (rc, taken)" by fastforce
  have "- 256 < rc" "rc < 256" using assms(3) child by (metis child_statuses_def fst_conv)+
  then have "script_ok w iv (st\<lparr>sc_phase := Sent j rc n\<rparr>)" "script_ok w iv (over 1 st)" for n
    using assms(1,2) s child by (auto simp: script_ok_def kept_or_delivered_def over_def)
  with s child show ?thesis by (auto simp: deliver_def Let_def split: option.split)
qed

lemma script_ok_done:
  assumes "phase_ok w iv st (Told j rc)"
  shows "script_ok w iv (over 1 st)" "script_ok w iv (finish rc st)"
proof -
  have "rc mod 256 = 0 \<Longrightarrow> rc = 0" using assms by (auto simp: mod_eq_0_iff_dvd dvd_def)
  with assms show "script_ok w iv (over 1 st)" "script_ok w iv (finish rc st)"
    by (auto simp: finish_def intro!: script_ok_over)
qed

lemma script_ok_report:
  assumes "phase_ok w iv st (Told j rc)"
  shows "script_ok w iv (report w iv now j rc n st)"
proof -
  have "script_ok w iv (st\<lparr>sc_phase := Told j rc, sc_desk := dk\<rparr>)" for dk
    using assms by (simp add: script_ok_def)
  with script_ok_done [OF assms] show ?thesis by (simp add: report_def Let_def split: link.split)
qed

lemma script_ok_advance:
  assumes "script_ok w iv st" "invocation_of argv = Some iv" "child_statuses w"
  shows "script_ok w iv (advance w argv now st)"
proof (cases "sc_phase st")
  case (Registered c j)
  then show ?thesis
    using script_ok_hold [OF assms(1) Registered] script_ok_launch [OF assms(1) Registered] assms(2)
    by (simp add: advance_def)
next
  case (Sent j rc n)
  then have "phase_ok w iv st (Told j rc)" using assms(1) by (simp add: script_ok_def)
  with Sent assms(2) show ?thesis using script_ok_report by (simp add: advance_def)
next
  case (Told j rc)
  then have "phase_ok w iv st (Told j rc)" using assms(1) by (simp add: script_ok_def)
  with Told assms(2) script_ok_done [of w iv st j rc] show ?thesis
    by (simp add: advance_def answer_read_def del: phase_ok.simps)
qed (use assms script_ok_start_up script_ok_register script_ok_mark_held script_ok_deliver in
      \<open>simp_all add: advance_def\<close>)

lemma script_ok_signalled:
  assumes "script_ok w iv st"
  shows "script_ok w iv (signalled w sig now st)"
proof -
  have "signum sig \<noteq> 0" "128 + signum sig \<noteq> 0" by (cases sig; simp)+
  then show ?thesis
    using assms by (cases "sc_phase st")
      (auto simp: signalled_def handle_signal_def over_def script_ok_def kept_or_delivered_def)
qed

lemma script_ok_reached:
  assumes "script_reached w argv st" "invocation_of argv = Some iv" "child_statuses w"
  shows "script_ok w iv st"
  using assms(1)
proof induction
  case (fresh dk spool)
  then show ?case by (simp add: fresh_script_def script_ok_def)
next
  case (next_step st st')
  have "script_ok w iv (st\<lparr>sc_desk := dk\<rparr>)" for dk
    using next_step(3) by (simp add: script_ok_def)
  with next_step(2,3) show ?case
    using script_ok_advance [OF _ assms(2,3)] script_ok_signalled by (auto elim: script_stepE)
qed

text \<open>
  C3: the script tells cupsd a job succeeded only when its document is safe: with signals and
  anything the rest of the system does to the tables between its steps, exit status 0 means that
  the document of a job to be held is in the spool directory, byte for byte, and was never sent,
  and that any other job was given to the ipp backend exactly once, which exited 0.
\<close>

theorem success_means_kept_or_delivered:
  assumes "script_reached w argv st" "invocation_of argv = Some iv" "child_statuses w"
    "sc_phase st = Over 0"
  shows "\<exists>j. sc_job st = Some j \<and>
    (if truthy (job_hold_reason j) then
       sc_sent st = [] \<and> document_of w iv \<noteq> None \<and>
       map_of (sc_spool st) (HELD_SPOOL_DIR @ ''/'' @ job_id j) = document_of w iv
     else \<exists>s. sc_sent st = [s] \<and> fst (bw_child w (se_argv s) (se_uri s) (se_stdin s)) = 0)"
proof -
  have "kept_or_delivered w iv st"
    using script_ok_reached [OF assms(1-3)] assms(4) by (simp add: script_ok_def)
  then show ?thesis
    by (auto simp: kept_or_delivered_def split: option.splits if_splits list.splits)
qed

text \<open>
  A run of the script sends a document at most once, and never that of a job the API answered
  a hold for - at no moment of the run, whatever signals arrive and whatever fails.
\<close>

theorem a_hold_is_never_sent:
  assumes "script_reached w argv st" "invocation_of argv = Some iv" "child_statuses w"
  shows "length (sc_sent st) \<le> 1 \<and>
    (\<forall>j. sc_job st = Some j \<and> truthy (job_hold_reason j) \<longrightarrow> sc_sent st = [])"
  using script_ok_reached [OF assms] by (cases "sc_phase st") (auto simp: script_ok_def kept_or_delivered_def)

subsection \<open>The script ends\<close>

fun steps_left :: "script_phase \<Rightarrow> nat" where
  "steps_left Starting = 6"
| "steps_left (Located c) = 5"
| "steps_left (Registered c j) = 4"
| "steps_left (Spooled j path) = 1"
| "steps_left (Sending j) = 3"
| "steps_left (Sent j rc n) = 2"
| "steps_left (Told j rc) = 1"
| "steps_left (Over status) = 0"

lemma steps_left_over [simp]: "sc_phase (over status st) = Over status"
  by (simp add: over_def)

lemma start_up_left: "steps_left (sc_phase (start_up w argv st)) \<le> 5"
  by (auto simp: start_up_def Let_def split: option.splits prod.splits api_answer.splits)

lemma register_left: "steps_left (sc_phase (register w iv now c st)) \<le> 4"
  by (auto simp: register_def split: option.splits prod.splits api_answer.splits)

lemma later_left:
  "steps_left (sc_phase (spool_held_file w iv j st)) \<le> 3"
  "steps_left (sc_phase (launch w iv c j st)) \<le> 3"
  "steps_left (sc_phase (mark_held w iv now j path st)) = 0"
  "steps_left (sc_phase (deliver w iv j st)) \<le> 2"
  "steps_left (sc_phase (report w iv now j rc n st)) \<le> 1"
  "steps_left (sc_phase (answer_read w rc st)) = 0"
  by (auto simp: spool_held_file_def launch_def mark_held_def deliver_def report_def answer_read_def
      finish_def Let_def split: option.splits prod.splits api_answer.splits link.splits)

lemma advance_progress:
  assumes "invocation_of argv = Some iv"
  shows "steps_left (sc_phase (advance w argv now st)) \<le> steps_left (sc_phase st) - 1"
  using assms start_up_left [of w argv st] register_left [of w iv now _ st]
    later_left(1,2,4) [where w = w and iv = iv and st = st]
    later_left(3,5) [where w = w and iv = iv and now = now and st = st] later_left(6) [where w = w and st = st]
  by (cases "sc_phase st") (auto simp: advance_def le_Suc_eq numeral_eq_Suc)

lemma advance_no_invocation:
  assumes "invocation_of argv = None"
  shows "\<exists>status. sc_phase (advance w argv now st) = Over status"
  using assms by (auto simp: advance_def start_up_def)

lemma advances_end:
  assumes "invocation_of argv = Some iv" "steps_left (sc_phase st) \<le> length nows"
  shows "steps_left (sc_phase (fold (advance w argv) nows st)) = 0"
  using assms(2)
proof (induction nows arbitrary: st)
  case (Cons now nows)
  have "steps_left (sc_phase (advance w argv now st)) \<le> length nows"
    using advance_progress [OF assms(1), of w now st] Cons.prems by simp
  then show ?case using Cons.IH by simp
qed simp

lemma steps_left_0: "steps_left ph = 0 \<longleftrightarrow> (\<exists>status. ph = Over status)"
  by (cases ph) auto


subsection \<open>What cupsd is told\<close>

text \<open>The exit status owed to a job whose document went to the ipp backend.\<close>

definition delivery_status :: "backend_world \<Rightarrow> sending \<Rightarrow> int" where
  "delivery_status w s =
     (let (exit_code, taken) = bw_child w (se_argv s) (se_uri s) (se_stdin s) in
      if (case se_stdin s of None \<Rightarrow> False
          | Some document \<Rightarrow> pipe_document (bw_pipe_buffer w) (int (length document)) taken = None) then 1
      else (case bw_report_link w of Dropped reached \<Rightarrow> 1 | _ \<Rightarrow> exit_code mod 256))"

lemma not_sent_yet:
  "sc_sent (start_up w argv st) = sc_sent st" "sc_sent (register w iv now c st) = sc_sent st"
  "sc_sent (spool_held_file w iv j st) = sc_sent st" "sc_sent (mark_held w iv now j path st) = sc_sent st"
  by (auto simp: start_up_def register_def spool_held_file_def mark_held_def over_def Let_def
      split: option.splits prod.splits api_answer.splits)

lemma sent_already:
  "sc_sent (deliver w iv j st) = sc_sent st" "sc_sent (report w iv now j rc n st) = sc_sent st"
  "sc_sent (answer_read w rc st) = sc_sent st"
  by (auto simp: deliver_def report_def answer_read_def finish_def over_def Let_def
      split: option.split prod.split link.split)

lemma advance_over [simp]:
  assumes "invocation_of argv = Some iv" "sc_phase st = Over status"
  shows "advance w argv now st = st"
  using assms by (simp add: advance_def)

lemma sc_sent_over [simp]: "sc_sent (over status st) = sc_sent st"
  by (simp add: over_def)

lemma sending_ends:
  assumes "invocation_of argv = Some iv" "sc_phase st = Sending j" "sc_sent st = [s]"
  shows "sc_phase (fold (advance w argv) [t1, t2, t3] st) = Over (delivery_status w s)"
proof -
  obtain rc taken where child: "bw_child w (se_argv s) (se_uri s) (se_stdin s) = (rc, taken)" by fastforce
  have sent: "sc_phase (fold (advance w argv) [t, t'] st') =
      Over (case bw_report_link w of Dropped reached \<Rightarrow> 1 | _ \<Rightarrow> rc mod 256)"
    if "sc_phase st' = Sent j rc n" for st' n t t'
    using that assms(1)
    by (cases "bw_report_link w")
      (simp_all add: advance_def report_def answer_read_def finish_def Let_def over_def)
  have "advance w argv t1 st = deliver w iv j st" using assms(1,2) by (simp add: advance_def)
  moreover have "sc_phase (fold (advance w argv) [t2, t3] (deliver w iv j st)) = Over (delivery_status w s)"
  proof (cases "se_stdin s")
    case None
    then have "sc_phase (deliver w iv j st) = Sent j rc
        (map_option (\<lambda>d. int (length d)) (bw_files w (the (iv_filename iv))))"
      using assms(3) child by (simp add: deliver_def)
    from sent [OF this] None child show ?thesis by (simp add: delivery_status_def)
  next
    case (Some document)
    show ?thesis
    proof (cases "pipe_document (bw_pipe_buffer w) (int (length document)) taken")
      case None
      then have "sc_phase (deliver w iv j st) = Over 1" using assms(3) child Some by (simp add: deliver_def)
      with assms(1) None Some child show ?thesis by (simp add: delivery_status_def)
    next
      case (Some n)
      then have "sc_phase (deliver w iv j st) = Sent j rc (Some n)"
        using assms(3) child \<open>se_stdin s = Some document\<close> by (simp add: deliver_def)
      from sent [OF this] Some \<open>se_stdin s = Some document\<close> child show ?thesis
        by (simp add: delivery_status_def)
    qed
  qed
  ultimately show ?thesis by simp
qed

lemma three_steps_to_sending:
  assumes iv: "invocation_of argv = Some iv" and start: "sc_phase st = Starting" "sc_sent st = []"
    and final: "sc_sent (fold (advance w argv) [t1, t2, t3, t4, t5, t6] st) = [s]"
  shows "\<exists>j. sc_phase (fold (advance w argv) [t1, t2, t3] st) = Sending j \<and>
    sc_sent (fold (advance w argv) [t1, t2, t3] st) = [s]"
proof -
  let ?s1 = "start_up w argv st"
  have s1: "advance w argv t1 st = ?s1" "sc_sent ?s1 = []"
    using iv start by (simp_all add: advance_def not_sent_yet)
  have ne: "argv \<noteq> []" using iv by (auto simp: invocation_of_def)
  have "(\<exists>status. sc_phase ?s1 = Over status) \<or> (\<exists>c. sc_phase ?s1 = Located c)"
    using ne iv by (auto simp: start_up_def Let_def split: option.splits prod.splits api_answer.splits)
  then obtain c where c: "sc_phase ?s1 = Located c"
    using final s1 iv by auto
  let ?s2 = "register w iv t2 c ?s1"
  have s2: "advance w argv t2 ?s1 = ?s2" "sc_sent ?s2 = []"
    using iv c s1 by (simp_all add: advance_def not_sent_yet)
  have "(\<exists>status. sc_phase ?s2 = Over status) \<or> (\<exists>c j. sc_phase ?s2 = Registered c j)"
    by (auto simp: register_def split: option.splits prod.splits api_answer.splits)
  then obtain c' j where j: "sc_phase ?s2 = Registered c' j"
    using final s1 s2 iv by auto
  show ?thesis
  proof (cases "truthy (job_hold_reason j)")
    case False
    then have s3: "advance w argv t3 ?s2 = launch w iv c' j ?s2" using iv j by (simp add: advance_def)
    then obtain s' where s': "sc_phase (launch w iv c' j ?s2) = Sending j" "sc_sent (launch w iv c' j ?s2) = [s']"
      using s2 by (simp add: launch_def)
    have "sc_sent (advance w argv t st') = sc_sent st'"
      if "sc_phase st' = Sending j \<or> steps_left (sc_phase st') \<le> 2" for t st'
      using that iv by (cases "sc_phase st'") (auto simp: advance_def not_sent_yet sent_already)
    moreover have "steps_left (sc_phase (advance w argv t4 (launch w iv c' j ?s2))) \<le> 2"
      "steps_left (sc_phase (advance w argv t5 (advance w argv t4 (launch w iv c' j ?s2)))) \<le> 2"
      using advance_progress [OF iv, of w t4 "launch w iv c' j ?s2"] s'(1)
        advance_progress [OF iv, of w t5 "advance w argv t4 (launch w iv c' j ?s2)"] by simp_all
    ultimately have "s' = s" using final s1 s2 s3 s' by simp
    with s1 s2 s3 s' show ?thesis by simp
  next
    case True
    let ?s3 = "spool_held_file w iv j ?s2"
    have s3: "advance w argv t3 ?s2 = ?s3" "sc_sent ?s3 = []"
      using True iv j s2 by (simp_all add: advance_def not_sent_yet)
    have "(\<exists>status. sc_phase ?s3 = Over status) \<or> (\<exists>path. sc_phase ?s3 = Spooled j path)"
      by (auto simp: spool_held_file_def Let_def split: option.splits)
    then obtain path where "sc_phase ?s3 = Spooled j path" using final s1 s2 s3 iv by auto
    then have s4: "advance w argv t4 ?s3 = mark_held w iv t4 j path ?s3" using iv by (simp add: advance_def)
    have "\<exists>status. sc_phase (mark_held w iv t4 j path ?s3) = Over status"
      using later_left(3) [where w = w and iv = iv and now = t4 and st = ?s3] by (simp add: steps_left_0)
    then have False using final s1 s2 s3 s4 iv by (auto simp: not_sent_yet)
    then show ?thesis ..
  qed
qed

text \<open>
  The status the script gives cupsd for a job it handed to the ipp backend is that
  backend's own, and a refused or rejected report does not change it; but a report whose
  connection breaks, or a pipe that fails on its last buffered bytes, turns it into 1 - also after
  the document was printed.
\<close>

theorem exit_status_of_a_delivery:
  assumes "invocation_of argv = Some iv"
    "sc_sent (fold (advance w argv) [t1, t2, t3, t4, t5, t6] (fresh_script dk spool)) = [s]"
  shows "sc_phase (fold (advance w argv) [t1, t2, t3, t4, t5, t6] (fresh_script dk spool)) =
    Over (let (exit_code, taken) = bw_child w (se_argv s) (se_uri s) (se_stdin s) in
          if (\<exists>document. se_stdin s = Some document \<and>
                pipe_document (bw_pipe_buffer w) (int (length document)) taken = None) \<or>
             bw_report_link w \<in> range Dropped then 1
          else exit_code mod 256)"
proof -
  let ?st = "fold (advance w argv) [t1, t2, t3] (fresh_script dk spool)"
  have "sc_phase (fresh_script dk spool) = Starting" "sc_sent (fresh_script dk spool) = []"
    by (simp_all add: fresh_script_def)
  from three_steps_to_sending [OF assms(1) this assms(2)] obtain j where
    "sc_phase ?st = Sending j" "sc_sent ?st = [s]" by blast
  from sending_ends [OF assms(1) this, of w t4 t5 t6]
  have "sc_phase (fold (advance w argv) [t1, t2, t3, t4, t5, t6] (fresh_script dk spool)) =
      Over (delivery_status w s)" by simp
  moreover obtain rc taken where "bw_child w (se_argv s) (se_uri s) (se_stdin s) = (rc, taken)" by fastforce
  ultimately show ?thesis
    by (cases "bw_report_link w"; cases "se_stdin s") (auto simp: delivery_status_def)
qed

subsection \<open>A signal after the report\<close>

lemma find_replace_row:
  "find_job i table = Some j \<Longrightarrow> job_id j' = i \<Longrightarrow> find_job i (replace_row j' table) = Some j'"
  by (induction table) (auto simp: find_job_def replace_row_def split: if_splits)

lemma updated_row_id [simp]: "job_id (updated_row now expiry p payload j) = job_id j"
  by (simp add: updated_row_def Let_def)

lemma update_job_found:
  assumes "find_job i (dk_jobs dk) = Some j"
  shows "find_job i (dk_jobs (snd (update_job now i payload dk))) =
    Some (updated_row now (dk_hold_expiry dk)
      (find (\<lambda>p. printer_id p = job_printer_id j) (dk_printers dk)) payload j)"
  using assms find_job_in [OF assms] by (simp add: update_job_def Let_def find_replace_row)

lemma api_request_up: "snd (api_request Up handler dk) = snd (handler dk)"
  by (auto split: prod.split sum.split)

text \<open>
  A signal that arrives while the answer to a successful report is awaited makes the script
  report a second time: the row of the printed document, just recorded as forwarded, is rewritten
  as cancelled and loses its page count.
\<close>

theorem a_late_signal_erases_the_delivery:
  assumes "invocation_of argv = Some iv" "sc_phase st = Sent j 0 n" "bw_report_link w = Up"
    "bw_signal_link w = Up" "find_job (job_id j) (dk_jobs (sc_desk st)) = Some row"
  shows "\<exists>delivered ended.
    find_job (job_id j) (dk_jobs (sc_desk (advance w argv t st))) = Some delivered \<and>
    job_status delivered = ''forwarded'' \<and>
    find_job (job_id j) (dk_jobs (sc_desk (signalled w sig t' (advance w argv t st)))) = Some ended \<and>
    job_status ended = ''cancelled'' \<and> job_page_count ended = None \<and>
    sc_phase (signalled w sig t' (advance w argv t st)) = Over (128 + signum sig)"
proof -
  let ?told = "advance w argv t st"
  let ?dk = "snd (update_job t (job_id j) (final_payload w iv 0 n) (sc_desk st))"
  have told: "sc_phase ?told = Told j 0" "sc_desk ?told = ?dk"
    using assms(1-3) by (simp_all add: advance_def report_def)
  obtain p expiry where d: "find_job (job_id j) (dk_jobs ?dk) = Some (updated_row t expiry p (final_payload w iv 0 n) row)"
    using update_job_found [OF assms(5)] by blast
  have desk: "sc_desk (signalled w sig t' ?told) = snd (update_job t' (job_id j) (signalled_payload sig) ?dk)"
    using told assms(4) by (simp add: signalled_def handle_signal_def over_def api_request_up del: api_request.simps)
  obtain q expiry' where "find_job (job_id j) (dk_jobs (sc_desk (signalled w sig t' ?told))) =
      Some (updated_row t' expiry' q (signalled_payload sig) (updated_row t expiry p (final_payload w iv 0 n) row))"
    using update_job_found [OF d] desk by metis
  moreover have "job_status (updated_row t expiry p (final_payload w iv 0 n) row) = ''forwarded''"
    by (simp add: updated_row_def final_payload_def update_status_def Let_def)
  moreover have "job_status (updated_row t' expiry' q (signalled_payload sig) k) = ''cancelled''"
    "job_page_count (updated_row t' expiry' q (signalled_payload sig) k) = None" for k
    by (simp_all add: updated_row_def signalled_payload_def update_status_def Let_def)
  moreover have "sc_phase (signalled w sig t' ?told) = Over (128 + signum sig)"
    using told by (simp add: signalled_def handle_signal_def)
  ultimately show ?thesis using d told(2) by auto
qed

subsection \<open>From the script's custody to the release\<close>

text \<open>The tables and the spool directory as the release reads them.\<close>

definition hold_state_of :: "script \<Rightarrow> hold_state" where
  "hold_state_of st =
     \<lparr>hs_jobs = dk_jobs (sc_desk st), hs_printers = dk_printers (sc_desk st),
      hs_spool = map fst (sc_spool st), hs_handed = []\<rparr>"

lemma api_request_Answered:
  assumes "api_request l handler dk = (Answered a, dk')"
  shows "handler dk = (Inr a, dk')"
  using assms by (cases l) (auto split: prod.splits sum.splits)

lemma create_job_row:
  assumes "create_job ow now new eid payload dk = (Inr j, dk')" "new \<notin> job_id ` set (dk_jobs dk)"
  shows "find_job new (dk_jobs dk') = Some j \<and> dk_printers dk' = dk_printers dk \<and>
    job_document_name j = jc_document_name payload \<and> job_copy_count j = jc_copy_count payload"
proof -
  note j = create_job_Inr [OF assms(1)]
  have none: "find (\<lambda>k. job_id k = new) (map f (dk_jobs dk)) = None" if "\<And>k. job_id (f k) = job_id k" for f
    using assms(2) that by (auto simp: find_None_iff)
  have append: "find P (xs @ [x]) = (case find P xs of None \<Rightarrow> find P [x] | Some y \<Rightarrow> Some y)" for P and xs :: "job list" and x
    by (induction xs) auto
  have "find_job new (dk_jobs dk') = Some j"
    using j none [of id] none [of "\<lambda>k. if earlier_attempt now j k then superseded_row now j k else k"]
    by (simp add: find_job_def supersede_earlier_attempts_def append not_earlier_self)
  moreover have "dk_printers dk' = dk_printers dk \<and> job_document_name j = jc_document_name payload \<and>
      job_copy_count j = jc_copy_count payload"
    using assms(1) by (auto simp: create_job_def new_row_def Let_def split: sum.splits option.splits if_splits)
  ultimately show ?thesis by blast
qed

lemma held_run:
  assumes iv: "invocation_of argv = Some iv" and start: "st = fresh_script dk spool"
    and final: "final = fold (advance w argv) [t1, t2, t3, t4] st"
    and ended: "sc_phase final = Over 0" "sc_job final = Some j" "truthy (job_hold_reason j)"
  obtains dk' number content where
    "create_job (bw_outside w) t2 (bw_job_id w) (bw_event_id w) (create_payload w iv number) dk = (Inr j, dk')"
    "document_of w iv = Some content"
    "sc_spool final = AList.update (HELD_SPOOL_DIR @ ''/'' @ job_id j) content spool"
    "sc_desk final = snd (update_job t4 (job_id j)
       ((update_status ''held'')\<lparr>ju_held_file_path := Some (HELD_SPOOL_DIR @ ''/'' @ job_id j),
          ju_held_job_options := Some (iv_options iv), ju_file_size_bytes := Some (int (length content))\<rparr>) dk')"
proof -
  let ?s1 = "start_up w argv st"
  have s1: "advance w argv t1 st = ?s1" using iv start by (simp add: advance_def fresh_script_def)
  have ne: "argv \<noteq> []" using iv by (auto simp: invocation_of_def)
  have "(\<exists>status. ?s1 = over status (st\<lparr>sc_desk := dk\<rparr>)) \<or>
      (\<exists>c. ?s1 = st\<lparr>sc_phase := Located c, sc_desk := dk\<rparr>)"
  proof -
    have get: "snd (api_request l (get_printer_connection a pid) dk) = dk" for l a pid
      by (cases l) (auto simp: get_printer_connection_def split: option.split)
    have "st\<lparr>sc_desk := dk\<rparr> = st" "sc_desk st = dk" using start by (simp_all add: fresh_script_def)
    with ne iv get [of "bw_lookup_link w" "bw_address w" "printer_id_of_uri (bw_device_uri w)"] show ?thesis
      by (auto simp: start_up_def Let_def split: option.splits prod.splits api_answer.splits)
  qed
  then obtain c where c: "?s1 = st\<lparr>sc_phase := Located c, sc_desk := dk\<rparr>"
  proof
    assume "\<exists>status. ?s1 = over status (st\<lparr>sc_desk := dk\<rparr>)"
    then have "final = ?s1" "sc_job ?s1 = None" using iv s1 final start by (auto simp: over_def fresh_script_def)
    then show ?thesis using ended(2) by simp
  qed blast
  let ?s2 = "register w iv t2 c ?s1"
  have s2: "advance w argv t2 ?s1 = ?s2" using iv c by (simp add: advance_def)
  have "(\<exists>status dk'. ?s2 = over status (?s1\<lparr>sc_desk := dk'\<rparr>)) \<or>
      (\<exists>k dk' number. ?s2 = ?s1\<lparr>sc_phase := Registered c k, sc_job := Some k, sc_desk := dk'\<rparr> \<and>
        create_job (bw_outside w) t2 (bw_job_id w) (bw_event_id w) (create_payload w iv number) dk = (Inr k, dk'))"
  proof -
    have same: "?s1 = ?s1\<lparr>sc_desk := dk\<rparr>" and desk: "sc_desk ?s1 = dk" using c by simp_all
    show ?thesis
    proof (cases "read_signed (iv_job_id iv)")
      case None
      then have "?s2 = over 1 (?s1\<lparr>sc_desk := dk\<rparr>)" by (subst same [symmetric]) (simp add: register_def)
      then show ?thesis by blast
    next
      case (Some number)
      obtain a dk2 where a: "api_request (bw_register_link w)
          (create_job (bw_outside w) t2 (bw_job_id w) (bw_event_id w) (create_payload w iv number)) dk = (a, dk2)"
        by fastforce
      with Some desk have s2: "?s2 = (case a of
          Answered k \<Rightarrow> ?s1\<lparr>sc_phase := Registered c k, sc_job := Some k, sc_desk := dk2\<rparr>
        | _ \<Rightarrow> over 1 (?s1\<lparr>sc_desk := dk2\<rparr>))"
        by (simp add: register_def split: api_answer.split)
      show ?thesis
      proof (cases a)
        case (Answered k)
        with a s2 show ?thesis using api_request_Answered by fastforce
      qed (use s2 in auto)
    qed
  qed
  then obtain k dk' number where
    k: "?s2 = ?s1\<lparr>sc_phase := Registered c k, sc_job := Some k, sc_desk := dk'\<rparr>" and
    created: "create_job (bw_outside w) t2 (bw_job_id w) (bw_event_id w) (create_payload w iv number) dk = (Inr k, dk')"
  proof
    assume "\<exists>status dk'. ?s2 = over status (?s1\<lparr>sc_desk := dk'\<rparr>)"
    then have "final = ?s2" "sc_job ?s2 = None" using iv s1 s2 final c start by (auto simp: over_def fresh_script_def)
    then show ?thesis using ended(2) by simp
  qed blast
  have hold: "k = j"
  proof -
    have keep: "sc_job (advance w argv t st') = sc_job st'" if "\<exists>k. sc_job st' = Some k" "sc_phase st' \<noteq> Starting"
      "\<And>c. sc_phase st' \<noteq> Located c" for t st'
      using that iv
      by (cases "sc_phase st'") (auto simp: advance_def spool_held_file_def launch_def mark_held_def deliver_def
          report_def answer_read_def finish_def over_def Let_def
          split: option.split prod.split link.split api_answer.split)
    have "sc_job (advance w argv t3 ?s2) = Some k" using keep [of ?s2 t3] k by simp
    moreover have "steps_left (sc_phase (advance w argv t3 ?s2)) \<le> 3"
      using advance_progress [OF iv, of w t3 ?s2] k by simp
    then have "sc_phase (advance w argv t3 ?s2) \<noteq> Starting" "\<And>c. sc_phase (advance w argv t3 ?s2) \<noteq> Located c"
      by auto
    ultimately have "sc_job (advance w argv t4 (advance w argv t3 ?s2)) = Some k"
      using keep [of "advance w argv t3 ?s2" t4] by simp
    then show ?thesis using ended(2) final s1 s2 by simp
  qed
  let ?s3 = "spool_held_file w iv j ?s2"
  have s3: "advance w argv t3 ?s2 = ?s3" using iv k hold ended(3) by (simp add: advance_def)
  have "\<exists>content. document_of w iv = Some content \<and> ?s3 = ?s2\<lparr>sc_phase := Spooled j (HELD_SPOOL_DIR @ ''/'' @ job_id j),
      sc_spool := AList.update (HELD_SPOOL_DIR @ ''/'' @ job_id j) content (sc_spool ?s2)\<rparr>"
  proof (rule ccontr)
    assume "\<not> ?thesis"
    then have "?s3 = over 1 ?s2" by (auto simp: spool_held_file_def Let_def split: option.splits)
    then have "final = over 1 ?s2" using final s1 s2 s3 iv by simp
    then show False using ended(1) by simp
  qed
  then obtain content where content: "document_of w iv = Some content"
    and kept: "?s3 = ?s2\<lparr>sc_phase := Spooled j (HELD_SPOOL_DIR @ ''/'' @ job_id j),
      sc_spool := AList.update (HELD_SPOOL_DIR @ ''/'' @ job_id j) content (sc_spool ?s2)\<rparr>" by blast
  let ?path = "HELD_SPOOL_DIR @ ''/'' @ job_id j"
  let ?payload = "(update_status ''held'')\<lparr>ju_held_file_path := Some ?path,
    ju_held_job_options := Some (iv_options iv), ju_file_size_bytes := Some (int (length content))\<rparr>"
  have s4: "final = mark_held w iv t4 j ?path ?s3" using iv kept s1 s2 s3 final by (simp add: advance_def)
  have payload: "held_payload iv ?path ?s3 = ?payload" using kept by (simp add: held_payload_def update_conv')
  have desk3: "sc_desk ?s3 = dk'" using kept k by simp
  from s4 ended(1) obtain row dk'' where
    "api_request (bw_report_link w) (update_job t4 (job_id j) ?payload) dk' = (Answered row, dk'')"
    "final = over 0 (?s3\<lparr>sc_desk := dk''\<rparr>)"
    unfolding mark_held_def payload desk3 by (auto split: prod.splits api_answer.splits)
  then have "sc_desk final = snd (update_job t4 (job_id j) ?payload dk')" "sc_spool final = sc_spool ?s3"
    by (auto dest: api_request_Answered simp: over_def)
  moreover have "sc_spool ?s3 = AList.update ?path content spool" using kept k c start by (simp add: fresh_script_def)
  ultimately show ?thesis using created hold content by (intro that) simp_all
qed


subsection \<open>Examples\<close>

text \<open>A printer that accepts what is piped to it, and the same queue with release required.\<close>

definition example_backend :: backend_world where
  "example_backend =
     \<lparr>bw_env_file = Some ''PRINTOPS_BACKEND_TOKEN=t'', bw_device_uri = ''printops://p1'', bw_queue = None,
      bw_files = (\<lambda>f. None), bw_stdin = ''%PDF-1.7'', bw_spool_writable = True, bw_pdfinfo = (\<lambda>a. FileNotFound),
      bw_ipptool = (\<lambda>q r. TimedOut), bw_child = (\<lambda>a u d. (0, 8)), bw_pipe_buffer = 4096,
      bw_address = (\<lambda>p. \<lparr>pa_ip_address = Some ''10.0.0.9'', pa_port = 631, pa_use_tls = False,
        pa_ipp_path = None, pa_ipp_path_detected = Some ''/''\<rparr>),
      bw_outside = quiet_world, bw_job_id = ''a9'', bw_event_id = ''e9'', bw_lookup_link = Up,
      bw_register_link = Up, bw_report_link = Up, bw_signal_link = Up\<rparr>"

definition example_argv :: "string list" where
  "example_argv = [''7'', ''ann@x.org'', ''Letter'', ''2'', ''sides=one-sided job-uuid=urn:uuid:7'']"

definition example_invocation :: invocation where
  "example_invocation = \<lparr>iv_job_id = ''7'', iv_user = ''ann@x.org'', iv_title = ''Letter'', iv_copies = ''2'',
     iv_options = ''sides=one-sided job-uuid=urn:uuid:7'', iv_filename = None\<rparr>"

definition release_desk :: desk where
  "release_desk = example_desk\<lparr>dk_printers :=
     map (\<lambda>p. p\<lparr>printer_release_required := True\<rparr>) (dk_printers example_desk)\<rparr>"

lemma example_invocation: "invocation_of example_argv = Some example_invocation"
  by (simp add: invocation_of_def example_argv_def example_invocation_def)

lemma example_children: "child_statuses example_backend"
  by (simp add: child_statuses_def example_backend_def)

lemma fold_reached:
  "script_reached w argv st \<Longrightarrow> script_reached w argv (fold (advance w argv) ts st)"
  by (induction ts arbitrary: st) (auto intro: script_reached.next_step script_step.advances)

definition held_example :: script where
  "held_example = fold (advance example_backend example_argv) [1, 2, 3, 4] (fresh_script release_desk [])"

definition sent_example :: script where
  "sent_example = fold (advance example_backend example_argv) [1, 2, 3, 4, 5, 6] (fresh_script example_desk [])"

lemma held_example_ends: "sc_phase held_example = Over 0"
proof -
  have "case sc_phase held_example of Over r \<Rightarrow> r = 0 | _ \<Rightarrow> False" by code_simp
  then show ?thesis by (simp split: script_phase.splits)
qed

lemma held_example_job: "\<exists>j. sc_job held_example = Some j \<and> truthy (job_hold_reason j)"
proof -
  have "case sc_job held_example of None \<Rightarrow> False | Some j \<Rightarrow> truthy (job_hold_reason j)" by code_simp
  then show ?thesis by (simp split: option.splits)
qed

lemma sent_example_sends: "\<exists>s. sc_sent sent_example = [s]"
proof -
  have "length (sc_sent sent_example) = 1" by code_simp
  then show ?thesis by (metis One_nat_def length_0_conv length_Suc_conv)
qed

lemma examples_reached:
  "script_reached example_backend example_argv held_example"
  "script_reached example_backend example_argv sent_example"
  unfolding held_example_def sent_example_def by (intro fold_reached script_reached.fresh)+

theorem success_means_kept_or_delivered_witness:
  "\<exists>j. sc_job held_example = Some j \<and>
     map_of (sc_spool held_example) (HELD_SPOOL_DIR @ ''/'' @ job_id j) = document_of example_backend example_invocation"
  using success_means_kept_or_delivered [OF examples_reached(1) example_invocation
      example_children held_example_ends] held_example_job by auto

theorem a_hold_is_never_sent_witness: "length (sc_sent sent_example) \<le> 1"
  using a_hold_is_never_sent [OF examples_reached(2) example_invocation example_children] by blast

theorem exit_status_of_a_delivery_witness:
  "\<exists>s. sc_sent sent_example = [s] \<and> sc_phase sent_example = Over 0"
proof -
  from sent_example_sends obtain s where s: "sc_sent sent_example = [s]" by blast
  have child: "bw_child example_backend a u d = (0, 8)" for a u d
    by (simp add: example_backend_def)
  have link: "bw_report_link example_backend = Up" "bw_pipe_buffer example_backend = 4096"
    by (simp_all add: example_backend_def)
  have "list_all (\<lambda>s. se_stdin s = Some ''%PDF-1.7'') (sc_sent sent_example)" by code_simp
  then have stdin: "se_stdin s = Some ''%PDF-1.7''" using s by simp
  have pipe: "pipe_document 4096 8 8 = Some 8" by (simp add: pipe_document_def)
  from exit_status_of_a_delivery [OF example_invocation s [unfolded sent_example_def], folded sent_example_def]
  have "sc_phase sent_example = Over 0" unfolding child link stdin using pipe by auto
  with s show ?thesis by blast
qed

text \<open>The moment the ipp backend has exited.\<close>

definition printed_example :: script where
  "printed_example = fold (advance example_backend example_argv) [1, 2, 3, 4] (fresh_script example_desk [])"

theorem a_late_signal_erases_the_delivery_witness:
  "\<exists>ended i. find_job i (dk_jobs (sc_desk (signalled example_backend SIGTERM 7
      (advance example_backend example_argv 6 printed_example)))) = Some ended \<and> job_status ended = ''cancelled''"
proof -
  have "case sc_phase printed_example of
      Sent j rc n \<Rightarrow> rc = 0 \<and> find_job (job_id j) (dk_jobs (sc_desk printed_example)) \<noteq> None | _ \<Rightarrow> False"
    by code_simp
  then obtain j n row where st: "sc_phase printed_example = Sent j 0 n"
    "find_job (job_id j) (dk_jobs (sc_desk printed_example)) = Some row"
    by (auto split: script_phase.splits)
  have "bw_report_link example_backend = Up" "bw_signal_link example_backend = Up"
    by (simp_all add: example_backend_def)
  from a_late_signal_erases_the_delivery [OF example_invocation st(1) this st(2), of 6 SIGTERM 7]
  show ?thesis by blast
qed


end
