(* ===== verification/Account_Counters.thy ===== *)
theory Account_Counters
  imports Prelude
begin

section \<open>Copier counters turned into usage (app/copiers/account_counters.py)\<close>

text \<open>
  A copier reports lifetime totals per account; usage is the difference of two readings.  The
  state is the table of readings, the ledger of usage rows and the device's row; what the device
  reports is a parameter.  A reading is a dict of dicts, with the keys in the order reported; the
  position of a row in its table is its identity.
\<close>

type_synonym counters = "(string, int) dict"
type_synonym counter_lists = "(string, counters) dict"

subsection \<open>Rows (models/copier_account_counter.py, copier_provisioning.py, copier_usage.py)\<close>

record account_reading =
  cr_device :: uuid
  cr_account :: string
  cr_counters :: counter_lists
  cr_first_seen :: datetime
  cr_last_seen :: datetime
  cr_superseded :: "datetime option"
  cr_follows_reset :: bool

record provisioned_account =
  pv_device :: uuid
  pv_account :: string
  pv_staff_email :: string
  pv_identity_value :: string
  pv_identity_type :: string
  pv_provisioned_at :: datetime
  pv_removed_at :: "datetime option"

record mfp_device =
  mf_id :: uuid
  mf_vendor :: string
  mf_model :: "string option"
  mf_serial_number :: "string option"
  mf_building :: "string option"
  mf_connector_type :: string
  mf_last_counter_poll_at :: "datetime option"
  mf_last_counter_poll_ok :: "bool option"
  mf_last_counter_poll_message :: "string option"

record usage_record =
  us_device :: uuid
  us_vendor :: string
  us_model :: "string option"
  us_serial_number :: "string option"
  us_building :: "string option"
  us_staff_email :: "string option"
  us_identity_used :: string
  us_identity_type :: "string option"
  us_authentication_method :: string
  us_activity :: string
  us_page_count :: int
  us_color_page_count :: "int option"
  us_monochrome_page_count :: "int option"
  us_period_start :: datetime
  us_period_end :: datetime
  us_source_connector :: string
  us_counter_delta :: counter_lists
  us_staff_id :: "string option"
  us_follows_reset :: bool
  us_from_baseline :: bool

record device_account =
  da_account_id :: string
  da_lists :: counter_lists

subsection \<open>Differences\<close>

definition COLOR_TYPES :: "string list" where "COLOR_TYPES = [''FullColor'', ''BiColor'', ''MonoColor'']"
definition MONO_TYPES :: "string list" where "MONO_TYPES = [''Bw'']"

definition NON_PAGE_TYPES :: "string list" where
  "NON_PAGE_TYPES = [''BlackPrintPaper'', ''Paper'', ''Document'', ''DuplexTotal'', ''PrintPageTotal'']"

definition is_page_type :: "string \<Rightarrow> bool" where
  "is_page_type t \<longleftrightarrow> \<not> suffix ''Large'' t \<and> t \<notin> set NON_PAGE_TYPES"

record account_delta =
  dl_account_id :: string
  dl_lists :: counter_lists
  dl_follows_reset :: bool

definition activity_counters :: "counter_lists \<Rightarrow> string \<Rightarrow> counters" where
  "activity_counters cls activity = (case map_of cls activity of None \<Rightarrow> [] | Some cs \<Rightarrow> cs)"

definition counter :: "counters \<Rightarrow> string \<Rightarrow> int" where
  "counter cs name = int_or_zero (map_of cs name)"

definition pages_of :: "account_delta \<Rightarrow> string \<Rightarrow> string list \<Rightarrow> int" where
  "pages_of delta activity types =
     sum_list (map (counter (activity_counters (dl_lists delta) activity)) types)"

definition total_pages :: "counter_lists \<Rightarrow> string \<Rightarrow> int" where
  "total_pages cls activity =
     (let counters = activity_counters cls activity in
      case map_of counters ''Total'' of
        Some n \<Rightarrow> n
      | None \<Rightarrow> sum_list (map snd (filter (\<lambda>(name, n). is_page_type name) counters)))"

definition before :: "counter_lists \<Rightarrow> string \<Rightarrow> string \<Rightarrow> int" where
  "before previous activity name = counter (activity_counters previous activity) name"

definition went_down :: "counter_lists \<Rightarrow> counter_lists \<Rightarrow> bool" where
  "went_down previous current \<longleftrightarrow>
     list_ex (\<lambda>(activity, counters). list_ex (\<lambda>(name, n). n < before previous activity name) counters) current"

definition delta_counters :: "(string \<Rightarrow> int) \<Rightarrow> counters \<Rightarrow> counters" where
  "delta_counters old counters =
     filter (\<lambda>(name, d). d \<noteq> 0) (map (\<lambda>(name, n). (name, n - old name)) counters)"

definition delta_lists :: "(string \<Rightarrow> string \<Rightarrow> int) \<Rightarrow> counter_lists \<Rightarrow> counter_lists" where
  "delta_lists old current =
     filter (\<lambda>(activity, ds). ds \<noteq> [])
       (map (\<lambda>(activity, counters). (activity, delta_counters (old activity) counters)) current)"

definition diff_counters :: "counter_lists \<Rightarrow> counter_lists \<Rightarrow> account_delta" where
  "diff_counters previous current =
     (let reset = went_down previous current
      in \<lparr>dl_account_id = [],
          dl_lists = delta_lists (if reset then (\<lambda>a n. 0) else before previous) current,
          dl_follows_reset = reset\<rparr>)"

text \<open>Equality of dicts, which ignores the order of their keys.\<close>

definition dict_eq :: "('v \<Rightarrow> 'v \<Rightarrow> bool) \<Rightarrow> (string, 'v) dict \<Rightarrow> (string, 'v) dict \<Rightarrow> bool" where
  "dict_eq eq d e \<longleftrightarrow>
     list_all (\<lambda>k. case (map_of d k, map_of e k) of (Some x, Some y) \<Rightarrow> eq x y | _ \<Rightarrow> False) (map fst d) \<and>
     list_all (\<lambda>k. map_of d k \<noteq> None) (map fst e)"

definition same_counters :: "counter_lists \<Rightarrow> counter_lists \<Rightarrow> bool" where
  "same_counters d e \<longleftrightarrow> dict_eq (dict_eq (=)) d e"

subsection \<open>Usage rows\<close>

definition usage_rows ::
  "mfp_device \<Rightarrow> account_delta \<Rightarrow> provisioned_account option \<Rightarrow> datetime \<Rightarrow> datetime \<Rightarrow> usage_record list" where
  "usage_rows device delta owner period_start period_end =
     (let row = (\<lambda>activity pages color mono.
            \<lparr>us_device = mf_id device, us_vendor = mf_vendor device, us_model = mf_model device,
             us_serial_number = mf_serial_number device, us_building = mf_building device,
             us_staff_email = map_option pv_staff_email owner, us_identity_used = dl_account_id delta,
             us_identity_type = map_option pv_identity_type owner,
             us_authentication_method = ''account_track'', us_activity = activity, us_page_count = pages,
             us_color_page_count = color, us_monochrome_page_count = mono, us_period_start = period_start,
             us_period_end = period_end, us_source_connector = mf_connector_type device,
             us_counter_delta = dl_lists delta, us_staff_id = map_option pv_identity_value owner,
             us_follows_reset = dl_follows_reset delta, us_from_baseline = False\<rparr>);
          nonzero = (\<lambda>n. if n = 0 then None else Some n);
          copies = total_pages (dl_lists delta) ''copy'';
          scan_fax = activity_counters (dl_lists delta) ''scan_fax''
      in (if copies \<noteq> 0
          then [row ''copy'' copies (nonzero (pages_of delta ''copy'' COLOR_TYPES))
                  (nonzero (pages_of delta ''copy'' MONO_TYPES))] else []) @
         (if counter scan_fax ''DocumentReadTotal'' \<noteq> 0
          then [row ''scan'' (counter scan_fax ''DocumentReadTotal'') None None] else []) @
         (if counter scan_fax ''FaxSend'' \<noteq> 0 then [row ''fax'' (counter scan_fax ''FaxSend'') None None] else []))"

definition baseline_usage_rows ::
  "mfp_device \<Rightarrow> device_account \<Rightarrow> provisioned_account option \<Rightarrow> datetime \<Rightarrow> usage_record list" where
  "baseline_usage_rows device account owner now =
     (case owner of
        None \<Rightarrow> []
      | Some o' \<Rightarrow>
          if \<not> list_ex (\<lambda>(activity, counters). list_ex (\<lambda>(name, n). n \<noteq> 0) counters) (da_lists account) then []
          else map (\<lambda>r. r\<lparr>us_from_baseline := True\<rparr>)
            (usage_rows device \<lparr>dl_account_id = da_account_id account, dl_lists = da_lists account,
               dl_follows_reset = False\<rparr> owner (pv_provisioned_at o') now))"

text \<open>Who held an account at a moment; of several rows the one provisioned last.\<close>

definition owner_map ::
  "provisioned_account list \<Rightarrow> mfp_device \<Rightarrow> datetime \<Rightarrow> string \<Rightarrow> provisioned_account option" where
  "owner_map accounts device at a =
     find (\<lambda>v. pv_account v = a)
       (rev (filter (\<lambda>v. \<not> pv_provisioned_at v > at \<and>
               (case pv_removed_at v of None \<Rightarrow> True | Some t \<Rightarrow> \<not> t \<le> at))
          (sort_key pv_provisioned_at (filter (\<lambda>v. pv_device v = mf_id device) accounts))))"

subsection \<open>One poll\<close>

record poll_counts =
  pc_accounts_read :: nat
  pc_baselines :: nat
  pc_unchanged :: nat
  pc_changed :: nat
  pc_usage_rows :: nat
  pc_baseline_usage_rows :: nat
  pc_resets :: nat
  pc_unmapped :: nat

definition counts_message :: "poll_counts \<Rightarrow> string" where
  "counts_message r =
     py_join '', ''
       ([str_nat (pc_accounts_read r) @ '' accounts read''] @
        (if pc_baselines r \<noteq> 0
         then [str_nat (pc_baselines r) @ '' first readings'' @
               (if pc_baseline_usage_rows r \<noteq> 0
                then '' ('' @ str_nat (pc_baseline_usage_rows r) @ '' with usage since provisioning)''
                else '' (no usage yet)'')] else []) @
        (if pc_usage_rows r \<noteq> 0
         then [str_nat (pc_usage_rows r) @ '' usage rows from '' @ str_nat (pc_changed r) @ '' accounts'']
         else if pc_baselines r = 0 then [''no new usage''] else []) @
        (if pc_resets r \<noteq> 0 then [str_nat (pc_resets r) @ '' counters were cleared on the device''] else []) @
        (if pc_unmapped r \<noteq> 0 then [str_nat (pc_unmapped r) @ '' not matched to a person''] else []))"

record ledger =
  lg_readings :: "account_reading list"
  lg_usage :: "usage_record list"
  lg_counts :: poll_counts

definition new_reading :: "mfp_device \<Rightarrow> device_account \<Rightarrow> datetime \<Rightarrow> bool \<Rightarrow> account_reading" where
  "new_reading device account now reset =
     \<lparr>cr_device = mf_id device, cr_account = da_account_id account, cr_counters = da_lists account,
      cr_first_seen = now, cr_last_seen = now, cr_superseded = None, cr_follows_reset = reset\<rparr>"

definition is_current :: "uuid \<Rightarrow> account_reading \<Rightarrow> bool" where
  "is_current d r \<longleftrightarrow> cr_device r = d \<and> cr_superseded r = None"

text \<open>The dict of current readings: the position of the last one of an account.\<close>

definition existing_reading :: "uuid \<Rightarrow> account_reading list \<Rightarrow> string \<Rightarrow> nat option" where
  "existing_reading d table a =
     find (\<lambda>i. is_current d (table ! i) \<and> cr_account (table ! i) = a) (rev [0..<length table])"

definition poll_account ::
  "mfp_device \<Rightarrow> (string \<Rightarrow> nat option) \<Rightarrow> (string \<Rightarrow> provisioned_account option) \<Rightarrow> datetime \<Rightarrow>
   device_account \<Rightarrow> ledger \<Rightarrow> ledger" where
  "poll_account device existing owners now account lg =
     (let owner = owners (da_account_id account); c = lg_counts lg in
      case existing (da_account_id account) of
        None \<Rightarrow>
          (let rows = baseline_usage_rows device account owner now in
           \<lparr>lg_readings = lg_readings lg @ [new_reading device account now False],
            lg_usage = lg_usage lg @ rows,
            lg_counts = c\<lparr>pc_baselines := pc_baselines c + 1, pc_usage_rows := pc_usage_rows c + length rows,
              pc_baseline_usage_rows := pc_baseline_usage_rows c + length rows\<rparr>\<rparr>)
      | Some i \<Rightarrow>
          (let previous = lg_readings lg ! i in
           if same_counters (cr_counters previous) (da_lists account) then
             lg\<lparr>lg_readings := (lg_readings lg)[i := previous\<lparr>cr_last_seen := now\<rparr>],
                lg_counts := c\<lparr>pc_unchanged := pc_unchanged c + 1\<rparr>\<rparr>
           else
             (let delta = (diff_counters (cr_counters previous) (da_lists account))
                    \<lparr>dl_account_id := da_account_id account\<rparr>;
                  rows = usage_rows device delta owner (cr_last_seen previous) now
              in \<lparr>lg_readings = (lg_readings lg)[i := previous\<lparr>cr_superseded := Some now\<rparr>] @
                    [new_reading device account now (dl_follows_reset delta)],
                  lg_usage = lg_usage lg @ rows,
                  lg_counts = c\<lparr>pc_resets := pc_resets c + (if dl_follows_reset delta then 1 else 0),
                    pc_changed := pc_changed c + 1,
                    pc_unmapped := pc_unmapped c + (if owner = None then 1 else 0),
                    pc_usage_rows := pc_usage_rows c + length rows\<rparr>\<rparr>)))"

record copier_state =
  cs_readings :: "account_reading list"
  cs_usage :: "usage_record list"
  cs_accounts :: "provisioned_account list"
  cs_device :: mfp_device

definition no_counts :: "nat \<Rightarrow> poll_counts" where
  "no_counts n = \<lparr>pc_accounts_read = n, pc_baselines = 0, pc_unchanged = 0, pc_changed = 0,
     pc_usage_rows = 0, pc_baseline_usage_rows = 0, pc_resets = 0, pc_unmapped = 0\<rparr>"

definition poll_ledger :: "datetime \<Rightarrow> device_account list \<Rightarrow> copier_state \<Rightarrow> ledger" where
  "poll_ledger now snapshot st =
     fold (poll_account (cs_device st) (existing_reading (mf_id (cs_device st)) (cs_readings st))
         (owner_map (cs_accounts st) (cs_device st) now) now) snapshot
       \<lparr>lg_readings = cs_readings st, lg_usage = cs_usage st, lg_counts = no_counts (length snapshot)\<rparr>"

definition poll_account_counters :: "datetime \<Rightarrow> device_account list \<Rightarrow> copier_state \<Rightarrow> poll_counts \<times> copier_state" where
  "poll_account_counters now snapshot st =
     (let lg = poll_ledger now snapshot st in
      (lg_counts lg,
       st\<lparr>cs_readings := lg_readings lg, cs_usage := lg_usage lg,
          cs_device := (cs_device st)\<lparr>mf_last_counter_poll_at := Some now,
            mf_last_counter_poll_ok := Some True,
            mf_last_counter_poll_message := Some (counts_message (lg_counts lg))\<rparr>\<rparr>))"

subsection \<open>One account at a time\<close>

text \<open>The current reading of an account, and the copies the ledger has for it.\<close>

definition last_current :: "uuid \<Rightarrow> account_reading list \<Rightarrow> string \<Rightarrow> account_reading option" where
  "last_current d table a = map_option (\<lambda>i. table ! i) (existing_reading d table a)"

definition copies_of :: "string \<Rightarrow> usage_record list \<Rightarrow> int" where
  "copies_of a usage =
     sum_list (map us_page_count (filter (\<lambda>u. us_identity_used u = a \<and> us_activity u = ''copy'') usage))"

lemma copies_of_append [simp]: "copies_of a (us @ vs) = copies_of a us + copies_of a vs"
  by (simp add: copies_of_def)

lemma copies_of_Nil [simp]: "copies_of a [] = 0"
  by (simp add: copies_of_def)

lemma existing_reading_SomeD:
  assumes "existing_reading d table a = Some i"
  shows "i < length table \<and> cr_account (table ! i) = a \<and> is_current d (table ! i)"
proof -
  have "find P xs = Some j \<Longrightarrow> j \<in> set xs \<and> P j" for P and xs :: "nat list" and j
    by (induction xs) (auto split: if_splits)
  from this [OF assms [unfolded existing_reading_def]] show ?thesis by simp
qed

lemma existing_reading_append:
  "existing_reading d (table @ [r]) a =
     (if is_current d r \<and> cr_account r = a then Some (length table) else existing_reading d table a)"
proof -
  have "find (\<lambda>i. is_current d ((table @ [r]) ! i) \<and> cr_account ((table @ [r]) ! i) = a) (rev [0..<length table]) =
      find (\<lambda>i. is_current d (table ! i) \<and> cr_account (table ! i) = a) (rev [0..<length table])"
    by (rule find_cong) (auto simp: nth_append)
  then show ?thesis by (simp add: existing_reading_def)
qed

lemma existing_reading_update:
  assumes "\<And>b. b = a \<Longrightarrow> (is_current d r \<and> cr_account r = b) = (is_current d (table ! i) \<and> cr_account (table ! i) = b)"
  shows "existing_reading d (table[i := r]) a = existing_reading d table a"
  unfolding existing_reading_def length_list_update
proof (rule find_cong)
  fix j
  assume "j \<in> set (rev [0..<length table])"
  then show "(is_current d (table[i := r] ! j) \<and> cr_account (table[i := r] ! j) = a) =
      (is_current d (table ! j) \<and> cr_account (table ! j) = a)"
    using assms [of a] by (cases "j = i") simp_all
qed simp

lemma last_current_append:
  "last_current d (table @ [r]) a =
     (if is_current d r \<and> cr_account r = a then Some r else last_current d table a)"
  using existing_reading_SomeD [of d table a]
  by (cases "existing_reading d table a") (auto simp: last_current_def existing_reading_append nth_append)

lemma last_current_other:
  assumes "cr_account r \<noteq> a" "cr_account (table ! i) \<noteq> a"
  shows "last_current d (table[i := r]) a = last_current d table a"
proof -
  have "existing_reading d (table[i := r]) a = existing_reading d table a"
    using assms by (intro existing_reading_update) auto
  moreover have "table[i := r] ! j = table ! j" if "existing_reading d table a = Some j" for j
    using existing_reading_SomeD [OF that] assms(2) by (cases "j = i") auto
  ultimately show ?thesis by (cases "existing_reading d table a") (simp_all add: last_current_def)
qed

lemma last_current_touch:
  assumes "existing_reading d table a = Some i" "is_current d r" "cr_account r = a"
  shows "last_current d (table[i := r]) a = Some r"
  using existing_reading_SomeD [OF assms(1)] assms
  by (simp add: last_current_def existing_reading_update)

lemma new_reading_simps [simp]:
  "cr_account (new_reading device account now reset) = da_account_id account"
  "cr_counters (new_reading device account now reset) = da_lists account"
  "is_current (mf_id device) (new_reading device account now reset)"
  by (simp_all add: new_reading_def is_current_def)

lemma copies_of_usage_rows:
  "copies_of a (usage_rows device delta owner s e) =
     (if dl_account_id delta = a then total_pages (dl_lists delta) ''copy'' else 0)"
  by (simp add: usage_rows_def copies_of_def Let_def)

lemma total_pages_zero:
  assumes "\<not> list_ex (\<lambda>(activity, counters). list_ex (\<lambda>(name, n). n \<noteq> 0) counters) cls"
  shows "total_pages cls activity = 0"
proof -
  have zero: "n = 0" if "map_of cls activity = Some cs" "(name, n) \<in> set cs" for cs name n
    using assms that map_of_SomeD [OF that(1)] by (auto simp: list_ex_iff)
  show ?thesis
  proof (cases "map_of cls activity")
    case None
    then show ?thesis by (simp add: total_pages_def activity_counters_def)
  next
    case (Some cs)
    have "map snd (filter P cs) = map (\<lambda>x. 0) (filter P cs)" for P
      using zero [OF Some] by (auto simp: map_eq_conv)
    then have "sum_list (map snd (filter P cs)) = 0" for P by (simp only: sum_list_0)
    moreover have "map_of cs ''Total'' = Some n \<Longrightarrow> n = 0" for n
      using zero [OF Some] map_of_SomeD by fast
    ultimately show ?thesis using Some by (auto simp: total_pages_def activity_counters_def split: option.split)
  qed
qed

lemma copies_of_map_baseline [simp]:
  "copies_of a (map (\<lambda>r. r\<lparr>us_from_baseline := b\<rparr>) rows) = copies_of a rows"
  by (simp add: copies_of_def filter_map comp_def)

lemma copies_of_baseline:
  "copies_of a (baseline_usage_rows device account owner now) =
     (if owner \<noteq> None \<and> da_account_id account = a then total_pages (da_lists account) ''copy'' else 0)"
  using total_pages_zero [of "da_lists account" "''copy''"]
  by (auto simp: baseline_usage_rows_def copies_of_usage_rows split: option.split)

text \<open>What a report of an account does to its reading and to its copies.\<close>

definition reported_account ::
  "mfp_device \<Rightarrow> datetime \<Rightarrow> provisioned_account option \<Rightarrow> device_account \<Rightarrow>
   account_reading option \<times> int \<Rightarrow> account_reading option \<times> int" where
  "reported_account device now owner account v =
     (case fst v of
        None \<Rightarrow> (Some (new_reading device account now False),
                 snd v + (if owner = None then 0 else total_pages (da_lists account) ''copy''))
      | Some r \<Rightarrow>
          if same_counters (cr_counters r) (da_lists account) then (Some (r\<lparr>cr_last_seen := now\<rparr>), snd v)
          else (let delta = diff_counters (cr_counters r) (da_lists account) in
                (Some (new_reading device account now (dl_follows_reset delta)),
                 snd v + total_pages (dl_lists delta) ''copy'')))"

definition account_view :: "uuid \<Rightarrow> string \<Rightarrow> ledger \<Rightarrow> account_reading option \<times> int" where
  "account_view d a lg = (last_current d (lg_readings lg) a, copies_of a (lg_usage lg))"

lemma poll_account_view:
  assumes "existing (da_account_id account) = existing_reading (mf_id device) (lg_readings lg) (da_account_id account)"
  shows "account_view (mf_id device) a (poll_account device existing owners now account lg) =
    (if da_account_id account = a
     then reported_account device now (owners a) account (account_view (mf_id device) a lg)
     else account_view (mf_id device) a lg)"
proof (cases "existing (da_account_id account)")
  case None
  then have "last_current (mf_id device) (lg_readings lg) (da_account_id account) = None"
    using assms by (simp add: last_current_def)
  with None show ?thesis
    by (auto simp: poll_account_def account_view_def reported_account_def Let_def last_current_append copies_of_baseline)
next
  case (Some i)
  let ?r = "lg_readings lg ! i"
  from Some assms have e: "existing_reading (mf_id device) (lg_readings lg) (da_account_id account) = Some i" by simp
  note i = existing_reading_SomeD [OF e]
  have cur: "last_current (mf_id device) (lg_readings lg) (da_account_id account) = Some ?r"
    using e by (simp add: last_current_def)
  have touch: "last_current (mf_id device) ((lg_readings lg)[i := ?r\<lparr>cr_last_seen := now\<rparr>]) a =
      (if da_account_id account = a then Some (?r\<lparr>cr_last_seen := now\<rparr>)
       else last_current (mf_id device) (lg_readings lg) a)"
    using i last_current_touch [OF e, of "?r\<lparr>cr_last_seen := now\<rparr>"] last_current_other [of "?r\<lparr>cr_last_seen := now\<rparr>" a]
    by (auto simp: is_current_def)
  have close: "last_current (mf_id device) ((lg_readings lg)[i := ?r\<lparr>cr_superseded := Some now\<rparr>]) a =
      last_current (mf_id device) (lg_readings lg) a" if "da_account_id account \<noteq> a"
    using i that by (intro last_current_other) auto
  show ?thesis
    using Some i cur touch close
    by (auto simp: poll_account_def account_view_def reported_account_def Let_def last_current_append copies_of_usage_rows)
qed

lemma poll_account_existing:
  assumes "existing (da_account_id account) = existing_reading d (lg_readings lg) (da_account_id account)"
    "da_account_id account \<noteq> b" "mf_id device = d"
  shows "existing_reading d (lg_readings (poll_account device existing owners now account lg)) b =
    existing_reading d (lg_readings lg) b"
proof (cases "existing (da_account_id account)")
  case None
  then show ?thesis using assms(2) by (simp add: poll_account_def Let_def existing_reading_append)
next
  case (Some i)
  then have "cr_account (lg_readings lg ! i) \<noteq> b"
    using existing_reading_SomeD [of d "lg_readings lg" "da_account_id account" i] assms by simp
  then have "existing_reading d ((lg_readings lg)[i := (lg_readings lg ! i)\<lparr>cr_last_seen := now\<rparr>]) b = existing_reading d (lg_readings lg) b"
    "existing_reading d ((lg_readings lg)[i := (lg_readings lg ! i)\<lparr>cr_superseded := Some now\<rparr>]) b = existing_reading d (lg_readings lg) b"
    by (intro existing_reading_update; simp)+
  with Some assms(2) show ?thesis by (simp add: poll_account_def Let_def existing_reading_append)
qed

lemma poll_accounts_view:
  assumes "distinct (map da_account_id snapshot)" "mf_id device = d"
    "\<And>x. x \<in> set snapshot \<Longrightarrow> existing (da_account_id x) = existing_reading d (lg_readings lg) (da_account_id x)"
  shows "account_view d a (fold (poll_account device existing owners now) snapshot lg) =
    (case find (\<lambda>x. da_account_id x = a) snapshot of
       None \<Rightarrow> account_view d a lg
     | Some x \<Rightarrow> reported_account device now (owners a) x (account_view d a lg))"
  using assms
proof (induction snapshot arbitrary: lg)
  case (Cons x xs)
  let ?lg = "poll_account device existing owners now x lg"
  have "existing (da_account_id y) = existing_reading d (lg_readings ?lg) (da_account_id y)" if "y \<in> set xs" for y
    using that Cons.prems poll_account_existing [of existing x d lg "da_account_id y" device owners now] by force
  with Cons.IH [of ?lg] Cons.prems have "account_view d a (fold (poll_account device existing owners now) xs ?lg) =
    (case find (\<lambda>x. da_account_id x = a) xs of
       None \<Rightarrow> account_view d a ?lg
     | Some x \<Rightarrow> reported_account device now (owners a) x (account_view d a ?lg))" by simp
  moreover have "da_account_id x = a \<Longrightarrow> find (\<lambda>x. da_account_id x = a) xs = None"
    using Cons.prems(1) by (auto simp: find_None_iff image_iff)
  moreover have "account_view d a ?lg = (if da_account_id x = a
      then reported_account device now (owners a) x (account_view d a lg) else account_view d a lg)"
    using poll_account_view [of existing x device lg a owners now] Cons.prems(2,3) by simp
  ultimately show ?case by (auto split: option.split)
qed simp

lemma poll_view:
  assumes "distinct (map da_account_id snapshot)"
  shows "(last_current (mf_id (cs_device st)) (cs_readings (snd (poll_account_counters now snapshot st))) a,
      copies_of a (cs_usage (snd (poll_account_counters now snapshot st)))) =
    (case find (\<lambda>x. da_account_id x = a) snapshot of
       None \<Rightarrow> (last_current (mf_id (cs_device st)) (cs_readings st) a, copies_of a (cs_usage st))
     | Some x \<Rightarrow> reported_account (cs_device st) now (owner_map (cs_accounts st) (cs_device st) now a) x
         (last_current (mf_id (cs_device st)) (cs_readings st) a, copies_of a (cs_usage st)))"
  using poll_accounts_view [OF assms refl, where lg = "\<lparr>lg_readings = cs_readings st, lg_usage = cs_usage st,
      lg_counts = no_counts (length snapshot)\<rparr>" and a = a and device = "cs_device st"
      and existing = "existing_reading (mf_id (cs_device st)) (cs_readings st)"]
  by (auto simp: poll_account_counters_def poll_ledger_def account_view_def Let_def split: option.splits)

lemma poll_device [simp]:
  "mf_id (cs_device (snd (poll_account_counters now snapshot st))) = mf_id (cs_device st)"
  by (simp add: poll_account_counters_def Let_def)

subsection \<open>Every copy is counted once\<close>

lemma dict_eq_lookup:
  assumes "dict_eq eq d e"
  shows "case (map_of d k, map_of e k) of (None, None) \<Rightarrow> True | (Some x, Some y) \<Rightarrow> eq x y | _ \<Rightarrow> False"
proof (cases "map_of d k")
  case None
  then have "map_of e k = None"
    using assms map_of_eq_None_iff [of e k] by (auto simp: dict_eq_def list_all_iff)
  with None show ?thesis by simp
next
  case (Some x)
  then have "k \<in> fst ` set d" by (metis domI dom_map_of_conv_image_fst)
  with Some assms show ?thesis by (auto simp: dict_eq_def list_all_iff split: option.splits)
qed

lemma same_counters_lookup:
  assumes "same_counters c c'"
  shows "map_of (activity_counters c a) n = map_of (activity_counters c' a) n"
proof -
  have "map_of x n = map_of y n" if "dict_eq (=) x y" for x y :: counters
    using dict_eq_lookup [OF that, of n] by (auto split: option.splits)
  then show ?thesis using dict_eq_lookup [OF assms [unfolded same_counters_def], of a]
    by (auto simp: activity_counters_def split: option.splits)
qed

lemma same_counters_before: "same_counters c c' \<Longrightarrow> before c = before c'"
  by (intro ext) (simp add: before_def counter_def same_counters_lookup)

text \<open>
  The meter of an account between two reports: it has a copy total, never runs backwards, and
  the total moves whenever one of its page counters does.
\<close>

definition has_total :: "counter_lists \<Rightarrow> bool" where
  "has_total c \<longleftrightarrow> distinct (map fst c) \<and> distinct (map fst (activity_counters c ''copy'')) \<and>
     map_of (activity_counters c ''copy'') ''Total'' \<noteq> None"

definition honest_meter :: "counter_lists \<Rightarrow> counter_lists \<Rightarrow> bool" where
  "honest_meter c c' \<longleftrightarrow> \<not> went_down c c' \<and>
     (total_pages c' ''copy'' = total_pages c ''copy'' \<longrightarrow>
      list_all (\<lambda>(name, n). is_page_type name \<longrightarrow> n = before c ''copy'' name) (activity_counters c' ''copy''))"

lemma total_pages_total: "has_total c \<Longrightarrow> total_pages c ''copy'' = before c ''copy'' ''Total''"
  by (auto simp: has_total_def total_pages_def before_def counter_def)

lemma map_of_delta_counters:
  assumes "distinct (map fst cs)"
  shows "map_of (delta_counters old cs) name =
    (case map_of cs name of None \<Rightarrow> None | Some n \<Rightarrow> if n = old name then None else Some (n - old name))"
  using assms
proof (induction cs)
  case (Cons x cs)
  obtain k v where x: "x = (k, v)" by (cases x)
  have "map_of (delta_counters old cs) k = None" if "k \<notin> fst ` set cs"
    using that by (force simp: delta_counters_def map_of_eq_None_iff)
  with Cons x show ?case by (auto simp: delta_counters_def)
qed (simp add: delta_counters_def)

lemma activity_delta:
  assumes "distinct (map fst c)"
  shows "activity_counters (delta_lists old c) a = delta_counters (old a) (activity_counters c a)"
  using assms
proof (induction c)
  case (Cons x c)
  obtain k v where x: "x = (k, v)" by (cases x)
  have "k \<notin> fst ` set c" using Cons.prems x by simp
  then have none: "map_of (delta_lists old c) k = None" by (force simp: delta_lists_def map_of_eq_None_iff)
  have step: "delta_lists old ((k, v) # c) = (if delta_counters (old k) v = [] then delta_lists old c
      else (k, delta_counters (old k) v) # delta_lists old c)" by (simp add: delta_lists_def)
  from Cons x have "activity_counters (delta_lists old c) a = delta_counters (old a) (activity_counters c a)" by simp
  with x none show ?case by (cases "a = k") (auto simp: step activity_counters_def)
qed (simp add: delta_lists_def activity_counters_def delta_counters_def)

lemma delta_total:
  assumes "has_total c'" "honest_meter c c'" "has_total c"
  shows "total_pages (dl_lists (diff_counters c c')) ''copy'' = total_pages c' ''copy'' - total_pages c ''copy''"
proof -
  let ?cs = "activity_counters c' ''copy''" and ?old = "before c ''copy''"
  have lists: "dl_lists (diff_counters c c') = delta_lists (before c) c'"
    using assms(2) by (simp add: diff_counters_def honest_meter_def)
  have copy: "activity_counters (delta_lists (before c) c') ''copy'' = delta_counters ?old ?cs"
    using assms(1) by (intro activity_delta) (simp add: has_total_def)
  obtain t where t: "map_of ?cs ''Total'' = Some t" "total_pages c' ''copy'' = t"
    using assms(1) by (auto simp: has_total_def total_pages_def)
  have d: "map_of (delta_counters ?old ?cs) ''Total'' = (if t = ?old ''Total'' then None else Some (t - ?old ''Total''))"
    using assms(1) t by (subst map_of_delta_counters) (simp_all add: has_total_def)
  show ?thesis
  proof (cases "t = ?old ''Total''")
    case False
    then show ?thesis using d t copy lists total_pages_total [OF assms(3)] by (simp add: total_pages_def)
  next
    case True
    then have eq: "total_pages c' ''copy'' = total_pages c ''copy''" using t total_pages_total [OF assms(3)] by simp
    then have "\<forall>(name, n)\<in>set ?cs. is_page_type name \<longrightarrow> n = ?old name"
      using assms(2) by (simp add: honest_meter_def list_all_iff)
    then have "filter (\<lambda>(name, n). is_page_type name) (delta_counters ?old ?cs) = []"
      by (auto simp: filter_empty_conv delta_counters_def)
    then show ?thesis using d True eq copy lists by (simp add: total_pages_def)
  qed
qed

text \<open>A run of polls, each with the accounts provisioned by then, and what it reports of an account.\<close>

definition poll_step ::
  "datetime \<times> provisioned_account list \<times> device_account list \<Rightarrow> copier_state \<Rightarrow> copier_state" where
  "poll_step p st = (case p of (now, accounts, snapshot) \<Rightarrow>
     snd (poll_account_counters now snapshot (st\<lparr>cs_accounts := accounts\<rparr>)))"

fun reports ::
  "string \<Rightarrow> mfp_device \<Rightarrow> (datetime \<times> provisioned_account list \<times> device_account list) list \<Rightarrow>
   (bool \<times> counter_lists) list" where
  "reports a device [] = []"
| "reports a device ((now, accounts, snapshot) # polls) =
     (case find (\<lambda>x. da_account_id x = a) snapshot of
        None \<Rightarrow> reports a device polls
      | Some x \<Rightarrow> (owner_map accounts device now a \<noteq> None, da_lists x) # reports a device polls)"

lemma owner_map_id: "mf_id d = mf_id d' \<Longrightarrow> owner_map accounts d = owner_map accounts d'"
  by (intro ext) (simp add: owner_map_def)

lemma reports_id: "mf_id d = mf_id d' \<Longrightarrow> reports a d polls = reports a d' polls"
  by (induction polls) (auto simp: owner_map_id [of d d'] split: option.split)

lemma poll_step_view:
  assumes "distinct (map da_account_id snapshot)"
  shows "last_current (mf_id (cs_device st)) (cs_readings (poll_step (now, accounts, snapshot) st)) a =
      (case find (\<lambda>x. da_account_id x = a) snapshot of
         None \<Rightarrow> last_current (mf_id (cs_device st)) (cs_readings st) a
       | Some x \<Rightarrow> fst (reported_account (cs_device st) now (owner_map accounts (cs_device st) now a) x
           (last_current (mf_id (cs_device st)) (cs_readings st) a, copies_of a (cs_usage st))))"
    "copies_of a (cs_usage (poll_step (now, accounts, snapshot) st)) =
      (case find (\<lambda>x. da_account_id x = a) snapshot of
         None \<Rightarrow> copies_of a (cs_usage st)
       | Some x \<Rightarrow> snd (reported_account (cs_device st) now (owner_map accounts (cs_device st) now a) x
           (last_current (mf_id (cs_device st)) (cs_readings st) a, copies_of a (cs_usage st))))"
  using poll_view [OF assms, of "st\<lparr>cs_accounts := accounts\<rparr>" now a]
  by (auto simp: poll_step_def split: option.splits dest: arg_cong [of _ _ fst] arg_cong [of _ _ snd])

lemma poll_step_id [simp]: "mf_id (cs_device (poll_step p st)) = mf_id (cs_device st)"
  by (cases p) (simp add: poll_step_def)

lemma diff_counters_cong: "before p = before q \<Longrightarrow> diff_counters p c = diff_counters q c"
  by (simp add: diff_counters_def went_down_def Let_def)

abbreviation one_report_each :: "(datetime \<times> provisioned_account list \<times> device_account list) list \<Rightarrow> bool" where
  "one_report_each polls \<equiv> list_all (\<lambda>(now, accounts, snapshot). distinct (map da_account_id snapshot)) polls"

lemma metered:
  assumes "one_report_each polls" "last_current (mf_id (cs_device st)) (cs_readings st) a = Some r"
    "before (cr_counters r) = before c" "has_total c"
    "list_all has_total (map snd (reports a (cs_device st) polls))"
    "successively honest_meter (c # map snd (reports a (cs_device st) polls))"
  shows "copies_of a (cs_usage (fold poll_step polls st)) =
    copies_of a (cs_usage st) + total_pages (last (c # map snd (reports a (cs_device st) polls))) ''copy'' -
      total_pages c ''copy''"
  using assms
proof (induction polls arbitrary: st r c)
  case (Cons p polls)
  obtain now accounts snapshot where p: "p = (now, accounts, snapshot)" by (cases p) auto
  let ?st = "poll_step p st"
  have d: "distinct (map da_account_id snapshot)" using Cons.prems(1) p by simp
  note view = poll_step_view [OF d, where st = st and now = now and accounts = accounts and a = a, folded p]
  have same: "reports a (cs_device ?st) polls = reports a (cs_device st) polls" by (rule reports_id) simp
  show ?case
  proof (cases "find (\<lambda>x. da_account_id x = a) snapshot")
    case None
    then have "reports a (cs_device st) (p # polls) = reports a (cs_device st) polls"
      "last_current (mf_id (cs_device ?st)) (cs_readings ?st) a = Some r"
      "copies_of a (cs_usage ?st) = copies_of a (cs_usage st)"
      using p view Cons.prems(2) by simp_all
    with Cons.IH [of ?st r c] Cons.prems same show ?thesis by simp
  next
    case (Some x)
    let ?c = "da_lists x"
    have reports: "map snd (reports a (cs_device st) (p # polls)) = ?c # map snd (reports a (cs_device st) polls)"
      using p Some by simp
    then have c: "has_total ?c" "honest_meter c ?c"
      "list_all has_total (map snd (reports a (cs_device ?st) polls))"
      "successively honest_meter (?c # map snd (reports a (cs_device ?st) polls))"
      using Cons.prems(5,6) same by simp_all
    have totals: "total_pages (dl_lists (diff_counters (cr_counters r) ?c)) ''copy'' =
        total_pages ?c ''copy'' - total_pages c ''copy''"
      using delta_total [OF c(1,2) Cons.prems(4)] diff_counters_cong [OF Cons.prems(3)] by simp
    have "\<exists>r'. last_current (mf_id (cs_device ?st)) (cs_readings ?st) a = Some r' \<and> before (cr_counters r') = before ?c \<and>
        copies_of a (cs_usage ?st) = copies_of a (cs_usage st) + total_pages ?c ''copy'' - total_pages c ''copy''"
    proof (cases "same_counters (cr_counters r) ?c")
      case True
      then have "before ?c = before c" using same_counters_before Cons.prems(3) by metis
      then have "total_pages ?c ''copy'' = total_pages c ''copy''" using total_pages_total c(1) Cons.prems(4) by simp
      with True Some view Cons.prems(2,3) \<open>before ?c = before c\<close> show ?thesis by (simp add: reported_account_def)
    next
      case False
      with Some view Cons.prems(2) totals show ?thesis by (simp add: reported_account_def Let_def)
    qed
    then obtain r' where r': "last_current (mf_id (cs_device ?st)) (cs_readings ?st) a = Some r'"
      "before (cr_counters r') = before ?c"
      "copies_of a (cs_usage ?st) = copies_of a (cs_usage st) + total_pages ?c ''copy'' - total_pages c ''copy''" by blast
    have "one_report_each polls" using Cons.prems(1) by simp
    from Cons.IH [OF this r'(1,2) c(1,3,4)] r'(3) reports same show ?thesis by simp
  qed
qed simp


subsection \<open>Polling again\<close>

lemma dict_eq_iff: "dict_eq eq d e \<longleftrightarrow> (\<forall>k. rel_option eq (map_of d k) (map_of e k))"
proof
  assume "dict_eq eq d e"
  from dict_eq_lookup [OF this] show "\<forall>k. rel_option eq (map_of d k) (map_of e k)"
    by (auto simp: option_rel_Some1 option_rel_Some2 rel_option_iff)
next
  assume all: "\<forall>k. rel_option eq (map_of d k) (map_of e k)"
  have "case (map_of d k, map_of e k) of (Some x, Some y) \<Rightarrow> eq x y | _ \<Rightarrow> False" if "k \<in> fst ` set d" for k
  proof -
    obtain x where "map_of d k = Some x" using \<open>k \<in> fst ` set d\<close> by (metis domD dom_map_of_conv_image_fst)
    with all [rule_format, of k] show ?thesis by (auto simp: option_rel_Some1)
  qed
  moreover have "map_of d k \<noteq> None" if "k \<in> fst ` set e" for k
  proof -
    obtain y where "map_of e k = Some y" using \<open>k \<in> fst ` set e\<close> by (metis domD dom_map_of_conv_image_fst)
    with all [rule_format, of k] show ?thesis by (auto simp: option_rel_Some2)
  qed
  ultimately show "dict_eq eq d e" by (auto simp: dict_eq_def list_all_iff)
qed

lemma dict_eq_refl: "(\<And>x. eq x x) \<Longrightarrow> dict_eq eq d d"
  by (auto simp: dict_eq_iff intro: option.rel_refl)

lemma dict_eq_trans:
  assumes "\<And>x y z. eq x y \<Longrightarrow> eq y z \<Longrightarrow> eq x z" "dict_eq eq d e" "dict_eq eq e f"
  shows "dict_eq eq d f"
  unfolding dict_eq_iff
proof
  fix k
  from assms(2,3) have "rel_option eq (map_of d k) (map_of e k)" "rel_option eq (map_of e k) (map_of f k)"
    by (simp_all add: dict_eq_iff)
  then show "rel_option eq (map_of d k) (map_of f k)"
    using assms(1) by (auto simp: rel_option_iff split: option.splits)
qed

lemma same_counters_refl [simp]: "same_counters c c"
  by (simp add: same_counters_def dict_eq_refl)

lemma same_counters_trans: "same_counters c d \<Longrightarrow> same_counters d e \<Longrightarrow> same_counters c e"
  unfolding same_counters_def by (rule dict_eq_trans [of "dict_eq (=)"]) (auto intro: dict_eq_trans)

lemma quiet_polls:
  assumes "\<And>x. x \<in> set snapshot \<Longrightarrow> \<exists>i<length (lg_readings lg). existing (da_account_id x) = Some i \<and>
      same_counters (cr_counters (lg_readings lg ! i)) (da_lists x)"
  shows "lg_usage (fold (poll_account device existing owners now) snapshot lg) = lg_usage lg \<and>
    length (lg_readings (fold (poll_account device existing owners now) snapshot lg)) = length (lg_readings lg) \<and>
    pc_unchanged (lg_counts (fold (poll_account device existing owners now) snapshot lg)) =
      pc_unchanged (lg_counts lg) + length snapshot"
  using assms
proof (induction snapshot arbitrary: lg)
  case (Cons x xs)
  from Cons.prems [of x] obtain i where i: "i < length (lg_readings lg)" "existing (da_account_id x) = Some i"
    "same_counters (cr_counters (lg_readings lg ! i)) (da_lists x)" by auto
  let ?lg = "poll_account device existing owners now x lg"
  have lg: "lg_readings ?lg = (lg_readings lg)[i := (lg_readings lg ! i)\<lparr>cr_last_seen := now\<rparr>]"
    "lg_usage ?lg = lg_usage lg" "pc_unchanged (lg_counts ?lg) = pc_unchanged (lg_counts lg) + 1"
    using i by (simp_all add: poll_account_def Let_def)
  have "cr_counters (lg_readings ?lg ! j) = cr_counters (lg_readings lg ! j)" for j
    using i(1) by (cases "j = i") (simp_all add: lg)
  then have "\<exists>j<length (lg_readings ?lg). existing (da_account_id y) = Some j \<and>
      same_counters (cr_counters (lg_readings ?lg ! j)) (da_lists y)" if "y \<in> set xs" for y
    using Cons.prems [of y] that by (simp add: lg(1))
  from Cons.IH [OF this] show ?case by (simp add: lg)
qed simp

text \<open>
  Polling is safe to repeat: a second poll that finds every counter where the first one left
  it - in whatever order the device lists them - records no usage and no reading, and counts
  every account as unchanged.
\<close>

theorem polling_again_adds_nothing:
  assumes "distinct (map da_account_id snapshot)" "after = snd (poll_account_counters now snapshot st)"
    "\<And>y. y \<in> set again \<Longrightarrow> \<exists>x\<in>set snapshot. da_account_id x = da_account_id y \<and> same_counters (da_lists x) (da_lists y)"
  shows "cs_usage (snd (poll_account_counters now' again after)) = cs_usage after \<and>
    length (cs_readings (snd (poll_account_counters now' again after))) = length (cs_readings after) \<and>
    pc_unchanged (fst (poll_account_counters now' again after)) = length again"
proof -
  let ?d = "mf_id (cs_device after)"
  let ?lg = "\<lparr>lg_readings = cs_readings after, lg_usage = cs_usage after, lg_counts = no_counts (length again)\<rparr>"
  have d: "?d = mf_id (cs_device st)" using assms(2) by simp
  have "\<exists>i<length (lg_readings ?lg). existing_reading ?d (cs_readings after) (da_account_id y) = Some i \<and>
      same_counters (cr_counters (lg_readings ?lg ! i)) (da_lists y)" if y: "y \<in> set again" for y
  proof -
    from assms(3) [OF y] obtain x where x: "x \<in> set snapshot" "da_account_id x = da_account_id y"
      "same_counters (da_lists x) (da_lists y)" by blast
    then have "find (\<lambda>z. da_account_id z = da_account_id y) snapshot = Some x"
      using assms(1)
    proof (induction snapshot)
      case (Cons z zs)
      then show ?case by (cases "z = x") (force simp: image_iff)+
    qed simp
    from poll_view [OF assms(1), of st now "da_account_id y", unfolded this option.case]
    have "last_current ?d (cs_readings after) (da_account_id y) =
        fst (reported_account (cs_device st) now (owner_map (cs_accounts st) (cs_device st) now (da_account_id y)) x
          (last_current (mf_id (cs_device st)) (cs_readings st) (da_account_id y), copies_of (da_account_id y) (cs_usage st)))"
      unfolding assms(2) [symmetric] d by (metis fst_conv)
    then obtain r where r: "last_current ?d (cs_readings after) (da_account_id y) = Some r"
      "same_counters (cr_counters r) (da_lists x)"
      by (auto simp: reported_account_def Let_def split: option.splits if_splits)
    then obtain i where "existing_reading ?d (cs_readings after) (da_account_id y) = Some i"
      "r = cs_readings after ! i" by (auto simp: last_current_def)
    then show ?thesis
      using existing_reading_SomeD same_counters_trans [OF r(2) x(3)] by fastforce
  qed
  from quiet_polls [where lg = ?lg and snapshot = again and device = "cs_device after" and now = now'
      and existing = "existing_reading ?d (cs_readings after)"
      and owners = "owner_map (cs_accounts after) (cs_device after) now'", OF this]
  show ?thesis by (simp add: poll_account_counters_def poll_ledger_def no_counts_def Let_def)
qed

subsection \<open>Whose pages they are\<close>

definition held_by :: "provisioned_account list \<Rightarrow> mfp_device \<Rightarrow> datetime \<Rightarrow> usage_record \<Rightarrow> bool" where
  "held_by accounts device now r \<longleftrightarrow> us_period_end r = now \<and> us_page_count r \<noteq> 0 \<and>
     (case us_staff_email r of None \<Rightarrow> True
      | Some e \<Rightarrow> (\<exists>v\<in>set accounts. pv_device v = mf_id device \<and> pv_account v = us_identity_used r \<and>
          pv_staff_email v = e \<and> pv_provisioned_at v \<le> now \<and>
          (case pv_removed_at v of None \<Rightarrow> True | Some t \<Rightarrow> now < t)))"

lemma owner_map_SomeD:
  assumes "owner_map accounts device at a = Some v"
  shows "v \<in> set accounts \<and> pv_device v = mf_id device \<and> pv_account v = a \<and> pv_provisioned_at v \<le> at \<and>
    (case pv_removed_at v of None \<Rightarrow> True | Some t \<Rightarrow> at < t)"
proof -
  have "find P xs = Some x \<Longrightarrow> x \<in> set xs \<and> P x" for P and xs :: "provisioned_account list" and x
    by (induction xs) (auto split: if_splits)
  from this [OF assms [unfolded owner_map_def]] show ?thesis by (auto split: option.splits)
qed

lemma usage_rows_held:
  assumes "r \<in> set (usage_rows device delta (owner_map accounts device now (dl_account_id delta)) s now)"
  shows "held_by accounts device now r"
  using assms owner_map_SomeD [of accounts device now "dl_account_id delta"]
  by (cases "owner_map accounts device now (dl_account_id delta)")
    (auto simp: usage_rows_def held_by_def Let_def split: if_splits option.splits)

lemma baseline_rows_held:
  assumes "r \<in> set (baseline_usage_rows device x (owner_map accounts device now (da_account_id x)) now)"
  shows "held_by accounts device now r"
proof -
  have "held_by accounts device now (q\<lparr>us_from_baseline := b\<rparr>) = held_by accounts device now q" for q b
    by (simp add: held_by_def cong: option.case_cong)
  then show ?thesis
    using assms usage_rows_held [of _ device "\<lparr>dl_account_id = da_account_id x, dl_lists = da_lists x,
        dl_follows_reset = False\<rparr>" accounts now]
    by (auto simp: baseline_usage_rows_def split: option.splits if_splits)
qed

lemma poll_accounts_held:
  "\<exists>rows. lg_usage (fold (poll_account device existing (owner_map accounts device now) now) snapshot lg) = lg_usage lg @ rows \<and>
     (\<forall>r\<in>set rows. held_by accounts device now r)"
proof (induction snapshot arbitrary: lg)
  case (Cons x xs)
  have "\<exists>rows. lg_usage (poll_account device existing (owner_map accounts device now) now x lg) = lg_usage lg @ rows \<and>
      (\<forall>r\<in>set rows. held_by accounts device now r)"
    using baseline_rows_held [of _ device x accounts now]
      usage_rows_held [of _ device "(diff_counters c (da_lists x))\<lparr>dl_account_id := da_account_id x\<rparr>" accounts now for c]
    by (auto simp: poll_account_def Let_def split: option.split)
  with Cons.IH [of "poll_account device existing (owner_map accounts device now) now x lg"] show ?case by force
qed simp

text \<open>
  Usage is only ever charged to a person PrintOps had put on that account of that copier by
  then and had not taken off again; anything else is recorded with nobody's name.  Every row has
  pages and ends with the poll that wrote it.
\<close>

theorem usage_is_charged_to_the_holder:
  "\<exists>rows. cs_usage (snd (poll_account_counters now snapshot st)) = cs_usage st @ rows \<and>
     (\<forall>r\<in>set rows. us_period_end r = now \<and> us_page_count r \<noteq> 0 \<and>
        (us_staff_email r = None \<or>
         (\<exists>v\<in>set (cs_accounts st). pv_device v = mf_id (cs_device st) \<and> pv_account v = us_identity_used r \<and>
            us_staff_email r = Some (pv_staff_email v) \<and> pv_provisioned_at v \<le> now \<and>
            (pv_removed_at v = None \<or> now < the (pv_removed_at v)))))"
proof -
  obtain rows where rows: "cs_usage (snd (poll_account_counters now snapshot st)) = cs_usage st @ rows"
    "\<forall>r\<in>set rows. held_by (cs_accounts st) (cs_device st) now r"
    using poll_accounts_held [of "cs_device st" _ "cs_accounts st" now snapshot "\<lparr>lg_readings = cs_readings st,
        lg_usage = cs_usage st, lg_counts = no_counts (length snapshot)\<rparr>"]
    by (simp add: poll_account_counters_def poll_ledger_def Let_def) blast
  have "us_period_end r = now \<and> us_page_count r \<noteq> 0 \<and>
        (us_staff_email r = None \<or>
         (\<exists>v\<in>set (cs_accounts st). pv_device v = mf_id (cs_device st) \<and> pv_account v = us_identity_used r \<and>
            us_staff_email r = Some (pv_staff_email v) \<and> pv_provisioned_at v \<le> now \<and>
            (pv_removed_at v = None \<or> now < the (pv_removed_at v))))"
    if "held_by (cs_accounts st) (cs_device st) now r" for r
    using that by (cases "us_staff_email r") (fastforce simp: held_by_def split: option.splits)+
  with rows show ?thesis by blast
qed

subsection \<open>Examples\<close>

definition example_copier :: mfp_device where
  "example_copier = \<lparr>mf_id = ''d1'', mf_vendor = ''Konica'', mf_model = None, mf_serial_number = None,
     mf_building = None, mf_connector_type = ''konica_bizhub'', mf_last_counter_poll_at = None,
     mf_last_counter_poll_ok = None, mf_last_counter_poll_message = None\<rparr>"

definition example_copier_state :: copier_state where
  "example_copier_state = \<lparr>cs_readings = [], cs_usage = [], cs_accounts = [], cs_device = example_copier\<rparr>"

definition meter_at :: "int \<Rightarrow> device_account" where
  "meter_at n = \<lparr>da_account_id = ''7'', da_lists = [(''copy'', [(''Bw'', n - 20), (''Total'', n)])]\<rparr>"

definition example_holder :: provisioned_account where
  "example_holder = \<lparr>pv_device = ''d1'', pv_account = ''7'', pv_staff_email = ''ann@x.org'', pv_identity_value = ''1'',
     pv_identity_type = ''staff_id'', pv_provisioned_at = 15, pv_removed_at = None\<rparr>"

text \<open>Three polls: the account is found in use, then provisioned, then read twice more.\<close>

definition example_polls :: "(datetime \<times> provisioned_account list \<times> device_account list) list" where
  "example_polls = [(10, [], [meter_at 100]), (20, [example_holder], [meter_at 103]),
     (30, [example_holder], [meter_at 110])]"


theorem polling_again_adds_nothing_witness:
  "cs_usage (snd (poll_account_counters 40 [meter_at 110] (snd (poll_account_counters 30 [meter_at 110] example_copier_state)))) =
     cs_usage (snd (poll_account_counters 30 [meter_at 110] example_copier_state))"
  using polling_again_adds_nothing [of "[meter_at 110]" _ 30 example_copier_state "[meter_at 110]" 40, OF _ refl] by simp

theorem usage_is_charged_to_the_holder_witness:
  "\<exists>rows. cs_usage (snd (poll_account_counters 30 [meter_at 110] (example_copier_state\<lparr>cs_accounts := [example_holder]\<rparr>))) =
     rows \<and> length rows = 1 \<and> (\<forall>r\<in>set rows. us_period_end r = 30)"
proof -
  let ?st = "example_copier_state\<lparr>cs_accounts := [example_holder]\<rparr>"
  have "cs_usage ?st = []" "length (cs_usage (snd (poll_account_counters 30 [meter_at 110] ?st))) = 1" by code_simp+
  with usage_is_charged_to_the_holder [of 30 "[meter_at 110]" ?st] show ?thesis by auto
qed

end
