(* ===== verification/Periods.thy ===== *)
theory Periods
  imports Calendar Held_Jobs "HOL-Library.Multiset"
begin

section \<open>Reporting periods (app/reports/periods.py)\<close>

text \<open>
  The organisation's year and its terms: resolving a named period into dates, the settings that
  describe the year (app/routers/settings.py with the validation of app/schemas/reporting_period.py)
  and the context read from them (app/reports/period_source.py).  A date that does not exist is a
  \<open>ValueError\<close>, one past the calendar an \<open>OverflowError\<close>.  The time zone database and \<open>repr\<close> are
  parameters; today is an argument.
\<close>

subsection \<open>Years\<close>

record calendar_spec =
  cal_month :: int
  cal_day :: int
  cal_noun :: string
  cal_style :: string

definition default_calendar :: calendar_spec where
  "default_calendar = \<lparr>cal_month = 1, cal_day = 1, cal_noun = ''Year'', cal_style = ''auto''\<rparr>"

definition calendar_from_row :: "calendar_spec option \<Rightarrow> calendar_spec" where
  "calendar_from_row row = (case row of None \<Rightarrow> default_calendar | Some c \<Rightarrow> c)"

record term_spec =
  tm_name :: string
  tm_month :: int
  tm_day :: int
  tm_position :: int

record term_override =
  to_year :: int
  to_name :: string
  to_start :: date
  to_end :: date
  to_position :: "int option"

record period =
  per_key :: string
  per_label :: string
  per_start :: date
  per_end :: date
  per_kind :: string

definition period_contains :: "period \<Rightarrow> date \<Rightarrow> bool" where
  "period_contains p day \<longleftrightarrow> per_start p \<le> day \<and> day < per_end p"

definition reporting_year_of :: "date \<Rightarrow> calendar_spec \<Rightarrow> date_error + int" where
  "reporting_year_of day c =
     (case mk_date (yr day) (cal_month c) (cal_day c) of
        Inl e \<Rightarrow> Inl e
      | Inr boundary \<Rightarrow> Inr (if day \<ge> boundary then yr day else yr day - 1))"

definition reporting_year_bounds :: "int \<Rightarrow> calendar_spec \<Rightarrow> date_error + date \<times> date" where
  "reporting_year_bounds year c =
     (case mk_date year (cal_month c) (cal_day c) of
        Inl e \<Rightarrow> Inl e
      | Inr s \<Rightarrow> (case mk_date (year + 1) (cal_month c) (cal_day c) of Inl e \<Rightarrow> Inl e | Inr e' \<Rightarrow> Inr (s, e')))"

definition effective_style :: "calendar_spec \<Rightarrow> string" where
  "effective_style c =
     (if cal_style c \<noteq> ''auto'' then cal_style c
      else if cal_month c = 1 then ''single'' else ''spanning'')"

definition year_designation :: "int \<Rightarrow> calendar_spec \<Rightarrow> int" where
  "year_designation year c = (if cal_month c = 1 then year else year + 1)"

definition year_label :: "int \<Rightarrow> calendar_spec \<Rightarrow> string" where
  "year_label year c =
     (if effective_style c = ''spanning''
      then cal_noun c @ '' '' @ str_int year @ [CHR 0xE2, CHR 0x80, CHR 0x93] @ str_int (year + 1)
      else cal_noun c @ '' '' @ str_int (year_designation year c))"

definition term_label :: "string \<Rightarrow> date \<Rightarrow> int \<Rightarrow> calendar_spec \<Rightarrow> string" where
  "term_label name start year c =
     (if effective_style c = ''spanning'' then name @ '' '' @ str_int (yr start)
      else name @ '' '' @ str_int (year_designation year c))"

definition reporting_year_period :: "int \<Rightarrow> calendar_spec \<Rightarrow> date_error + period" where
  "reporting_year_period year c =
     (case reporting_year_bounds year c of
        Inl e \<Rightarrow> Inl e
      | Inr (s, e') \<Rightarrow> Inr \<lparr>per_key = ''year:'' @ str_int year, per_label = year_label year c,
          per_start = s, per_end = e', per_kind = ''year''\<rparr>)"

definition calendar_year_period :: "int \<Rightarrow> date_error + period" where
  "calendar_year_period year =
     (case mk_date year 1 1 of
        Inl e \<Rightarrow> Inl e
      | Inr s \<Rightarrow>
          (case mk_date (year + 1) 1 1 of
             Inl e \<Rightarrow> Inl e
           | Inr e' \<Rightarrow> Inr \<lparr>per_key = ''calendar_year:'' @ str_int year,
               per_label = ''Calendar year '' @ str_int year, per_start = s, per_end = e',
               per_kind = ''calendar_year''\<rparr>))"

subsection \<open>Terms\<close>

definition term_key :: "int \<Rightarrow> int \<Rightarrow> string" where
  "term_key year position = ''term:'' @ str_int year @ '':'' @ str_int position"

fun stated_periods :: "int \<Rightarrow> calendar_spec \<Rightarrow> int \<Rightarrow> term_override list \<Rightarrow> date_error + period list" where
  "stated_periods year c index [] = Inr []"
| "stated_periods year c index (ov # ovs) =
     (case date_add_days (to_end ov) 1 of
        Inl e \<Rightarrow> Inl e
      | Inr e' \<Rightarrow>
          (case stated_periods year c (index + 1) ovs of
             Inl e \<Rightarrow> Inl e
           | Inr ps \<Rightarrow> Inr (\<lparr>per_key = term_key year (case to_position ov of None \<Rightarrow> index | Some n \<Rightarrow> n),
               per_label = term_label (to_name ov) (to_start ov) year c, per_start = to_start ov,
               per_end = e', per_kind = ''term''\<rparr> # ps)))"

text \<open>One round of the placing loop; \<open>None\<close> for a term that is skipped.\<close>

definition place_term :: "date \<Rightarrow> date \<Rightarrow> term_spec \<Rightarrow> date_error + (date \<times> term_spec) option" where
  "place_term year_start year_end t =
     (case mk_date (yr year_start) (tm_month t) (tm_day t) of
        Inl e \<Rightarrow> Inl e
      | Inr candidate \<Rightarrow>
          (case (if candidate < year_start then mk_date (yr year_start + 1) (tm_month t) (tm_day t)
                 else Inr candidate) of
             Inl e \<Rightarrow> Inl e
           | Inr candidate \<Rightarrow> Inr (if candidate \<ge> year_end then None else Some (candidate, t))))"

fun place_terms :: "date \<Rightarrow> date \<Rightarrow> term_spec list \<Rightarrow> date_error + (date \<times> term_spec) list" where
  "place_terms year_start year_end [] = Inr []"
| "place_terms year_start year_end (t # ts) =
     (case place_term year_start year_end t of
        Inl e \<Rightarrow> Inl e
      | Inr placed \<Rightarrow>
          (case place_terms year_start year_end ts of
             Inl e \<Rightarrow> Inl e
           | Inr rest \<Rightarrow> Inr ((case placed of None \<Rightarrow> [] | Some p \<Rightarrow> [p]) @ rest)))"

fun generated_periods :: "int \<Rightarrow> calendar_spec \<Rightarrow> date \<Rightarrow> (date \<times> term_spec) list \<Rightarrow> period list" where
  "generated_periods year c year_end [] = []"
| "generated_periods year c year_end ((start, t) # placed) =
     \<lparr>per_key = term_key year (tm_position t), per_label = term_label (tm_name t) start year c,
      per_start = start, per_end = (case placed of [] \<Rightarrow> year_end | (s, t') # ps \<Rightarrow> s),
      per_kind = ''term''\<rparr> # generated_periods year c year_end placed"

definition terms_for_year ::
  "int \<Rightarrow> calendar_spec \<Rightarrow> term_spec list \<Rightarrow> term_override list \<Rightarrow> date_error + period list" where
  "terms_for_year year c terms overrides =
     (case reporting_year_bounds year c of
        Inl e \<Rightarrow> Inl e
      | Inr (year_start, year_end) \<Rightarrow>
          (let stated = filter (\<lambda>ov. to_year ov = year) overrides in
           if stated \<noteq> [] then stated_periods year c 0 (sort_key to_start stated)
           else if terms = [] then Inr []
           else
             (case place_terms year_start year_end terms of
                Inl e \<Rightarrow> Inl e
              | Inr placed \<Rightarrow> Inr (generated_periods year c year_end (sort_key fst placed)))))"

definition current_term ::
  "date \<Rightarrow> calendar_spec \<Rightarrow> term_spec list \<Rightarrow> term_override list \<Rightarrow> date_error + period option" where
  "current_term today c terms overrides =
     (case reporting_year_of today c of
        Inl e \<Rightarrow> Inl e
      | Inr year \<Rightarrow>
          (case terms_for_year year c terms overrides of
             Inl e \<Rightarrow> Inl e
           | Inr ps \<Rightarrow> Inr (find (\<lambda>p. period_contains p today) ps)))"

subsection \<open>Resolving a key\<close>

text \<open>\<open>s.partition(c)\<close> without the separator, and \<open>int(s)\<close> of an ASCII text.\<close>

definition partition_at :: "char \<Rightarrow> string \<Rightarrow> string \<times> string" where
  "partition_at c s = (takeWhile (\<lambda>d. d \<noteq> c) s, tl (dropWhile (\<lambda>d. d \<noteq> c) s))"

fun digit_groups :: "string \<Rightarrow> string \<Rightarrow> string option" where
  "digit_groups acc [] = (if acc = [] then None else Some [])"
| "digit_groups acc (c # cs) =
     (if is_digit c then map_option ((#) c) (digit_groups [c] cs)
      else if c = CHR ''_'' \<and> acc \<noteq> [] then digit_groups [] cs
      else None)"

definition py_int :: "string \<Rightarrow> int option" where
  "py_int s =
     (if 4300 < length (filter is_digit s) then None
      else case py_strip s of
        [] \<Rightarrow> None
      | c # cs \<Rightarrow>
          if c = CHR ''-'' then map_option (\<lambda>ds. - int (digits_value ds)) (digit_groups [] cs)
          else if c = CHR ''+'' then map_option (\<lambda>ds. int (digits_value ds)) (digit_groups [] cs)
          else map_option (\<lambda>ds. int (digits_value ds)) (digit_groups [] (c # cs)))"

definition LEGACY_ALIASES :: "(string, string) dict" where
  "LEGACY_ALIASES = [(''semester'', ''term''), (''year'', ''year'')]"

definition resolve_instance ::
  "(string \<Rightarrow> string) \<Rightarrow> string \<Rightarrow> calendar_spec \<Rightarrow> term_spec list \<Rightarrow> term_override list \<Rightarrow>
   date_error + period option" where
  "resolve_instance py_repr key c terms overrides =
     (let (kind, rest) = partition_at (CHR '':'') key;
          number = (\<lambda>s. case py_int s of
            None \<Rightarrow> Inl (ValueError (''invalid literal for int() with base 10: '' @ py_repr s)) | Some n \<Rightarrow> Inr n);
          some = (\<lambda>r. case r of Inl e \<Rightarrow> Inl e | Inr p \<Rightarrow> Inr (Some p))
      in if kind = ''calendar_year'' then
           (case number rest of Inl e \<Rightarrow> Inl e | Inr n \<Rightarrow> some (calendar_year_period n))
         else if kind = ''year'' then
           (case number rest of Inl e \<Rightarrow> Inl e | Inr n \<Rightarrow> some (reporting_year_period n c))
         else if kind = ''term'' then
           (let (year_text, position) = partition_at (CHR '':'') rest in
            case number year_text of
              Inl e \<Rightarrow> Inl e
            | Inr year \<Rightarrow>
                (case terms_for_year year c terms overrides of
                   Inl e \<Rightarrow> Inl e
                 | Inr ps \<Rightarrow>
                     (case find (\<lambda>p. per_key p = key) ps of
                        Some p \<Rightarrow> Inr (Some p)
                      | None \<Rightarrow> Inl (ValueError (''no term '' @ py_repr position @ '' in '' @ str_int year)))))
         else Inr None)"

definition resolve ::
  "(string \<Rightarrow> string) \<Rightarrow> string \<Rightarrow> date \<Rightarrow> calendar_spec \<Rightarrow> term_spec list \<Rightarrow> term_override list \<Rightarrow>
   date_error + period" where
  "resolve py_repr key0 today c terms overrides =
     (let key = (case map_of LEGACY_ALIASES key0 of None \<Rightarrow> key0 | Some k \<Rightarrow> k);
          this_year = (case reporting_year_of today c of Inl e \<Rightarrow> Inl e | Inr y \<Rightarrow> reporting_year_period y c);
          until_today = (\<lambda>label start kind. case date_add_days today 1 of
            Inl e \<Rightarrow> Inl e
          | Inr e' \<Rightarrow> Inr \<lparr>per_key = key, per_label = label, per_start = start, per_end = e', per_kind = kind\<rparr>)
      in if key = ''week'' then
           (case date_add_days today (- weekday today) of
              Inl e \<Rightarrow> Inl e | Inr start \<Rightarrow> until_today ''This week'' start ''week'')
         else if key = ''month'' then
           (case mk_date (yr today) (mon today) 1 of
              Inl e \<Rightarrow> Inl e | Inr start \<Rightarrow> until_today ''This month'' start ''month'')
         else if key = ''calendar_year'' then calendar_year_period (yr today)
         else if key = ''year'' then this_year
         else if key = ''term'' then
           (case current_term today c terms overrides of
              Inl e \<Rightarrow> Inl e
            | Inr (Some p) \<Rightarrow> Inr p
            | Inr None \<Rightarrow> this_year)
         else if snd (partition_at (CHR '':'') key) = [] then Inl (ValueError (''unknown period '' @ py_repr key))
         else
           (case resolve_instance py_repr key c terms overrides of
              Inl (ValueError msg) \<Rightarrow> Inl (ValueError (''unknown period '' @ py_repr key @ '': '' @ msg))
            | Inl OverflowError \<Rightarrow> Inl OverflowError
            | Inr (Some p) \<Rightarrow> Inr p
            | Inr None \<Rightarrow> Inl (ValueError (''unknown period '' @ py_repr key))))"

definition clamp_to_today :: "period \<Rightarrow> date \<Rightarrow> date_error + date \<times> date" where
  "clamp_to_today p today =
     (case date_add_days (per_end p) (- 1) of
        Inl e \<Rightarrow> Inl e
      | Inr last_day \<Rightarrow> Inr (per_start p, max (per_start p) (min last_day today)))"

subsection \<open>The settings behind it (routers/settings.py, schemas/reporting_period.py)\<close>

record term_in =
  ti_name :: string
  ti_month :: int
  ti_day :: int

record calendar_in =
  ci_month :: int
  ci_day :: int
  ci_noun :: string
  ci_style :: string
  ci_terms :: "term_in list"

record segment_in =
  si_name :: string
  si_start :: date
  si_end :: date
  si_position :: "int option"

definition LABEL_STYLES :: "string list" where
  "LABEL_STYLES = [''auto'', ''spanning'', ''single'']"

definition check_day_exists :: "int \<Rightarrow> int \<Rightarrow> bool" where
  "check_day_exists month day \<longleftrightarrow> (case mk_date 2001 month day of Inl e \<Rightarrow> False | Inr d \<Rightarrow> True)"

text \<open>\<open>len\<close> of a text given as its UTF-8 bytes.\<close>

definition py_len :: "string \<Rightarrow> int" where
  "py_len s = int (length (filter (\<lambda>c. (of_char c :: nat) < 128 \<or> 192 \<le> (of_char c :: nat)) s))"

definition valid_term_in :: "term_in \<Rightarrow> bool" where
  "valid_term_in t \<longleftrightarrow> 1 \<le> py_len (ti_name t) \<and> py_len (ti_name t) \<le> 60 \<and> 1 \<le> ti_month t \<and> ti_month t \<le> 12 \<and>
     1 \<le> ti_day t \<and> ti_day t \<le> 31 \<and> check_day_exists (ti_month t) (ti_day t)"

text \<open>\<open>plain\<close> is \<open>name.strip().casefold()\<close>.\<close>

definition valid_calendar_in :: "(string \<Rightarrow> string) \<Rightarrow> calendar_in \<Rightarrow> bool" where
  "valid_calendar_in plain c \<longleftrightarrow> 1 \<le> ci_month c \<and> ci_month c \<le> 12 \<and> 1 \<le> ci_day c \<and> ci_day c \<le> 31 \<and>
     1 \<le> py_len (ci_noun c) \<and> py_len (ci_noun c) \<le> 40 \<and> ci_style c \<in> set LABEL_STYLES \<and>
     length (ci_terms c) \<le> 24 \<and> list_all valid_term_in (ci_terms c) \<and>
     check_day_exists (ci_month c) (ci_day c) \<and> distinct (map (\<lambda>t. plain (ti_name t)) (ci_terms c)) \<and>
     distinct (map (\<lambda>t. (ti_month t, ti_day t)) (ci_terms c))"

definition valid_override_in :: "(string \<Rightarrow> string) \<Rightarrow> segment_in list \<Rightarrow> bool" where
  "valid_override_in plain segments \<longleftrightarrow>
     segments \<noteq> [] \<and> length segments \<le> 24 \<and>
     list_all (\<lambda>s. 1 \<le> py_len (si_name s) \<and> py_len (si_name s) \<le> 60 \<and> si_start s \<le> si_end s) segments \<and>
     successively (\<lambda>earlier later. si_end earlier < si_start later) (sort_key si_start segments) \<and>
     distinct (map (the \<circ> si_position) (filter (\<lambda>s. si_position s \<noteq> None) segments)) \<and>
     distinct (map (\<lambda>s. plain (si_name s)) segments)"

record year_settings =
  ys_calendar :: "calendar_spec option"
  ys_terms :: "term_spec list"
  ys_overrides :: "term_override list"

record period_context =
  px_calendar :: calendar_spec
  px_terms :: "term_spec list"
  px_overrides :: "term_override list"

definition load_period_context :: "year_settings \<Rightarrow> period_context" where
  "load_period_context ys =
     \<lparr>px_calendar = calendar_from_row (ys_calendar ys), px_terms = sort_key tm_position (ys_terms ys),
      px_overrides = ys_overrides ys\<rparr>"

definition numbered :: "'a list \<Rightarrow> (int \<times> 'a) list" where
  "numbered xs = zip [0..int (length xs) - 1] xs"

definition update_reporting_calendar ::
  "(string \<Rightarrow> string) \<Rightarrow> calendar_in \<Rightarrow> year_settings \<Rightarrow> http_error + year_settings" where
  "update_reporting_calendar plain c ys =
     (if \<not> valid_calendar_in plain c then Inl (Http 422 ''validation error'')
      else Inr (ys\<lparr>ys_calendar := Some \<lparr>cal_month = ci_month c, cal_day = ci_day c, cal_noun = ci_noun c,
             cal_style = ci_style c\<rparr>,
           ys_terms := map (\<lambda>(position, t). \<lparr>tm_name = ti_name t, tm_month = ti_month t, tm_day = ti_day t,
             tm_position = position\<rparr>) (numbered (ci_terms c))\<rparr>))"

definition override_reporting_year ::
  "(string \<Rightarrow> string) \<Rightarrow> int \<Rightarrow> segment_in list \<Rightarrow> year_settings \<Rightarrow> http_error + year_settings" where
  "override_reporting_year plain year segments ys =
     (if \<not> valid_override_in plain segments then Inl (Http 422 ''validation error'')
      else
        (case reporting_year_bounds year (px_calendar (load_period_context ys)) of
           Inl e \<Rightarrow> Inl ServerError
         | Inr (year_start, year_end) \<Rightarrow>
             if list_ex (\<lambda>s. si_start s < year_start \<or> si_end s \<ge> year_end) segments then
               Inl (Http 422 ''falls outside the year'')
             else Inr (ys\<lparr>ys_overrides := filter (\<lambda>ov. to_year ov \<noteq> year) (ys_overrides ys) @
                map (\<lambda>(position, s). \<lparr>to_year = year, to_name = si_name s, to_start = si_start s, to_end = si_end s,
                    to_position = Some (case si_position s of None \<Rightarrow> position | Some n \<Rightarrow> n)\<rparr>)
                  (numbered (sort_key si_start segments))\<rparr>)))"

definition clear_reporting_year_override :: "int \<Rightarrow> year_settings \<Rightarrow> year_settings" where
  "clear_reporting_year_override year ys =
     ys\<lparr>ys_overrides := filter (\<lambda>ov. to_year ov \<noteq> year) (ys_overrides ys)\<rparr>"

subsection \<open>Dates that exist\<close>

definition real_day :: "int \<Rightarrow> int \<Rightarrow> bool" where
  "real_day month day \<longleftrightarrow> valid_date (Date 2001 month day)"

lemma check_day_exists_iff [simp]: "check_day_exists m d \<longleftrightarrow> real_day m d"
proof -
  have "check_day_exists m d \<longleftrightarrow> (\<exists>x. mk_date 2001 m d = Inr x)" by (simp add: check_day_exists_def split: sum.splits)
  then show ?thesis by (simp only: mk_date_valid real_day_def) simp
qed

lemma real_day_valid:
  assumes "real_day m d" "1 \<le> y" "y \<le> 9999"
  shows "valid_date (Date y m d)"
proof -
  have "\<not> is_leap 2001" by (simp add: is_leap_def)
  then have "days_in_month 2001 m \<le> days_in_month y m" by (simp add: days_in_month_def)
  with assms(2,3) assms(1) [unfolded real_day_def] show ?thesis by simp
qed

lemma real_day_mk_date: "real_day m d \<Longrightarrow> 1 \<le> y \<Longrightarrow> y \<le> 9999 \<Longrightarrow> mk_date y m d = Inr (Date y m d)"
  by (simp only: mk_date_valid real_day_valid)

lemma date_less: "Date y m d < Date y' m' d' \<longleftrightarrow> y < y' \<or> y = y' \<and> (m < m' \<or> m = m' \<and> d < d')"
  by (simp add: less_date_def)

lemma date_le: "Date y m d \<le> Date y' m' d' \<longleftrightarrow> y < y' \<or> y = y' \<and> (m < m' \<or> m = m' \<and> d \<le> d')"
  by (auto simp: less_eq_date_def date_less)

definition calendar_ok :: "calendar_spec \<Rightarrow> bool" where
  "calendar_ok c \<longleftrightarrow> real_day (cal_month c) (cal_day c)"

definition terms_ok :: "term_spec list \<Rightarrow> bool" where
  "terms_ok ts \<longleftrightarrow> list_all (\<lambda>t. real_day (tm_month t) (tm_day t)) ts \<and>
     distinct (map (\<lambda>t. (tm_month t, tm_day t)) ts) \<and> distinct (map tm_position ts)"

lemma year_bounds:
  assumes "calendar_ok c" "1 \<le> y" "y < 9999"
  shows "reporting_year_bounds y c = Inr (Date y (cal_month c) (cal_day c), Date (y + 1) (cal_month c) (cal_day c))"
  using assms by (simp add: reporting_year_bounds_def calendar_ok_def real_day_mk_date)

text \<open>
  Reporting years divide time: with a calendar the settings accept, a day of any year from 2
  to 9998 lies in the year \<open>reporting_year_of\<close> gives for it and in no other.
\<close>

theorem reporting_years_divide_time:
  assumes "calendar_ok c" "2 \<le> yr day" "yr day < 9999" "1 \<le> y" "y < 9999"
    "reporting_year_period y c = Inr p"
  shows "period_contains p day \<longleftrightarrow> reporting_year_of day c = Inr y"
proof -
  obtain dy m d where day: "day = Date dy m d" by (cases day)
  have p: "per_start p = Date y (cal_month c) (cal_day c)" "per_end p = Date (y + 1) (cal_month c) (cal_day c)"
    using assms(6) year_bounds [OF assms(1,4,5)] by (auto simp: reporting_year_period_def)
  have "reporting_year_of day c = Inr (if Date dy (cal_month c) (cal_day c) \<le> day then dy else dy - 1)"
    using assms(1-3) day by (simp add: reporting_year_of_def calendar_ok_def real_day_mk_date)
  then show ?thesis using p day by (auto simp: period_contains_def date_less date_le)
qed

definition school_calendar :: calendar_spec where
  "school_calendar = \<lparr>cal_month = 7, cal_day = 1, cal_noun = ''School year'', cal_style = ''auto''\<rparr>"

definition school_terms :: "term_spec list" where
  "school_terms = [\<lparr>tm_name = ''Autumn'', tm_month = 8, tm_day = 15, tm_position = 0\<rparr>,
     \<lparr>tm_name = ''Winter'', tm_month = 1, tm_day = 5, tm_position = 1\<rparr>,
     \<lparr>tm_name = ''Spring'', tm_month = 4, tm_day = 1, tm_position = 2\<rparr>]"

lemma school_ok: "calendar_ok school_calendar" "terms_ok school_terms"
  by (simp_all add: calendar_ok_def school_calendar_def terms_ok_def school_terms_def real_day_def days_in_month_def)

lemma school_dates [simp]: "cal_month school_calendar = 7" "cal_day school_calendar = 1"
  by (simp_all add: school_calendar_def)

lemma school_year: "reporting_year_bounds 2025 school_calendar = Inr (Date 2025 7 1, Date 2026 7 1)"
  using year_bounds [OF school_ok(1), of 2025] by simp

theorem reporting_years_divide_time_witness:
  "reporting_year_of (Date 2026 3 9) school_calendar = Inr 2025"
proof -
  obtain p where p: "reporting_year_period 2025 school_calendar = Inr p" "per_start p = Date 2025 7 1" "per_end p = Date 2026 7 1"
    by (simp add: reporting_year_period_def school_year)
  then show ?thesis
    using reporting_years_divide_time [OF school_ok(1), of "Date 2026 3 9" 2025 p]
    by (simp add: period_contains_def date_less date_le)
qed

subsection \<open>The terms of a year\<close>

definition placed_at :: "calendar_spec \<Rightarrow> int \<Rightarrow> term_spec \<Rightarrow> date" where
  "placed_at c y t =
     (if Date y (tm_month t) (tm_day t) < Date y (cal_month c) (cal_day c)
      then Date (y + 1) (tm_month t) (tm_day t) else Date y (tm_month t) (tm_day t))"

lemma placed_inside:
  "Date y (cal_month c) (cal_day c) \<le> placed_at c y t \<and> placed_at c y t < Date (y + 1) (cal_month c) (cal_day c)"
  by (auto simp: placed_at_def date_less date_le)

lemma place_terms_all:
  assumes "list_all (\<lambda>t. real_day (tm_month t) (tm_day t)) ts" "1 \<le> y" "y < 9999"
  shows "place_terms (Date y (cal_month c) (cal_day c)) (Date (y + 1) (cal_month c) (cal_day c)) ts =
    Inr (map (\<lambda>t. (placed_at c y t, t)) ts)"
  using assms(1)
proof (induction ts)
  case (Cons t ts)
  have "place_term (Date y (cal_month c) (cal_day c)) (Date (y + 1) (cal_month c) (cal_day c)) t =
      Inr (Some (placed_at c y t, t))"
    using Cons.prems assms(2,3) placed_inside [of y c t]
    by (cases "Date y (tm_month t) (tm_day t) < Date y (cal_month c) (cal_day c)")
      (simp_all add: place_term_def real_day_mk_date placed_at_def not_le)
  with Cons show ?case by simp
qed simp

lemma placed_distinct:
  assumes "distinct (map (\<lambda>t. (tm_month t, tm_day t)) ts)"
  shows "distinct (map (placed_at c y) ts)"
proof -
  have "(tm_month t, tm_day t) = (tm_month t', tm_day t')" if "placed_at c y t = placed_at c y t'" for t t'
    using that by (simp add: placed_at_def split: if_splits)
  then show ?thesis using assms unfolding distinct_map inj_on_def by blast
qed

lemma generated_tile:
  assumes "sorted_wrt (<) (map fst placed)" "\<forall>x\<in>set placed. fst x < year_end"
  shows "length (filter (\<lambda>p. period_contains p day) (generated_periods year c year_end placed)) =
    (if placed \<noteq> [] \<and> fst (hd placed) \<le> day \<and> day < year_end then 1 else 0)"
  using assms
proof (induction placed)
  case (Cons x placed)
  obtain s t where x: "x = (s, t)" by (cases x)
  show ?case
  proof (cases placed)
    case Nil
    with x show ?thesis by (simp add: period_contains_def)
  next
    case (Cons x' placed')
    obtain s' t' where x': "x' = (s', t')" by (cases x')
    have "s < s'" "s' < year_end" using Cons.prems x x' Cons by auto
    let ?p = "hd (generated_periods year c year_end (x # placed))"
    have p: "generated_periods year c year_end (x # placed) = ?p # generated_periods year c year_end placed"
      "period_contains ?p day \<longleftrightarrow> s \<le> day \<and> day < s'"
      using x x' Cons by (simp_all add: period_contains_def)
    have "length (filter (\<lambda>p. period_contains p day) (generated_periods year c year_end placed)) =
        (if s' \<le> day \<and> day < year_end then 1 else 0)"
      using Cons.IH Cons.prems Cons x' by simp
    then have "length (filter (\<lambda>p. period_contains p day) (generated_periods year c year_end (x # placed))) =
        (if s \<le> day \<and> day < s' then 1 else 0) + (if s' \<le> day \<and> day < year_end then 1 else 0)"
      by (subst p(1), subst filter.simps, cases "s \<le> day \<and> day < s'") (simp_all only: p(2) if_True if_False list.size, simp_all)
    with \<open>s < s'\<close> \<open>s' < year_end\<close> x show ?thesis by auto
  qed
qed simp

lemma generated_simps [simp]:
  "length (generated_periods year c e placed) = length placed"
  "map per_key (generated_periods year c e placed) = map (\<lambda>x. term_key year (tm_position (snd x))) placed"
  "map per_start (generated_periods year c e placed) = map fst placed"
  by (induction placed) auto

definition placed_terms :: "calendar_spec \<Rightarrow> int \<Rightarrow> term_spec list \<Rightarrow> (date \<times> term_spec) list" where
  "placed_terms c y ts = sort_key fst (map (\<lambda>t. (placed_at c y t, t)) ts)"

lemma pattern_terms:
  assumes "calendar_ok c" "terms_ok ts" "1 \<le> y" "y < 9999" "filter (\<lambda>ov. to_year ov = y) ovs = []"
  shows "terms_for_year y c ts ovs =
    Inr (generated_periods y c (Date (y + 1) (cal_month c) (cal_day c)) (placed_terms c y ts))"
  using assms year_bounds [OF assms(1,3,4)] place_terms_all [of ts y c]
  by (simp add: terms_for_year_def terms_ok_def placed_terms_def)

lemma placed_terms_sorted:
  assumes "terms_ok ts"
  shows "sorted_wrt (<) (map fst (placed_terms c y ts))"
proof -
  let ?xs = "map (\<lambda>t. (placed_at c y t, t)) ts"
  have "distinct (map fst ?xs)" using placed_distinct [of ts c y] assms by (simp add: terms_ok_def comp_def)
  then have "distinct ?xs" "inj_on fst (set ?xs)" using distinct_map [of fst ?xs] by blast+
  then have "distinct (map fst (sort_key fst ?xs))"
    using distinct_map [of fst "sort_key fst ?xs"] by (simp only: distinct_sort set_sort)
  then show ?thesis
    using sorted_sort_key [of fst ?xs] by (simp add: placed_terms_def strict_sorted_iff)
qed

text \<open>
  A pattern's terms tile the year: every term of an accepted pattern is listed once, and a day
  lies in exactly one listed term from the first term's start until the year ends, in none outside.
\<close>

theorem terms_tile_the_year:
  assumes "calendar_ok c" "terms_ok ts" "ts \<noteq> []" "1 \<le> y" "y < 9999" "filter (\<lambda>ov. to_year ov = y) ovs = []"
    "terms_for_year y c ts ovs = Inr ps" "reporting_year_bounds y c = Inr (year_start, year_end)"
  shows "length ps = length ts \<and> year_start \<le> per_start (hd ps) \<and>
    length (filter (\<lambda>p. period_contains p day) ps) = (if per_start (hd ps) \<le> day \<and> day < year_end then 1 else 0)"
proof -
  let ?placed = "placed_terms c y ts"
  have e: "year_start = Date y (cal_month c) (cal_day c)" "year_end = Date (y + 1) (cal_month c) (cal_day c)"
    using assms(8) year_bounds [OF assms(1,4,5)] by auto
  have ps: "ps = generated_periods y c year_end ?placed"
    using pattern_terms [OF assms(1,2,4,5,6)] assms(7) e by simp
  have placed: "length ?placed = length ts" "fst ` set ?placed = placed_at c y ` set ts"
    by (simp_all add: placed_terms_def image_image)
  then have len: "length ps = length ts" using ps by simp
  have "?placed \<noteq> []" using placed(1) assms(3) by auto
  then obtain x xs where x: "?placed = x # xs" by (cases ?placed) auto
  then have hd: "per_start (hd ps) = fst x" using ps by (cases x) simp
  have inside: "year_start \<le> fst x' \<and> fst x' < year_end" if "x' \<in> set ?placed" for x'
    using that placed(2) placed_inside [of y c] e by (metis imageE imageI)
  then have first: "year_start \<le> per_start (hd ps)" using hd x by simp
  have "length (filter (\<lambda>p. period_contains p day) ps) =
      (if ?placed \<noteq> [] \<and> fst (hd ?placed) \<le> day \<and> day < year_end then 1 else 0)"
    unfolding ps by (rule generated_tile [OF placed_terms_sorted [OF assms(2)]]) (use inside in blast)
  then show ?thesis using hd x len first by simp
qed

definition school_periods :: "period list" where
  "school_periods = (case terms_for_year 2025 school_calendar school_terms [] of Inl e \<Rightarrow> [] | Inr ps \<Rightarrow> ps)"

lemma school_placed:
  "placed_terms school_calendar 2025 school_terms =
     [(Date 2025 8 15, school_terms ! 0), (Date 2026 1 5, school_terms ! 1), (Date 2026 4 1, school_terms ! 2)]"
  by (simp add: placed_terms_def school_terms_def placed_at_def date_less date_le)

lemma school_periods: "terms_for_year 2025 school_calendar school_terms [] = Inr school_periods"
  "map per_start school_periods = [Date 2025 8 15, Date 2026 1 5, Date 2026 4 1]"
  "map per_key school_periods = [term_key 2025 0, term_key 2025 1, term_key 2025 2]"
  using pattern_terms [OF school_ok, of 2025 "[]"] by (simp_all add: school_periods_def school_placed) (simp_all add: school_terms_def)

theorem terms_tile_the_year_witness:
  "length school_periods = 3 \<and> length (filter (\<lambda>p. period_contains p (Date 2026 3 9)) school_periods) = 1 \<and>
     length (filter (\<lambda>p. period_contains p (Date 2025 7 20)) school_periods) = 0"
proof -
  have ts: "school_terms \<noteq> []" "length school_terms = 3" by (simp_all add: school_terms_def)
  have "per_start (hd school_periods) = Date 2025 8 15" using school_periods(2) by (metis hd_map list.sel(1) list.map_disc_iff list.distinct(1))
  then show ?thesis
    using terms_tile_the_year [OF school_ok ts(1) _ _ _ school_periods(1) school_year, of "Date 2026 3 9"]
      terms_tile_the_year [OF school_ok ts(1) _ _ _ school_periods(1) school_year, of "Date 2025 7 20"] ts(2)
    by (simp add: date_less date_le)
qed

subsection \<open>Keys\<close>

lemma find_distinct_key:
  "distinct (map f xs) \<Longrightarrow> x \<in> set xs \<Longrightarrow> find (\<lambda>y. f y = f x) xs = Some x"
  by (induction xs) (auto simp: image_iff)

lemma digit_groups_digits: "list_all is_digit s \<Longrightarrow> s \<noteq> [] \<or> acc \<noteq> [] \<Longrightarrow> digit_groups acc s = Some s"
  by (induction s arbitrary: acc) auto

lemma digit_facts: "is_digit c \<Longrightarrow> \<not> py_isspace c \<and> c \<noteq> CHR ''-'' \<and> c \<noteq> CHR ''+'' \<and> c \<noteq> CHR '':''"
  by (auto simp: is_digit_def digit_value_def py_isspace_def split: if_splits)

lemma py_strip_digits: "list_all is_digit s \<Longrightarrow> py_strip s = s"
proof -
  have none: "list_all is_digit s \<Longrightarrow> dropWhile py_isspace s = s" for s
    using digit_facts by (cases s) auto
  assume "list_all is_digit s"
  with none [of s] none [of "rev s"] show ?thesis by (simp add: py_strip_def)
qed

lemma str_nat_length: "0 < k \<Longrightarrow> n < 10 ^ k \<Longrightarrow> length (str_nat n) \<le> k"
proof (induction n arbitrary: k rule: str_nat.induct)
  case (1 n)
  show ?case
  proof (cases "n < 10")
    case True
    with 1 show ?thesis by (subst str_nat.simps) simp
  next
    case False
    with 1(3) obtain k' where k: "k = Suc k'" "0 < k'" by (cases k; cases "k - 1") auto
    then have "length (str_nat (n div 10)) \<le> k'" using 1 False by (simp add: less_mult_imp_div_less)
    with k False show ?thesis by (subst str_nat.simps) simp
  qed
qed

lemma py_int_str_int:
  assumes "0 \<le> y" "y < 9999"
  shows "py_int (str_int y) = Some y"
proof -
  have "nat y < 10 ^ 4" using assms by simp
  then have len: "length (filter is_digit (str_nat (nat y))) \<le> 4300"
    using str_nat_length [of 4 "nat y"] length_filter_le [of is_digit "str_nat (nat y)"] by linarith
  obtain c cs where s: "str_nat (nat y) = c # cs" by (cases "str_nat (nat y)") auto
  have d: "list_all is_digit (c # cs)" using list_all_is_digit_str_nat [of "nat y"] s by simp
  have "digits_value (c # cs) = nat y" using s digits_value_str_nat by metis
  then show ?thesis
    using assms len s d digit_facts [of c] digit_groups_digits [OF d] py_strip_digits [OF d]
    by (simp add: py_int_def str_int_def)
qed

lemma partition_at_colon:
  "list_all is_digit s \<Longrightarrow> partition_at (CHR '':'') (s @ CHR '':'' # r) = (s, r)"
  using digit_facts by (induction s) (auto simp: partition_at_def)

lemma partition_year: "0 \<le> y \<Longrightarrow> partition_at (CHR '':'') (str_int y @ CHR '':'' # r) = (str_int y, r)"
  by (simp add: partition_at_colon str_int_def)

lemma term_key_inject: "term_key y n = term_key y m \<longleftrightarrow> n = m"
  by (simp add: term_key_def)

lemma resolve_term:
  assumes "0 \<le> y" "y < 9999" "terms_for_year y c ts ovs = Inr ps" "find (\<lambda>q. per_key q = term_key y n) ps = Some p"
  shows "resolve py_repr (term_key y n) today c ts ovs = Inr p"
proof -
  have k: "partition_at (CHR '':'') (term_key y n) = (''term'', str_int y @ CHR '':'' # str_int n)"
    by (simp add: partition_at_def term_key_def)
  have "resolve_instance py_repr (term_key y n) c ts ovs = Inr (Some p)"
    using assms k partition_year [of y] py_int_str_int [of y] by (simp add: resolve_instance_def)
  with k show ?thesis by (simp add: resolve_def LEGACY_ALIASES_def term_key_def)
qed

text \<open>
  The picker's keys come back: resolving the key of any term the year lists gives that very
  term, whatever today is.
\<close>

theorem a_listed_term_resolves_to_itself:
  assumes "calendar_ok c" "terms_ok ts" "1 \<le> y" "y < 9999" "filter (\<lambda>ov. to_year ov = y) ovs = []"
    "terms_for_year y c ts ovs = Inr ps" "p \<in> set ps"
  shows "resolve py_repr (per_key p) today c ts ovs = Inr p"
proof -
  let ?placed = "placed_terms c y ts"
  have ps: "ps = generated_periods y c (Date (y + 1) (cal_month c) (cal_day c)) ?placed"
    using pattern_terms [OF assms(1-5)] assms(6) by simp
  have "mset (map (tm_position \<circ> snd) ?placed) = mset (map tm_position ts)"
    by (simp add: placed_terms_def comp_def mset_map multiset.map_comp)
  then have "distinct (map (tm_position \<circ> snd) ?placed)"
    using assms(2) unfolding terms_ok_def by (metis mset_eq_imp_distinct_iff)
  then have "distinct (map per_key ps)"
    unfolding ps by (simp add: distinct_map comp_def inj_on_def term_key_inject)
  then have find: "find (\<lambda>q. per_key q = per_key p) ps = Some p"
    using assms(7) by (rule find_distinct_key)
  have "per_key p \<in> set (map per_key ps)" using assms(7) by simp
  then obtain n where n: "per_key p = term_key y n" unfolding ps by auto
  with n find show ?thesis using resolve_term [of y c ts ovs ps n p] assms(3,4,6) by simp
qed

theorem a_listed_term_resolves_to_itself_witness:
  "map (\<lambda>p. resolve id (per_key p) (Date 2030 1 1) school_calendar school_terms []) school_periods = map Inr school_periods"
  using a_listed_term_resolves_to_itself [OF school_ok _ _ _ school_periods(1), of _ id "Date 2030 1 1"] by simp

subsection \<open>The settings keep the year resolvable\<close>

datatype settings_request = Set_Calendar calendar_in | Set_Year int "segment_in list" | Clear_Year int

definition serve_setting :: "(string \<Rightarrow> string) \<Rightarrow> settings_request \<Rightarrow> year_settings \<Rightarrow> year_settings" where
  "serve_setting plain request ys =
     (case request of
        Set_Calendar c \<Rightarrow> (case update_reporting_calendar plain c ys of Inl e \<Rightarrow> ys | Inr ys' \<Rightarrow> ys')
      | Set_Year year segments \<Rightarrow> (case override_reporting_year plain year segments ys of Inl e \<Rightarrow> ys | Inr ys' \<Rightarrow> ys')
      | Clear_Year year \<Rightarrow> clear_reporting_year_override year ys)"

definition no_year_settings :: year_settings where
  "no_year_settings = \<lparr>ys_calendar = None, ys_terms = [], ys_overrides = []\<rparr>"

definition dates_exist :: "settings_request \<Rightarrow> bool" where
  "dates_exist request = (case request of
     Set_Year year segments \<Rightarrow> list_all (\<lambda>s. valid_date (si_start s) \<and> valid_date (si_end s)) segments | _ \<Rightarrow> True)"

definition settings_ok :: "year_settings \<Rightarrow> bool" where
  "settings_ok ys \<longleftrightarrow> calendar_ok (calendar_from_row (ys_calendar ys)) \<and> terms_ok (ys_terms ys) \<and>
     list_all (\<lambda>ov. valid_date (to_end ov) \<and> to_end ov < Date 9999 12 31) (ys_overrides ys)"

lemma numbered_fst [simp]: "map fst (numbered xs) = [0..int (length xs) - 1]"
  by (simp add: numbered_def)

lemma numbered_snd [simp]: "map snd (numbered xs) = xs"
  by (simp add: numbered_def)

lemma numbered_member: "(i, x) \<in> set (numbered xs) \<Longrightarrow> x \<in> set xs"
  by (auto simp: numbered_def dest: set_zip_rightD)

lemma accepted_terms_ok:
  assumes "valid_calendar_in plain c"
  shows "terms_ok (map (\<lambda>(position, t). \<lparr>tm_name = ti_name t, tm_month = ti_month t, tm_day = ti_day t,
             tm_position = position\<rparr>) (numbered (ci_terms c)))" (is "terms_ok (map ?f ?xs)")
proof -
  have f: "tm_month \<circ> ?f = ti_month \<circ> snd" "tm_day \<circ> ?f = ti_day \<circ> snd" "tm_position \<circ> ?f = fst"
    "(\<lambda>t. (tm_month t, tm_day t)) \<circ> ?f = (\<lambda>t. (ti_month t, ti_day t)) \<circ> snd"
    by (auto simp: fun_eq_iff)
  have "list_all (\<lambda>t. real_day (ti_month t) (ti_day t)) (ci_terms c)"
    using assms by (auto simp: valid_calendar_in_def valid_term_in_def list_all_iff)
  then have "list_all (\<lambda>t. real_day (ti_month t) (ti_day t)) (map snd ?xs)" by simp
  then have "list_all (\<lambda>t. real_day (tm_month t) (tm_day t)) (map ?f ?xs)"
    by (auto simp: list_all_iff simp del: numbered_snd)
  moreover have "distinct (map ((\<lambda>t. (ti_month t, ti_day t)) \<circ> snd) ?xs)"
    using assms by (simp add: valid_calendar_in_def flip: map_map)
  ultimately show ?thesis by (simp add: terms_ok_def f)
qed

lemma segments_end_in_time:
  assumes "override_reporting_year plain year segments ys = Inr ys'" "settings_ok ys"
    "list_all (\<lambda>s. valid_date (si_end s)) segments" "ov \<in> set (ys_overrides ys')"
  shows "valid_date (to_end ov) \<and> to_end ov < Date 9999 12 31"
proof -
  from assms(1) obtain year_start year_end where e:
    "reporting_year_bounds year (calendar_from_row (ys_calendar ys)) = Inr (year_start, year_end)"
    "\<not> list_ex (\<lambda>s. si_start s < year_start \<or> si_end s \<ge> year_end) segments"
    and ys': "ys_overrides ys' = filter (\<lambda>ov. to_year ov \<noteq> year) (ys_overrides ys) @
       map (\<lambda>(position, s). \<lparr>to_year = year, to_name = si_name s, to_start = si_start s, to_end = si_end s,
         to_position = Some (case si_position s of None \<Rightarrow> position | Some n \<Rightarrow> n)\<rparr>)
         (numbered (sort_key si_start segments))"
    by (auto simp: override_reporting_year_def load_period_context_def split: if_splits sum.splits)
  have "valid_date year_end" using e(1)
    by (auto simp: reporting_year_bounds_def mk_date_valid simp del: valid_date.simps split: sum.splits)
  then have "year_end \<le> Date 9999 12 31"
    by (cases year_end) (auto simp: date_le days_in_month_def split: if_splits)
  then have late: "si_end s < Date 9999 12 31" if "s \<in> set segments" for s
    using e(2) that by (auto simp: list_ex_iff)
  consider "ov \<in> set (ys_overrides ys)"
    | i s where "(i, s) \<in> set (numbered (sort_key si_start segments))" "to_end ov = si_end s"
    using assms(4) ys' by auto
  then show ?thesis
  proof cases
    case 1
    with assms(2) show ?thesis by (simp add: settings_ok_def list_all_iff)
  next
    case 2
    then have "s \<in> set segments" using numbered_member by fastforce
    with late assms(3) 2 show ?thesis by (simp add: list_all_iff)
  qed
qed

lemma settings_keep_ok:
  assumes "settings_ok ys" "dates_exist request"
  shows "settings_ok (serve_setting plain request ys)"
proof (cases request)
  case (Set_Calendar c)
  show ?thesis
  proof (cases "valid_calendar_in plain c")
    case True
    with assms(1) accepted_terms_ok [OF True] show ?thesis
      by (simp add: Set_Calendar serve_setting_def update_reporting_calendar_def settings_ok_def
          calendar_from_row_def calendar_ok_def valid_calendar_in_def)
  qed (use assms(1) in \<open>simp add: Set_Calendar serve_setting_def update_reporting_calendar_def\<close>)
next
  case (Set_Year year segments)
  show ?thesis
  proof (cases "override_reporting_year plain year segments ys")
    case (Inr ys')
    have "list_all (\<lambda>s. valid_date (si_end s)) segments"
      using assms(2) Set_Year by (auto simp: dates_exist_def list_all_iff)
    with segments_end_in_time [OF Inr assms(1)] have "list_all (\<lambda>ov. valid_date (to_end ov) \<and> to_end ov < Date 9999 12 31) (ys_overrides ys')"
      by (simp add: list_all_iff)
    moreover have "ys_calendar ys' = ys_calendar ys" "ys_terms ys' = ys_terms ys"
      using Inr by (auto simp: override_reporting_year_def split: if_splits sum.splits)
    ultimately show ?thesis using assms(1) by (simp add: Set_Year serve_setting_def Inr settings_ok_def)
  qed (use assms(1) in \<open>simp add: Set_Year serve_setting_def\<close>)
next
  case (Clear_Year year)
  with assms(1) show ?thesis
    by (auto simp: serve_setting_def clear_reporting_year_override_def settings_ok_def list_all_iff)
qed

lemma served_settings_ok:
  "settings_ok ys \<Longrightarrow> list_all dates_exist requests \<Longrightarrow> settings_ok (fold (serve_setting plain) requests ys)"
  by (induction requests arbitrary: ys) (auto simp: settings_keep_ok)

lemma no_year_settings_ok: "settings_ok no_year_settings"
  by (simp add: settings_ok_def no_year_settings_def calendar_ok_def calendar_from_row_def default_calendar_def
      real_day_def days_in_month_def terms_ok_def)

subsection \<open>The relative periods\<close>

lemma this_year_resolves:
  assumes "calendar_ok c" "valid_date today" "2 \<le> yr today" "yr today \<le> 9997"
  obtains y p where "reporting_year_of today c = Inr y" "reporting_year_period y c = Inr p" "period_contains p today"
    "1 \<le> y" "y < 9999"
proof -
  obtain dy m d where day: "today = Date dy m d" by (cases today)
  define y where "y = (if Date dy (cal_month c) (cal_day c) \<le> today then dy else dy - 1)"
  have y: "reporting_year_of today c = Inr y" "1 \<le> y" "y < 9999"
    using assms day by (simp_all add: reporting_year_of_def calendar_ok_def real_day_mk_date y_def)
  then obtain p where p: "reporting_year_period y c = Inr p" "per_start p = Date y (cal_month c) (cal_day c)"
      "per_end p = Date (y + 1) (cal_month c) (cal_day c)"
    using year_bounds [OF assms(1) y(2,3)] by (simp add: reporting_year_period_def)
  have "period_contains p today"
    using p day by (auto simp: period_contains_def y_def date_less date_le)
  with y p that show thesis by blast
qed

lemma stated_periods_exist:
  "list_all (\<lambda>ov. valid_date (to_end ov) \<and> to_end ov < Date 9999 12 31) ovs \<Longrightarrow>
     \<exists>ps. stated_periods y c i ovs = Inr ps"
proof (induction ovs arbitrary: i)
  case (Cons ov ovs)
  have top: "valid_date (Date 9999 12 31)" "toordinal (Date 9999 12 31) = MAXORDINAL"
    by (simp_all add: days_in_month_def days_before_year_def days_before_month_def is_leap_def MAXORDINAL_def)
  have "toordinal (to_end ov) < MAXORDINAL"
    using Cons.prems toordinal_less_iff [OF _ top(1), of "to_end ov"] top(2) by simp
  then obtain e where "date_add_days (to_end ov) 1 = Inr e"
    using Cons.prems toordinal_range [of "to_end ov"] by (auto simp: date_add_days_Inr)
  moreover obtain ps where "stated_periods y c (i + 1) ovs = Inr ps" using Cons by fastforce
  ultimately show ?case by simp
qed simp

lemma terms_exist:
  assumes "calendar_ok c" "terms_ok ts" "1 \<le> y" "y < 9999"
    "list_all (\<lambda>ov. valid_date (to_end ov) \<and> to_end ov < Date 9999 12 31) ovs"
  shows "\<exists>ps. terms_for_year y c ts ovs = Inr ps"
proof (cases "filter (\<lambda>ov. to_year ov = y) ovs = []")
  case True
  with pattern_terms [OF assms(1-4)] show ?thesis by blast
next
  case False
  have "list_all (\<lambda>ov. valid_date (to_end ov) \<and> to_end ov < Date 9999 12 31)
      (sort_key to_start (filter (\<lambda>ov. to_year ov = y) ovs))"
    using assms(5) by (auto simp: list_all_iff)
  from stated_periods_exist [OF this] False year_bounds [OF assms(1,3,4)] show ?thesis
    by (simp add: terms_for_year_def)
qed

lemma until_tomorrow:
  assumes "valid_date today" "yr today \<le> 9997"
  obtains e where "date_add_days today 1 = Inr e" "today < e"
proof -
  have top: "valid_date (Date 9999 12 31)" "toordinal (Date 9999 12 31) = MAXORDINAL"
    by (simp_all add: days_in_month_def days_before_year_def days_before_month_def is_leap_def MAXORDINAL_def)
  have "today < Date 9999 12 31" using assms by (cases today) (simp add: date_less)
  then have "toordinal today < MAXORDINAL" using toordinal_less_iff [OF assms(1) top(1)] top(2) by simp
  then obtain e where e: "date_add_days today 1 = Inr e"
    using toordinal_range [OF assms(1)] by (auto simp: date_add_days_Inr)
  then have "toordinal today < toordinal e" using date_add_days_toordinal by force
  with e that show thesis using toordinal_less_iff [OF assms(1) date_add_days_valid [OF e]] by blast
qed

lemma week_start:
  assumes "valid_date today" "2 \<le> yr today"
  obtains s where "date_add_days today (- weekday today) = Inr s" "s \<le> today"
proof -
  have w: "0 \<le> weekday today" "weekday today < 7" by (simp_all add: weekday_def)
  have "Date 1 12 31 < today" "valid_date (Date 1 12 31)" "toordinal (Date 1 12 31) = 365"
    using assms by (cases today; simp add: date_less days_in_month_def days_before_year_def days_before_month_def is_leap_def)+
  then have "365 < toordinal today" using toordinal_less_iff assms(1) by metis
  then obtain s where s: "date_add_days today (- weekday today) = Inr s"
    using w toordinal_range [OF assms(1)] by (auto simp: date_add_days_Inr)
  then have "toordinal s \<le> toordinal today" using date_add_days_toordinal [OF s] w by simp
  with s that show thesis using toordinal_le_iff [OF date_add_days_valid [OF s] assms(1)] by blast
qed

lemmas resolve_relative = resolve_def LEGACY_ALIASES_def Let_def period_contains_def

text \<open>
  C24: whatever sequence of calendar edits, stated years and reverts the settings accepted or
  refused, every relative period (the week, the month, the term or its old name, the year, the
  calendar year) resolves on every day of the years 2 to 9997, to a period that contains the day:
  no saved calendar can make the reports fail to build a date.
\<close>

theorem saved_settings_always_resolve:
  assumes "list_all dates_exist requests" "ys = fold (serve_setting plain) requests no_year_settings"
    "px = load_period_context ys" "valid_date today" "2 \<le> yr today" "yr today \<le> 9997"
    "key \<in> {''week'', ''month'', ''term'', ''semester'', ''year'', ''calendar_year''}"
  shows "\<exists>p. resolve py_repr key today (px_calendar px) (px_terms px) (px_overrides px) = Inr p \<and> period_contains p today"
proof -
  let ?c = "px_calendar px" and ?ts = "px_terms px" and ?ovs = "px_overrides px"
  have ok: "settings_ok ys" unfolding assms(2) by (rule served_settings_ok [OF no_year_settings_ok assms(1)])
  then have c: "calendar_ok ?c" and ovs: "list_all (\<lambda>ov. valid_date (to_end ov) \<and> to_end ov < Date 9999 12 31) ?ovs"
    by (simp_all add: assms(3) settings_ok_def load_period_context_def)
  have ts: "terms_ok ?ts"
    using ok by (auto simp: assms(3) settings_ok_def load_period_context_def terms_ok_def list_all_iff distinct_map)
  obtain e where e: "date_add_days today 1 = Inr e" "today < e" by (rule until_tomorrow [OF assms(4,6)])
  obtain s where s: "date_add_days today (- weekday today) = Inr s" "s \<le> today" by (rule week_start [OF assms(4,5)])
  obtain y p where y: "reporting_year_of today ?c = Inr y" "reporting_year_period y ?c = Inr p"
      "period_contains p today" "1 \<le> y" "y < 9999"
    by (rule this_year_resolves [OF c assms(4,5,6)])
  obtain ps where ps: "terms_for_year y ?c ?ts ?ovs = Inr ps" using terms_exist [OF c ts y(4,5) ovs] by blast
  obtain dy m d where day: "today = Date dy m d" by (cases today)
  have month: "valid_date (Date dy m 1)"
    using assms(4) days_in_month_pos [of dy m] unfolding day by simp
  have y0: "1 \<le> dy" "dy \<le> 9997" using assms(4,6) unfolding day by simp_all
  have year: "valid_date (Date dy 1 1)" "valid_date (Date (dy + 1) 1 1)"
    using y0 by (simp_all add: days_in_month_def)
  consider "key = ''week''" | "key = ''month''" | "key = ''calendar_year''" | "key = ''year''"
    | "key \<in> {''term'', ''semester''}" using assms(7) unfolding insert_iff empty_iff by meson
  then show ?thesis
  proof cases
    case 1
    with s e show ?thesis by (simp add: resolve_relative)
  next
    case 2
    with month e day assms(4) show ?thesis
      by (simp add: resolve_relative iffD2 [OF mk_date_valid] date_le)
  next
    case 3
    with year day assms(4) show ?thesis
      by (auto simp: resolve_relative calendar_year_period_def iffD2 [OF mk_date_valid] date_le date_less)
  next
    case 4
    with y show ?thesis by (simp add: resolve_relative)
  next
    case 5
    show ?thesis
    proof (cases "find (\<lambda>p. period_contains p today) ps")
      case None
      with 5 y ps show ?thesis by (auto simp: resolve_def LEGACY_ALIASES_def current_term_def)
    next
      case (Some q)
      then have "period_contains q today" by (auto simp: find_Some_iff)
      with Some 5 y ps show ?thesis by (auto simp: resolve_def LEGACY_ALIASES_def current_term_def)
    qed
  qed
qed

theorem saved_settings_always_resolve_witness:
  "\<exists>p. resolve id ''semester'' (Date 2026 3 9) default_calendar [] [] = Inr p \<and> period_contains p (Date 2026 3 9)"
  using saved_settings_always_resolve [of "[Clear_Year 2026]" "no_year_settings" id "load_period_context no_year_settings" "Date 2026 3 9" "''semester''" id]
  by (simp add: dates_exist_def serve_setting_def clear_reporting_year_override_def no_year_settings_def
      load_period_context_def calendar_from_row_def days_in_month_def)

subsection \<open>Segments that share a position\<close>

definition autumn_then_spring :: "segment_in list" where
  "autumn_then_spring =
     [\<lparr>si_name = ''First'', si_start = Date 2026 1 1, si_end = Date 2026 5 31, si_position = None\<rparr>,
      \<lparr>si_name = ''Second'', si_start = Date 2026 6 1, si_end = Date 2026 12 31, si_position = Some 0\<rparr>]"

definition hidden_segment_year :: "term_override list" where
  "hidden_segment_year =
     [\<lparr>to_year = 2026, to_name = ''First'', to_start = Date 2026 1 1, to_end = Date 2026 5 31, to_position = Some 0\<rparr>,
      \<lparr>to_year = 2026, to_name = ''Second'', to_start = Date 2026 6 1, to_end = Date 2026 12 31, to_position = Some 0\<rparr>]"

lemma hidden_segment_accepted:
  "override_reporting_year py_strip 2026 autumn_then_spring no_year_settings =
     Inr (no_year_settings\<lparr>ys_overrides := hidden_segment_year\<rparr>)"
  by code_simp

lemma hidden_segment_dates:
  "date_add_days (Date 2026 5 31) 1 = Inr (Date 2026 6 1)"
  "date_add_days (Date 2026 12 31) 1 = Inr (Date 2027 1 1)"
  by code_simp+

lemma hidden_segment_terms:
  "terms_for_year 2026 default_calendar [] hidden_segment_year =
     Inr [\<lparr>per_key = term_key 2026 0, per_label = term_label ''First'' (Date 2026 1 1) 2026 default_calendar,
       per_start = Date 2026 1 1, per_end = Date 2026 6 1, per_kind = ''term''\<rparr>,
      \<lparr>per_key = term_key 2026 0, per_label = term_label ''Second'' (Date 2026 6 1) 2026 default_calendar,
       per_start = Date 2026 6 1, per_end = Date 2027 1 1, per_kind = ''term''\<rparr>]"
  using year_bounds [of default_calendar 2026] no_year_settings_ok
  by (simp add: terms_for_year_def hidden_segment_year_def hidden_segment_dates date_less date_le
      settings_ok_def no_year_settings_def calendar_from_row_def)

text \<open>
  The check on shared positions is incomplete: a year whose first segment states no position
  and whose second states position 0 is accepted; it then lists two periods with one key, and the
  second can never be selected: its key resolves to the first.
\<close>

theorem an_unstated_position_can_hide_a_segment:
  "\<exists>ys first second.
     override_reporting_year py_strip 2026 autumn_then_spring no_year_settings = Inr ys \<and>
     terms_for_year 2026 default_calendar (ys_terms ys) (ys_overrides ys) = Inr [first, second] \<and>
     per_end first = Date 2026 6 1 \<and> per_start second = Date 2026 6 1 \<and>
     resolve py_repr (per_key second) today default_calendar (ys_terms ys) (ys_overrides ys) = Inr first"
proof -
  obtain first second where ps: "terms_for_year 2026 default_calendar [] hidden_segment_year = Inr [first, second]"
      "per_key first = term_key 2026 0" "per_key second = term_key 2026 0"
      "per_end first = Date 2026 6 1" "per_start second = Date 2026 6 1"
    using hidden_segment_terms by simp
  then have "resolve py_repr (per_key second) today default_calendar [] hidden_segment_year = Inr first"
    using resolve_term [OF _ _ ps(1)] by simp
  with ps hidden_segment_accepted show ?thesis by (simp add: no_year_settings_def)
qed

text \<open>
  A key whose year does not fit a C int is not refused as an unknown period: the overflow of
  the date escapes the \<open>ValueError\<close> handlers.
\<close>

theorem an_enormous_year_escapes_the_handler:
  "resolve py_repr ''calendar_year:99999999999'' today c ts ovs = Inl OverflowError \<and>
   resolve py_repr ''year:99999999999'' today c ts ovs = Inl OverflowError"
proof -
  have n: "py_int ''99999999999'' = Some 99999999999"
    by (simp add: py_int_def py_strip_def py_isspace_def is_digit_def digit_value_def digits_value_def)
  have p: "partition_at (CHR '':'') ''calendar_year:99999999999'' = (''calendar_year'', ''99999999999'')"
    "partition_at (CHR '':'') ''year:99999999999'' = (''year'', ''99999999999'')"
    by code_simp+
  have d: "mk_date 99999999999 m d = Inl OverflowError" for m d by (simp add: mk_date_def)
  have i: "resolve_instance py_repr ''calendar_year:99999999999'' c ts ovs = Inl OverflowError"
    "resolve_instance py_repr ''year:99999999999'' c ts ovs = Inl OverflowError"
    by (simp_all add: resolve_instance_def n p d calendar_year_period_def reporting_year_period_def reporting_year_bounds_def)
  show ?thesis by (simp add: resolve_def LEGACY_ALIASES_def i p)
qed

end
