(* ===== verification/Report_Queries.thy ===== *)
theory Report_Queries
  imports Calendar Models "HOL-Library.Multiset"
begin

section \<open>The report queries (app/reports/aggregation.py)\<close>

text \<open>
  Every number a report shows is computed here from the tables: the filters both halves of a report
  share, the totals, the timelines, the leaderboards and the merged print and copy figures.  A
  table is a list of rows; a query joins and filters lists.  Where SQL leaves the order of groups
  open they come in the order of their first row.  The time zone (\<open>local\<close> time of an instant) and
  SQL's \<open>lower\<close> are parameters.
\<close>

subsection \<open>Tables\<close>

record copy_row =
  cu_device :: uuid
  cu_building :: "string option"
  cu_staff_email :: "string option"
  cu_activity :: string
  cu_page_count :: "int option"
  cu_color_page_count :: "int option"
  cu_monochrome_page_count :: "int option"
  cu_duplex :: "bool option"
  cu_occurred_at :: "datetime option"
  cu_period_start :: "datetime option"
  cu_period_end :: "datetime option"
  cu_created_at :: datetime
  cu_source_connector :: string

record mfp_device =
  md_id :: uuid
  md_name :: string
  md_printer_id :: "uuid option"
  md_building :: "string option"
  md_last_counter_poll_at :: "datetime option"

record measured_coverage =
  mc_cyan :: rat
  mc_magenta :: rat
  mc_yellow :: rat
  mc_black :: rat

record coverage_row =
  jc_job_id :: uuid
  jc_state :: string
  jc_coverage :: measured_coverage

record roster_user =
  ru_email :: string
  ru_name :: "string option"
  ru_org_unit_path :: "string option"

record report_tables =
  rt_jobs :: "job list"
  rt_printers :: "printer list"
  rt_coverage :: "coverage_row list"
  rt_usage :: "copy_row list"
  rt_devices :: "mfp_device list"
  rt_users :: "roster_user list"
  rt_mosyle_devices :: "(string \<times> string option) list" \<comment> \<open>MAC address and device name\<close>
  rt_google_devices :: "(string \<times> string option) list"

definition no_tables :: report_tables where
  "no_tables = \<lparr>rt_jobs = [], rt_printers = [], rt_coverage = [], rt_usage = [], rt_devices = [], rt_users = [],
     rt_mosyle_devices = [], rt_google_devices = []\<rparr>"

subsection \<open>Filters\<close>

record report_filters =
  rf_start :: "datetime option"
  rf_end :: "datetime option"
  rf_building :: "string option"
  rf_department :: "string option"
  rf_printer_id :: "uuid option"
  rf_submitted_by :: "string option"
  rf_status :: "string option"
  rf_color_mode :: "string option"
  rf_duplex :: "bool option"
  rf_submitted_by_in :: "string list option"

definition no_filters :: report_filters where
  "no_filters = \<lparr>rf_start = None, rf_end = None, rf_building = None, rf_department = None, rf_printer_id = None,
     rf_submitted_by = None, rf_status = None, rf_color_mode = None, rf_duplex = None, rf_submitted_by_in = None\<rparr>"

text \<open>\<open>column == value\<close> where a filter is set; a null column equals nothing.\<close>

definition wanted :: "'a option \<Rightarrow> 'a option \<Rightarrow> bool" where
  "wanted wish column = (case wish of None \<Rightarrow> True | Some x \<Rightarrow> column = Some x)"

definition in_range :: "report_filters \<Rightarrow> datetime \<Rightarrow> bool" where
  "in_range f t \<longleftrightarrow> (case rf_start f of None \<Rightarrow> True | Some s \<Rightarrow> s \<le> t) \<and>
     (case rf_end f of None \<Rightarrow> True | Some e \<Rightarrow> t < e)"

definition apply_filters :: "report_filters \<Rightarrow> report_tables \<Rightarrow> (job \<times> printer) list" where
  "apply_filters f db =
     filter (\<lambda>(j, p). job_superseded_by j = None \<and> in_range f (job_created_at j) \<and>
         wanted (rf_building f) (printer_building p) \<and> wanted (rf_department f) (printer_department p) \<and>
         wanted (rf_printer_id f) (Some (job_printer_id j)) \<and> wanted (rf_submitted_by f) (job_submitted_by j) \<and>
         (case rf_submitted_by_in f of None \<Rightarrow> True | Some emails \<Rightarrow> job_submitted_by j \<in> Some ` set emails) \<and>
         wanted (rf_status f) (Some (job_status j)) \<and> wanted (rf_color_mode f) (job_color_mode j) \<and>
         wanted (rf_duplex f) (job_duplex j))
       [(j, p). j \<leftarrow> rt_jobs db, p \<leftarrow> rt_printers db, job_printer_id j = printer_id p]"

definition COPY_INSTANT :: "copy_row \<Rightarrow> datetime" where
  "COPY_INSTANT u = the (coalesce (cu_occurred_at u) (coalesce (cu_period_end u) (Some (cu_created_at u))))"

definition apply_copier_filters :: "report_filters \<Rightarrow> report_tables \<Rightarrow> (copy_row \<times> mfp_device) list" where
  "apply_copier_filters f db =
     filter (\<lambda>(u, d). in_range f (COPY_INSTANT u) \<and> wanted (rf_building f) (cu_building u) \<and>
         wanted (rf_submitted_by f) (cu_staff_email u) \<and> wanted (rf_printer_id f) (md_printer_id d) \<and>
         (rf_department f = None \<or>
            list_ex (\<lambda>p. md_printer_id d = Some (printer_id p) \<and> wanted (rf_department f) (printer_department p))
              (rt_printers db)))
       [(u, d). u \<leftarrow> rt_usage db, d \<leftarrow> rt_devices db, cu_device u = md_id d]"

subsection \<open>Organisational units (integrations/google_workspace.py)\<close>

definition py_rstrip_char :: "char \<Rightarrow> string \<Rightarrow> string" where
  "py_rstrip_char c s = rev (dropWhile (\<lambda>d. d = c) (rev s))"

definition normalize_org_unit_path :: "string \<Rightarrow> string" where
  "normalize_org_unit_path path =
     (let trimmed = py_strip path;
          trimmed = (if prefix ''/'' trimmed then trimmed else ''/'' @ trimmed);
          bare = py_rstrip_char (CHR ''/'') trimmed
      in if bare = [] then ''/'' else bare)"

definition org_unit_matches :: "string option \<Rightarrow> string \<Rightarrow> bool" where
  "org_unit_matches user_path configured =
     (if \<not> truthy user_path then False
      else
        (let target = normalize_org_unit_path configured; path = normalize_org_unit_path (the user_path)
         in if target = ''/'' then True else path = target \<or> prefix (target @ ''/'') path))"

definition resolve_ou_scoped_emails :: "report_tables \<Rightarrow> string list \<Rightarrow> string list" where
  "resolve_ou_scoped_emails db granted =
     (if granted = [] then []
      else map ru_email (filter (\<lambda>u. list_ex (org_unit_matches (ru_org_unit_path u)) granted) (rt_users db)))"

subsection \<open>Groups and dictionaries\<close>

definition group_rows :: "('a \<Rightarrow> 'k) \<Rightarrow> 'a list \<Rightarrow> ('k \<times> 'a list) list" where
  "group_rows key rows = map (\<lambda>k. (k, filter (\<lambda>r. key r = k) rows)) (rev (remdups (rev (map key rows))))"

text \<open>\<open>d.setdefault(k, empty)\<close> and an update of that entry.\<close>

fun dict_upsert :: "'k \<Rightarrow> 'v \<Rightarrow> ('v \<Rightarrow> 'v) \<Rightarrow> ('k, 'v) dict \<Rightarrow> ('k, 'v) dict" where
  "dict_upsert k v0 f [] = [(k, f v0)]"
| "dict_upsert k v0 f ((k', v) # d) = (if k' = k then (k', f v) # d else (k', v) # dict_upsert k v0 f d)"

definition sum_of :: "('a \<Rightarrow> 'b :: comm_monoid_add) \<Rightarrow> 'a list \<Rightarrow> 'b" where
  "sum_of f xs = sum_list (map f xs)"

lemma sum_of_simps [simp]:
  "sum_of f [] = 0" "sum_of f (x # xs) = f x + sum_of f xs" "sum_of f (xs @ ys) = sum_of f xs + sum_of f ys"
  by (simp_all add: sum_of_def)

lemma sum_of_cong [fundef_cong]: "xs = ys \<Longrightarrow> (\<And>x. x \<in> set ys \<Longrightarrow> f x = g x) \<Longrightarrow> sum_of f xs = sum_of g ys"
  by (simp add: sum_of_def cong: map_cong)

lemma sum_of_map: "sum_of f (map g xs) = sum_of (\<lambda>x. f (g x)) xs"
  by (simp add: sum_of_def comp_def)

lemma sum_of_add: "sum_of (\<lambda>x. f x + g x) xs = sum_of f xs + sum_of g xs"
  by (induction xs) (auto simp: ac_simps)

lemma sum_of_filter: "sum_of f (filter P xs) = sum_of (\<lambda>x. if P x then f x else 0) xs"
  by (induction xs) auto

text \<open>Splitting rows into groups loses nothing.\<close>

lemma sum_over_keys:
  assumes "finite K" "key ` set xs \<subseteq> K"
  shows "(\<Sum>k\<in>K. sum_of f (filter (\<lambda>x. key x = k) xs)) = sum_of f xs"
  using assms(2)
proof (induction xs)
  case (Cons x xs)
  then have "(\<Sum>k\<in>K. if key x = k then f x else 0) = f x" using assms(1) by simp
  moreover have "(\<Sum>k\<in>K. sum_of f (filter (\<lambda>y. key y = k) (x # xs))) =
      (\<Sum>k\<in>K. if key x = k then f x else 0) + (\<Sum>k\<in>K. sum_of f (filter (\<lambda>y. key y = k) xs))"
    by (simp flip: sum.distrib) (rule sum.cong; simp)
  ultimately show ?case using Cons by simp
qed simp

lemma group_rows_sum: "sum_of (\<lambda>(k, rows). sum_of f rows) (group_rows key xs) = sum_of f xs"
proof -
  have "sum_of (\<lambda>(k, rows). sum_of f rows) (group_rows key xs) =
      (\<Sum>k\<in>key ` set xs. sum_of f (filter (\<lambda>x. key x = k) xs))"
    by (simp add: group_rows_def sum_of_map) (simp add: sum_of_def sum_list_distinct_conv_sum_set)
  then show ?thesis using sum_over_keys [of "key ` set xs" key xs f] by simp
qed

lemma group_rows_keys: "distinct (map fst (group_rows key xs))" "fst ` set (group_rows key xs) = key ` set xs"
  by (auto simp: group_rows_def comp_def image_image)

lemma dict_upsert_sum:
  assumes "m v0 = 0" "\<And>v. m (f v) = m v + w"
  shows "sum_of (\<lambda>(k, v). m v) (dict_upsert k v0 f d) = sum_of (\<lambda>(k, v). m v) d + w"
  using assms by (induction d) (auto simp: ac_simps)

lemma dict_upsert_keys: "fst ` set (dict_upsert k v0 f d) = insert k (fst ` set d)"
  by (induction k v0 f d rule: dict_upsert.induct) auto

subsection \<open>Totals\<close>

definition pages :: "job \<Rightarrow> int" where
  "pages j = int_or_zero (job_page_count j)"

record summary_totals =
  sm_total_jobs :: int
  sm_forwarded_jobs :: int
  sm_failed_jobs :: int
  sm_cancelled_jobs :: int
  sm_total_pages :: int
  sm_color_pages :: int
  sm_mono_pages :: int
  sm_unknown_color_mode_pages :: int
  sm_duplex_pages :: int
  sm_simplex_pages :: int
  sm_unknown_duplex_pages :: int

text \<open>\<open>count().filter(P)\<close> and \<open>sum(x).filter(P)\<close>, null on no rows read as 0.\<close>

definition count_if :: "('a \<Rightarrow> bool) \<Rightarrow> 'a list \<Rightarrow> int" where
  "count_if P xs = int (length (filter P xs))"

definition sum_if :: "('a \<Rightarrow> bool) \<Rightarrow> ('a \<Rightarrow> int) \<Rightarrow> 'a list \<Rightarrow> int" where
  "sum_if P f xs = sum_of f (filter P xs)"

definition get_summary :: "report_filters \<Rightarrow> report_tables \<Rightarrow> summary_totals" where
  "get_summary f db =
     (let jobs = map fst (apply_filters f db)
      in \<lparr>sm_total_jobs = int (length jobs),
          sm_forwarded_jobs = count_if (\<lambda>j. job_status j = ''forwarded'') jobs,
          sm_failed_jobs = count_if (\<lambda>j. job_status j = ''failed'') jobs,
          sm_cancelled_jobs = count_if (\<lambda>j. job_status j = ''cancelled'') jobs,
          sm_total_pages = sum_of pages jobs,
          sm_color_pages = sum_if (\<lambda>j. job_color_mode j = Some ''color'') pages jobs,
          sm_mono_pages = sum_if (\<lambda>j. job_color_mode j = Some ''monochrome'') pages jobs,
          sm_unknown_color_mode_pages = sum_if (\<lambda>j. job_color_mode j = None) pages jobs,
          sm_duplex_pages = sum_if (\<lambda>j. job_duplex j = Some True) pages jobs,
          sm_simplex_pages = sum_if (\<lambda>j. job_duplex j = Some False) pages jobs,
          sm_unknown_duplex_pages = sum_if (\<lambda>j. job_duplex j = None) pages jobs\<rparr>)"

record raw_row =
  raw_created_at :: datetime
  raw_page_count :: int
  raw_color_mode :: "string option"
  raw_duplex :: "bool option"

definition fetch_raw_rows :: "report_filters \<Rightarrow> report_tables \<Rightarrow> raw_row list" where
  "fetch_raw_rows f db =
     map (\<lambda>(j, p). \<lparr>raw_created_at = job_created_at j, raw_page_count = pages j,
       raw_color_mode = job_color_mode j, raw_duplex = job_duplex j\<rparr>) (apply_filters f db)"

subsection \<open>Timelines\<close>

record page_bucket =
  pb_pages :: int
  pb_color :: int
  pb_mono :: int
  pb_duplex :: int
  pb_simplex :: int
  pb_jobs :: int

definition empty_bucket :: page_bucket where
  "empty_bucket = \<lparr>pb_pages = 0, pb_color = 0, pb_mono = 0, pb_duplex = 0, pb_simplex = 0, pb_jobs = 0\<rparr>"

definition count_row :: "raw_row \<Rightarrow> page_bucket \<Rightarrow> page_bucket" where
  "count_row r b =
     (let n = raw_page_count r in
      b\<lparr>pb_jobs := pb_jobs b + 1, pb_pages := pb_pages b + n,
        pb_color := pb_color b + (if raw_color_mode r = Some ''color'' then n else 0),
        pb_mono := pb_mono b + (if raw_color_mode r = Some ''monochrome'' then n else 0),
        pb_duplex := pb_duplex b + (if raw_duplex r = Some True then n else 0),
        pb_simplex := pb_simplex b + (if raw_duplex r = Some False then n else 0)\<rparr>)"

definition bucket_key :: "(datetime \<Rightarrow> datetime) \<Rightarrow> string \<Rightarrow> datetime \<Rightarrow> date_error + date" where
  "bucket_key local granularity t =
     (let d = date_of (local t) in
      if granularity = ''day'' then Inr d
      else if granularity = ''week'' then
        (let n = toordinal d - weekday d
         in if n < 1 then Inl (ValueError ''ordinal must be >= 1'') else Inr (fromordinal n))
      else if granularity = ''month'' then mk_date (yr d) (mon d) 1
      else Inl (ValueError ''Unknown granularity''))"

fun fill_timeline ::
  "(datetime \<Rightarrow> datetime) \<Rightarrow> string \<Rightarrow> raw_row list \<Rightarrow> (date, page_bucket) dict \<Rightarrow>
   date_error + (date, page_bucket) dict" where
  "fill_timeline local granularity [] buckets = Inr buckets"
| "fill_timeline local granularity (r # rows) buckets =
     (case bucket_key local granularity (raw_created_at r) of
        Inl e \<Rightarrow> Inl e
      | Inr key \<Rightarrow> fill_timeline local granularity rows (dict_upsert key empty_bucket (count_row r) buckets))"

definition get_timeline ::
  "(datetime \<Rightarrow> datetime) \<Rightarrow> string \<Rightarrow> report_filters \<Rightarrow> report_tables \<Rightarrow> date_error + (date, page_bucket) dict" where
  "get_timeline local granularity f db =
     (case fill_timeline local granularity (fetch_raw_rows f db) [] of
        Inl e \<Rightarrow> Inl e | Inr buckets \<Rightarrow> Inr (sort_key fst buckets))"

definition LIVE_INTERVAL_MINUTES :: int where
  "LIVE_INTERVAL_MINUTES = 30"

record hourly_bucket =
  hb_prints :: page_bucket
  hb_copy_pages :: int
  hb_copy_count :: int

definition fetch_raw_copy_rows :: "datetime \<Rightarrow> datetime \<Rightarrow> report_tables \<Rightarrow> (datetime \<times> int) list" where
  "fetch_raw_copy_rows s e db =
     map (\<lambda>(u, d). (COPY_INSTANT u, int_or_zero (cu_page_count u)))
       (filter (\<lambda>(u, d). cu_activity u = ''copy'' \<and> cu_page_count u \<noteq> None)
         (apply_copier_filters (no_filters\<lparr>rf_start := Some s, rf_end := Some e\<rparr>) db))"

text \<open>\<open>buckets.get(i)\<close> and an update of the bucket it found.\<close>

definition bucket_update :: "int \<Rightarrow> ('v \<Rightarrow> 'v) \<Rightarrow> (int, 'v) dict \<Rightarrow> (int, 'v) dict" where
  "bucket_update i f buckets = map (\<lambda>(k, v). (k, if k = i then f v else v)) buckets"

definition get_hourly_timeline :: "datetime \<Rightarrow> datetime \<Rightarrow> report_tables \<Rightarrow> (int, hourly_bucket) dict" where
  "get_hourly_timeline s e db =
     (let interval = minutes LIVE_INTERVAL_MINUTES;
          count = max 1 ((e - s) div interval);
          buckets = map (\<lambda>i. (i, \<lparr>hb_prints = empty_bucket, hb_copy_pages = 0, hb_copy_count = 0\<rparr>)) [0..count - 1];
          buckets = foldl (\<lambda>bs r. bucket_update ((raw_created_at r - s) div interval)
              (\<lambda>b. b\<lparr>hb_prints := count_row r (hb_prints b)\<rparr>) bs) buckets
            (fetch_raw_rows (no_filters\<lparr>rf_start := Some s, rf_end := Some e\<rparr>) db)
      in foldl (\<lambda>bs (t, n). bucket_update ((t - s) div interval)
              (\<lambda>b. b\<lparr>hb_copy_count := hb_copy_count b + 1, hb_copy_pages := hb_copy_pages b + n\<rparr>) bs) buckets
            (fetch_raw_copy_rows s e db))"

record peak_times =
  pt_by_day_of_week :: "(int, int) dict"
  pt_by_hour :: "(int, int) dict"

definition get_peak_times :: "(datetime \<Rightarrow> datetime) \<Rightarrow> report_filters \<Rightarrow> report_tables \<Rightarrow> peak_times" where
  "get_peak_times local f db =
     foldl (\<lambda>pt r. let t = local (raw_created_at r); add = (\<lambda>n. n + raw_page_count r) in
         \<lparr>pt_by_day_of_week = dict_upsert (weekday (date_of t)) 0 add (pt_by_day_of_week pt),
          pt_by_hour = dict_upsert (t mod days 1 div hours 1) 0 add (pt_by_hour pt)\<rparr>)
       \<lparr>pt_by_day_of_week = [], pt_by_hour = []\<rparr> (fetch_raw_rows f db)"

subsection \<open>Leaderboards\<close>

record leaderboard_entry =
  le_key :: string
  le_label :: string
  le_job_count :: int
  le_total_pages :: int

text \<open>\<open>LIMIT n\<close> of a limit that is not negative, and the slice \<open>[:n]\<close>.\<close>

definition sql_limit :: "int \<Rightarrow> 'a list \<Rightarrow> 'a list" where
  "sql_limit n xs = take (nat n) xs"

definition py_slice_to :: "int \<Rightarrow> 'a list \<Rightarrow> 'a list" where
  "py_slice_to n xs = take (nat (if n < 0 then int (length xs) + n else n)) xs"

definition descending :: "('a \<Rightarrow> int) \<Rightarrow> 'a list \<Rightarrow> 'a list" where
  "descending f xs = sort_key (\<lambda>x. - f x) xs"

definition get_printer_leaderboard :: "int \<Rightarrow> report_filters \<Rightarrow> report_tables \<Rightarrow> leaderboard_entry list" where
  "get_printer_leaderboard limit f db =
     sql_limit limit (descending le_job_count
       (map (\<lambda>((pid, name), rows). \<lparr>le_key = pid, le_label = name, le_job_count = int (length rows),
           le_total_pages = sum_of (pages \<circ> fst) rows\<rparr>)
         (group_rows (\<lambda>(j, p). (job_printer_id j, printer_name p)) (apply_filters f db))))"

definition get_user_leaderboard :: "int \<Rightarrow> report_filters \<Rightarrow> report_tables \<Rightarrow> leaderboard_entry list" where
  "get_user_leaderboard limit f db =
     sql_limit limit (descending le_job_count
       (map (\<lambda>(user, rows). \<lparr>le_key = the user, le_label = the user, le_job_count = int (length rows),
           le_total_pages = sum_of (pages \<circ> fst) rows\<rparr>)
         (group_rows (\<lambda>(j, p). job_submitted_by j)
           (filter (\<lambda>(j, p). job_submitted_by j \<noteq> None) (apply_filters f db)))))"

subsection \<open>Walk-up copying\<close>

definition copy_pages_of :: "copy_row \<Rightarrow> int" where
  "copy_pages_of u = int_or_zero (cu_page_count u)"

record copy_totals =
  ct_records :: int
  ct_pages :: int
  ct_color :: int
  ct_mono :: int
  ct_scan :: int
  ct_fax :: int

definition get_copier_usage_totals :: "report_filters \<Rightarrow> report_tables \<Rightarrow> (string, copy_totals) dict" where
  "get_copier_usage_totals f db =
     map (\<lambda>(email, rows).
         let copies = filter (\<lambda>u. cu_activity u = ''copy'') rows in
         (the email, \<lparr>ct_records = int (length copies), ct_pages = sum_of copy_pages_of copies,
            ct_color = sum_of (\<lambda>u. int_or_zero (cu_color_page_count u)) copies,
            ct_mono = sum_of (\<lambda>u. int_or_zero (cu_monochrome_page_count u)) copies,
            ct_scan = sum_if (\<lambda>u. cu_activity u = ''scan'') copy_pages_of rows,
            ct_fax = sum_if (\<lambda>u. cu_activity u = ''fax'') copy_pages_of rows\<rparr>))
       (group_rows cu_staff_email
         (filter (\<lambda>u. cu_staff_email u \<noteq> None) (map fst (apply_copier_filters f db))))"

definition get_unmapped_copier_activity_count :: "report_filters \<Rightarrow> report_tables \<Rightarrow> int" where
  "get_unmapped_copier_activity_count f db =
     count_if (\<lambda>(u, d). cu_staff_email u = None) (apply_copier_filters f db)"

record copier_activity =
  ca_device_id :: uuid
  ca_device_name :: string
  ca_copy :: int
  ca_scan :: int
  ca_fax :: int
  ca_from_default_owner :: bool

definition get_copier_activity_by_device :: "report_filters \<Rightarrow> report_tables \<Rightarrow> copier_activity list" where
  "get_copier_activity_by_device f db =
     map (\<lambda>((i, name), rows).
         let part = (\<lambda>kind. sum_if (\<lambda>(u, d). cu_activity u = kind) (copy_pages_of \<circ> fst) rows) in
         \<lparr>ca_device_id = i, ca_device_name = name, ca_copy = part ''copy'', ca_scan = part ''scan'',
          ca_fax = part ''fax'',
          ca_from_default_owner = list_ex (\<lambda>(u, d). cu_source_connector u = ''device_default_owner'') rows\<rparr>)
       (group_rows (\<lambda>(u, d). (cu_device u, md_name d)) (apply_copier_filters f db))"

subsection \<open>Printing and copying together\<close>

record combined_summary =
  cs_print_pages :: int
  cs_copy_pages :: int
  cs_scan_pages :: int
  cs_fax_pages :: int
  cs_total_pages :: int
  cs_unmapped :: int

definition get_combined_summary :: "report_filters \<Rightarrow> report_tables \<Rightarrow> combined_summary" where
  "get_combined_summary f db =
     (let print_pages = sm_total_pages (get_summary f db);
          copies = map snd (get_copier_usage_totals f db)
      in \<lparr>cs_print_pages = print_pages, cs_copy_pages = sum_of ct_pages copies, cs_scan_pages = sum_of ct_scan copies,
          cs_fax_pages = sum_of ct_fax copies, cs_total_pages = print_pages + sum_of ct_pages copies,
          cs_unmapped = get_unmapped_copier_activity_count f db\<rparr>)"

text \<open>\<open>SELECT lower(x) \<dots> UNION SELECT lower(y) \<dots>\<close>, counted.\<close>

definition count_contributors :: "(string \<Rightarrow> string) \<Rightarrow> report_filters \<Rightarrow> report_tables \<Rightarrow> int" where
  "count_contributors lower f db =
     int (length (remdups
       (map (\<lambda>(j, p). lower (the (job_submitted_by j)))
          (filter (\<lambda>(j, p). job_submitted_by j \<noteq> None) (apply_filters f db)) @
        map (\<lambda>(u, d). lower (the (cu_staff_email u)))
          (filter (\<lambda>(u, d). cu_staff_email u \<noteq> None \<and> cu_activity u = ''copy'') (apply_copier_filters f db)))))"

definition get_largest_job_pages :: "report_filters \<Rightarrow> report_tables \<Rightarrow> int option" where
  "get_largest_job_pages f db =
     (case List.map_filter (\<lambda>(j, p). job_page_count j) (apply_filters f db) of [] \<Rightarrow> None | n # ns \<Rightarrow> Some (foldl max n ns))"

definition pages_by_person :: "(string \<Rightarrow> string) \<Rightarrow> report_filters \<Rightarrow> report_tables \<Rightarrow> (string, int) dict" where
  "pages_by_person lower f db =
     (let prints = map (\<lambda>(email, rows). (email, sum_of (pages \<circ> fst) rows))
            (group_rows (\<lambda>(j, p). lower (the (job_submitted_by j)))
              (filter (\<lambda>(j, p). job_submitted_by j \<noteq> None) (apply_filters f db)));
          copies = map (\<lambda>(email, rows). (email, sum_of (copy_pages_of \<circ> fst) rows))
            (group_rows (\<lambda>(u, d). lower (the (cu_staff_email u)))
              (filter (\<lambda>(u, d). cu_staff_email u \<noteq> None \<and> cu_activity u = ''copy'') (apply_copier_filters f db)))
      in foldl (\<lambda>totals (email, n). dict_upsert email 0 (\<lambda>t. t + n) totals) [] (prints @ copies))"

definition get_pages_per_person :: "(string \<Rightarrow> string) \<Rightarrow> report_filters \<Rightarrow> report_tables \<Rightarrow> int list" where
  "get_pages_per_person lower f db = sort (map snd (pages_by_person lower f db))"

record combined_entry =
  ce_key :: string
  ce_label :: string
  ce_print_pages :: int
  ce_copy_pages :: int
  ce_total_pages :: int
  ce_color_pages :: int
  ce_mono_pages :: int
  ce_duplex_pages :: int
  ce_simplex_pages :: int
  ce_copy_color_pages :: int
  ce_copy_mono_pages :: int
  ce_scan_pages :: int
  ce_fax_pages :: int

definition no_entry :: "string \<Rightarrow> combined_entry" where
  "no_entry email = \<lparr>ce_key = email, ce_label = email, ce_print_pages = 0, ce_copy_pages = 0, ce_total_pages = 0,
     ce_color_pages = 0, ce_mono_pages = 0, ce_duplex_pages = 0, ce_simplex_pages = 0, ce_copy_color_pages = 0,
     ce_copy_mono_pages = 0, ce_scan_pages = 0, ce_fax_pages = 0\<rparr>"

definition get_all_user_print_totals :: "report_filters \<Rightarrow> report_tables \<Rightarrow> (string, combined_entry) dict" where
  "get_all_user_print_totals f db =
     map (\<lambda>(user, rows).
         let jobs = map fst rows; email = the user in
         (email, (no_entry email)\<lparr>ce_print_pages := sum_of pages jobs, ce_total_pages := sum_of pages jobs,
            ce_color_pages := sum_if (\<lambda>j. job_color_mode j = Some ''color'') pages jobs,
            ce_mono_pages := sum_if (\<lambda>j. job_color_mode j = Some ''monochrome'') pages jobs,
            ce_duplex_pages := sum_if (\<lambda>j. job_duplex j = Some True) pages jobs,
            ce_simplex_pages := sum_if (\<lambda>j. job_duplex j = Some False) pages jobs\<rparr>))
       (group_rows (\<lambda>(j, p). job_submitted_by j)
         (filter (\<lambda>(j, p). job_submitted_by j \<noteq> None) (apply_filters f db)))"

definition resolve_display_names :: "report_tables \<Rightarrow> string \<Rightarrow> string" where
  "resolve_display_names db email =
     (case find (\<lambda>u. ru_email u = email) (rev (rt_users db)) of
        Some u \<Rightarrow> if truthy (ru_name u) then the (ru_name u) else takeWhile (\<lambda>c. c \<noteq> CHR ''@'') email
      | None \<Rightarrow> takeWhile (\<lambda>c. c \<noteq> CHR ''@'') email)"

definition resolve_device_names :: "report_tables \<Rightarrow> string \<Rightarrow> string" where
  "resolve_device_names db mac =
     (let named = (\<lambda>devices. map_of (rev (filter (\<lambda>(m, name). truthy name) devices)) mac) in
      case named (rt_mosyle_devices db) of
        Some name \<Rightarrow> the name
      | None \<Rightarrow> (case named (rt_google_devices db) of Some name \<Rightarrow> the name | None \<Rightarrow> mac))"

definition add_copies :: "copy_totals \<Rightarrow> combined_entry \<Rightarrow> combined_entry" where
  "add_copies c e = e\<lparr>ce_copy_pages := ct_pages c, ce_copy_color_pages := ct_color c, ce_copy_mono_pages := ct_mono c,
     ce_scan_pages := ct_scan c, ce_fax_pages := ct_fax c, ce_total_pages := ce_total_pages e + ct_pages c\<rparr>"

definition get_combined_user_leaderboard :: "int \<Rightarrow> report_filters \<Rightarrow> report_tables \<Rightarrow> combined_entry list" where
  "get_combined_user_leaderboard limit f db =
     (let merged = foldl (\<lambda>d (email, c). dict_upsert email (no_entry email) (add_copies c) d)
            (get_all_user_print_totals f db) (get_copier_usage_totals f db)
      in py_slice_to limit (descending ce_total_pages
           (map (\<lambda>(email, e). e\<lparr>ce_label := resolve_display_names db email\<rparr>) merged)))"

subsection \<open>The timelines and the totals\<close>

lemma sum_of_sort [simp]: "sum_of f (sort_key k xs) = sum_of f xs"
  by (simp add: sum_of_def flip: sum_mset_sum_list)

lemma sum_if_def': "sum_if P f xs = sum_of (\<lambda>x. if P x then f x else 0) xs"
  by (simp add: sum_if_def sum_of_filter)

lemma sum_of_ones: "sum_of (\<lambda>x. 1) xs = int (length xs)"
  by (induction xs) auto

lemma length_raw [simp]: "length (fetch_raw_rows f db) = length (apply_filters f db)"
  by (simp add: fetch_raw_rows_def)

lemma fill_timeline_sum:
  assumes "m empty_bucket = 0" "\<And>r b. m (count_row r b) = m b + w r"
  shows "fill_timeline local g rows buckets = Inr buckets' \<Longrightarrow>
    sum_of (\<lambda>(k, b). m b) buckets' = sum_of (\<lambda>(k, b). m b) buckets + sum_of w rows"
proof (induction rows arbitrary: buckets)
  case (Cons r rows)
  then obtain key where key: "fill_timeline local g rows (dict_upsert key empty_bucket (count_row r) buckets) = Inr buckets'"
    by (auto split: sum.splits)
  have "sum_of (\<lambda>(k, b). m b) (dict_upsert key empty_bucket (count_row r) buckets) = sum_of (\<lambda>(k, b). m b) buckets + w r"
    by (rule dict_upsert_sum) (simp_all add: assms)
  with Cons.IH [OF key] show ?case by (simp add: ac_simps)
qed simp

lemma timeline_sum:
  assumes "get_timeline local g f db = Inr buckets" "m empty_bucket = 0" "\<And>r b. m (count_row r b) = m b + w r"
  shows "sum_of (\<lambda>(k, b). m b) buckets = sum_of w (fetch_raw_rows f db)"
proof -
  obtain bs where bs: "fill_timeline local g (fetch_raw_rows f db) [] = Inr bs" "buckets = sort_key fst bs"
    using assms(1) by (auto simp: get_timeline_def split: sum.splits)
  with fill_timeline_sum [of m w, OF assms(2,3) bs(1)] show ?thesis by simp
qed

lemma sum_of_raw: "sum_of w (fetch_raw_rows f db) =
    sum_of (\<lambda>j. w \<lparr>raw_created_at = job_created_at j, raw_page_count = pages j, raw_color_mode = job_color_mode j,
      raw_duplex = job_duplex j\<rparr>) (map fst (apply_filters f db))"
  by (simp add: fetch_raw_rows_def sum_of_map case_prod_beta)

text \<open>
  C34: the chart and the figures above it agree: whatever the granularity, the time zone and the
  filters, the buckets of the timeline add up to the summary in every column they share.
\<close>

theorem timeline_adds_up_to_the_summary:
  assumes "get_timeline local granularity f db = Inr buckets"
  shows "map (\<lambda>m. sum_of (\<lambda>(day, b). m b) buckets) [pb_jobs, pb_pages, pb_color, pb_mono, pb_duplex, pb_simplex] =
    map (\<lambda>m. m (get_summary f db))
      [sm_total_jobs, sm_total_pages, sm_color_pages, sm_mono_pages, sm_duplex_pages, sm_simplex_pages]"
  using timeline_sum [OF assms, of pb_jobs "\<lambda>r. 1"] timeline_sum [OF assms, of pb_pages raw_page_count]
    timeline_sum [OF assms, of pb_color "\<lambda>r. if raw_color_mode r = Some ''color'' then raw_page_count r else 0"]
    timeline_sum [OF assms, of pb_mono "\<lambda>r. if raw_color_mode r = Some ''monochrome'' then raw_page_count r else 0"]
    timeline_sum [OF assms, of pb_duplex "\<lambda>r. if raw_duplex r = Some True then raw_page_count r else 0"]
    timeline_sum [OF assms, of pb_simplex "\<lambda>r. if raw_duplex r = Some False then raw_page_count r else 0"]
  by (simp add: sum_of_raw get_summary_def Let_def empty_bucket_def count_row_def sum_if_def' sum_of_ones cong: if_cong)

lemma peak_times_sums:
  "(let pt' = foldl (\<lambda>pt r. let t = local (raw_created_at r); add = (\<lambda>n. n + raw_page_count r) in
         \<lparr>pt_by_day_of_week = dict_upsert (weekday (date_of t)) 0 add (pt_by_day_of_week pt),
          pt_by_hour = dict_upsert (t mod days 1 div hours 1) 0 add (pt_by_hour pt)\<rparr>) pt rows in
    sum_of snd (pt_by_day_of_week pt') = sum_of snd (pt_by_day_of_week pt) + sum_of raw_page_count rows \<and>
    sum_of snd (pt_by_hour pt') = sum_of snd (pt_by_hour pt) + sum_of raw_page_count rows)"
proof (induction rows arbitrary: pt)
  case (Cons r rows)
  have "sum_of snd (dict_upsert k 0 (\<lambda>n. n + raw_page_count r) d) = sum_of snd d + raw_page_count r" for k :: int and d
    using dict_upsert_sum [of "\<lambda>n. n" 0 "\<lambda>n. n + raw_page_count r" "raw_page_count r" k d] by (simp add: case_prod_unfold)
  with Cons.IH show ?case by (simp add: Let_def)
qed simp

text \<open>
  The busiest hours and the busiest days are two splits of the same pages: both add up to the
  total the summary reports.
\<close>

theorem peak_times_split_the_total:
  "sum_of snd (pt_by_hour (get_peak_times local f db)) = sm_total_pages (get_summary f db) \<and>
   sum_of snd (pt_by_day_of_week (get_peak_times local f db)) = sm_total_pages (get_summary f db)"
  using peak_times_sums [of local "\<lparr>pt_by_day_of_week = [], pt_by_hour = []\<rparr>" "fetch_raw_rows f db"]
  by (simp add: get_peak_times_def Let_def get_summary_def sum_of_raw)

subsection \<open>People\<close>

lemma fold_upsert_keys:
  "fst ` set (foldl (\<lambda>totals (k, n). dict_upsert k z (g n) totals) d xs) = fst ` set d \<union> fst ` set xs"
proof (induction xs arbitrary: d)
  case (Cons x xs)
  then show ?case by (cases x) (simp add: dict_upsert_keys)
qed simp

lemma dict_upsert_names: "set (map fst (dict_upsert k z f d)) = insert k (set (map fst d))"
  by (simp add: dict_upsert_keys)

lemma dict_upsert_distinct: "distinct (map fst d) \<Longrightarrow> distinct (map fst (dict_upsert k z f d))"
  by (induction k z f d rule: dict_upsert.induct) (auto simp del: set_map simp: dict_upsert_names)

lemma fold_upsert_distinct:
  "distinct (map fst d) \<Longrightarrow> distinct (map fst (foldl (\<lambda>totals (k, n). dict_upsert k z (g n) totals) d xs))"
  by (induction xs arbitrary: d) (auto simp: dict_upsert_distinct split: prod.splits)

lemma fold_upsert_sum:
  assumes "m z = 0" "\<And>n v. m (g n v) = m v + w n"
  shows "sum_of (\<lambda>(k, v). m v) (foldl (\<lambda>totals (k, n). dict_upsert k z (g n) totals) d xs) =
    sum_of (\<lambda>(k, v). m v) d + sum_of (\<lambda>(k, n). w n) xs"
proof (induction xs arbitrary: d)
  case (Cons x xs)
  obtain k n where x: "x = (k, n)" by (cases x)
  have "sum_of (\<lambda>(k, v). m v) (dict_upsert k z (g n) d) = sum_of (\<lambda>(k, v). m v) d + w n"
    by (rule dict_upsert_sum) (simp_all add: assms)
  with Cons [of "dict_upsert k z (g n) d"] x show ?case by (simp add: ac_simps)
qed simp

lemma pages_per_person_count:
  "int (length (get_pages_per_person lower f db)) = count_contributors lower f db"
proof -
  let ?totals = "pages_by_person lower f db"
  have "distinct (map fst ?totals)" by (simp add: pages_by_person_def Let_def fold_upsert_distinct)
  then have "length ?totals = card (fst ` set ?totals)" using distinct_card by fastforce
  also have "fst ` set ?totals = set
      (map (\<lambda>(j, p). lower (the (job_submitted_by j)))
          (filter (\<lambda>(j, p). job_submitted_by j \<noteq> None) (apply_filters f db)) @
        map (\<lambda>(u, d). lower (the (cu_staff_email u)))
          (filter (\<lambda>(u, d). cu_staff_email u \<noteq> None \<and> cu_activity u = ''copy'') (apply_copier_filters f db)))"
    unfolding pages_by_person_def Let_def fold_upsert_keys
    by (simp add: image_Un image_image case_prod_unfold) (simp add: group_rows_keys image_image case_prod_unfold)
  finally show ?thesis by (simp add: get_pages_per_person_def count_contributors_def length_remdups_card_conv)
qed

text \<open>
  The population the district's statistics are computed from is the one its floor counts:
  one figure per distinct contributor, whether the person printed, copied or did both.
\<close>

theorem one_figure_per_contributor:
  "int (length (get_pages_per_person lower f db)) = count_contributors lower f db"
  by (rule pages_per_person_count)

subsection \<open>A small district\<close>

definition print_of :: "uuid \<Rightarrow> string \<Rightarrow> int \<Rightarrow> job" where
  "print_of i who n = (job_defaults i ''p1'' 1000)\<lparr>job_submitted_by := Some who, job_status := ''forwarded'',
     job_page_count := Some n\<rparr>"

definition copy_of :: "string \<Rightarrow> int \<Rightarrow> copy_row" where
  "copy_of who n = \<lparr>cu_device = ''d1'', cu_building = None, cu_staff_email = Some who, cu_activity = ''copy'',
     cu_page_count = Some n, cu_color_page_count = None, cu_monochrome_page_count = None, cu_duplex = None,
     cu_occurred_at = None, cu_period_start = None, cu_period_end = None, cu_created_at = 1000,
     cu_source_connector = ''konica''\<rparr>"

definition small_district :: report_tables where
  "small_district = no_tables\<lparr>rt_jobs := [print_of ''j1'' ''teacher@x'' 4, print_of ''j2'' ''head@x'' 100],
     rt_printers := [printer_defaults ''p1'' ''Office''], rt_usage := [copy_of ''head@x'' 500],
     rt_devices := [\<lparr>md_id = ''d1'', md_name = ''Copier'', md_printer_id = None, md_building = None,
       md_last_counter_poll_at = None\<rparr>],
     rt_users := [\<lparr>ru_email = ''teacher@x'', ru_name = None, ru_org_unit_path = Some ''/Staff/North''\<rparr>,
       \<lparr>ru_email = ''head@x'', ru_name = None, ru_org_unit_path = Some ''/Board''\<rparr>]\<rparr>"

lemmas small_district_defs = small_district_def no_tables_def print_of_def copy_of_def job_defaults_def printer_defaults_def

lemma day_buckets_exist: "\<exists>buckets. get_timeline local ''day'' f db = Inr buckets"
proof -
  have "\<exists>buckets. fill_timeline local ''day'' rows d = Inr buckets" for rows d
    by (induction rows arbitrary: d) (auto simp: bucket_key_def Let_def)
  then obtain buckets where "fill_timeline local ''day'' (fetch_raw_rows f db) [] = Inr buckets" by blast
  then show ?thesis by (simp add: get_timeline_def)
qed

theorem timeline_adds_up_to_the_summary_witness:
  "\<exists>buckets. get_timeline id ''day'' no_filters small_district = Inr buckets \<and> sum_of (\<lambda>(day, b). pb_pages b) buckets = 104"
proof -
  obtain buckets where b: "get_timeline id ''day'' no_filters small_district = Inr buckets" using day_buckets_exist by blast
  have "sm_total_pages (get_summary no_filters small_district) = 104"
    by (simp add: get_summary_def Let_def apply_filters_def no_filters_def in_range_def wanted_def small_district_defs pages_def)
  with b timeline_adds_up_to_the_summary [OF b] show ?thesis by simp
qed

end
