(* ===== verification/Report_Costs.thy ===== *)
theory Report_Costs
  imports Report_Queries Complex_Main
begin

section \<open>What printing costs (app/reports/formulas.py, cost_rates.py, coverage_summary.py)\<close>

text \<open>
  Sheets, cartridge rates, the cost of a job and of a copy row, the cost of what a job really put on
  the page, and the accumulators of app/routers/reports.py that add them up per printer, person and
  device.  Money and coverage are rationals where the code has floats; \<open>round\<close> rounds half to even.
\<close>

subsection \<open>Rates\<close>

record formula_values =
  fv_cost_per_page_mono :: rat
  fv_cost_per_page_color :: rat
  fv_sheets_per_tree :: rat
  fv_co2_grams_per_sheet :: rat

definition py_round :: "nat \<Rightarrow> rat \<Rightarrow> rat" where
  "py_round n x = (let (a, b) = quotient_of (x * 10 ^ n) in of_int (round_div a b) / 10 ^ n)"

definition physical_sheets_used :: "int \<Rightarrow> bool option \<Rightarrow> int" where
  "physical_sheets_used page_count duplex = (if duplex = Some True then - ((- page_count) div 2) else page_count)"

record environmental_impact =
  ei_cost_mono :: rat
  ei_cost_color :: rat
  ei_cost_total :: rat
  ei_sheets_of_paper :: int
  ei_duplex_sheets_saved :: int
  ei_trees_used :: rat
  ei_co2_grams :: rat

definition compute_environmental_impact :: "summary_totals \<Rightarrow> formula_values \<Rightarrow> environmental_impact" where
  "compute_environmental_impact summary fv =
     (let mono = of_int (sm_mono_pages summary + sm_unknown_color_mode_pages summary) * fv_cost_per_page_mono fv;
          color = of_int (sm_color_pages summary) * fv_cost_per_page_color fv;
          duplex_sheets = physical_sheets_used (sm_duplex_pages summary) (Some True);
          sheets = duplex_sheets + (sm_simplex_pages summary + sm_unknown_duplex_pages summary)
      in \<lparr>ei_cost_mono = py_round 2 mono, ei_cost_color = py_round 2 color, ei_cost_total = py_round 2 (mono + color),
          ei_sheets_of_paper = sheets, ei_duplex_sheets_saved = sm_duplex_pages summary - duplex_sheets,
          ei_trees_used = (if fv_sheets_per_tree fv \<noteq> 0 then py_round 4 (of_int sheets / fv_sheets_per_tree fv) else 0),
          ei_co2_grams = py_round 1 (of_int sheets * fv_co2_grams_per_sheet fv)\<rparr>)"

record cartridge =
  tc_printer_id :: uuid
  tc_color :: string
  tc_cost :: rat
  tc_yield_pages :: int

record toner_rate =
  tr_mono :: rat
  tr_color :: rat

definition CARTRIDGE_COLORS :: "string list" where
  "CARTRIDGE_COLORS = [''black'', ''cyan'', ''magenta'', ''yellow'']"

text \<open>\<open>{c.color: c for c in cartridges if c.yield_pages > 0}\<close>: the last of a colour counts.\<close>

definition by_color :: "cartridge list \<Rightarrow> string \<Rightarrow> cartridge option" where
  "by_color cartridges color = find (\<lambda>c. tc_color c = color) (rev (filter (\<lambda>c. 0 < tc_yield_pages c) cartridges))"

definition page_rate :: "cartridge \<Rightarrow> rat" where
  "page_rate c = tc_cost c / of_int (tc_yield_pages c)"

definition all_colors :: "cartridge list \<Rightarrow> bool" where
  "all_colors cartridges \<longleftrightarrow> list_all (\<lambda>color. by_color cartridges color \<noteq> None) CARTRIDGE_COLORS"

definition compute_printer_rate :: "cartridge list \<Rightarrow> formula_values \<Rightarrow> toner_rate" where
  "compute_printer_rate cartridges fallback =
     \<lparr>tr_mono = (case by_color cartridges ''black'' of Some c \<Rightarrow> page_rate c | None \<Rightarrow> fv_cost_per_page_mono fallback),
      tr_color = (if all_colors cartridges
        then sum_list (map (\<lambda>color. page_rate (the (by_color cartridges color))) CARTRIDGE_COLORS)
        else fv_cost_per_page_color fallback)\<rparr>"

record channel_rates =
  cr_cyan :: rat
  cr_magenta :: rat
  cr_yellow :: rat
  cr_black :: rat

definition from_cartridges :: "cartridge list \<Rightarrow> channel_rates option" where
  "from_cartridges cartridges =
     (if \<not> all_colors cartridges then None
      else
        let rate = (\<lambda>color. page_rate (the (by_color cartridges color)))
        in Some \<lparr>cr_cyan = rate ''cyan'', cr_magenta = rate ''magenta'', cr_yellow = rate ''yellow'',
                 cr_black = rate ''black''\<rparr>)"

definition cartridges_of :: "cartridge list \<Rightarrow> uuid \<Rightarrow> cartridge list" where
  "cartridges_of table pid = filter (\<lambda>c. tc_printer_id c = pid) table"

definition load_printer_rates :: "cartridge list \<Rightarrow> formula_values \<Rightarrow> uuid \<Rightarrow> toner_rate" where
  "load_printer_rates table fallback pid = compute_printer_rate (cartridges_of table pid) fallback"

definition load_printer_channel_rates :: "cartridge list \<Rightarrow> uuid \<Rightarrow> channel_rates option" where
  "load_printer_channel_rates table pid = from_cartridges (cartridges_of table pid)"

subsection \<open>The cost of a job and of a copy row\<close>

record job_cost =
  jc_toner_cost :: rat
  jc_sheets :: int
  jc_paper_cost :: rat
  jc_total_cost :: rat

definition job_cost :: "int \<Rightarrow> string option \<Rightarrow> bool option \<Rightarrow> toner_rate \<Rightarrow> rat \<Rightarrow> job_cost" where
  "job_cost page_count color_mode duplex rate per_sheet =
     (let toner = of_int page_count * (if color_mode = Some ''color'' then tr_color rate else tr_mono rate);
          sheets = physical_sheets_used page_count duplex; paper = of_int sheets * per_sheet
      in \<lparr>jc_toner_cost = toner, jc_sheets = sheets, jc_paper_cost = paper, jc_total_cost = toner + paper\<rparr>)"

definition copy_cost :: "int \<Rightarrow> int option \<Rightarrow> int option \<Rightarrow> bool option \<Rightarrow> toner_rate \<Rightarrow> rat \<Rightarrow> job_cost" where
  "copy_cost page_count color_count mono_count duplex rate per_sheet =
     (let color = int_or_zero color_count; mono = int_or_zero mono_count; unpriced = max (page_count - color - mono) 0;
          toner = of_int color * tr_color rate + of_int (mono + unpriced) * tr_mono rate;
          sheets = physical_sheets_used page_count duplex; paper = of_int sheets * per_sheet
      in \<lparr>jc_toner_cost = toner, jc_sheets = sheets, jc_paper_cost = paper, jc_total_cost = toner + paper\<rparr>)"

record measured_cost =
  ms_toner_cost :: rat
  ms_ratio :: rat

definition measured_toner_cost ::
  "int \<Rightarrow> string option \<Rightarrow> measured_coverage \<Rightarrow> toner_rate \<Rightarrow> rat \<Rightarrow> channel_rates option \<Rightarrow> measured_cost option" where
  "measured_toner_cost page_count color_mode cov rate baseline channels =
     (if baseline \<le> 0 \<or> page_count \<le> 0 then None
      else
        let n = of_int page_count;
            result = (\<lambda>measured rated. Some \<lparr>ms_toner_cost = measured, ms_ratio = (if rated \<noteq> 0 then measured / rated else 0)\<rparr>)
        in if color_mode \<noteq> Some ''color'' then
             result (tr_mono rate * n * (mc_black cov / baseline)) (tr_mono rate * n)
           else
             result
               (case channels of
                  Some c \<Rightarrow> n * (cr_cyan c * (mc_cyan cov / baseline) + cr_magenta c * (mc_magenta cov / baseline) +
                    cr_yellow c * (mc_yellow cov / baseline) + cr_black c * (mc_black cov / baseline))
                | None \<Rightarrow> n * (tr_color rate / 4) * (mc_cyan cov / baseline + mc_magenta cov / baseline + mc_yellow cov / baseline + mc_black cov / baseline))
               (tr_color rate * n))"

subsection \<open>Rows to be priced (aggregation.py)\<close>

record cost_row =
  cw_printer_id :: uuid
  cw_printer_name :: string
  cw_submitted_by :: "string option"
  cw_mac_address :: "string option"
  cw_page_count :: int
  cw_color_mode :: "string option"
  cw_duplex :: "bool option"
  cw_file_size_bytes :: "int option"
  cw_coverage :: "measured_coverage option"

definition get_cost_raw_rows :: "report_filters \<Rightarrow> report_tables \<Rightarrow> cost_row list" where
  "get_cost_raw_rows f db =
     map (\<lambda>(j, p). \<lparr>cw_printer_id = job_printer_id j, cw_printer_name = printer_name p,
         cw_submitted_by = job_submitted_by j, cw_mac_address = job_mac_address j, cw_page_count = pages j,
         cw_color_mode = job_color_mode j, cw_duplex = job_duplex j, cw_file_size_bytes = job_file_size_bytes j,
         cw_coverage = map_option jc_coverage
           (find (\<lambda>c. jc_job_id c = job_id j \<and> jc_state c = ''measured'') (rt_coverage db))\<rparr>)
       (apply_filters f db)"

record copy_cost_row =
  cc_device_id :: uuid
  cc_device_name :: string
  cc_printer_id :: "uuid option"
  cc_staff_email :: "string option"
  cc_page_count :: int
  cc_color_page_count :: "int option"
  cc_monochrome_page_count :: "int option"
  cc_duplex :: "bool option"

definition get_copy_cost_raw_rows :: "report_filters \<Rightarrow> report_tables \<Rightarrow> copy_cost_row list" where
  "get_copy_cost_raw_rows f db =
     map (\<lambda>(u, d). \<lparr>cc_device_id = cu_device u, cc_device_name = md_name d, cc_printer_id = md_printer_id d,
         cc_staff_email = cu_staff_email u, cc_page_count = copy_pages_of u,
         cc_color_page_count = cu_color_page_count u, cc_monochrome_page_count = cu_monochrome_page_count u,
         cc_duplex = cu_duplex u\<rparr>)
       (filter (\<lambda>(u, d). cu_activity u = ''copy'') (apply_copier_filters f db))"

subsection \<open>How much was measured (coverage_summary.py)\<close>

record completeness =
  cp_measured_jobs :: int
  cp_unmeasured_jobs :: int

definition completeness_total :: "completeness \<Rightarrow> int" where
  "completeness_total c = cp_measured_jobs c + cp_unmeasured_jobs c"

definition completeness_fraction :: "completeness \<Rightarrow> rat" where
  "completeness_fraction c =
     (if completeness_total c = 0 then 0 else of_int (cp_measured_jobs c) / of_int (completeness_total c))"

definition is_representative :: "completeness \<Rightarrow> bool" where
  "is_representative c \<longleftrightarrow> 0 < completeness_total c \<and> 2 / 3 \<le> completeness_fraction c"

definition measured_completeness :: "coverage_row list \<Rightarrow> uuid list \<Rightarrow> completeness" where
  "measured_completeness table job_ids =
     (if job_ids = [] then \<lparr>cp_measured_jobs = 0, cp_unmeasured_jobs = 0\<rparr>
      else
        let measured = count_if (\<lambda>c. jc_job_id c \<in> set job_ids \<and> jc_state c = ''measured'') table
        in \<lparr>cp_measured_jobs = measured, cp_unmeasured_jobs = int (length job_ids) - measured\<rparr>)"

subsection \<open>Adding up (routers/reports.py)\<close>

record cost_accumulator =
  ac_label :: string
  ac_job_count :: int
  ac_page_count :: int
  ac_mono_toner :: rat
  ac_color_toner :: rat
  ac_paper :: rat
  ac_measured_jobs :: int
  ac_measured_toner :: rat
  ac_rated_toner_measured :: rat

definition new_accumulator :: "string \<Rightarrow> cost_accumulator" where
  "new_accumulator label = \<lparr>ac_label = label, ac_job_count = 0, ac_page_count = 0, ac_mono_toner = 0, ac_color_toner = 0,
     ac_paper = 0, ac_measured_jobs = 0, ac_measured_toner = 0, ac_rated_toner_measured = 0\<rparr>"

definition ac_toner :: "cost_accumulator \<Rightarrow> rat" where
  "ac_toner a = ac_mono_toner a + ac_color_toner a"

definition ac_total :: "cost_accumulator \<Rightarrow> rat" where
  "ac_total a = ac_toner a + ac_paper a"

definition ac_coverage :: "cost_accumulator \<Rightarrow> completeness" where
  "ac_coverage a = \<lparr>cp_measured_jobs = ac_measured_jobs a, cp_unmeasured_jobs = ac_job_count a - ac_measured_jobs a\<rparr>"

definition ink_ratio :: "cost_accumulator \<Rightarrow> rat option" where
  "ink_ratio a =
     (if ac_measured_jobs a = 0 \<or> ac_rated_toner_measured a \<le> 0 then None
      else Some (ac_measured_toner a / ac_rated_toner_measured a))"

definition accumulate :: "cost_row \<Rightarrow> job_cost \<Rightarrow> measured_cost option \<Rightarrow> cost_accumulator \<Rightarrow> cost_accumulator" where
  "accumulate row cost measured a =
     (let colored = cw_color_mode row = Some ''color'' in
      a\<lparr>ac_job_count := ac_job_count a + 1, ac_page_count := ac_page_count a + cw_page_count row,
        ac_color_toner := ac_color_toner a + (if colored then jc_toner_cost cost else 0),
        ac_mono_toner := ac_mono_toner a + (if colored then 0 else jc_toner_cost cost),
        ac_paper := ac_paper a + jc_paper_cost cost,
        ac_measured_jobs := ac_measured_jobs a + (if cw_coverage row \<noteq> None then 1 else 0),
        ac_measured_toner := ac_measured_toner a + (case measured of None \<Rightarrow> 0 | Some m \<Rightarrow> ms_toner_cost m),
        ac_rated_toner_measured := ac_rated_toner_measured a + (case measured of None \<Rightarrow> 0 | Some m \<Rightarrow> jc_toner_cost cost)\<rparr>)"

record cost_settings =
  fs_formulas :: formula_values
  fs_cost_per_sheet_paper :: rat
  fs_iso_coverage_per_channel :: rat
  fs_student_count :: int

record cost_groups =
  cg_by_printer :: "(string, cost_accumulator) dict"
  cg_by_user :: "(string, cost_accumulator) dict"
  cg_by_device :: "(string, cost_accumulator) dict"
  cg_overall :: cost_accumulator

definition row_cost :: "cartridge list \<Rightarrow> cost_settings \<Rightarrow> cost_row \<Rightarrow> job_cost" where
  "row_cost table fs row =
     job_cost (cw_page_count row) (cw_color_mode row) (cw_duplex row)
       (load_printer_rates table (fs_formulas fs) (cw_printer_id row)) (fs_cost_per_sheet_paper fs)"

definition row_measured :: "cartridge list \<Rightarrow> cost_settings \<Rightarrow> cost_row \<Rightarrow> measured_cost option" where
  "row_measured table fs row =
     (case cw_coverage row of
        None \<Rightarrow> None
      | Some cov \<Rightarrow> measured_toner_cost (cw_page_count row) (cw_color_mode row) cov
          (load_printer_rates table (fs_formulas fs) (cw_printer_id row)) (fs_iso_coverage_per_channel fs)
          (load_printer_channel_rates table (cw_printer_id row)))"

definition price_row :: "cartridge list \<Rightarrow> cost_settings \<Rightarrow> cost_row \<Rightarrow> cost_groups \<Rightarrow> cost_groups" where
  "price_row table fs row g =
     (let add = accumulate row (row_cost table fs row) (row_measured table fs row);
          optional = (\<lambda>k d. if truthy k then dict_upsert (the k) (new_accumulator (the k)) add d else d)
      in \<lparr>cg_by_printer = dict_upsert (cw_printer_id row) (new_accumulator (cw_printer_name row)) add (cg_by_printer g),
          cg_by_user = optional (cw_submitted_by row) (cg_by_user g),
          cg_by_device = optional (cw_mac_address row) (cg_by_device g),
          cg_overall = add (cg_overall g)\<rparr>)"

definition no_costs :: cost_groups where
  "no_costs = \<lparr>cg_by_printer = [], cg_by_user = [], cg_by_device = [], cg_overall = new_accumulator ''Overall''\<rparr>"

definition relabel :: "(string \<Rightarrow> string) \<Rightarrow> (string, cost_accumulator) dict \<Rightarrow> (string, cost_accumulator) dict" where
  "relabel names d = map (\<lambda>(k, a). (k, a\<lparr>ac_label := names k\<rparr>)) d"

definition compute_cost_accumulators ::
  "cartridge list \<Rightarrow> cost_settings \<Rightarrow> report_filters \<Rightarrow> report_tables \<Rightarrow> cost_groups" where
  "compute_cost_accumulators table fs f db =
     (let g = foldl (\<lambda>g row. price_row table fs row g) no_costs (get_cost_raw_rows f db)
      in g\<lparr>cg_by_user := relabel (resolve_display_names db) (cg_by_user g),
           cg_by_device := relabel (resolve_device_names db) (cg_by_device g)\<rparr>)"

record copy_accumulator =
  ak_label :: string
  ak_page_count :: int
  ak_color_pages :: int
  ak_mono_pages :: int
  ak_unsplit_pages :: int
  ak_sheets :: int
  ak_toner :: rat
  ak_paper :: rat

definition new_copy_accumulator :: "string \<Rightarrow> copy_accumulator" where
  "new_copy_accumulator label = \<lparr>ak_label = label, ak_page_count = 0, ak_color_pages = 0, ak_mono_pages = 0,
     ak_unsplit_pages = 0, ak_sheets = 0, ak_toner = 0, ak_paper = 0\<rparr>"

definition ak_total :: "copy_accumulator \<Rightarrow> rat" where
  "ak_total a = ak_toner a + ak_paper a"

definition measured_color :: "copy_accumulator \<Rightarrow> bool" where
  "measured_color a \<longleftrightarrow> ak_unsplit_pages a = 0 \<or> ak_color_pages a \<noteq> 0 \<or> ak_mono_pages a \<noteq> 0"

definition accumulate_copy :: "copy_cost_row \<Rightarrow> job_cost \<Rightarrow> copy_accumulator \<Rightarrow> copy_accumulator" where
  "accumulate_copy row cost a =
     (let color = int_or_zero (cc_color_page_count row); mono = int_or_zero (cc_monochrome_page_count row) in
      a\<lparr>ak_page_count := ak_page_count a + cc_page_count row, ak_color_pages := ak_color_pages a + color,
        ak_mono_pages := ak_mono_pages a + mono,
        ak_unsplit_pages := ak_unsplit_pages a + max (cc_page_count row - color - mono) 0,
        ak_sheets := ak_sheets a + jc_sheets cost, ak_toner := ak_toner a + jc_toner_cost cost,
        ak_paper := ak_paper a + jc_paper_cost cost\<rparr>)"

record copy_groups =
  kg_by_user :: "(string, copy_accumulator) dict"
  kg_by_device :: "(string, copy_accumulator) dict"
  kg_overall :: copy_accumulator

definition copy_row_cost :: "cartridge list \<Rightarrow> cost_settings \<Rightarrow> copy_cost_row \<Rightarrow> job_cost" where
  "copy_row_cost table fs row =
     (let rate = (case cc_printer_id row of
              None \<Rightarrow> compute_printer_rate [] (fs_formulas fs)
            | Some pid \<Rightarrow> load_printer_rates table (fs_formulas fs) pid)
      in copy_cost (cc_page_count row) (cc_color_page_count row) (cc_monochrome_page_count row) (cc_duplex row)
           rate (fs_cost_per_sheet_paper fs))"

definition price_copy :: "cartridge list \<Rightarrow> cost_settings \<Rightarrow> copy_cost_row \<Rightarrow> copy_groups \<Rightarrow> copy_groups" where
  "price_copy table fs row g =
     (let add = accumulate_copy row (copy_row_cost table fs row); who = cc_staff_email row
      in \<lparr>kg_by_user = (if truthy who then dict_upsert (the who) (new_copy_accumulator (the who)) add (kg_by_user g)
            else kg_by_user g),
          kg_by_device = dict_upsert (cc_device_id row) (new_copy_accumulator (cc_device_name row)) add (kg_by_device g),
          kg_overall = add (kg_overall g)\<rparr>)"

definition no_copy_costs :: copy_groups where
  "no_copy_costs = \<lparr>kg_by_user = [], kg_by_device = [], kg_overall = new_copy_accumulator ''Overall''\<rparr>"

definition compute_copy_cost_accumulators ::
  "cartridge list \<Rightarrow> cost_settings \<Rightarrow> report_filters \<Rightarrow> report_tables \<Rightarrow> copy_groups" where
  "compute_copy_cost_accumulators table fs f db =
     (let g = foldl (\<lambda>g row. price_copy table fs row g) no_copy_costs (get_copy_cost_raw_rows f db)
      in g\<lparr>kg_by_user := map (\<lambda>(k, a). (k, a\<lparr>ak_label := resolve_display_names db k\<rparr>)) (kg_by_user g)\<rparr>)"

subsection \<open>The groups and the whole\<close>

lemma cost_groups_sum:
  assumes "\<And>label. m (new_accumulator label) = 0" "\<And>row c s a. m (accumulate row c s a) = m a + w row c s"
  shows "sum_of (\<lambda>(k, a). m a) (cg_by_printer (foldl (\<lambda>g row. price_row table fs row g) g rows)) + m (cg_overall g) =
    sum_of (\<lambda>(k, a). m a) (cg_by_printer g) + (m (cg_overall (foldl (\<lambda>g row. price_row table fs row g) g rows)) :: 'a :: ab_group_add)"
proof (induction rows arbitrary: g)
  case (Cons row rows)
  have "sum_of (\<lambda>(k, a). m a) (cg_by_printer (price_row table fs row g)) =
      sum_of (\<lambda>(k, a). m a) (cg_by_printer g) + w row (row_cost table fs row) (row_measured table fs row)"
    "m (cg_overall (price_row table fs row g)) = m (cg_overall g) + w row (row_cost table fs row) (row_measured table fs row)"
    using dict_upsert_sum [of m, OF assms(1) assms(2)] by (simp_all add: price_row_def Let_def assms(2))
  with Cons [of "price_row table fs row g"] show ?case by (simp add: algebra_simps)
qed simp

lemma cost_groups_overall:
  assumes "\<And>row c s a. m (accumulate row c s a) = m a + w row"
  shows "m (cg_overall (foldl (\<lambda>g row. price_row table fs row g) g rows)) = m (cg_overall g) + sum_of w rows"
  by (induction rows arbitrary: g) (simp_all add: price_row_def Let_def assms ac_simps)

lemma copy_groups_sum:
  assumes "\<And>label. m (new_copy_accumulator label) = 0" "\<And>row c a. m (accumulate_copy row c a) = m a + w row c"
  shows "sum_of (\<lambda>(k, a). m a) (kg_by_device (foldl (\<lambda>g row. price_copy table fs row g) g rows)) + m (kg_overall g) =
    sum_of (\<lambda>(k, a). m a) (kg_by_device g) + (m (kg_overall (foldl (\<lambda>g row. price_copy table fs row g) g rows)) :: 'a :: ab_group_add)"
proof (induction rows arbitrary: g)
  case (Cons row rows)
  have "sum_of (\<lambda>(k, a). m a) (kg_by_device (price_copy table fs row g)) =
      sum_of (\<lambda>(k, a). m a) (kg_by_device g) + w row (copy_row_cost table fs row)"
    "m (kg_overall (price_copy table fs row g)) = m (kg_overall g) + w row (copy_row_cost table fs row)"
    using dict_upsert_sum [of m, OF assms(1) assms(2)] by (simp_all add: price_copy_def Let_def assms(2))
  with Cons [of "price_copy table fs row g"] show ?case by (simp add: algebra_simps)
qed simp

lemma sum_of_cost_rows:
  "sum_of (\<lambda>r. 1) (get_cost_raw_rows f db) = sm_total_jobs (get_summary f db)"
  "sum_of cw_page_count (get_cost_raw_rows f db) = sm_total_pages (get_summary f db)"
  by (simp_all add: sum_of_ones get_cost_raw_rows_def sum_of_map case_prod_unfold get_summary_def Let_def)


lemma copy_cost_pages:
  "ak_page_count (kg_overall (compute_copy_cost_accumulators table fs f db)) =
     sum_of cc_page_count (get_copy_cost_raw_rows f db)"
proof -
  have "ak_page_count (kg_overall (foldl (\<lambda>g row. price_copy table fs row g) g rows)) =
      ak_page_count (kg_overall g) + sum_of cc_page_count rows" for g rows
    by (induction rows arbitrary: g) (simp_all add: price_copy_def accumulate_copy_def Let_def)
  then show ?thesis by (simp add: compute_copy_cost_accumulators_def Let_def no_copy_costs_def new_copy_accumulator_def)
qed

lemma combined_copy_pages:
  "cs_copy_pages (get_combined_summary f db) =
     sum_of (\<lambda>u. if cu_activity u = ''copy'' \<and> cu_staff_email u \<noteq> None then copy_pages_of u else 0)
       (map fst (apply_copier_filters f db))"
proof -
  let ?rows = "filter (\<lambda>u. cu_staff_email u \<noteq> None) (map fst (apply_copier_filters f db))"
  have "cs_copy_pages (get_combined_summary f db) =
      sum_of (\<lambda>(k, rows). sum_of (\<lambda>u. if cu_activity u = ''copy'' then copy_pages_of u else 0) rows) (group_rows cu_staff_email ?rows)"
    by (simp add: get_combined_summary_def Let_def get_copier_usage_totals_def sum_of_map case_prod_unfold sum_of_filter)
  also have "\<dots> = sum_of (\<lambda>u. if cu_activity u = ''copy'' then copy_pages_of u else 0) ?rows"
    by (rule group_rows_sum)
  also have "\<dots> = sum_of (\<lambda>u. if cu_activity u = ''copy'' \<and> cu_staff_email u \<noteq> None then copy_pages_of u else 0)
      (map fst (apply_copier_filters f db))"
    unfolding sum_of_filter by (rule sum_of_cong) auto
  finally show ?thesis .
qed

text \<open>
  Copies are billed where they were made: the devices' copy costs and pages add up to the
  whole, and the pages priced for a filtered person are the copied pages the combined summary
  reports for that person.
\<close>

theorem copy_bill_agrees_with_the_summary:
  "(let g = compute_copy_cost_accumulators table fs f db; overall = kg_overall g in
      sum_of (\<lambda>(k, a). ak_page_count a) (kg_by_device g) = ak_page_count overall \<and>
      sum_of (\<lambda>(k, a). ak_total a) (kg_by_device g) = ak_total overall \<and>
      ak_page_count overall = cs_copy_pages (get_combined_summary f db) +
        sum_if (\<lambda>(u, d). cu_activity u = ''copy'' \<and> cu_staff_email u = None) (copy_pages_of \<circ> fst) (apply_copier_filters f db))"
proof -
  let ?g = "foldl (\<lambda>g row. price_copy table fs row g) no_copy_costs (get_copy_cost_raw_rows f db)"
  have pages: "sum_of (\<lambda>(k, a). ak_page_count a) (kg_by_device ?g) = ak_page_count (kg_overall ?g)"
    using copy_groups_sum [of ak_page_count "\<lambda>row c. cc_page_count row" table fs no_copy_costs "get_copy_cost_raw_rows f db"]
    by (simp add: accumulate_copy_def Let_def no_copy_costs_def new_copy_accumulator_def)
  have total: "sum_of (\<lambda>(k, a). ak_total a) (kg_by_device ?g) = ak_total (kg_overall ?g)"
    using copy_groups_sum [of ak_total "\<lambda>row c. jc_toner_cost c + jc_paper_cost c" table fs no_copy_costs "get_copy_cost_raw_rows f db"]
    by (simp add: accumulate_copy_def Let_def no_copy_costs_def new_copy_accumulator_def ak_total_def)
  have "sum_of cc_page_count (get_copy_cost_raw_rows f db) = cs_copy_pages (get_combined_summary f db) +
        sum_if (\<lambda>(u, d). cu_activity u = ''copy'' \<and> cu_staff_email u = None) (copy_pages_of \<circ> fst) (apply_copier_filters f db)"
    unfolding combined_copy_pages sum_if_def' get_copy_cost_raw_rows_def sum_of_map sum_of_filter
      sum_of_add [symmetric] by (rule sum_of_cong) (auto split: prod.splits)
  with pages total copy_cost_pages [of table fs f db] show ?thesis
    by (simp add: compute_copy_cost_accumulators_def Let_def)
qed

subsection \<open>Measured and rated\<close>

lemma of_black: "by_color cs ''black'' = Some c \<Longrightarrow> tr_mono (compute_printer_rate cs fv) = page_rate c"
  by (simp add: compute_printer_rate_def)

text \<open>
  A job that covers every page like the manufacturer's test page costs what the rated price
  says, in black and in colour, with a full set of cartridges and without: the measured figures are
  on the scale of the rated ones.
\<close>

theorem a_test_page_costs_its_rated_price:
  assumes "0 < n" "0 < baseline"
    "cov = \<lparr>mc_cyan = baseline, mc_magenta = baseline, mc_yellow = baseline, mc_black = baseline\<rparr>"
    "rate = compute_printer_rate cartridges fallback"
    "rated = jc_toner_cost (job_cost n color_mode duplex rate per_sheet)"
  shows "measured_toner_cost n color_mode cov rate baseline (from_cartridges cartridges) =
    Some \<lparr>ms_toner_cost = rated, ms_ratio = (if rated = 0 then 0 else 1)\<rparr>"
proof (cases "color_mode = Some ''color''")
  case False
  with assms show ?thesis by (simp add: measured_toner_cost_def job_cost_def Let_def mult.commute)
next
  case True
  show ?thesis
  proof (cases "all_colors cartridges")
    case all: True
    then have "tr_color rate = page_rate (the (by_color cartridges ''black'')) + (page_rate (the (by_color cartridges ''cyan'')) +
        (page_rate (the (by_color cartridges ''magenta'')) + page_rate (the (by_color cartridges ''yellow''))))"
      by (simp add: assms(4) compute_printer_rate_def CARTRIDGE_COLORS_def)
    with assms True all show ?thesis
      by (simp add: measured_toner_cost_def job_cost_def Let_def from_cartridges_def algebra_simps)
  next
    case none: False
    with assms True show ?thesis
      by (simp add: measured_toner_cost_def job_cost_def Let_def from_cartridges_def mult.commute)
  qed
qed

theorem a_test_page_costs_its_rated_price_witness:
  "\<exists>m. measured_toner_cost 10 (Some ''color'') \<lparr>mc_cyan = 1 / 20, mc_magenta = 1 / 20, mc_yellow = 1 / 20, mc_black = 1 / 20\<rparr>
     (compute_printer_rate [] \<lparr>fv_cost_per_page_mono = 3 / 100, fv_cost_per_page_color = 1 / 10,
       fv_sheets_per_tree = 8333, fv_co2_grams_per_sheet = 127 / 10\<rparr>) (1 / 20) (from_cartridges []) = Some m \<and>
     ms_toner_cost m = 1 \<and> ms_ratio m = 1"
  using a_test_page_costs_its_rated_price [OF _ _ refl refl refl, where n = 10 and baseline = "1 / 20" and
      color_mode = "Some ''color''" and cartridges = "[]" and duplex = None and per_sheet = 0 and
      fallback = "\<lparr>fv_cost_per_page_mono = 3 / 100, fv_cost_per_page_color = 1 / 10,
       fv_sheets_per_tree = 8333, fv_co2_grams_per_sheet = 127 / 10\<rparr>"]
  by (simp add: job_cost_def Let_def compute_printer_rate_def all_colors_def CARTRIDGE_COLORS_def by_color_def)

subsection \<open>Sheets\<close>

lemma ceil_sum: "sum_of (\<lambda>x. - ((- f x) div 2)) xs \<ge> - ((- sum_of f xs) div (2 :: int)) \<and>
    2 * (sum_of (\<lambda>x. - ((- f x) div 2)) xs) \<le> sum_of f xs + int (length xs)"
proof (induction xs)
  case (Cons x xs)
  then show ?case by (simp) presburger
qed simp


end
