(* ===== verification/Equivalencies.thy ===== *)
theory Equivalencies
  imports Report_Costs
begin

section \<open>What an amount of paper looks like (app/reports/equivalency.py, equivalency_config.py)\<close>

text \<open>
  Sheets from page totals, the milestone ladders and the equivalencies the views show.  Decimal
  constants are the rationals they are written as.
\<close>

subsection \<open>Constants\<close>

definition INCHES_PER_FOOT :: rat where "INCHES_PER_FOOT = 12"
definition FEET_PER_MILE :: rat where "FEET_PER_MILE = 5280"
definition MM_PER_FOOT :: rat where "MM_PER_FOOT = 3048 / 10"
definition PAGE_LENGTH_IN :: rat where "PAGE_LENGTH_IN = 11"
definition SHEET_THICKNESS_MM :: rat where "SHEET_THICKNESS_MM = 1 / 10"
definition LB_PER_100_SHEETS :: rat where "LB_PER_100_SHEETS = 1"
definition SHEETS_PER_REAM :: rat where "SHEETS_PER_REAM = 500"
definition REAMS_PER_CASE :: rat where "REAMS_PER_CASE = 10"
definition SHEETS_PER_TREE :: rat where "SHEETS_PER_TREE = 8333"
definition LITRES_PER_SHEET :: rat where "LITRES_PER_SHEET = 10"
definition CO2_G_PER_SHEET :: rat where "CO2_G_PER_SHEET = 127 / 10"
definition G_PER_MILE_DRIVEN :: rat where "G_PER_MILE_DRIVEN = 400"
definition GUTENBERG_PAGES_PER_DAY :: rat where "GUTENBERG_PAGES_PER_DAY = 250"
definition MIN_CONTRIBUTORS_FOR_DISTRICT_FACTS :: int where "MIN_CONTRIBUTORS_FOR_DISTRICT_FACTS = 10"
definition MIN_MEANINGFUL_VALUE :: rat where "MIN_MEANINGFUL_VALUE = 5 / 100"
definition MIN_MEANINGFUL_PROGRESS :: rat where "MIN_MEANINGFUL_PROGRESS = 1 / 100"

record milestone =
  mi_name :: string
  mi_value :: rat
  mi_short :: "string option"

definition milestone_label :: "milestone \<Rightarrow> string" where
  "milestone_label m = (if truthy (mi_short m) then the (mi_short m) else mi_name m)"

record ladder =
  la_key :: string
  la_unit :: string
  la_rungs :: "milestone list"

definition rung :: "string \<Rightarrow> rat \<Rightarrow> milestone" where
  "rung name v = \<lparr>mi_name = name, mi_value = v, mi_short = None\<rparr>"

definition DISTANCE_LADDER :: ladder where
  "DISTANCE_LADDER = \<lparr>la_key = ''distance'', la_unit = ''feet'', la_rungs =
     [rung ''a lap of the football field'' 1040,
      \<lparr>mi_name = ''a quarter-mile lap of the track'', mi_value = FEET_PER_MILE / 4, mi_short = Some ''a quarter mile''\<rparr>,
      rung ''coast to coast'' (2800 * FEET_PER_MILE),
      \<lparr>mi_name = ''all the way around the Earth'', mi_value = 24901 * FEET_PER_MILE, mi_short = Some ''around the Earth''\<rparr>,
      \<lparr>mi_name = ''all the way to the Moon'', mi_value = 238900 * FEET_PER_MILE, mi_short = Some ''the Moon''\<rparr>]\<rparr>"

definition STACK_LADDER :: ladder where
  "STACK_LADDER = \<lparr>la_key = ''stack_height'', la_unit = ''feet'', la_rungs =
     [rung ''a ream of paper'' (2 / INCHES_PER_FOOT), rung ''a doorway'' (80 / INCHES_PER_FOOT),
      rung ''a basketball hoop'' 10, rung ''a giraffe'' 18, rung ''the Gateway Arch'' 630,
      rung ''the Empire State Building'' 1454, rung ''a cruising airliner'' 35000,
      rung ''the edge of space'' (62 * FEET_PER_MILE)]\<rparr>"

definition WEIGHT_LADDER :: ladder where
  "WEIGHT_LADDER = \<lparr>la_key = ''weight'', la_unit = ''pounds'', la_rungs =
     [rung ''a vending machine'' 600, rung ''a pickup truck'' 5000, rung ''a school bus'' 25000,
      rung ''a blue whale'' 300000]\<rparr>"

subsection \<open>Sheets\<close>

definition half_up :: "int \<Rightarrow> int" where
  "half_up n = - ((- n) div 2)"

definition sheets_from_totals :: "int \<Rightarrow> int \<Rightarrow> int \<Rightarrow> int \<Rightarrow> int" where
  "sheets_from_totals duplex simplex unknown copied =
     half_up (max duplex 0) + (max simplex 0 + max unknown 0 + max copied 0)"

definition duplex_sheets_saved :: "int \<Rightarrow> int" where
  "duplex_sheets_saved duplex = (let n = max duplex 0 in n - half_up n)"

definition sheets_if_all_duplex :: "int \<Rightarrow> int \<Rightarrow> int \<Rightarrow> int" where
  "sheets_if_all_duplex duplex simplex unknown = half_up (max duplex 0 + max simplex 0 + max unknown 0)"

subsection \<open>Milestones\<close>

record milestone_progress =
  mp_ladder_key :: string
  mp_unit :: string
  mp_total :: rat
  mp_passed :: "milestone option"
  mp_upcoming :: "milestone option"
  mp_progress :: rat

definition show_progress :: "milestone_progress \<Rightarrow> bool" where
  "show_progress p \<longleftrightarrow> mp_upcoming p \<noteq> None \<and> MIN_MEANINGFUL_PROGRESS \<le> mp_progress p"

definition usable_rungs :: "ladder \<Rightarrow> milestone list" where
  "usable_rungs l = sort_key mi_value (filter (\<lambda>r. 0 < mi_value r) (la_rungs l))"

text \<open>The loop over the rungs: the last one reached and the first one not.\<close>

fun climb :: "rat \<Rightarrow> milestone option \<Rightarrow> milestone list \<Rightarrow> milestone option \<times> milestone option" where
  "climb amount passed [] = (passed, None)"
| "climb amount passed (r # rs) = (if mi_value r \<le> amount then climb amount (Some r) rs else (passed, Some r))"

definition pick_milestone :: "rat \<Rightarrow> ladder \<Rightarrow> milestone_progress" where
  "pick_milestone amount l =
     (let result = (\<lambda>passed upcoming progress. \<lparr>mp_ladder_key = la_key l, mp_unit = la_unit l, mp_total = amount,
            mp_passed = passed, mp_upcoming = upcoming, mp_progress = progress\<rparr>)
      in case usable_rungs l of
           [] \<Rightarrow> result None None 0
         | r # rs \<Rightarrow>
             if amount \<le> 0 then result None (Some r) 0
             else
               (case climb amount None (r # rs) of
                  (passed, None) \<Rightarrow> result passed None 1
                | (passed, Some u) \<Rightarrow> result passed (Some u) (min (amount / mi_value u) 1)))"

subsection \<open>Equivalencies\<close>

record equivalency =
  eq_key :: string
  eq_value :: rat
  eq_unit :: string
  eq_milestone :: "milestone_progress option"

definition divide_or_zero :: "rat \<Rightarrow> rat \<Rightarrow> rat" where
  "divide_or_zero a b = (if b \<noteq> 0 then a / b else 0)"

definition distance_feet :: "int \<Rightarrow> rat" where
  "distance_feet n = divide_or_zero (of_int (max n 0) * PAGE_LENGTH_IN) INCHES_PER_FOOT"

definition stack_height_feet :: "int \<Rightarrow> rat" where
  "stack_height_feet n = divide_or_zero (of_int (max n 0) * SHEET_THICKNESS_MM) MM_PER_FOOT"

definition weight_pounds :: "int \<Rightarrow> rat" where
  "weight_pounds n = divide_or_zero (of_int (max n 0) * LB_PER_100_SHEETS) 100"

definition build_equivalencies :: "int \<Rightarrow> int \<Rightarrow> ladder option \<Rightarrow> int \<Rightarrow> equivalency list" where
  "build_equivalencies page_count sheet_count distance_ladder student_count =
     (let n = max page_count 0; s = max sheet_count 0; sheets = of_int s :: rat;
          plain = (\<lambda>key v unit. \<lparr>eq_key = key, eq_value = v, eq_unit = unit, eq_milestone = None\<rparr>);
          laddered = (\<lambda>key v unit l. \<lparr>eq_key = key, eq_value = v, eq_unit = unit, eq_milestone = Some (pick_milestone v l)\<rparr>)
      in filter (\<lambda>e. MIN_MEANINGFUL_VALUE \<le> eq_value e)
        [laddered ''distance'' (distance_feet n) ''feet'' (case distance_ladder of None \<Rightarrow> DISTANCE_LADDER | Some l \<Rightarrow> l),
         laddered ''stack_height'' (stack_height_feet s) ''feet'' STACK_LADDER,
         laddered ''weight'' (weight_pounds s) ''pounds'' WEIGHT_LADDER,
         plain ''trees'' (divide_or_zero sheets SHEETS_PER_TREE) ''trees'',
         plain ''reams'' (divide_or_zero sheets SHEETS_PER_REAM) ''reams'',
         plain ''cases'' (divide_or_zero (divide_or_zero sheets SHEETS_PER_REAM) REAMS_PER_CASE) ''cases'',
         plain ''water'' (sheets * LITRES_PER_SHEET) ''litres'',
         plain ''co2'' (sheets * CO2_G_PER_SHEET) ''grams'',
         plain ''miles_driven'' (divide_or_zero (sheets * CO2_G_PER_SHEET) G_PER_MILE_DRIVEN) ''miles'',
         plain ''sheets_per_student'' (divide_or_zero sheets (of_int student_count)) ''sheets per student'',
         plain ''gutenberg_days'' (divide_or_zero (of_int n) GUTENBERG_PAGES_PER_DAY) ''days''])"

subsection \<open>The two sheet counts agree\<close>

lemma sum_of_nonneg: "(\<And>x. x \<in> set xs \<Longrightarrow> (0::int) \<le> f x) \<Longrightarrow> 0 \<le> sum_of f xs"
  by (induction xs) force+

lemma summary_nonneg:
  assumes "list_all (\<lambda>j. 0 \<le> pages j) (rt_jobs db)"
  shows "0 \<le> sm_duplex_pages (get_summary f db)" "0 \<le> sm_simplex_pages (get_summary f db)"
    "0 \<le> sm_unknown_duplex_pages (get_summary f db)"
proof -
  have "0 \<le> pages j" if "j \<in> fst ` set (apply_filters f db)" for j
    using assms that by (auto simp: apply_filters_def list_all_iff)
  then show "0 \<le> sm_duplex_pages (get_summary f db)" "0 \<le> sm_simplex_pages (get_summary f db)"
    "0 \<le> sm_unknown_duplex_pages (get_summary f db)"
    by (auto simp: get_summary_def Let_def sum_if_def intro!: sum_of_nonneg)
qed

text \<open>
  The equivalencies and the bill's environmental figures count the same paper: for every set of
  filters over jobs with page counts that are not negative, both modules find the same sheets and
  the same saving, and duplexing everything never takes more paper than was used.
\<close>

theorem both_modules_count_the_same_sheets:
  assumes "list_all (\<lambda>j. 0 \<le> pages j) (rt_jobs db)" "sm = get_summary f db"
    "impact = compute_environmental_impact sm fv"
    "sheets = sheets_from_totals (sm_duplex_pages sm) (sm_simplex_pages sm) (sm_unknown_duplex_pages sm) 0"
  shows "sheets = ei_sheets_of_paper impact \<and> duplex_sheets_saved (sm_duplex_pages sm) = ei_duplex_sheets_saved impact \<and>
    sheets_if_all_duplex (sm_duplex_pages sm) (sm_simplex_pages sm) (sm_unknown_duplex_pages sm) \<le> sheets"
proof -
  have nn: "0 \<le> sm_duplex_pages sm" "0 \<le> sm_simplex_pages sm" "0 \<le> sm_unknown_duplex_pages sm"
    using summary_nonneg [OF assms(1)] assms(2) by auto
  have "half_up (a + b + c) \<le> half_up a + (b + c)" if "0 \<le> b" "0 \<le> c" for a b c :: int
    using that unfolding half_up_def by presburger
  with nn show ?thesis
    by (simp add: assms(3,4) compute_environmental_impact_def Let_def sheets_from_totals_def physical_sheets_used_def
        duplex_sheets_saved_def sheets_if_all_duplex_def half_up_def max_def)
qed

subsection \<open>Where a total sits on its ladder\<close>

lemma climb_passed:
  "sorted (map mi_value rs) \<Longrightarrow> climb amount p0 rs = (passed, upcoming) \<Longrightarrow>
    (passed = p0 \<or> (\<exists>q\<in>set rs. passed = Some q \<and> mi_value q \<le> amount)) \<and>
    (\<forall>r\<in>set rs. mi_value r \<le> amount \<longrightarrow> (\<exists>q. passed = Some q \<and> mi_value r \<le> mi_value q))"
proof (induction rs arbitrary: p0)
  case (Cons r rs)
  show ?case
  proof (cases "mi_value r \<le> amount")
    case True
    with Cons.IH [of "Some r"] Cons.prems show ?thesis by fastforce
  next
    case False
    with Cons.prems show ?thesis by force
  qed
qed simp

lemma climb_upcoming:
  "sorted (map mi_value rs) \<Longrightarrow> climb amount p0 rs = (passed, upcoming) \<Longrightarrow>
    (case upcoming of
       None \<Rightarrow> \<forall>r\<in>set rs. mi_value r \<le> amount
     | Some u \<Rightarrow> u \<in> set rs \<and> amount < mi_value u \<and> (\<forall>r\<in>set rs. amount < mi_value r \<longrightarrow> mi_value u \<le> mi_value r))"
proof (induction rs arbitrary: p0)
  case (Cons r rs)
  show ?case
  proof (cases "mi_value r \<le> amount")
    case True
    with Cons.IH [of "Some r"] Cons.prems show ?thesis by (cases upcoming) auto
  next
    case False
    with Cons.prems show ?thesis by auto
  qed
qed simp

lemma usable_rungs: "sorted (map mi_value (usable_rungs l))" "r \<in> set (usable_rungs l) \<longleftrightarrow> r \<in> set (la_rungs l) \<and> 0 < mi_value r"
  by (auto simp: usable_rungs_def)

text \<open>
  The milestone shown is the right one: on any ladder, in whatever order its rungs are written,
  the rung passed is a highest one not above the total, the rung ahead a lowest one above it, no
  total is told it passed what it has not reached, and the progress stays within 0 and 1.
\<close>

theorem milestones_bracket_the_total:
  assumes "p = pick_milestone amount l" "good = (\<lambda>r. r \<in> set (la_rungs l) \<and> 0 < mi_value r)"
  shows "(case mp_passed p of
      Some r \<Rightarrow> good r \<and> mi_value r \<le> amount \<and> (\<forall>r'. good r' \<and> mi_value r' \<le> amount \<longrightarrow> mi_value r' \<le> mi_value r)
    | None \<Rightarrow> \<forall>r'. good r' \<longrightarrow> amount < mi_value r') \<and>
    (case mp_upcoming p of
      Some r \<Rightarrow> good r \<and> amount < mi_value r \<and> (\<forall>r'. good r' \<and> amount < mi_value r' \<longrightarrow> mi_value r \<le> mi_value r')
    | None \<Rightarrow> \<forall>r'. good r' \<longrightarrow> mi_value r' \<le> amount) \<and>
    0 \<le> mp_progress p \<and> mp_progress p \<le> 1"
proof (cases "usable_rungs l")
  case Nil
  then have "\<not> good r" for r using usable_rungs(2) [of r l] assms(2) by auto
  with Nil show ?thesis by (simp add: assms(1) pick_milestone_def)
next
  case (Cons r0 rs)
  have good: "good r \<longleftrightarrow> r \<in> set (r0 # rs)" for r using usable_rungs(2) [of r l] Cons assms(2) by auto
  have pos: "good r \<Longrightarrow> 0 < mi_value r" for r by (simp add: assms(2))
  have sorted: "sorted (map mi_value (r0 # rs))" using usable_rungs(1) [of l] Cons by simp
  show ?thesis
  proof (cases "amount \<le> 0")
    case True
    then have "\<forall>r. good r \<longrightarrow> amount < mi_value r" using pos by fastforce
    with True Cons good sorted show ?thesis by (auto simp: assms(1) pick_milestone_def)
  next
    case False
    obtain passed upcoming where climb: "climb amount None (r0 # rs) = (passed, upcoming)" by fastforce
    have p: "p = \<lparr>mp_ladder_key = la_key l, mp_unit = la_unit l, mp_total = amount, mp_passed = passed,
        mp_upcoming = upcoming, mp_progress = (case upcoming of None \<Rightarrow> 1 | Some u \<Rightarrow> min (amount / mi_value u) 1)\<rparr>"
      using False Cons climb by (simp add: assms(1) pick_milestone_def Let_def del: climb.simps split: option.splits)
    have "case passed of
        Some r \<Rightarrow> good r \<and> mi_value r \<le> amount \<and> (\<forall>r'. good r' \<and> mi_value r' \<le> amount \<longrightarrow> mi_value r' \<le> mi_value r)
      | None \<Rightarrow> \<forall>r'. good r' \<longrightarrow> amount < mi_value r'"
      using climb_passed [OF sorted climb] good by (cases passed) (auto simp: not_le [symmetric])
    moreover have "case upcoming of
        Some r \<Rightarrow> good r \<and> amount < mi_value r \<and> (\<forall>r'. good r' \<and> amount < mi_value r' \<longrightarrow> mi_value r \<le> mi_value r')
      | None \<Rightarrow> \<forall>r'. good r' \<longrightarrow> mi_value r' \<le> amount"
      using climb_upcoming [OF sorted climb] good by (cases upcoming) auto
    moreover have "0 \<le> mp_progress p \<and> mp_progress p \<le> 1"
      using False climb_upcoming [OF sorted climb] by (cases upcoming) (auto simp: p)
    ultimately show ?thesis by (simp add: p)
  qed
qed

theorem milestones_bracket_the_total_witness:
  "\<exists>r. mp_passed (pick_milestone 1100 DISTANCE_LADDER) = Some r \<and> mi_value r = 1040"
proof -
  have rungs: "r \<in> set (la_rungs DISTANCE_LADDER) \<Longrightarrow> mi_value r \<le> 1100 \<Longrightarrow> mi_value r = 1040" for r
    by (auto simp: DISTANCE_LADDER_def rung_def FEET_PER_MILE_def)
  let ?lap = "rung ''a lap of the football field'' 1040"
  have first: "?lap \<in> set (la_rungs DISTANCE_LADDER)" "mi_value ?lap = 1040"
    by (simp_all add: DISTANCE_LADDER_def rung_def)
  note b = conjunct1 [OF milestones_bracket_the_total [OF refl refl, of DISTANCE_LADDER 1100]]
  show ?thesis
  proof (cases "mp_passed (pick_milestone 1100 DISTANCE_LADDER)")
    case None
    with b have "\<forall>r. r \<in> set (la_rungs DISTANCE_LADDER) \<and> 0 < mi_value r \<longrightarrow> 1100 < mi_value r" by simp
    then have "1100 < mi_value ?lap" using first by (metis zero_less_numeral)
    then show ?thesis using first(2) by simp
  next
    case (Some r)
    then have "r \<in> set (la_rungs DISTANCE_LADDER)" "mi_value r \<le> 1100" using b by simp_all
    with Some rungs show ?thesis by blast
  qed
qed

theorem both_modules_count_the_same_sheets_witness:
  "sheets_from_totals 0 0 (sm_unknown_duplex_pages (get_summary no_filters small_district)) 0 = 104 \<and>
   ei_sheets_of_paper (compute_environmental_impact (get_summary no_filters small_district)
     \<lparr>fv_cost_per_page_mono = 3 / 100, fv_cost_per_page_color = 1 / 10, fv_sheets_per_tree = 8333,
      fv_co2_grams_per_sheet = 127 / 10\<rparr>) = 104"
proof -
  have "list_all (\<lambda>j. 0 \<le> pages j) (rt_jobs small_district)" by (simp add: small_district_defs pages_def)
  moreover have "sm_duplex_pages (get_summary no_filters small_district) = 0" "sm_simplex_pages (get_summary no_filters small_district) = 0"
    "sm_unknown_duplex_pages (get_summary no_filters small_district) = 104"
    by (simp_all add: get_summary_def Let_def apply_filters_def no_filters_def in_range_def wanted_def small_district_defs pages_def
        sum_if_def)
  ultimately show ?thesis
    using both_modules_count_the_same_sheets [of small_district _ no_filters, OF _ refl refl refl]
    by (simp add: sheets_from_totals_def half_up_def)
qed

end
