(* ===== verification/Report_Scope.thy ===== *)
theory Report_Scope
  imports Periods Equivalencies "HOL-Library.List_Lexorder" "HOL-Library.Char_ord"
begin

section \<open>Who sees which numbers (app/routers/reports.py, app/reports/activity.py)\<close>

text \<open>
  The report endpoints: the scope a role imposes on the filters, one person's usage, the personal
  and the district view with the floor under which totals are withheld, the list of one's own
  activity, and the admin's breakdown.  The bounds of a request arrive as instants; the prose and
  the map of the views are left out.  The road trip's ladder, SQL's and Python's \<open>lower\<close>, the time
  zone and today are arguments.
\<close>

subsection \<open>Scope\<close>

record report_user =
  vu_role :: string
  vu_username :: string
  vu_email :: "string option"

text \<open>\<open>SELECT granted_ou_paths WHERE lower(email) = \<dots>\<close> with \<open>scalar_one_or_none() or []\<close>.\<close>

definition granted_paths ::
  "(string \<Rightarrow> string) \<Rightarrow> (string \<times> string list option) list \<Rightarrow> report_user \<Rightarrow> http_error + string list" where
  "granted_paths lower accounts user =
     (let own = lower (case vu_email user of None \<Rightarrow> '''' | Some e \<Rightarrow> e) in
      case filter (\<lambda>(email, granted). lower email = own) accounts of
        [] \<Rightarrow> Inr []
      | [(email, granted)] \<Rightarrow> Inr (list_or_empty granted)
      | _ \<Rightarrow> Inl ServerError)"

text \<open>The filters of a request, whatever it asked for itself.\<close>

definition report_filters_of ::
  "(string \<Rightarrow> string) \<Rightarrow> (string \<times> string list option) list \<Rightarrow> report_tables \<Rightarrow> report_user \<Rightarrow> report_filters \<Rightarrow>
   http_error + report_filters" where
  "report_filters_of lower accounts db user request =
     (if vu_role user = ''ou_viewer'' then
        (case granted_paths lower accounts user of
           Inl e \<Rightarrow> Inl e
         | Inr granted \<Rightarrow> Inr (request\<lparr>rf_submitted_by := None,
             rf_submitted_by_in := Some (resolve_ou_scoped_emails db granted)\<rparr>))
      else if vu_role user \<noteq> ''admin'' then
        Inr (request\<lparr>rf_submitted_by := Some (vu_username user), rf_submitted_by_in := None\<rparr>)
      else Inr (request\<lparr>rf_submitted_by_in := None\<rparr>))"

definition may_report_on :: "(string \<Rightarrow> string) \<Rightarrow> report_user \<Rightarrow> report_filters \<Rightarrow> string \<Rightarrow> bool" where
  "may_report_on lower user f email =
     (if vu_role user = ''admin'' then True
      else case rf_submitted_by_in f of
          Some emails \<Rightarrow> lower email \<in> lower ` set emails
        | None \<Rightarrow> (case rf_submitted_by f of None \<Rightarrow> False | Some who \<Rightarrow> lower who = lower email))"

definition previous_period_filters :: "report_filters \<Rightarrow> report_filters option" where
  "previous_period_filters f =
     (case (rf_start f, rf_end f) of
        (Some s, Some e) \<Rightarrow>
          if e - s \<le> 0 then None
          else Some (no_filters\<lparr>rf_start := Some (s - (e - s)), rf_end := Some s, rf_building := rf_building f,
            rf_department := rf_department f, rf_printer_id := rf_printer_id f, rf_submitted_by := rf_submitted_by f,
            rf_status := rf_status f, rf_color_mode := rf_color_mode f, rf_duplex := rf_duplex f\<rparr>)
      | _ \<Rightarrow> None)"

subsection \<open>The combined leaderboard and one person's usage\<close>

record leaderboard_line =
  ll_entry :: combined_entry
  ll_print_cost :: rat
  ll_copy_cost :: rat
  ll_estimated_cost :: rat

definition report_combined_leaderboard ::
  "cartridge list \<Rightarrow> cost_settings \<Rightarrow> int \<Rightarrow> report_filters \<Rightarrow> report_tables \<Rightarrow> leaderboard_line list" where
  "report_combined_leaderboard table fs limit f db =
     (let prints = cg_by_user (compute_cost_accumulators table fs f db);
          copies = kg_by_user (compute_copy_cost_accumulators table fs f db)
      in map (\<lambda>e. let print = (case map_of prints (ce_key e) of None \<Rightarrow> 0 | Some a \<Rightarrow> py_round 2 (ac_total a));
               copy = (case map_of copies (ce_key e) of None \<Rightarrow> 0 | Some a \<Rightarrow> py_round 2 (ak_total a))
             in \<lparr>ll_entry = e, ll_print_cost = print, ll_copy_cost = copy, ll_estimated_cost = py_round 2 (print + copy)\<rparr>)
           (get_combined_user_leaderboard (min limit 50) f db))"

record printer_usage =
  pu_name :: string
  pu_jobs :: int
  pu_pages :: int
  pu_color :: int
  pu_mono :: int
  pu_duplex :: int
  pu_simplex :: int
  pu_sheets :: int
  pu_toner :: rat
  pu_paper :: rat
  pu_total :: rat

definition no_printer_usage :: "string \<Rightarrow> printer_usage" where
  "no_printer_usage name = \<lparr>pu_name = name, pu_jobs = 0, pu_pages = 0, pu_color = 0, pu_mono = 0, pu_duplex = 0,
     pu_simplex = 0, pu_sheets = 0, pu_toner = 0, pu_paper = 0, pu_total = 0\<rparr>"

definition add_printer_usage :: "cost_row \<Rightarrow> job_cost \<Rightarrow> printer_usage \<Rightarrow> printer_usage" where
  "add_printer_usage row cost u =
     (let n = cw_page_count row in
      u\<lparr>pu_jobs := pu_jobs u + 1, pu_pages := pu_pages u + n,
        pu_color := pu_color u + (if cw_color_mode row = Some ''color'' then n else 0),
        pu_mono := pu_mono u + (if cw_color_mode row = Some ''monochrome'' then n else 0),
        pu_duplex := pu_duplex u + (if cw_duplex row = Some True then n else 0),
        pu_simplex := pu_simplex u + (if cw_duplex row = Some False then n else 0),
        pu_sheets := pu_sheets u + jc_sheets cost, pu_toner := pu_toner u + jc_toner_cost cost,
        pu_paper := pu_paper u + jc_paper_cost cost, pu_total := pu_total u + jc_total_cost cost\<rparr>)"

definition round_printer_usage :: "printer_usage \<Rightarrow> printer_usage" where
  "round_printer_usage u = u\<lparr>pu_toner := py_round 2 (pu_toner u), pu_paper := py_round 2 (pu_paper u),
     pu_total := py_round 2 (pu_total u)\<rparr>"

record copier_usage_out =
  cx_activity :: copier_activity
  cx_color :: int
  cx_mono :: int
  cx_sheets :: int
  cx_toner :: rat
  cx_paper :: rat
  cx_total :: rat
  cx_measured_color :: bool

record staff_usage =
  su_email :: string
  su_label :: string
  su_summary :: summary_totals
  su_copy_pages :: int
  su_scan_pages :: int
  su_fax_pages :: int
  su_total_pages :: int
  su_sheets :: int
  su_print_cost :: rat
  su_copy_cost :: rat
  su_total_cost :: rat
  su_printers :: "(uuid \<times> printer_usage) list"
  su_copiers :: "copier_usage_out list"

definition printer_usages ::
  "cartridge list \<Rightarrow> cost_settings \<Rightarrow> report_filters \<Rightarrow> report_tables \<Rightarrow> (uuid, printer_usage) dict" where
  "printer_usages table fs f db =
     map (\<lambda>(i, u). (i, round_printer_usage u))
       (foldl (\<lambda>d row. dict_upsert (cw_printer_id row) (no_printer_usage (cw_printer_name row))
           (add_printer_usage row (row_cost table fs row)) d) [] (get_cost_raw_rows f db))"

definition copier_usages ::
  "cartridge list \<Rightarrow> cost_settings \<Rightarrow> report_filters \<Rightarrow> report_tables \<Rightarrow> copier_usage_out list" where
  "copier_usages table fs f db =
     (let costs = kg_by_device (compute_copy_cost_accumulators table fs f db);
          activity = map (\<lambda>a. (ca_device_id a, a)) (get_copier_activity_by_device f db);
          out = map (\<lambda>(i, act). case map_of costs i of
              Some a \<Rightarrow> \<lparr>cx_activity = act, cx_color = ak_color_pages a, cx_mono = ak_mono_pages a, cx_sheets = ak_sheets a,
                cx_toner = py_round 2 (ak_toner a), cx_paper = py_round 2 (ak_paper a), cx_total = py_round 2 (ak_total a),
                cx_measured_color = measured_color a\<rparr>
            | None \<Rightarrow> \<lparr>cx_activity = act, cx_color = 0, cx_mono = 0, cx_sheets = 0, cx_toner = 0, cx_paper = 0,
                cx_total = 0, cx_measured_color = True\<rparr>) activity
      in descending (ca_copy \<circ> cx_activity) out)"

definition report_staff_usage ::
  "(string \<Rightarrow> string) \<Rightarrow> cartridge list \<Rightarrow> cost_settings \<Rightarrow> report_user \<Rightarrow> report_filters \<Rightarrow> string \<Rightarrow> report_tables \<Rightarrow>
   http_error + staff_usage" where
  "report_staff_usage lower table fs user f email db =
     (if \<not> may_report_on lower user f email then Inl (Http 403 ''You don't have access to this person's usage'')
      else
        let f = f\<lparr>rf_submitted_by := Some email, rf_submitted_by_in := None\<rparr>;
            printers = printer_usages table fs f db; copiers = copier_usages table fs f db;
            copies = kg_overall (compute_copy_cost_accumulators table fs f db); summary = get_summary f db;
            print_cost = py_round 2 (sum_of (pu_total \<circ> snd) printers); copy_cost = py_round 2 (ak_total copies)
        in Inr \<lparr>su_email = email, su_label = resolve_display_names db email, su_summary = summary,
             su_copy_pages = ak_page_count copies, su_scan_pages = sum_of (ca_scan \<circ> cx_activity) copiers,
             su_fax_pages = sum_of (ca_fax \<circ> cx_activity) copiers,
             su_total_pages = sm_total_pages summary + ak_page_count copies,
             su_sheets = sum_of (pu_sheets \<circ> snd) printers + ak_sheets copies, su_print_cost = print_cost,
             su_copy_cost = copy_cost, su_total_cost = py_round 2 (print_cost + copy_cost),
             su_printers = sort_key (\<lambda>(i, u). - pu_total u) printers, su_copiers = copiers\<rparr>)"

subsection \<open>The window of the explained views\<close>

text \<open>\<open>midnight\<close> is the instant a day starts in the district's zone.\<close>

definition explained_window ::
  "(string \<Rightarrow> string) \<Rightarrow> (date \<Rightarrow> datetime) \<Rightarrow> date \<Rightarrow> year_settings \<Rightarrow> string \<Rightarrow>
   http_error + date \<times> date \<times> report_filters" where
  "explained_window py_repr midnight today ys key =
     (let px = load_period_context ys;
          refuse = (\<lambda>e. Inl (case e of ValueError m \<Rightarrow> Http 422 m | OverflowError \<Rightarrow> ServerError))
      in case resolve py_repr key today (px_calendar px) (px_terms px) (px_overrides px) of
           Inl e \<Rightarrow> refuse e
         | Inr p \<Rightarrow>
             (case clamp_to_today p today of
                Inl e \<Rightarrow> refuse e
              | Inr (s, e) \<Rightarrow>
                  (case date_add_days e 1 of
                     Inl x \<Rightarrow> Inl ServerError
                   | Inr e' \<Rightarrow> Inr (s, e, no_filters\<lparr>rf_start := Some (midnight s), rf_end := Some (midnight e'),
                       rf_status := Some ''forwarded''\<rparr>))))"

subsection \<open>One's own activity (reports/activity.py)\<close>

record activity_row =
  ar_kind :: string
  ar_label :: string
  ar_where :: string
  ar_activity_type :: string
  ar_pages :: int
  ar_sheets :: int
  ar_at :: "datetime option"
  ar_window_start :: "datetime option"
  ar_window_end :: "datetime option"
  ar_color_mode :: "string option"
  ar_duplex :: "bool option"
  ar_color_pages :: "int option"
  ar_mono_pages :: "int option"

definition or_text :: "string option \<Rightarrow> string \<Rightarrow> string" where
  "or_text s other = (if truthy s then the s else other)"

text \<open>\<open>datetime.min\<close> stands for no date at all and is the least of them.\<close>

definition activity_sort_key :: "activity_row \<Rightarrow> datetime option" where
  "activity_sort_key r = coalesce (ar_at r) (coalesce (ar_window_end r) (ar_window_start r))"

definition get_print_rows :: "report_filters \<Rightarrow> report_tables \<Rightarrow> activity_row list" where
  "get_print_rows f db =
     map (\<lambda>(j, p). let n = pages j in
         \<lparr>ar_kind = ''print'', ar_label = or_text (job_document_name j) ''Untitled document'',
          ar_where = or_text (Some (printer_name p)) ''(deleted printer)'', ar_activity_type = ''print'',
          ar_pages = n, ar_sheets = physical_sheets_used n (job_duplex j), ar_at = Some (job_created_at j),
          ar_window_start = None, ar_window_end = None, ar_color_mode = job_color_mode j, ar_duplex = job_duplex j,
          ar_color_pages = None, ar_mono_pages = None\<rparr>)
       (filter (\<lambda>(j, p). job_status j = ''forwarded'') (apply_filters f db))"

definition get_copy_rows :: "report_filters \<Rightarrow> report_tables \<Rightarrow> activity_row list" where
  "get_copy_rows f db =
     map (\<lambda>(u, d). let n = copy_pages_of u; name = or_text (Some (md_name d)) ''(deleted copier)'';
             window = (\<lambda>side. if cu_occurred_at u \<noteq> None then None else coalesce side (Some (cu_created_at u))) in
         \<lparr>ar_kind = ''copy'', ar_label = name, ar_where = name,
          ar_activity_type = or_text (Some (cu_activity u)) ''copy'', ar_pages = n,
          ar_sheets = physical_sheets_used n (cu_duplex u), ar_at = cu_occurred_at u,
          ar_window_start = window (cu_period_start u), ar_window_end = window (cu_period_end u),
          ar_color_mode = None, ar_duplex = None, ar_color_pages = cu_color_page_count u,
          ar_mono_pages = cu_monochrome_page_count u\<rparr>)
       (apply_copier_filters f db)"

text \<open>Newest first; ties keep their order, as \<open>sort(reverse=True)\<close> does.\<close>

definition newest_first :: "activity_row list \<Rightarrow> activity_row list" where
  "newest_first rows =
     sort_key (\<lambda>r. - the (activity_sort_key r)) (filter (\<lambda>r. activity_sort_key r \<noteq> None) rows) @
     filter (\<lambda>r. activity_sort_key r = None) rows"

definition get_my_activity :: "report_filters \<Rightarrow> int \<Rightarrow> report_tables \<Rightarrow> activity_row list \<times> int" where
  "get_my_activity f limit db =
     (let rows = newest_first (get_print_rows f db @ get_copy_rows f db) in (py_slice_to limit rows, int (length rows)))"

definition report_my_activity ::
  "report_user \<Rightarrow> report_filters \<Rightarrow> int \<Rightarrow> report_tables \<Rightarrow> activity_row list \<times> int \<times> bool" where
  "report_my_activity user window limit db =
     (let (rows, amount) = get_my_activity (window\<lparr>rf_submitted_by := Some (vu_username user)\<rparr>) limit db
      in (rows, amount, list_ex (\<lambda>r. ar_window_start r \<noteq> None) rows))"

subsection \<open>The personal and the district view\<close>

definition sheets_for :: "summary_totals \<Rightarrow> int \<Rightarrow> int" where
  "sheets_for sm copied =
     sheets_from_totals (sm_duplex_pages sm) (sm_simplex_pages sm) (sm_unknown_duplex_pages sm) copied"

text \<open>\<open>statistics.median\<close> and \<open>fmean\<close> of a list that is not empty.\<close>

definition median :: "int list \<Rightarrow> rat" where
  "median xs =
     (let s = sort xs; n = length xs in
      if odd n then of_int (s ! (n div 2)) else of_int (s ! (n div 2 - 1) + s ! (n div 2)) / 2)"

definition mean :: "int list \<Rightarrow> rat" where
  "mean xs = of_int (sum_list xs) / of_nat (length xs)"

record personal_view =
  pv_summary :: summary_totals
  pv_copy_pages :: int
  pv_total_pages :: int
  pv_sheets :: int
  pv_largest_job_pages :: "int option"
  pv_avg_pages_per_job :: rat
  pv_median :: "rat option"
  pv_mean :: "rat option"
  pv_times_median :: "rat option"
  pv_has_comparison :: bool
  pv_duplex_sheets_saved :: int
  pv_additional_sheets :: int
  pv_print_cost :: rat
  pv_copy_cost :: rat
  pv_total_cost :: rat
  pv_equivalencies :: "equivalency list"

definition report_explained_me ::
  "(string \<Rightarrow> string) \<Rightarrow> cartridge list \<Rightarrow> cost_settings \<Rightarrow> ladder option \<Rightarrow> report_user \<Rightarrow> report_filters \<Rightarrow>
   report_tables \<Rightarrow> personal_view" where
  "report_explained_me lower table fs road user window db =
     (let f = window\<lparr>rf_submitted_by := Some (vu_username user)\<rparr>; sm = get_summary f db;
          prints = cg_overall (compute_cost_accumulators table fs f db);
          copies = kg_overall (compute_copy_cost_accumulators table fs f db);
          copied = ak_page_count copies; amount = sm_total_pages sm + copied;
          everyone = get_pages_per_person lower (f\<lparr>rf_submitted_by := None\<rparr>) db;
          comparison = MIN_CONTRIBUTORS_FOR_DISTRICT_FACTS \<le> int (length everyone);
          med = (if comparison then Some (median everyone) else None)
      in \<lparr>pv_summary = sm, pv_copy_pages = copied, pv_total_pages = amount, pv_sheets = sheets_for sm copied,
          pv_largest_job_pages = get_largest_job_pages f db,
          pv_avg_pages_per_job = (if sm_total_jobs sm \<noteq> 0 then py_round 1 (of_int (sm_total_pages sm) / of_int (sm_total_jobs sm)) else 0),
          pv_median = map_option (py_round 1) med,
          pv_mean = (if comparison then Some (py_round 1 (mean everyone)) else None),
          pv_times_median = (case med of None \<Rightarrow> None | Some m \<Rightarrow> if m \<noteq> 0 then Some (py_round 1 (of_int amount / m)) else None),
          pv_has_comparison = comparison, pv_duplex_sheets_saved = duplex_sheets_saved (sm_duplex_pages sm),
          pv_additional_sheets = max (sheets_for sm 0 -
            sheets_if_all_duplex (sm_duplex_pages sm) (sm_simplex_pages sm) (sm_unknown_duplex_pages sm)) 0,
          pv_print_cost = py_round 2 (ac_total prints), pv_copy_cost = py_round 2 (ak_total copies),
          pv_total_cost = py_round 2 (ac_total prints + ak_total copies),
          pv_equivalencies = build_equivalencies amount (sheets_for sm copied) road (fs_student_count fs)\<rparr>)"

record district_view =
  dv_print_pages :: int
  dv_copy_pages :: int
  dv_total_pages :: int
  dv_sheets :: int
  dv_contributors :: int
  dv_has_enough_activity :: bool
  dv_equivalencies :: "equivalency list"

definition report_district_fun_facts ::
  "(string \<Rightarrow> string) \<Rightarrow> cost_settings \<Rightarrow> ladder option \<Rightarrow> report_filters \<Rightarrow> report_tables \<Rightarrow> district_view" where
  "report_district_fun_facts lower fs road window db =
     (let contributors = count_contributors lower window db in
      if contributors < MIN_CONTRIBUTORS_FOR_DISTRICT_FACTS then
        \<lparr>dv_print_pages = 0, dv_copy_pages = 0, dv_total_pages = 0, dv_sheets = 0, dv_contributors = contributors,
         dv_has_enough_activity = False, dv_equivalencies = []\<rparr>
      else
        let combined = get_combined_summary window db;
            sheets = sheets_for (get_summary window db) (cs_copy_pages combined)
        in \<lparr>dv_print_pages = cs_print_pages combined, dv_copy_pages = cs_copy_pages combined,
            dv_total_pages = cs_total_pages combined, dv_sheets = sheets, dv_contributors = contributors,
            dv_has_enough_activity = True,
            dv_equivalencies = build_equivalencies (cs_total_pages combined) sheets road (fs_student_count fs)\<rparr>)"

subsection \<open>The admin's breakdown\<close>

record segment =
  sg_key :: string
  sg_label :: string
  sg_people :: int
  sg_print_pages :: int
  sg_copy_pages :: int
  sg_total_pages :: int
  sg_sheets :: int
  sg_estimated_cost :: rat

definition segment_totals ::
  "(string \<Rightarrow> string) \<Rightarrow> cartridge list \<Rightarrow> cost_settings \<Rightarrow> report_filters \<Rightarrow> string \<Rightarrow> report_tables \<Rightarrow> segment" where
  "segment_totals lower table fs f label db =
     (let combined = get_combined_summary f db in
      \<lparr>sg_key = label, sg_label = label, sg_people = count_contributors lower f db,
       sg_print_pages = cs_print_pages combined, sg_copy_pages = cs_copy_pages combined,
       sg_total_pages = cs_total_pages combined, sg_sheets = sheets_for (get_summary f db) (cs_copy_pages combined),
       sg_estimated_cost = py_round 2 (ac_total (cg_overall (compute_cost_accumulators table fs f db)) +
         ak_total (kg_overall (compute_copy_cost_accumulators table fs f db)))\<rparr>)"

definition unassigned_segment :: "combined_summary \<Rightarrow> int \<Rightarrow> rat \<Rightarrow> segment list \<Rightarrow> segment" where
  "unassigned_segment combined sheets cost segments =
     \<lparr>sg_key = ''__unassigned__'', sg_label = ''Unassigned'', sg_people = 0,
      sg_print_pages = cs_print_pages combined - sum_of sg_print_pages segments,
      sg_copy_pages = cs_copy_pages combined - sum_of sg_copy_pages segments,
      sg_total_pages = cs_total_pages combined - sum_of sg_total_pages segments,
      sg_sheets = sheets - sum_of sg_sheets segments,
      sg_estimated_cost = py_round 2 (cost - sum_of sg_estimated_cost segments)\<rparr>"

text \<open>\<open>sorted(set(\<dots>))\<close> of names that are neither null nor empty.\<close>

definition names_of :: "string option list \<Rightarrow> string list" where
  "names_of xs = sort (remdups (map the (filter truthy xs)))"

definition breakdown ::
  "(string \<Rightarrow> string) \<Rightarrow> cartridge list \<Rightarrow> cost_settings \<Rightarrow> report_filters \<Rightarrow> report_tables \<Rightarrow>
   (string \<times> report_filters) list \<Rightarrow> segment list" where
  "breakdown lower table fs f db parts =
     (let combined = get_combined_summary f db;
          segments = filter (\<lambda>s. 0 < sg_total_pages s) (map (\<lambda>(label, g). segment_totals lower table fs g label db) parts);
          rest = unassigned_segment combined (sheets_for (get_summary f db) (cs_copy_pages combined))
            (ac_total (cg_overall (compute_cost_accumulators table fs f db)) +
             ak_total (kg_overall (compute_copy_cost_accumulators table fs f db))) segments
      in descending sg_total_pages (segments @ (if 0 < sg_total_pages rest then [rest] else [])))"

record district_detail =
  dd_combined :: combined_summary
  dd_sheets :: int
  dd_contributors :: int
  dd_median :: rat
  dd_mean :: rat
  dd_by_building :: "segment list"
  dd_by_department :: "segment list"
  dd_equivalencies :: "equivalency list"

definition report_district_detail ::
  "(string \<Rightarrow> string) \<Rightarrow> cartridge list \<Rightarrow> cost_settings \<Rightarrow> ladder option \<Rightarrow> report_filters \<Rightarrow> report_tables \<Rightarrow> district_detail" where
  "report_district_detail lower table fs road f db =
     (let combined = get_combined_summary f db; sheets = sheets_for (get_summary f db) (cs_copy_pages combined);
          everyone = get_pages_per_person lower f db;
          buildings = names_of (map printer_building (rt_printers db) @ map md_building (rt_devices db));
          departments = names_of (map printer_department (rt_printers db))
      in \<lparr>dd_combined = combined, dd_sheets = sheets, dd_contributors = count_contributors lower f db,
          dd_median = (if everyone \<noteq> [] then py_round 1 (median everyone) else 0),
          dd_mean = (if everyone \<noteq> [] then py_round 1 (mean everyone) else 0),
          dd_by_building = breakdown lower table fs f db (map (\<lambda>b. (b, f\<lparr>rf_building := Some b\<rparr>)) buildings),
          dd_by_department = breakdown lower table fs f db (map (\<lambda>d. (d, f\<lparr>rf_department := Some d\<rparr>)) departments),
          dd_equivalencies = build_equivalencies (cs_total_pages combined) sheets road (fs_student_count fs)\<rparr>)"

subsection \<open>What a role sees\<close>

lemma apply_filters_who:
  "(j, p) \<in> set (apply_filters f db) \<Longrightarrow> wanted (rf_submitted_by f) (job_submitted_by j) \<and>
     (\<forall>emails. rf_submitted_by_in f = Some emails \<longrightarrow> job_submitted_by j \<in> Some ` set emails)"
  by (auto simp: apply_filters_def)

lemma apply_copier_filters_who:
  "(u, d) \<in> set (apply_copier_filters f db) \<Longrightarrow> wanted (rf_submitted_by f) (cu_staff_email u)"
  by (auto simp: apply_copier_filters_def)

lemma previous_period_who:
  "previous_period_filters f = Some g \<Longrightarrow> rf_submitted_by g = rf_submitted_by f \<and> rf_submitted_by_in g = None"
  by (auto simp: previous_period_filters_def no_filters_def split: option.splits if_splits)

text \<open>
  C25: an account that is neither an admin nor an OU viewer only ever counts its own rows: whatever a
  request asks for, every print and every copy its filters admit is its own, in the period asked
  for and in the period it is compared with.
\<close>

theorem a_viewer_sees_only_their_own:
  assumes "vu_role user \<notin> {''admin'', ''ou_viewer''}" "report_filters_of lower accounts db user request = Inr f"
    "g = f \<or> previous_period_filters f = Some g"
  shows "list_all (\<lambda>(j, p). job_submitted_by j = Some (vu_username user)) (apply_filters g db) \<and>
    list_all (\<lambda>(u, d). cu_staff_email u = Some (vu_username user)) (apply_copier_filters g db)"
proof -
  have "rf_submitted_by g = Some (vu_username user)"
    using assms previous_period_who [of f g] by (auto simp: report_filters_of_def)
  then show ?thesis
    using apply_filters_who [of _ _ g db] apply_copier_filters_who [of _ _ g db]
    by (fastforce simp: list_all_iff wanted_def)
qed

text \<open>
  The prints an OU viewer sees were submitted by someone of the roster below one of the
  organisational units granted to the account; without a grant there are none.
\<close>

theorem an_ou_viewers_prints_are_in_scope:
  assumes "vu_role user = ''ou_viewer''" "report_filters_of lower accounts db user request = Inr f"
    "granted_paths lower accounts user = Inr granted"
  shows "list_all (\<lambda>(j, p). list_ex (\<lambda>u. job_submitted_by j = Some (ru_email u) \<and>
      list_ex (org_unit_matches (ru_org_unit_path u)) granted) (rt_users db)) (apply_filters f db)"
proof -
  have "rf_submitted_by_in f = Some (resolve_ou_scoped_emails db granted)"
    using assms by (auto simp: report_filters_of_def)
  then have who: "(j, p) \<in> set (apply_filters f db) \<Longrightarrow> job_submitted_by j \<in> Some ` set (resolve_ou_scoped_emails db granted)"
    for j p using apply_filters_who by blast
  then show ?thesis
    by (fastforce simp: list_all_iff list_ex_iff resolve_ou_scoped_emails_def split: if_splits)
qed

text \<open>
  C4: an OU viewer's scope reaches prints of the period asked for and nothing else: the copies the
  reports count for such an account are the copies an admin sees with the same request, by name on
  the combined leaderboard, and the period it is compared with is the admin's too.
\<close>

theorem an_ou_viewers_scope_is_lost:
  assumes "vu_role user = ''ou_viewer''" "report_filters_of lower accounts db user request = Inr f"
    "vu_role admin = ''admin''" "report_filters_of lower accounts db admin (request\<lparr>rf_submitted_by := None\<rparr>) = Inr wide"
  shows "get_copier_usage_totals f db = get_copier_usage_totals wide db \<and>
    compute_copy_cost_accumulators table fs f db = compute_copy_cost_accumulators table fs wide db \<and>
    previous_period_filters f = previous_period_filters wide"
proof -
  obtain emails where f: "f = request\<lparr>rf_submitted_by := None, rf_submitted_by_in := Some emails\<rparr>"
    using assms(1,2) by (auto simp: report_filters_of_def split: sum.splits)
  have wide: "wide = request\<lparr>rf_submitted_by := None, rf_submitted_by_in := None\<rparr>"
    using assms(3,4) by (simp add: report_filters_of_def)
  have "apply_copier_filters f db = apply_copier_filters wide db"
    by (simp add: f wide apply_copier_filters_def in_range_def)
  moreover have "previous_period_filters f = previous_period_filters wide"
    by (cases "rf_start request"; cases "rf_end request") (simp_all add: f wide previous_period_filters_def)
  ultimately show ?thesis
    by (simp add: get_copier_usage_totals_def compute_copy_cost_accumulators_def get_copy_cost_raw_rows_def)
qed

definition scope_of :: "report_tables \<Rightarrow> string list \<Rightarrow> report_user \<Rightarrow> string set" where
  "scope_of db granted user =
     (if vu_role user = ''ou_viewer'' then set (resolve_ou_scoped_emails db granted) else {vu_username user})"

text \<open>
  One person's usage is shown to that person, to an OU viewer whose granted units hold the
  address, and to admins, and refused with a 403 to everyone else; what is shown counts rows of
  the address asked for only.
\<close>

theorem staff_usage_stays_in_scope:
  assumes "vu_role user \<noteq> ''admin''" "report_filters_of lower accounts db user request = Inr f"
    "granted_paths lower accounts user = Inr granted"
  shows "(case report_staff_usage lower table fs user f email db of
      Inl e \<Rightarrow> lower email \<notin> lower ` scope_of db granted user \<and> e = Http 403 ''You don't have access to this person's usage''
    | Inr out \<Rightarrow> lower email \<in> lower ` scope_of db granted user \<and>
        su_total_pages out =
          sum_if (\<lambda>(j, p). job_submitted_by j = Some email) (pages \<circ> fst)
            (apply_filters (f\<lparr>rf_submitted_by := None, rf_submitted_by_in := None\<rparr>) db) +
          sum_if (\<lambda>(u, d). cu_staff_email u = Some email \<and> cu_activity u = ''copy'') (copy_pages_of \<circ> fst)
            (apply_copier_filters (f\<lparr>rf_submitted_by := None, rf_submitted_by_in := None\<rparr>) db))"
proof -
  let ?one = "f\<lparr>rf_submitted_by := Some email, rf_submitted_by_in := None\<rparr>"
    and ?all = "f\<lparr>rf_submitted_by := None, rf_submitted_by_in := None\<rparr>"
  have may: "may_report_on lower user f email \<longleftrightarrow> lower email \<in> lower ` scope_of db granted user"
    using assms by (auto simp: may_report_on_def report_filters_of_def scope_of_def split: if_splits)
  have prints: "apply_filters ?one db = filter (\<lambda>(j, p). job_submitted_by j = Some email) (apply_filters ?all db)"
    unfolding apply_filters_def filter_filter by (rule filter_cong) (auto simp: wanted_def in_range_def)
  have copies: "apply_copier_filters ?one db = filter (\<lambda>(u, d). cu_staff_email u = Some email) (apply_copier_filters ?all db)"
    unfolding apply_copier_filters_def filter_filter by (rule filter_cong) (auto simp: wanted_def in_range_def)
  have "sm_total_pages (get_summary ?one db) =
      sum_if (\<lambda>(j, p). job_submitted_by j = Some email) (pages \<circ> fst) (apply_filters ?all db)"
    by (simp add: get_summary_def Let_def prints sum_if_def sum_of_map comp_def)
  moreover have "ak_page_count (kg_overall (compute_copy_cost_accumulators table fs ?one db)) =
      sum_if (\<lambda>(u, d). cu_staff_email u = Some email \<and> cu_activity u = ''copy'') (copy_pages_of \<circ> fst) (apply_copier_filters ?all db)"
    unfolding copy_cost_pages get_copy_cost_raw_rows_def sum_of_map copies sum_if_def' sum_of_filter
    by (rule sum_of_cong) auto
  ultimately show ?thesis using may by (simp add: report_staff_usage_def Let_def)
qed

subsection \<open>Accounts of a small district\<close>

definition teacher :: report_user where
  "teacher = \<lparr>vu_role = ''viewer'', vu_username = ''teacher@x'', vu_email = Some ''teacher@x''\<rparr>"

definition supervisor :: report_user where
  "supervisor = \<lparr>vu_role = ''ou_viewer'', vu_username = ''north'', vu_email = Some ''north@x''\<rparr>"

definition administrator :: report_user where
  "administrator = \<lparr>vu_role = ''admin'', vu_username = ''admin'', vu_email = None\<rparr>"

definition small_grants :: "(string \<times> string list option) list" where
  "small_grants = [(''north@x'', Some [''/Staff/North''])]"

lemma small_scope:
  "granted_paths id small_grants supervisor = Inr [''/Staff/North'']"
  "resolve_ou_scoped_emails small_district [''/Staff/North''] = [''teacher@x'']"
  by (simp_all add: granted_paths_def small_grants_def supervisor_def list_or_empty_def)
    (simp add: resolve_ou_scoped_emails_def org_unit_matches_def normalize_org_unit_path_def py_strip_def py_rstrip_char_def
      py_isspace_def small_district_def no_tables_def)

definition supervisors_filters :: report_filters where
  "supervisors_filters = no_filters\<lparr>rf_submitted_by_in := Some [''teacher@x'']\<rparr>"

lemma small_requests:
  "report_filters_of id small_grants small_district supervisor no_filters = Inr supervisors_filters"
  "report_filters_of id small_grants small_district teacher no_filters = Inr (no_filters\<lparr>rf_submitted_by := Some ''teacher@x''\<rparr>)"
  "report_filters_of id small_grants small_district administrator (no_filters\<lparr>rf_submitted_by := None\<rparr>) = Inr no_filters"
  using small_scope
  by (simp_all add: report_filters_of_def supervisor_def teacher_def administrator_def supervisors_filters_def no_filters_def)

lemma small_prints:
  "map (\<lambda>(j, p). job_id j) (apply_filters supervisors_filters small_district) = [''j1'']"
  "map (\<lambda>(j, p). job_id j) (apply_filters (no_filters\<lparr>rf_submitted_by := Some ''teacher@x''\<rparr>) small_district) = [''j1'']"
  by (simp_all add: apply_filters_def supervisors_filters_def no_filters_def in_range_def wanted_def small_district_defs)

theorem a_viewer_sees_only_their_own_witness:
  "map (\<lambda>(j, p). job_submitted_by j) (apply_filters (no_filters\<lparr>rf_submitted_by := Some ''teacher@x''\<rparr>) small_district) =
     [Some ''teacher@x'']"
proof -
  have "list_all (\<lambda>(j, p). job_submitted_by j = Some ''teacher@x'')
      (apply_filters (no_filters\<lparr>rf_submitted_by := Some ''teacher@x''\<rparr>) small_district)"
    using a_viewer_sees_only_their_own [OF _ small_requests(2) disjI1 [OF refl]] by (simp add: teacher_def)
  with small_prints(2) show ?thesis by (auto simp: list_all_iff Cons_eq_map_conv)
qed

theorem an_ou_viewers_prints_are_in_scope_witness:
  "apply_filters supervisors_filters small_district \<noteq> [] \<and>
   list_all (\<lambda>(j, p). job_submitted_by j \<noteq> Some ''head@x'') (apply_filters supervisors_filters small_district)"
proof -
  have "ru_email u \<noteq> ''head@x''" if "u \<in> set (rt_users small_district)" "org_unit_matches (ru_org_unit_path u) ''/Staff/North''" for u
    using that by (auto simp: org_unit_matches_def normalize_org_unit_path_def py_strip_def py_rstrip_char_def
        py_isspace_def small_district_def no_tables_def)
  then show ?thesis
    using an_ou_viewers_prints_are_in_scope [OF _ small_requests(1) small_scope(1)] small_prints(1)
    by (fastforce simp: supervisor_def list_all_iff list_ex_iff)
qed

lemma small_copies: "get_copier_usage_totals no_filters small_district =
    [(''head@x'', \<lparr>ct_records = 1, ct_pages = 500, ct_color = 0, ct_mono = 0, ct_scan = 0, ct_fax = 0\<rparr>)]"
  by (simp add: get_copier_usage_totals_def apply_copier_filters_def no_filters_def in_range_def wanted_def group_rows_def
      small_district_defs sum_if_def copy_pages_of_def)

theorem an_ou_viewers_scope_is_lost_witness:
  "map fst (get_copier_usage_totals supervisors_filters small_district) = [''head@x''] \<and>
   ''head@x'' \<notin> set (resolve_ou_scoped_emails small_district [''/Staff/North''])"
proof -
  have "get_copier_usage_totals supervisors_filters small_district = get_copier_usage_totals no_filters small_district"
    using an_ou_viewers_scope_is_lost [OF _ small_requests(1) _ small_requests(3)] by (simp add: supervisor_def administrator_def)
  then show ?thesis using small_copies small_scope(2) by simp
qed

definition small_settings :: cost_settings where
  "small_settings = \<lparr>fs_formulas = \<lparr>fv_cost_per_page_mono = 3 / 100, fv_cost_per_page_color = 1 / 10,
     fv_sheets_per_tree = 8333, fv_co2_grams_per_sheet = 127 / 10\<rparr>, fs_cost_per_sheet_paper = 1 / 100,
     fs_iso_coverage_per_channel = 1 / 20, fs_student_count = 0\<rparr>"

theorem staff_usage_stays_in_scope_witness:
  "report_staff_usage id [] small_settings supervisor supervisors_filters ''head@x'' small_district =
     Inl (Http 403 ''You don't have access to this person's usage'') \<and>
   (\<exists>out. report_staff_usage id [] small_settings supervisor supervisors_filters ''teacher@x'' small_district = Inr out)"
  using staff_usage_stays_in_scope [OF _ small_requests(1) small_scope(1), where table = "[]" and fs = small_settings and email = "''head@x''"]
    staff_usage_stays_in_scope [OF _ small_requests(1) small_scope(1), where table = "[]" and fs = small_settings and email = "''teacher@x''"]
  by (simp add: scope_of_def supervisor_def small_scope(2) split: sum.splits)

subsection \<open>The floor\<close>

lemma too_few: "count_contributors lower f db < MIN_CONTRIBUTORS_FOR_DISTRICT_FACTS \<Longrightarrow>
    \<not> MIN_CONTRIBUTORS_FOR_DISTRICT_FACTS \<le> int (length (get_pages_per_person lower f db))"
  by (simp add: pages_per_person_count)

lemma same_rows_same_figures:
  assumes "apply_filters f db = apply_filters f db'" "apply_copier_filters f db = apply_copier_filters f db'"
    "rt_coverage db = rt_coverage db'"
  shows "get_summary f db = get_summary f db'" "get_largest_job_pages f db = get_largest_job_pages f db'"
    "cg_overall (compute_cost_accumulators table fs f db) = cg_overall (compute_cost_accumulators table fs f db')"
    "kg_overall (compute_copy_cost_accumulators table fs f db) = kg_overall (compute_copy_cost_accumulators table fs f db')"
  using assms by (simp_all add: get_summary_def get_largest_job_pages_def compute_cost_accumulators_def Let_def
      get_cost_raw_rows_def compute_copy_cost_accumulators_def get_copy_cost_raw_rows_def)

text \<open>
  C21: below the floor nothing of the others shows: while fewer than ten people printed or copied in
  a window, the personal view is a function of the caller's own rows and the district's view of the
  number of contributors alone, so two districts that differ in everybody else's rows look the same.
\<close>

theorem below_the_floor_others_do_not_show:
  assumes "rf_submitted_by window = None" "own = window\<lparr>rf_submitted_by := Some (vu_username user)\<rparr>"
    "count_contributors lower window db < MIN_CONTRIBUTORS_FOR_DISTRICT_FACTS"
    "count_contributors lower window db' = count_contributors lower window db"
    "apply_filters own db = apply_filters own db'" "apply_copier_filters own db = apply_copier_filters own db'"
    "rt_coverage db = rt_coverage db'"
  shows "report_explained_me lower table fs road user window db = report_explained_me lower table fs road user window db' \<and>
    report_district_fun_facts lower fs road window db = report_district_fun_facts lower fs road window db'"
proof -
  have wide: "own\<lparr>rf_submitted_by := None\<rparr> = window" using assms(1,2) by simp
  have "\<not> MIN_CONTRIBUTORS_FOR_DISTRICT_FACTS \<le> int (length (get_pages_per_person lower window db))"
    "\<not> MIN_CONTRIBUTORS_FOR_DISTRICT_FACTS \<le> int (length (get_pages_per_person lower window db'))"
    using assms(3,4) by (simp_all add: too_few)
  then have "report_explained_me lower table fs road user window db = report_explained_me lower table fs road user window db'"
    unfolding report_explained_me_def assms(2) [symmetric] Let_def wide
    using same_rows_same_figures [OF assms(5,6,7)] by simp
  moreover have "report_district_fun_facts lower fs road window db = report_district_fun_facts lower fs road window db'"
    using assms(3,4) by (simp add: report_district_fun_facts_def Let_def)
  ultimately show ?thesis by blast
qed

definition other_district :: report_tables where
  "other_district = small_district\<lparr>rt_jobs := [print_of ''j1'' ''teacher@x'' 4, print_of ''j2'' ''head@x'' 7]\<rparr>"

lemma small_people:
  "count_contributors id no_filters small_district = 2" "count_contributors id no_filters other_district = 2"
  by (simp_all add: count_contributors_def apply_filters_def apply_copier_filters_def no_filters_def in_range_def wanted_def
      other_district_def small_district_defs)

lemma small_own:
  "apply_filters (no_filters\<lparr>rf_submitted_by := Some ''teacher@x''\<rparr>) small_district =
     apply_filters (no_filters\<lparr>rf_submitted_by := Some ''teacher@x''\<rparr>) other_district"
  "apply_copier_filters (no_filters\<lparr>rf_submitted_by := Some ''teacher@x''\<rparr>) small_district =
     apply_copier_filters (no_filters\<lparr>rf_submitted_by := Some ''teacher@x''\<rparr>) other_district"
  by (simp_all add: apply_filters_def apply_copier_filters_def no_filters_def in_range_def wanted_def
      other_district_def small_district_defs)

theorem below_the_floor_others_do_not_show_witness:
  "report_explained_me id [] small_settings None teacher no_filters small_district =
     report_explained_me id [] small_settings None teacher no_filters other_district \<and>
   small_district \<noteq> other_district"
proof -
  have "rt_jobs small_district \<noteq> rt_jobs other_district"
    by (simp add: other_district_def small_district_def print_of_def job_defaults_def)
  moreover have "rf_submitted_by no_filters = None" "rt_coverage small_district = rt_coverage other_district"
    by (simp_all add: no_filters_def other_district_def)
  ultimately show ?thesis
    using below_the_floor_others_do_not_show [of no_filters _ teacher id small_district other_district "[]" small_settings None, OF _ refl]
      small_people small_own by (auto simp: teacher_def MIN_CONTRIBUTORS_FOR_DISTRICT_FACTS_def)
qed

subsection \<open>The list and its header\<close>

lemma sum_of_newest_first: "sum_of g (newest_first rows) = sum_of g rows"
  by (simp add: newest_first_def sum_of_filter) (simp add: sum_of_add [symmetric] comp_def, rule sum_of_cong; simp)

lemma length_newest_first: "length (newest_first rows) = length rows"
  using sum_of_newest_first [of "\<lambda>r. 1 :: int" rows] by (simp add: sum_of_ones)

text \<open>
  The list of one's activity and the totals above it agree: when the list is not cut, the pages of
  its print rows are the printed pages of the personal view and those of its copies the copied
  pages, and the number of rows it states is the number there are.
\<close>

theorem activity_adds_up_to_the_header:
  assumes "report_my_activity user window limit db = (rows, amount, noted)" "rf_status window = Some ''forwarded''"
    "amount \<le> limit" "list_all (\<lambda>u. cu_activity u \<noteq> []) (rt_usage db)"
    "view = report_explained_me lower table fs road user window db"
  shows "sum_if (\<lambda>r. ar_kind r = ''print'') ar_pages rows = sm_total_pages (pv_summary view) \<and>
    sum_if (\<lambda>r. ar_kind r = ''copy'' \<and> ar_activity_type r = ''copy'') ar_pages rows = pv_copy_pages view \<and>
    amount = int (length rows)"
proof -
  let ?own = "window\<lparr>rf_submitted_by := Some (vu_username user)\<rparr>"
  let ?all = "get_print_rows ?own db @ get_copy_rows ?own db"
  have "0 \<le> amount" "rows = py_slice_to limit (newest_first ?all)" "amount = int (length ?all)"
    using assms(1) by (auto simp: report_my_activity_def get_my_activity_def Let_def length_newest_first)
  with assms(3) have rows: "rows = newest_first ?all" "amount = int (length rows)"
    by (auto simp: py_slice_to_def length_newest_first)
  have "sum_if P ar_pages rows = sum_if P ar_pages ?all" for P
    by (simp only: rows(1) sum_if_def' sum_of_newest_first)
  moreover have "sum_if (\<lambda>r. ar_kind r = ''print'') ar_pages ?all = sm_total_pages (get_summary ?own db)"
  proof -
    have "\<forall>x\<in>set (apply_filters ?own db). job_status (fst x) = ''forwarded''"
      using assms(2) by (auto simp: apply_filters_def wanted_def)
    then have "filter (\<lambda>(j, p). job_status j = ''forwarded'') (apply_filters ?own db) = apply_filters ?own db"
      by (simp add: filter_id_conv case_prod_unfold)
    then show ?thesis
      by (simp add: sum_if_def' get_print_rows_def get_copy_rows_def Let_def sum_of_map case_prod_unfold get_summary_def
          comp_def cong: if_cong) (simp add: sum_of_def)
  qed
  moreover have "sum_if (\<lambda>r. ar_kind r = ''copy'' \<and> ar_activity_type r = ''copy'') ar_pages ?all =
      sum_of cc_page_count (get_copy_cost_raw_rows ?own db)"
  proof -
    have "or_text (Some (cu_activity (fst x))) ''copy'' = cu_activity (fst x)" if "x \<in> set (apply_copier_filters ?own db)" for x
      using that assms(4) by (auto simp: apply_copier_filters_def or_text_def list_all_iff)
    then have "sum_of (\<lambda>x. if or_text (Some (cu_activity (fst x))) ''copy'' = ''copy'' then copy_pages_of (fst x) else 0)
          (apply_copier_filters ?own db) =
        sum_of (\<lambda>x. if cu_activity (fst x) = ''copy'' then copy_pages_of (fst x) else 0) (apply_copier_filters ?own db)"
      by (intro sum_of_cong) auto
    then show ?thesis
      by (simp add: sum_if_def' get_print_rows_def get_copy_rows_def Let_def sum_of_map case_prod_unfold
          get_copy_cost_raw_rows_def sum_of_filter cong: if_cong) (simp add: sum_of_def)
  qed
  ultimately show ?thesis
    using rows(2) by (simp add: assms(5) report_explained_me_def Let_def copy_cost_pages)
qed

theorem activity_adds_up_to_the_header_witness:
  "sum_if (\<lambda>r. ar_kind r = ''print'') ar_pages
     (fst (report_my_activity teacher (no_filters\<lparr>rf_status := Some ''forwarded''\<rparr>) 200 small_district)) =
   sm_total_pages (pv_summary (report_explained_me id [] small_settings None teacher
     (no_filters\<lparr>rf_status := Some ''forwarded''\<rparr>) small_district))"
proof -
  let ?w = "no_filters\<lparr>rf_status := Some ''forwarded''\<rparr>"
  obtain rows n noted where out: "report_my_activity teacher ?w 200 small_district = (rows, n, noted)"
    by (cases "report_my_activity teacher ?w 200 small_district")
  have "length (get_print_rows (?w\<lparr>rf_submitted_by := Some ''teacher@x''\<rparr>) small_district) \<le> 2"
    "length (get_copy_rows (?w\<lparr>rf_submitted_by := Some ''teacher@x''\<rparr>) small_district) \<le> 1"
    by (simp_all add: get_print_rows_def get_copy_rows_def apply_filters_def apply_copier_filters_def no_filters_def in_range_def
        wanted_def small_district_defs)
  then have "n \<le> 200"
    using out by (auto simp: report_my_activity_def get_my_activity_def Let_def length_newest_first teacher_def)
  moreover have "list_all (\<lambda>u. cu_activity u \<noteq> []) (rt_usage small_district)" by (simp add: small_district_defs)
  ultimately show ?thesis
    using activity_adds_up_to_the_header [OF out _ _ _ refl, of id "[]" small_settings None] out by simp
qed

subsection \<open>The columns of the breakdown\<close>

lemma parts_sum:
  "distinct names \<Longrightarrow> sum_of (\<lambda>x. sum_of (\<lambda>r. if key r = Some x then w r else 0) rows) names =
     sum_of (\<lambda>r. if key r \<in> Some ` set names then w r else (0::int)) rows"
proof (induction names)
  case (Cons x names)
  have "sum_of (\<lambda>r. if key r = Some x then w r else 0) rows + sum_of (\<lambda>r. if key r \<in> Some ` set names then w r else 0) rows =
      sum_of (\<lambda>r. if key r \<in> Some ` set (x # names) then w r else 0) rows"
    unfolding sum_of_add [symmetric] using Cons.prems by (intro sum_of_cong) auto
  with Cons show ?case by simp
qed (simp add: sum_of_def)

lemma sum_of_mono: "(\<And>x. x \<in> set xs \<Longrightarrow> f x \<le> (g x :: int)) \<Longrightarrow> sum_of f xs \<le> sum_of g xs"
  by (induction xs) (auto intro: add_mono)

lemma kept_sum:
  assumes "\<And>s. s \<in> set segments \<Longrightarrow> 0 \<le> a s \<and> 0 \<le> b s \<and> n s = a s + b s"
  shows "sum_of a (filter (\<lambda>s. 0 < n s) segments) = sum_of a segments \<and> sum_of b (filter (\<lambda>s. 0 < n s) segments) = sum_of b (segments :: segment list) \<and>
    sum_of (n :: segment \<Rightarrow> int) (filter (\<lambda>s. 0 < n s) segments) = sum_of a segments + sum_of b segments"
proof -
  have "sum_of a (filter (\<lambda>s. 0 < n s) segments) = sum_of a segments" "sum_of b (filter (\<lambda>s. 0 < n s) segments) = sum_of b segments"
    unfolding sum_of_filter using assms by (intro sum_of_cong; force)+
  moreover have "sum_of n (filter (\<lambda>s. 0 < n s) segments) = sum_of a (filter (\<lambda>s. 0 < n s) segments) + sum_of b (filter (\<lambda>s. 0 < n s) segments)"
    unfolding sum_of_add [symmetric] using assms by (intro sum_of_cong) auto
  ultimately show ?thesis by simp
qed

lemma combined_totals: "cs_total_pages (get_combined_summary f db) = cs_print_pages (get_combined_summary f db) + cs_copy_pages (get_combined_summary f db)"
  "cs_print_pages (get_combined_summary f db) = sum_of (pages \<circ> fst) (apply_filters f db)"
  by (simp_all add: get_combined_summary_def Let_def get_summary_def sum_of_map comp_def)

definition mapped_copy :: "copy_row \<times> mfp_device \<Rightarrow> int" where
  "mapped_copy r = (if cu_activity (fst r) = ''copy'' \<and> cu_staff_email (fst r) \<noteq> None then copy_pages_of (fst r) else 0)"

lemma combined_copies: "cs_copy_pages (get_combined_summary f db) = sum_of mapped_copy (apply_copier_filters f db)"
  unfolding combined_copy_pages sum_of_map mapped_copy_def ..

lemma breakdown_columns:
  assumes names: "distinct names"
    and parts: "\<And>x. apply_filters (g x) db = filter (\<lambda>r. keyj r = Some x) (apply_filters f db)"
      "\<And>x. apply_copier_filters (g x) db = filter (\<lambda>r. keyc r = Some x) (apply_copier_filters f db)"
    and nonneg: "list_all (\<lambda>j. 0 \<le> pages j) (rt_jobs db)" "list_all (\<lambda>u. 0 \<le> copy_pages_of u) (rt_usage db)"
    and out: "out = breakdown lower table fs f db (map (\<lambda>x. (x, g x)) names)"
  shows "sum_of sg_print_pages out = cs_print_pages (get_combined_summary f db) \<and>
    sum_of sg_copy_pages out = cs_copy_pages (get_combined_summary f db) \<and>
    sum_of sg_total_pages out = cs_total_pages (get_combined_summary f db)"
proof -
  let ?J = "apply_filters f db" and ?C = "apply_copier_filters f db"
  let ?segs = "map (\<lambda>x. segment_totals lower table fs (g x) x db) names"
  let ?kept = "filter (\<lambda>s. 0 < sg_total_pages s) ?segs"
  have nn: "r \<in> set ?J \<Longrightarrow> 0 \<le> (pages \<circ> fst) r" "r' \<in> set ?C \<Longrightarrow> 0 \<le> mapped_copy r'" for r r'
    using nonneg by (auto simp: apply_filters_def apply_copier_filters_def list_all_iff mapped_copy_def)
  have seg: "sg_print_pages (segment_totals lower table fs (g x) x db) = sum_of (\<lambda>r. if keyj r = Some x then (pages \<circ> fst) r else 0) ?J"
    "sg_copy_pages (segment_totals lower table fs (g x) x db) = sum_of (\<lambda>r. if keyc r = Some x then mapped_copy r else 0) ?C"
    "sg_total_pages (segment_totals lower table fs (g x) x db) =
       sg_print_pages (segment_totals lower table fs (g x) x db) + sg_copy_pages (segment_totals lower table fs (g x) x db)" for x
    by (simp_all add: segment_totals_def Let_def combined_totals combined_copies parts sum_of_filter)
  have pos: "0 \<le> sg_print_pages s \<and> 0 \<le> sg_copy_pages s \<and> sg_total_pages s = sg_print_pages s + sg_copy_pages s"
    if s_in: "s \<in> set ?segs" for s
  proof -
    obtain x where s: "s = segment_totals lower table fs (g x) x db" using s_in by auto
    have "0 \<le> sg_print_pages s" "0 \<le> sg_copy_pages s"
      unfolding s seg using nn by (auto intro!: sum_of_nonneg)
    then show ?thesis unfolding s seg(3) by simp
  qed
  have P: "sum_of sg_print_pages ?segs = sum_of (\<lambda>r. if keyj r \<in> Some ` set names then (pages \<circ> fst) r else 0) ?J"
    "sum_of sg_copy_pages ?segs = sum_of (\<lambda>r. if keyc r \<in> Some ` set names then mapped_copy r else 0) ?C"
    unfolding sum_of_map seg by (rule parts_sum [OF names])+
  have le: "sum_of sg_print_pages ?segs \<le> sum_of (pages \<circ> fst) ?J" "sum_of sg_copy_pages ?segs \<le> sum_of mapped_copy ?C"
    unfolding P using nn by (intro sum_of_mono; simp)+
  have cols: "sum_of sg_print_pages ?kept = sum_of sg_print_pages ?segs" "sum_of sg_copy_pages ?kept = sum_of sg_copy_pages ?segs"
    "sum_of sg_total_pages ?kept = sum_of sg_print_pages ?segs + sum_of sg_copy_pages ?segs"
    using kept_sum [of ?segs sg_print_pages sg_copy_pages sg_total_pages, OF pos] by blast+
  have "out = descending sg_total_pages (?kept @
      (let rest = unassigned_segment (get_combined_summary f db) (sheets_for (get_summary f db) (cs_copy_pages (get_combined_summary f db)))
          (ac_total (cg_overall (compute_cost_accumulators table fs f db)) +
           ak_total (kg_overall (compute_copy_cost_accumulators table fs f db))) ?kept
       in if 0 < sg_total_pages rest then [rest] else []))"
    by (simp add: out breakdown_def Let_def comp_def)
  then show ?thesis
    using le cols by (simp add: descending_def Let_def unassigned_segment_def combined_totals combined_copies)
qed

definition linked_department :: "report_tables \<Rightarrow> mfp_device \<Rightarrow> string option" where
  "linked_department db d =
     (case md_printer_id d of
        None \<Rightarrow> None
      | Some i \<Rightarrow> (case find (\<lambda>p. printer_id p = i) (rt_printers db) of None \<Rightarrow> None | Some p \<Rightarrow> printer_department p))"

lemma find_printer:
  "distinct (map printer_id ps) \<Longrightarrow> find (\<lambda>p. printer_id p = i) ps = Some p \<longleftrightarrow> p \<in> set ps \<and> printer_id p = i"
  by (induction ps) auto

lemma linked_department:
  assumes "distinct (map printer_id (rt_printers db))"
  shows "list_ex (\<lambda>p. md_printer_id d = Some (printer_id p) \<and> printer_department p = Some x) (rt_printers db) \<longleftrightarrow>
    linked_department db d = Some x"
proof (cases "md_printer_id d")
  case None
  then show ?thesis by (simp add: linked_department_def list_ex_iff)
next
  case (Some i)
  have "list_ex (\<lambda>p. md_printer_id d = Some (printer_id p) \<and> printer_department p = Some x) (rt_printers db) \<longleftrightarrow>
      (\<exists>p. find (\<lambda>p. printer_id p = i) (rt_printers db) = Some p \<and> printer_department p = Some x)"
    unfolding find_printer [OF assms] Some list_ex_iff by blast
  with Some show ?thesis by (simp add: linked_department_def split: option.splits)
qed

text \<open>
  A breakdown of the district adds up to the district: by building and by department, the rows
  with the remainder they leave sum to the district's printed, copied and total pages; no page is
  counted twice and none dropped.
\<close>

theorem the_breakdown_adds_up:
  assumes "rf_building window = None" "rf_department window = None" "distinct (map printer_id (rt_printers db))"
    "list_all (\<lambda>j. 0 \<le> pages j) (rt_jobs db)" "list_all (\<lambda>u. 0 \<le> copy_pages_of u) (rt_usage db)"
    "detail = report_district_detail lower table fs road window db" "segments \<in> {dd_by_building detail, dd_by_department detail}"
  shows "sum_of sg_print_pages segments = cs_print_pages (dd_combined detail) \<and>
    sum_of sg_copy_pages segments = cs_copy_pages (dd_combined detail) \<and>
    sum_of sg_total_pages segments = cs_total_pages (dd_combined detail)"
proof -
  have building: "apply_filters (window\<lparr>rf_building := Some x\<rparr>) db = filter (\<lambda>r. printer_building (snd r) = Some x) (apply_filters window db)"
    "apply_copier_filters (window\<lparr>rf_building := Some x\<rparr>) db = filter (\<lambda>r. cu_building (fst r) = Some x) (apply_copier_filters window db)" for x
    unfolding apply_filters_def apply_copier_filters_def filter_filter using assms(1)
    by (intro filter_cong; auto simp: wanted_def in_range_def)+
  have department: "apply_filters (window\<lparr>rf_department := Some x\<rparr>) db = filter (\<lambda>r. printer_department (snd r) = Some x) (apply_filters window db)"
    "apply_copier_filters (window\<lparr>rf_department := Some x\<rparr>) db = filter (\<lambda>r. linked_department db (snd r) = Some x) (apply_copier_filters window db)" for x
    unfolding apply_filters_def apply_copier_filters_def filter_filter using assms(2) linked_department [OF assms(3)]
    by (intro filter_cong; auto simp: wanted_def in_range_def)+
  have names: "distinct (names_of xs)" for xs by (simp add: names_of_def)
  have "dd_combined detail = get_combined_summary window db" by (simp add: assms(6) report_district_detail_def Let_def)
  moreover have "segments = dd_by_building detail \<or> segments = dd_by_department detail" using assms(7) by simp
  ultimately show ?thesis
  proof (elim disjE)
    assume "segments = dd_by_building detail"
    with breakdown_columns [OF names building assms(4,5)] \<open>dd_combined detail = _\<close> show ?thesis
      by (simp add: assms(6) report_district_detail_def Let_def)
  next
    assume "segments = dd_by_department detail"
    with breakdown_columns [OF names department assms(4,5)] \<open>dd_combined detail = _\<close> show ?thesis
      by (simp add: assms(6) report_district_detail_def Let_def)
  qed
qed

theorem the_breakdown_adds_up_witness:
  "sum_of sg_total_pages (dd_by_building (report_district_detail id [] small_settings None no_filters small_district)) = 604"
proof -
  have "sum_of sg_total_pages (dd_by_building (report_district_detail id [] small_settings None no_filters small_district)) =
      cs_total_pages (dd_combined (report_district_detail id [] small_settings None no_filters small_district))"
    using the_breakdown_adds_up [OF _ _ _ _ _ refl insertI1, of no_filters small_district id "[]" small_settings None]
    by (simp add: no_filters_def small_district_defs pages_def copy_pages_of_def)
  also have "\<dots> = 604"
    by (simp add: report_district_detail_def Let_def combined_totals combined_copies mapped_copy_def apply_filters_def
        apply_copier_filters_def no_filters_def in_range_def wanted_def small_district_defs pages_def copy_pages_of_def)
  finally show ?thesis .
qed

definition two_buildings :: report_tables where
  "two_buildings = no_tables\<lparr>
     rt_printers := [(printer_defaults ''p1'' ''North'')\<lparr>printer_building := Some ''A''\<rparr>,
       (printer_defaults ''p2'' ''South'')\<lparr>printer_building := Some ''B''\<rparr>],
     rt_jobs := map (\<lambda>(i, p). (job_defaults i p 1000)\<lparr>job_status := ''forwarded'', job_page_count := Some 1,
       job_duplex := Some True\<rparr>) [(''j1'', ''p1''), (''j2'', ''p2'')]\<rparr>"

lemma two_buildings_names:
  "names_of (map printer_building (rt_printers two_buildings) @ map md_building (rt_devices two_buildings)) = [''A'', ''B'']"
  by (simp add: two_buildings_def no_tables_def printer_defaults_def names_of_def)

lemma two_buildings_totals:
  "cs_total_pages (get_combined_summary (no_filters\<lparr>rf_building := Some ''A''\<rparr>) two_buildings) = 1"
  "cs_total_pages (get_combined_summary (no_filters\<lparr>rf_building := Some ''B''\<rparr>) two_buildings) = 1"
  "cs_total_pages (get_combined_summary no_filters two_buildings) = 2"
  "cs_copy_pages (get_combined_summary f two_buildings) = 0"
  "sheets_for (get_summary (no_filters\<lparr>rf_building := Some ''A''\<rparr>) two_buildings) 0 = 1"
  "sheets_for (get_summary (no_filters\<lparr>rf_building := Some ''B''\<rparr>) two_buildings) 0 = 1"
  "sheets_for (get_summary no_filters two_buildings) 0 = 1"
  by (simp_all add: combined_totals combined_copies apply_filters_def apply_copier_filters_def no_filters_def in_range_def wanted_def
      two_buildings_def no_tables_def printer_defaults_def job_defaults_def pages_def sheets_for_def get_summary_def sum_if_def
      sheets_from_totals_def half_up_def Let_def)

text \<open>
  Not every column reconciles: where two buildings each printed one duplex page the breakdown
  lists two sheets, no remainder is shown, and the district used one.
\<close>

theorem the_sheet_column_need_not_add_up:
  "(let detail = report_district_detail lower table fs road no_filters two_buildings
    in sum_of sg_sheets (dd_by_building detail) = 2 \<and> dd_sheets detail = 1)"
  using two_buildings_names two_buildings_totals
  by (simp add: report_district_detail_def Let_def breakdown_def segment_totals_def unassigned_segment_def descending_def)

end
