(* ===== verification/Audit_Trail.thy ===== *)
theory Audit_Trail
  imports Held_Jobs "HOL-Library.Multiset" "HOL-Library.Product_Lexorder" "HOL-Library.List_Lexorder" "HOL-Library.Char_ord"
begin

section \<open>The record of what admins do (app/audit, routers/audit.py, main.py)\<close>

text \<open>
  \<open>record_audit\<close> with the redaction of secrets, the differences it is given, the record of a
  settings change, the listing with its pages, the retention setting and the daily purge.  A
  database object is the list of its columns with their Python values; a dictionary is its list
  of members.  Row ids, the clock and the database's \<open>lower\<close> are parameters.
\<close>

subsection \<open>Python values\<close>

text \<open>Whatever is none of JSON's own types (a UUID, a date) is known by its \<open>str\<close>.\<close>

datatype pyval =
    VNone
  | VBool bool
  | VNum rat
  | VStr string
  | VList "pyval list"
  | VTuple "pyval list"
  | VDict "(string \<times> pyval) list"
  | VOther string

text \<open>Python's \<open>==\<close>: a number equals a truth value, a dictionary's order does not count.\<close>

fun py_eq :: "pyval \<Rightarrow> pyval \<Rightarrow> bool"
  and py_eqs :: "pyval list \<Rightarrow> pyval list \<Rightarrow> bool"
  and py_within :: "(string \<times> pyval) list \<Rightarrow> (string \<times> pyval) list \<Rightarrow> bool" where
  "py_eq VNone w = (w = VNone)"
| "py_eq (VBool b) w = (case w of VBool c \<Rightarrow> b = c | VNum r \<Rightarrow> r = of_bool b | _ \<Rightarrow> False)"
| "py_eq (VNum r) w = (case w of VBool c \<Rightarrow> r = of_bool c | VNum s \<Rightarrow> r = s | _ \<Rightarrow> False)"
| "py_eq (VStr s) w = (w = VStr s)"
| "py_eq (VOther s) w = (w = VOther s)"
| "py_eq (VList xs) w = (case w of VList ys \<Rightarrow> py_eqs xs ys | _ \<Rightarrow> False)"
| "py_eq (VTuple xs) w = (case w of VTuple ys \<Rightarrow> py_eqs xs ys | _ \<Rightarrow> False)"
| "py_eq (VDict xs) w = (case w of VDict ys \<Rightarrow> length xs = length ys \<and> py_within xs ys | _ \<Rightarrow> False)"
| "py_eqs [] ys = (ys = [])"
| "py_eqs (x # xs) ys = (case ys of [] \<Rightarrow> False | y # ys' \<Rightarrow> py_eq x y \<and> py_eqs xs ys')"
| "py_within [] ys = True"
| "py_within (kv # xs) ys =
     (case map_of ys (fst kv) of None \<Rightarrow> False | Some w \<Rightarrow> py_eq (snd kv) w \<and> py_within xs ys)"

text \<open>\<open>d.get(field)\<close> and \<open>getattr(obj, field, None)\<close>.\<close>

definition get_or_None :: "(string \<times> pyval) list \<Rightarrow> string \<Rightarrow> pyval" where
  "get_or_None d field = (case map_of d field of None \<Rightarrow> VNone | Some v \<Rightarrow> v)"

subsection \<open>Differences (record.py)\<close>

definition REDACTED :: string where
  "REDACTED = ''***''"

definition SECRET_FIELD_MARKERS :: "string list" where
  "SECRET_FIELD_MARKERS = [''password'', ''secret'', ''token'', ''credential'', ''community'', ''api_key'', ''apikey'',
     ''private_key'', ''client_secret'', ''passphrase'', ''encrypted'', ''_hash'']"

definition is_secret :: "string \<Rightarrow> bool" where
  "is_secret field = list_ex (\<lambda>marker. contains marker (map ascii_lower field)) SECRET_FIELD_MARKERS"

fun scalar :: "pyval \<Rightarrow> pyval" where
  "scalar (VList xs) = VList (map scalar xs)"
| "scalar (VTuple xs) = VList (map scalar xs)"
| "scalar (VDict kvs) = VDict (map (map_prod id scalar) kvs)"
| "scalar (VOther s) = VStr s"
| "scalar v = v"

definition from_to :: "pyval \<Rightarrow> pyval \<Rightarrow> pyval" where
  "from_to old new = VDict [(''from'', old), (''to'', new)]"

definition hidden :: pyval where
  "hidden = from_to (VStr REDACTED) (VStr REDACTED)"

definition difference :: "string \<Rightarrow> pyval \<Rightarrow> pyval \<Rightarrow> pyval" where
  "difference field old new = (if is_secret field then hidden else from_to (scalar old) (scalar new))"

fun diff_into :: "(string \<times> pyval) list \<Rightarrow> (string \<times> pyval) list \<Rightarrow> (string \<times> pyval) list \<Rightarrow> string list \<Rightarrow> (string \<times> pyval) list" where
  "diff_into changed before after [] = changed"
| "diff_into changed before after (field # names) =
     (let old = get_or_None before field; new = get_or_None after field
      in if py_eq old new then diff_into changed before after names
         else diff_into (AList.update field (difference field old new) changed) before after names)"

definition diff :: "(string \<times> pyval) list \<Rightarrow> (string \<times> pyval) list \<Rightarrow> string list \<Rightarrow> (string \<times> pyval) list" where
  "diff before after names = diff_into [] before after names"

subsection \<open>One row of the trail\<close>

text \<open>Who a request comes from (schemas/auth.py, \<open>UserOut\<close>).\<close>

record signed_in =
  si_username :: string
  si_role :: string
  si_subject :: string
  si_email :: "string option"
  si_name :: "string option"
  si_granted :: "string list option"
  si_impersonated_by :: "string option"

record audit_event =
  ae_id :: uuid
  ae_occurred_at :: datetime
  ae_actor_user_id :: "uuid option"
  ae_actor_email :: string
  ae_actor_role :: string
  ae_impersonated_by :: "string option"
  ae_action :: string
  ae_entity_type :: "string option"
  ae_entity_id :: "string option"
  ae_entity_label :: "string option"
  ae_summary :: string
  ae_changes :: "(string \<times> pyval) list option"
  ae_source_ip :: "string option"

text \<open>What a caller of \<open>record_audit\<close> passes besides the actor.\<close>

record audit_entry =
  en_action :: string
  en_summary :: string
  en_entity_type :: "string option"
  en_entity_id :: "string option"
  en_entity_label :: "string option"
  en_changes :: "(string \<times> pyval) list option"
  en_source_ip :: "string option"

definition entry :: "string \<Rightarrow> string \<Rightarrow> string \<Rightarrow> audit_entry" where
  "entry action summary entity_type =
     \<lparr>en_action = action, en_summary = summary, en_entity_type = Some entity_type, en_entity_id = None,
      en_entity_label = None, en_changes = None, en_source_ip = None\<rparr>"

definition safe_changes :: "(string \<times> pyval) list option \<Rightarrow> (string \<times> pyval) list option" where
  "safe_changes changes =
     (case changes of
        None \<Rightarrow> None
      | Some kvs \<Rightarrow> or_none (map (\<lambda>(field, value). (field, if is_secret field then hidden else scalar value)) kvs))"

text \<open>
  \<open>uuid.UUID(text)\<close> of the standard library: the marks are dropped and 32 characters must be
  left that \<open>int(text, 16)\<close> reads.  \<open>hex_digits\<close> gives the digits it reads, without the sign,
  the \<open>0x\<close> and the single underscores it allows.
\<close>

function remove_all :: "string \<Rightarrow> string \<Rightarrow> string" where
  "remove_all mark s =
     (if s = [] then [] else if mark \<noteq> [] \<and> take (length mark) s = mark then remove_all mark (drop (length mark) s)
      else hd s # remove_all mark (tl s))"
  by pat_completeness auto
termination
  by (relation "measure (\<lambda>(mark, s). length s)") auto

declare remove_all.simps [simp del]

definition is_hex :: "char \<Rightarrow> bool" where
  "is_hex c \<longleftrightarrow> is_digit c \<or> ascii_lower c \<in> set ''abcdef''"

fun underscored_digits :: "string \<Rightarrow> string option" where
  "underscored_digits [] = None"
| "underscored_digits (c # s) =
     (if \<not> is_hex c then None
      else if s = [] then Some [ascii_lower c]
      else map_option (\<lambda>ds. ascii_lower c # ds) (underscored_digits (if hd s = CHR ''_'' then tl s else s)))"

definition hex_digits :: "string \<Rightarrow> string option" where
  "hex_digits s =
     (let s = py_strip s;
          s = (if take 1 s = ''+'' then drop 1 s else s)
      in if map ascii_lower (take 2 s) = ''0x'' then
           (let r = drop 2 s in underscored_digits (if take 1 r = ''_'' then drop 1 r else r))
         else underscored_digits s)"

definition strip_braces :: "string \<Rightarrow> string" where
  "strip_braces s = rev (dropWhile (\<lambda>c. c \<in> set ''{}'') (rev (dropWhile (\<lambda>c. c \<in> set ''{}'') s)))"

definition hyphenated :: "string \<Rightarrow> string" where
  "hyphenated h = take 8 h @ ''-'' @ take 4 (drop 8 h) @ ''-'' @ take 4 (drop 12 h) @ ''-'' @ take 4 (drop 16 h) @ ''-'' @ drop 20 h"

definition parse_uuid :: "string \<Rightarrow> uuid option" where
  "parse_uuid s =
     (let h = filter (\<lambda>c. c \<noteq> CHR ''-'') (strip_braces (remove_all ''uuid:'' (remove_all ''urn:'' s)))
      in if length h \<noteq> 32 then None
         else map_option (\<lambda>ds. hyphenated (replicate (32 - length ds) (CHR ''0'') @ ds)) (hex_digits h))"

definition actor_user_id :: "signed_in \<Rightarrow> uuid option" where
  "actor_user_id actor = parse_uuid (si_subject actor)"

definition record_audit :: "uuid \<Rightarrow> datetime \<Rightarrow> signed_in \<Rightarrow> audit_entry \<Rightarrow> audit_event" where
  "record_audit i now actor en =
     \<lparr>ae_id = i, ae_occurred_at = now, ae_actor_user_id = actor_user_id actor,
      ae_actor_email = (if truthy (si_email actor) then the (si_email actor) else si_username actor),
      ae_actor_role = si_role actor, ae_impersonated_by = si_impersonated_by actor,
      ae_action = en_action en, ae_entity_type = en_entity_type en, ae_entity_id = en_entity_id en,
      ae_entity_label = en_entity_label en, ae_summary = en_summary en,
      ae_changes = safe_changes (en_changes en), ae_source_ip = en_source_ip en\<rparr>"

subsection \<open>A settings change\<close>

definition NON_AUDITABLE_COLUMNS :: "string set" where
  "NON_AUDITABLE_COLUMNS = {''id'', ''created_at'', ''updated_at''}"

definition auditable_fields :: "string list \<Rightarrow> string set \<Rightarrow> string list" where
  "auditable_fields columns exclude = filter (\<lambda>c. c \<notin> NON_AUDITABLE_COLUMNS \<union> exclude) columns"

definition snapshot :: "(string \<times> pyval) list \<Rightarrow> string list \<Rightarrow> (string \<times> pyval) list" where
  "snapshot obj names = map (\<lambda>name. (name, get_or_None obj name)) names"

definition settings_entry :: "string \<Rightarrow> string \<Rightarrow> (string \<times> pyval) list \<Rightarrow> string option \<Rightarrow> audit_entry" where
  "settings_entry area label changes ip =
     (entry (''settings.'' @ area @ ''.update'') (''Updated '' @ label @ '' settings'') (''settings.'' @ area))
       \<lparr>en_changes := Some changes, en_source_ip := ip\<rparr>"

definition record_settings_update ::
  "uuid \<Rightarrow> datetime \<Rightarrow> signed_in \<Rightarrow> string \<Rightarrow> string \<Rightarrow> string list \<Rightarrow> (string \<times> pyval) list \<Rightarrow> (string \<times> pyval) list \<Rightarrow>
   string option \<Rightarrow> audit_event option" where
  "record_settings_update i now actor area label columns obj before ip =
     (let names = auditable_fields columns {}; changes = diff before (snapshot obj names) names
      in if changes = [] then None else Some (record_audit i now actor (settings_entry area label changes ip)))"

subsection \<open>Reading the trail (routers/audit.py)\<close>

text \<open>SQL's \<open>LIKE\<close> with its escape character; \<open>ILIKE\<close> on the lower-cased texts.\<close>

function sql_like_esc :: "string \<Rightarrow> string \<Rightarrow> bool" where
  "sql_like_esc [] s = (s = [])"
| "sql_like_esc (c # p) s =
     (if c = CHR 0x5C then
        (case p of [] \<Rightarrow> False | d # q \<Rightarrow> (case s of [] \<Rightarrow> False | e # t \<Rightarrow> d = e \<and> sql_like_esc q t))
      else
        (case s of
           [] \<Rightarrow> c = CHR ''%'' \<and> sql_like_esc p []
         | e # t \<Rightarrow> if c = CHR ''%'' then sql_like_esc p s \<or> sql_like_esc (c # p) t
                   else (c = CHR ''_'' \<or> c = e) \<and> sql_like_esc p t))"
  by pat_completeness auto
termination
  by (relation "measure (\<lambda>(p, s). length p + length s)") auto

definition sql_ilike :: "(string \<Rightarrow> string) \<Rightarrow> string \<Rightarrow> string option \<Rightarrow> bool" where
  "sql_ilike lower pat s = (case s of None \<Rightarrow> False | Some s \<Rightarrow> sql_like_esc (lower pat) (lower s))"

record audit_query =
  aq_actor :: "string option"
  aq_action_prefix :: "string option"
  aq_entity_type :: "string option"
  aq_search :: "string option"
  aq_since :: "datetime option"
  aq_until :: "datetime option"

definition audit_matches :: "(string \<Rightarrow> string) \<Rightarrow> audit_query \<Rightarrow> audit_event \<Rightarrow> bool" where
  "audit_matches lower q e \<longleftrightarrow>
     (truthy (aq_actor q) \<longrightarrow> sql_ilike lower (''%'' @ the (aq_actor q) @ ''%'') (Some (ae_actor_email e))) \<and>
     (truthy (aq_action_prefix q) \<longrightarrow>
        ae_action e = the (aq_action_prefix q) \<or> sql_like_esc (the (aq_action_prefix q) @ ''.%'') (ae_action e)) \<and>
     (truthy (aq_entity_type q) \<longrightarrow> ae_entity_type e = aq_entity_type q) \<and>
     (truthy (aq_search q) \<longrightarrow>
        (let needle = ''%'' @ the (aq_search q) @ ''%''
         in sql_ilike lower needle (Some (ae_summary e)) \<or> sql_ilike lower needle (ae_entity_label e) \<or>
            sql_ilike lower needle (Some (ae_actor_email e)))) \<and>
     (case aq_since q of None \<Rightarrow> True | Some t \<Rightarrow> t \<le> ae_occurred_at e) \<and>
     (case aq_until q of None \<Rightarrow> True | Some t \<Rightarrow> ae_occurred_at e \<le> t)"

definition latest_first :: "audit_event list \<Rightarrow> audit_event list" where
  "latest_first events = rev (sort_key (\<lambda>e. (ae_occurred_at e, ae_id e)) events)"

definition list_audit_events ::
  "(string \<Rightarrow> string) \<Rightarrow> audit_query \<Rightarrow> nat \<Rightarrow> nat \<Rightarrow> audit_event list \<Rightarrow> audit_event list \<times> nat" where
  "list_audit_events lower q page page_size events =
     (let rows = filter (audit_matches lower q) events
      in (take page_size (drop ((page - 1) * page_size) (latest_first rows)), length rows))"

definition list_audit_actions :: "audit_event list \<Rightarrow> string list" where
  "list_audit_actions events = sort (remdups (map ae_action events))"

subsection \<open>How long it is kept\<close>

definition MIN_AUDIT_RETENTION_DAYS :: int where
  "MIN_AUDIT_RETENTION_DAYS = 90"

record audit_trail =
  at_events :: "audit_event list"
  at_retention_days :: "int option" \<comment> \<open>None before the settings row exists\<close>

text \<open>The column's default is written by the first reader.\<close>

definition get_or_create_audit_settings :: "audit_trail \<Rightarrow> int \<times> audit_trail" where
  "get_or_create_audit_settings tr =
     (case at_retention_days tr of Some d \<Rightarrow> (d, tr) | None \<Rightarrow> (400, tr\<lparr>at_retention_days := Some 400\<rparr>))"

definition append_event :: "audit_event \<Rightarrow> audit_trail \<Rightarrow> audit_trail" where
  "append_event e tr = tr\<lparr>at_events := at_events tr @ [e]\<rparr>"

definition update_audit_settings ::
  "uuid \<Rightarrow> datetime \<Rightarrow> signed_in \<Rightarrow> int \<Rightarrow> audit_trail \<Rightarrow> (http_error + int) \<times> audit_trail" where
  "update_audit_settings i now actor d tr =
     (if d < MIN_AUDIT_RETENTION_DAYS \<or> 3650 < d then (Inl (Http 422 ''retention_days''), tr)
      else
        (let (before, tr) = get_or_create_audit_settings tr
         in if d = before then (Inr before, tr)
            else (Inr d, append_event
              (record_audit i now actor ((entry ''settings.audit.update''
                 (''Changed audit retention from '' @ str_int before @ '' to '' @ str_int d @ '' days'') ''settings.audit'')
                 \<lparr>en_changes := Some [(''retention_days'', from_to (VNum (of_int before)) (VNum (of_int d)))]\<rparr>))
              (tr\<lparr>at_retention_days := Some d\<rparr>))))"

definition purge_audit_events :: "datetime \<Rightarrow> audit_trail \<Rightarrow> audit_trail" where
  "purge_audit_events now tr =
     (let (d, tr) = get_or_create_audit_settings tr
      in tr\<lparr>at_events := filter (\<lambda>e. now - days d \<le> ae_occurred_at e) (at_events tr)\<rparr>)"

section \<open>What the trail holds\<close>

subsection \<open>Secrets\<close>

text \<open>What of a change the trail may tell: a secret field only that it changed.\<close>

definition same_but_secrets ::
  "string list \<Rightarrow> (string \<times> pyval) list \<Rightarrow> (string \<times> pyval) list \<Rightarrow> (string \<times> pyval) list \<Rightarrow> (string \<times> pyval) list \<Rightarrow> bool" where
  "same_but_secrets names before after before' after' \<longleftrightarrow>
     list_all (\<lambda>c. if is_secret c
         then py_eq (get_or_None before c) (get_or_None after c) = py_eq (get_or_None before' c) (get_or_None after' c)
         else get_or_None before c = get_or_None before' c \<and> get_or_None after c = get_or_None after' c) names"

lemma diff_into_same_but_secrets:
  "same_but_secrets names before after before' after' \<Longrightarrow>
   diff_into changed before after names = diff_into changed before' after' names"
proof (induction names arbitrary: changed)
  case Nil
  then show ?case by simp
next
  case (Cons c names)
  have IH: "\<And>changed. diff_into changed before after names = diff_into changed before' after' names"
    using Cons by (simp add: same_but_secrets_def)
  show ?case
    using Cons.prems IH by (cases "is_secret c") (simp_all add: same_but_secrets_def difference_def Let_def)
qed

lemma get_or_None_snapshot:
  "get_or_None (snapshot obj names) c = (if c \<in> set names then get_or_None obj c else VNone)"
  by (induction names) (auto simp: snapshot_def get_or_None_def split: option.splits)

lemma same_but_secrets_snapshot:
  "same_but_secrets names before obj before' obj' \<Longrightarrow>
   same_but_secrets names before (snapshot obj names) before' (snapshot obj' names)"
  by (auto simp: same_but_secrets_def list_all_iff get_or_None_snapshot split: if_splits)

text \<open>C6: the trail does not depend on any secret. Two settings changes that agree in the fields
  that are not secret and in whether each secret field changed leave the same row.\<close>

theorem no_secret_reaches_the_trail:
  assumes "same_but_secrets (auditable_fields columns {}) before obj before' obj'"
  shows "record_settings_update i now actor area label columns obj before ip =
         record_settings_update i now actor area label columns obj' before' ip"
  using diff_into_same_but_secrets [OF same_but_secrets_snapshot [OF assms]]
  by (simp add: record_settings_update_def diff_def Let_def)

definition example_admin :: signed_in where
  "example_admin = \<lparr>si_username = ''admin'', si_role = ''admin'', si_subject = ''admin'', si_email = None, si_name = None,
     si_granted = None, si_impersonated_by = None\<rparr>"

theorem no_secret_reaches_the_trail_witness:
  "record_settings_update ''r'' 5 example_admin ''mail'' ''Mail'' [''id'', ''host'', ''password_encrypted'']
     [(''id'', VOther ''1''), (''host'', VStr ''b''), (''password_encrypted'', VStr ''new'')]
     [(''host'', VStr ''a''), (''password_encrypted'', VStr ''old'')] None =
   record_settings_update ''r'' 5 example_admin ''mail'' ''Mail'' [''id'', ''host'', ''password_encrypted'']
     [(''id'', VOther ''1''), (''host'', VStr ''b''), (''password_encrypted'', VStr ''other'')]
     [(''host'', VStr ''a''), (''password_encrypted'', VNone)] None"
  by (rule no_secret_reaches_the_trail) code_simp

subsection \<open>What is recorded\<close>

lemma diff_into_keys:
  "fst ` set (diff_into changed before after names) =
   fst ` set changed \<union> {c \<in> set names. \<not> py_eq (get_or_None before c) (get_or_None after c)}"
  by (induction names arbitrary: changed) (auto simp: Let_def dom_update)

lemma diff_into_map_of:
  "map_of (diff_into changed before after names) c =
     (if c \<in> set names \<and> \<not> py_eq (get_or_None before c) (get_or_None after c)
      then Some (difference c (get_or_None before c) (get_or_None after c)) else map_of changed c)"
  by (induction names arbitrary: changed) (auto simp: Let_def update_conv')

lemma diff_map_of:
  "c \<in> set names \<Longrightarrow> \<not> py_eq (get_or_None before c) (get_or_None after c) \<Longrightarrow>
   map_of (diff before after names) c = Some (difference c (get_or_None before c) (get_or_None after c))"
  by (simp add: diff_def diff_into_map_of)

lemma safe_changes_map_of:
  "map_of kvs c = Some v \<Longrightarrow> \<not> is_secret c \<Longrightarrow> map_of (the (safe_changes (Some kvs))) c = Some (scalar v)"
  by (induction kvs) (auto simp: safe_changes_def or_none_def split: if_splits)

lemma diff_keys: "fst ` set (diff before after names) = {c \<in> set names. \<not> py_eq (get_or_None before c) (get_or_None after c)}"
  by (simp add: diff_def diff_into_keys)

lemma diff_into_distinct: "distinct (map fst changed) \<Longrightarrow> distinct (map fst (diff_into changed before after names))"
  by (induction names arbitrary: changed) (simp_all add: Let_def distinct_update)

lemma safe_changes_keys: "kvs \<noteq> [] \<Longrightarrow> map fst (the (safe_changes (Some kvs))) = map fst kvs"
  by (auto simp: safe_changes_def or_none_def)

lemma auditable_fields_set: "set (auditable_fields columns {}) = set columns - NON_AUDITABLE_COLUMNS"
  by (auto simp: auditable_fields_def)

definition changed_columns :: "string list \<Rightarrow> (string \<times> pyval) list \<Rightarrow> (string \<times> pyval) list \<Rightarrow> string set" where
  "changed_columns columns before obj =
     {c \<in> set columns - NON_AUDITABLE_COLUMNS. \<not> py_eq (get_or_None before c) (get_or_None obj c)}"

lemma settings_diff_keys:
  "fst ` set (diff before (snapshot obj (auditable_fields columns {})) (auditable_fields columns {})) =
   changed_columns columns before obj"
  by (auto simp: diff_keys changed_columns_def auditable_fields_set get_or_None_snapshot)

text \<open>A save is recorded exactly when some column other than the key and the row's own
  timestamps changed, and the row then names exactly the columns that did, each once.\<close>

theorem a_save_is_recorded_iff_it_changed_something:
  "case record_settings_update i now actor area label columns obj before ip of
     None \<Rightarrow> changed_columns columns before obj = {}
   | Some e \<Rightarrow> changed_columns columns before obj \<noteq> {} \<and> distinct (map fst (the (ae_changes e))) \<and>
       set (map fst (the (ae_changes e))) = changed_columns columns before obj"
proof -
  let ?d = "diff before (snapshot obj (auditable_fields columns {})) (auditable_fields columns {})"
  have keys: "fst ` set ?d = changed_columns columns before obj" by (rule settings_diff_keys)
  have once: "distinct (map fst ?d)" by (simp add: diff_def diff_into_distinct)
  show ?thesis
  proof (cases "?d = []")
    case True
    then show ?thesis using keys by (simp add: record_settings_update_def Let_def)
  next
    case False
    then have "changed_columns columns before obj \<noteq> {}" using keys by auto
    moreover have "map fst (the (safe_changes (Some ?d))) = map fst ?d" using False by (rule safe_changes_keys)
    moreover have "set (map fst ?d) = changed_columns columns before obj" using keys by simp
    ultimately show ?thesis using False once
      by (simp add: record_settings_update_def Let_def record_audit_def settings_entry_def entry_def del: set_map)
  qed
qed

subsection \<open>How long a row is kept\<close>

datatype trail_op =
    Record audit_event
  | Change_Retention uuid datetime signed_in int
  | Purge datetime

fun trail_step :: "trail_op \<Rightarrow> audit_trail \<Rightarrow> audit_trail" where
  "trail_step (Record e) tr = append_event e tr"
| "trail_step (Change_Retention i now actor d) tr = snd (update_audit_settings i now actor d tr)"
| "trail_step (Purge now) tr = purge_audit_events now tr"

definition retention_ok :: "audit_trail \<Rightarrow> bool" where
  "retention_ok tr \<longleftrightarrow> (case at_retention_days tr of None \<Rightarrow> True | Some d \<Rightarrow> MIN_AUDIT_RETENTION_DAYS \<le> d)"

lemma retention_ok_step: "retention_ok tr \<Longrightarrow> retention_ok (trail_step op tr)"
  by (cases op)
    (auto simp: retention_ok_def update_audit_settings_def purge_audit_events_def get_or_create_audit_settings_def
      append_event_def MIN_AUDIT_RETENTION_DAYS_def Let_def split: option.splits)

fun purges_by :: "datetime \<Rightarrow> trail_op \<Rightarrow> bool" where
  "purges_by latest (Purge now) = (now \<le> latest)"
| "purges_by latest _ = True"

lemma step_keeps_young_rows:
  assumes "retention_ok tr" and "e \<in> set (at_events tr)" and "purges_by (ae_occurred_at e + days 90) op"
  shows "e \<in> set (at_events (trail_step op tr))"
  using assms
  by (cases op)
    (auto simp: retention_ok_def update_audit_settings_def purge_audit_events_def get_or_create_audit_settings_def
      append_event_def MIN_AUDIT_RETENTION_DAYS_def days_def Let_def split: option.splits)

text \<open>C17: nothing an admin can do through this application makes the trail forget an action
  within ninety days. Whatever is recorded, however often the retention is changed and the purge
  runs, a row is there as long as no purge runs later than ninety days after it.\<close>

theorem an_action_is_remembered_for_ninety_days:
  assumes "retention_ok tr" and "e \<in> set (at_events tr)"
    and "list_all (purges_by (ae_occurred_at e + days 90)) ops"
  shows "e \<in> set (at_events (fold trail_step ops tr))"
  using assms
  by (induction ops arbitrary: tr) (auto intro: step_keeps_young_rows retention_ok_step)

definition example_event :: audit_event where
  "example_event = record_audit ''e1'' 0 example_admin (entry ''printer.delete'' ''Deleted printer Lab'' ''printer'')"

theorem an_action_is_remembered_for_ninety_days_witness:
  "example_event \<in> set (at_events (fold trail_step
     [Change_Retention ''r'' 5 example_admin 1, Change_Retention ''r'' 6 example_admin 90, Purge (days 90)]
     \<lparr>at_events = [example_event], at_retention_days = None\<rparr>))"
  by (rule an_action_is_remembered_for_ninety_days)
    (simp_all add: retention_ok_def example_event_def record_audit_def)

subsection \<open>Pages\<close>

lemma pages_concat:
  "concat (map (\<lambda>k. take n (drop ((k - 1) * n) xs)) [1..<Suc m]) = take (m * n) xs"
proof (induction m)
  case (Suc m)
  have "take (n + m * n) xs = take (m * n) xs @ take n (drop (m * n) xs)"
    by (metis add.commute take_add)
  then show ?case using Suc by simp
qed simp

lemma latest_first_set: "mset (latest_first events) = mset events"
  by (simp add: latest_first_def)

text \<open>The pages of the trail are a partition of the rows that match: reading pages 1 to m
  gives every matching row once, the newest first, when they suffice for the total each page
  states.\<close>

theorem pages_show_every_row_once:
  assumes "snd (list_audit_events lower q 1 n events) \<le> m * n"
  shows "mset (concat (map (\<lambda>k. fst (list_audit_events lower q k n events)) [1..<Suc m])) =
           filter_mset (audit_matches lower q) (mset events) \<and>
         sorted_wrt (\<lambda>a b. ae_occurred_at b \<le> ae_occurred_at a)
           (concat (map (\<lambda>k. fst (list_audit_events lower q k n events)) [1..<Suc m]))"
proof -
  let ?rows = "filter (audit_matches lower q) events"
  have "concat (map (\<lambda>k. fst (list_audit_events lower q k n events)) [1..<Suc m]) = take (m * n) (latest_first ?rows)"
    using pages_concat [of n "latest_first ?rows" m] by (simp add: list_audit_events_def Let_def)
  moreover have "length (latest_first ?rows) \<le> m * n"
    using assms by (simp add: list_audit_events_def Let_def latest_first_def)
  ultimately have all: "concat (map (\<lambda>k. fst (list_audit_events lower q k n events)) [1..<Suc m]) = latest_first ?rows"
    by simp
  have "sorted_wrt (\<lambda>a b. ae_occurred_at b \<le> ae_occurred_at a) (latest_first ?rows)"
    using sorted_sort_key [of "\<lambda>e. (ae_occurred_at e, ae_id e)" ?rows]
    by (auto simp: latest_first_def sorted_wrt_rev sorted_map less_eq_prod_def intro: sorted_wrt_mono_rel [rotated])
  then show ?thesis unfolding all by (simp add: latest_first_set)
qed

theorem pages_show_every_row_once_witness:
  "mset (concat (map (\<lambda>k. fst (list_audit_events id \<lparr>aq_actor = None, aq_action_prefix = Some ''printer'', aq_entity_type = None,
       aq_search = None, aq_since = None, aq_until = None\<rparr> k 1 [example_event])) [1..<Suc 1])) =
     filter_mset (audit_matches id \<lparr>aq_actor = None, aq_action_prefix = Some ''printer'', aq_entity_type = None,
       aq_search = None, aq_since = None, aq_until = None\<rparr>) (mset [example_event])"
  by (rule pages_show_every_row_once [THEN conjunct1]) (simp add: list_audit_events_def Let_def)

end
