(* ===== verification/Sign_In.thy ===== *)
theory Sign_In
  imports Models Rate_Limit Held_Jobs Audit_Trail
begin

section \<open>Signing in (app/deps.py, routers/auth.py, routers/users.py, main.py)\<close>

text \<open>
  Tokens, the break-glass login, Google sign-in, the renewal of a session, the accounts an admin
  manages, "View as" and the middleware that keeps it read-only.  A token is the claims it
  carries: the signature (PyJWT) is what makes them the server's own; one that does not verify is
  \<open>None\<close>.  The password hash, Python's and SQL's \<open>lower\<close> and what Google's token endpoint
  answers are parameters, and so are the ids of new rows.  An account's e-mail address and its
  Google subject are unique columns; addresses are compared as they are, so two rows may differ by case only.
\<close>

subsection \<open>Tokens, accounts and the database\<close>

record claims =
  cl_sub :: string
  cl_role :: string
  cl_email :: "string option"
  cl_name :: "string option"
  cl_granted :: "string list option"
  cl_impersonated_by :: "string option"
  cl_exp :: datetime

record account =
  acc_id :: uuid
  acc_email :: string
  acc_name :: "string option"
  acc_picture :: "string option"
  acc_google_sub :: "string option"
  acc_role :: string
  acc_is_active :: bool
  acc_granted :: "string list option"
  acc_exempt :: bool
  acc_last_login_at :: "datetime option"

record sso_settings =
  so_enabled :: bool
  so_client_id :: "string option"
  so_client_secret :: "string option"
  so_redirect_base_url :: "string option"
  so_workspace_domain :: "string option"
  so_initial_admin_emails :: "string option"

record impersonation =
  im_admin_user_id :: "uuid option"
  im_admin_email :: string
  im_target :: uuid
  im_expires_at :: datetime

record auth_db =
  ad_accounts :: "account list"
  ad_idle_timeout_minutes :: int
  ad_sso :: "sso_settings option"
  ad_limiter :: rate_limiter
  ad_audit :: "audit_event list"
  ad_impersonations :: "impersonation list"

record server =
  sv_dev_username :: string
  sv_dev_password :: string
  sv_verifies :: "string \<Rightarrow> string \<Rightarrow> bool" \<comment> \<open>a password against the hash of another\<close>
  sv_lower :: "string \<Rightarrow> string" \<comment> \<open>Python's\<close>
  sv_sql_lower :: "string \<Rightarrow> string"
  sv_audit_id :: "nat \<Rightarrow> uuid" \<comment> \<open>the id of the n-th row of the trail\<close>

definition EXEMPT_TOKEN_MINUTES :: int where
  "EXEMPT_TOKEN_MINUTES = 24 * 60"

definition IMPERSONATION_TOKEN_MINUTES :: int where
  "IMPERSONATION_TOKEN_MINUTES = 20"

definition em_dash :: string where
  "em_dash = [CHR 0xE2, CHR 0x80, CHR 0x94]"

definition login_limiter :: "int \<Rightarrow> rate_limiter" where
  "login_limiter now = rl_init 8 (seconds 300)
     (''Too many failed sign-in attempts '' @ em_dash @ '' try again in a few minutes.'') now"

definition create_access_token ::
  "string \<Rightarrow> string \<Rightarrow> datetime \<Rightarrow> int \<Rightarrow> string option \<Rightarrow> string option \<Rightarrow> string list option \<Rightarrow> string option \<Rightarrow> claims" where
  "create_access_token subject role now expires_minutes email name granted impersonated_by =
     \<lparr>cl_sub = subject, cl_role = role, cl_email = email, cl_name = name, cl_granted = granted,
      cl_impersonated_by = impersonated_by, cl_exp = now + minutes expires_minutes\<rparr>"

text \<open>An expired token is a \<open>PyJWTError\<close>, as one that does not verify.\<close>

definition decode_access_token :: "datetime \<Rightarrow> claims option \<Rightarrow> claims option" where
  "decode_access_token now token =
     (case token of None \<Rightarrow> None | Some c \<Rightarrow> if now < cl_exp c then Some c else None)"

subsection \<open>Who is asking (deps.py)\<close>

text \<open>The \<open>Authorization\<close> header: a scheme and a token.\<close>

type_synonym authorization = "(string \<times> claims option) option"

definition unauthorized :: http_error where
  "unauthorized = Http 401 ''Could not validate credentials''"

definition get_current_user :: "server \<Rightarrow> datetime \<Rightarrow> authorization \<Rightarrow> http_error + signed_in" where
  "get_current_user sv now header =
     (case header of
        None \<Rightarrow> Inl (Http 401 ''Not authenticated'')
      | Some (scheme, token) \<Rightarrow>
          if map ascii_lower scheme \<noteq> ''bearer'' then Inl (Http 401 ''Not authenticated'')
          else
            (case decode_access_token now token of
               None \<Rightarrow> Inl unauthorized
             | Some c \<Rightarrow>
                 if cl_sub c = [] \<or> cl_role c \<notin> {''admin'', ''viewer'', ''ou_viewer''} then Inl unauthorized
                 else if cl_sub c = sv_dev_username sv then
                   Inr \<lparr>si_username = cl_sub c, si_role = cl_role c, si_subject = cl_sub c, si_email = None, si_name = None,
                     si_granted = None, si_impersonated_by = None\<rparr>
                 else if \<not> truthy (cl_email c) then Inl unauthorized
                 else Inr \<lparr>si_username = the (cl_email c), si_role = cl_role c, si_subject = cl_sub c, si_email = cl_email c,
                   si_name = cl_name c, si_granted = cl_granted c, si_impersonated_by = cl_impersonated_by c\<rparr>))"

definition require_role :: "string list \<Rightarrow> http_error + signed_in \<Rightarrow> http_error + signed_in" where
  "require_role roles current =
     (case current of
        Inl e \<Rightarrow> Inl e
      | Inr u \<Rightarrow> if si_role u \<notin> set roles then Inl (Http 403 ''You don't have permission to perform this action.'') else Inr u)"

text \<open>\<open>secrets.compare_digest\<close> raises on text that is not ASCII.\<close>

definition compare_digest :: "string \<Rightarrow> string \<Rightarrow> bool option" where
  "compare_digest a b = (if list_all (\<lambda>c. of_char c < (128 :: nat)) (a @ b) then Some (a = b) else None)"

definition verify_backend_token :: "string \<Rightarrow> string \<Rightarrow> http_error + unit" where
  "verify_backend_token configured token =
     (case compare_digest token configured of
        None \<Rightarrow> Inl ServerError
      | Some same \<Rightarrow> if \<not> same then Inl (Http 401 ''Invalid backend token'') else Inr ())"

record zabbix_settings =
  zs_enabled :: bool
  zs_api_token :: "string option"

definition verify_zabbix_token :: "zabbix_settings option \<Rightarrow> string \<Rightarrow> http_error + unit" where
  "verify_zabbix_token settings token =
     (case settings of
        None \<Rightarrow> Inl (Http 401 ''Invalid Zabbix token'')
      | Some z \<Rightarrow>
          if \<not> zs_enabled z \<or> \<not> truthy (zs_api_token z) then Inl (Http 401 ''Invalid Zabbix token'')
          else
            (case compare_digest token (the (zs_api_token z)) of
               None \<Rightarrow> Inl ServerError
             | Some same \<Rightarrow> if \<not> same then Inl (Http 401 ''Invalid Zabbix token'') else Inr ()))"

subsection \<open>Login and renewal (routers/auth.py)\<close>

definition audited :: "server \<Rightarrow> datetime \<Rightarrow> signed_in \<Rightarrow> audit_entry \<Rightarrow> auth_db \<Rightarrow> auth_db" where
  "audited sv now actor en db =
     db\<lparr>ad_audit := ad_audit db @ [record_audit (sv_audit_id sv (length (ad_audit db))) now actor en]\<rparr>"

text \<open>A \<open>UserOut\<close> of a username, a role and a subject.\<close>

definition user_out :: "string \<Rightarrow> string \<Rightarrow> string \<Rightarrow> signed_in" where
  "user_out username role subject = \<lparr>si_username = username, si_role = role, si_subject = subject, si_email = None,
     si_name = None, si_granted = None, si_impersonated_by = None\<rparr>"

definition attempted_actor :: "server \<Rightarrow> string \<Rightarrow> signed_in" where
  "attempted_actor sv username =
     (let known = (username = sv_dev_username sv)
      in user_out (if known then username else ''(unrecognised username)'') ''unauthenticated''
           (if known then username else ''unknown''))"

definition login ::
  "server \<Rightarrow> datetime \<Rightarrow> int \<Rightarrow> string \<Rightarrow> string \<Rightarrow> string \<Rightarrow> auth_db \<Rightarrow> (http_error + claims) \<times> auth_db" where
  "login sv now clock caller username password db =
     (case rl_check caller clock (ad_limiter db) of
        (Some message, rl) \<Rightarrow> (Inl (Http 429 message), db\<lparr>ad_limiter := rl\<rparr>)
      | (None, rl) \<Rightarrow>
          if \<not> (username = sv_dev_username sv \<and> sv_verifies sv password (sv_dev_password sv)) then
            (Inl (Http 401 ''Incorrect username or password''),
             audited sv now (attempted_actor sv username)
               ((entry ''auth.login.failed'' (''Failed sign-in from '' @ caller) ''auth'')\<lparr>en_source_ip := Some caller\<rparr>)
               (db\<lparr>ad_limiter := rl_record_failure caller clock rl\<rparr>))
          else
            (Inr (create_access_token username ''admin'' now (ad_idle_timeout_minutes db) None None None None),
             audited sv now (user_out username ''admin'' username)
               ((entry ''auth.login'' (''Signed in from '' @ caller) ''auth'')\<lparr>en_source_ip := Some caller\<rparr>)
               (db\<lparr>ad_limiter := rl_record_success caller rl\<rparr>)))"

definition accounts_of :: "server \<Rightarrow> string \<Rightarrow> auth_db \<Rightarrow> account list" where
  "accounts_of sv email db = filter (\<lambda>a. sv_sql_lower sv (acc_email a) = sv_lower sv email) (ad_accounts db)"

definition refresh :: "server \<Rightarrow> datetime \<Rightarrow> http_error + signed_in \<Rightarrow> auth_db \<Rightarrow> http_error + claims" where
  "refresh sv now current db =
     (case current of
        Inl e \<Rightarrow> Inl e
      | Inr u \<Rightarrow>
          let token = (\<lambda>expiry granted. create_access_token (si_subject u) (si_role u) now expiry
                (if truthy (si_email u) then si_email u else None) (if truthy (si_name u) then si_name u else None) granted None);
              plain = token (ad_idle_timeout_minutes db) None
          in if \<not> truthy (si_email u) then Inr plain
             else
               (case accounts_of sv (the (si_email u)) db of
                  [] \<Rightarrow> Inr plain
                | [a] \<Rightarrow> Inr (token (if acc_exempt a then EXEMPT_TOKEN_MINUTES else ad_idle_timeout_minutes db)
                    (if si_role u = ''ou_viewer'' then Some (list_or_empty (acc_granted a)) else None))
                | _ \<Rightarrow> Inl ServerError))"

subsection \<open>Google sign-in\<close>

record google_claims =
  gc_sub :: string
  gc_email :: string
  gc_email_verified :: bool
  gc_hd :: "string option"
  gc_name :: "string option"
  gc_picture :: "string option"

fun split_commas_from :: "string \<Rightarrow> string \<Rightarrow> string list" where
  "split_commas_from acc [] = [rev acc]"
| "split_commas_from acc (c # cs) =
     (if c = CHR '','' then rev acc # split_commas_from [] cs else split_commas_from (c # acc) cs)"

definition admin_emails :: "sso_settings \<Rightarrow> string list" where
  "admin_emails sso =
     (if \<not> truthy (so_initial_admin_emails sso) then []
      else filter (\<lambda>e. e \<noteq> []) (map py_strip (split_commas_from [] (the (so_initial_admin_emails sso)))))"

datatype sign_in_answer = Login_Failed string | Logged_In claims | Callback_Error

text \<open>A commit checks that addresses and Google subjects stay unique.\<close>

definition unique_accounts :: "account list \<Rightarrow> bool" where
  "unique_accounts accounts \<longleftrightarrow> distinct (map acc_email accounts) \<and>
     distinct (filter (\<lambda>s. s \<noteq> None) (map acc_google_sub accounts))"

text \<open>Several rows where at most one is expected raise, an error of its own here.\<close>

definition find_google_account :: "server \<Rightarrow> google_claims \<Rightarrow> auth_db \<Rightarrow> unit + account option" where
  "find_google_account sv c db =
     (case filter (\<lambda>a. acc_google_sub a = Some (gc_sub c)) (ad_accounts db) of
        [a] \<Rightarrow> Inr (Some a)
      | a # b # x \<Rightarrow> Inl ()
      | [] \<Rightarrow>
          (case filter (\<lambda>a. acc_google_sub a = None) (accounts_of sv (gc_email c) db) of
             [] \<Rightarrow> Inr None
           | [a] \<Rightarrow> Inr (Some a)
           | a # b # x \<Rightarrow> Inl ()))"

definition new_account :: "uuid \<Rightarrow> string \<Rightarrow> string \<Rightarrow> account" where
  "new_account i email role = \<lparr>acc_id = i, acc_email = email, acc_name = None, acc_picture = None, acc_google_sub = None,
     acc_role = role, acc_is_active = True, acc_granted = None, acc_exempt = False, acc_last_login_at = None\<rparr>"

definition token_of_account :: "datetime \<Rightarrow> account \<Rightarrow> auth_db \<Rightarrow> claims" where
  "token_of_account now a db =
     create_access_token (acc_id a) (acc_role a) now (if acc_exempt a then EXEMPT_TOKEN_MINUTES else ad_idle_timeout_minutes db)
       (Some (acc_email a)) (Some (case acc_name a of None \<Rightarrow> [] | Some n \<Rightarrow> n))
       (if acc_role a = ''ou_viewer'' then Some (list_or_empty (acc_granted a)) else None) None"

definition google_user_out :: "account \<Rightarrow> signed_in" where
  "google_user_out a = (user_out (acc_email a) (acc_role a) (acc_id a))\<lparr>si_email := Some (acc_email a), si_name := acc_name a\<rparr>"

definition role_for :: "string \<Rightarrow> sso_settings \<Rightarrow> string" where
  "role_for email sso = (if email \<in> set (admin_emails sso) then ''admin'' else ''viewer'')"

definition signed_in_account :: "datetime \<Rightarrow> google_claims \<Rightarrow> account \<Rightarrow> account" where
  "signed_in_account now c a =
     a\<lparr>acc_google_sub := Some (gc_sub c), acc_email := gc_email c, acc_name := gc_name c,
       acc_picture := gc_picture c, acc_last_login_at := Some now\<rparr>"

text \<open>From the claims of a verified id token on.\<close>

definition google_sign_in :: "server \<Rightarrow> datetime \<Rightarrow> uuid \<Rightarrow> google_claims \<Rightarrow> sso_settings \<Rightarrow> auth_db \<Rightarrow> sign_in_answer \<times> auth_db" where
  "google_sign_in sv now i c sso db =
     (case find_google_account sv c db of
        Inl u \<Rightarrow> (Callback_Error, db)
      | Inr found \<Rightarrow>
          (let a = signed_in_account now c (case found of None \<Rightarrow> new_account i (gc_email c) (role_for (gc_email c) sso) | Some a \<Rightarrow> a);
               accounts = (case found of None \<Rightarrow> ad_accounts db @ [a]
                 | Some old \<Rightarrow> map (\<lambda>b. if acc_id b = acc_id old then a else b) (ad_accounts db));
               db' = audited sv now (google_user_out a) (entry ''auth.login'' ''Signed in with Google'' ''auth'')
                 (db\<lparr>ad_accounts := accounts\<rparr>)
           in if \<not> unique_accounts accounts then (Callback_Error, db)
              else if \<not> acc_is_active a then
                (Login_Failed ''Your account has been deactivated. Contact an administrator.'',
                 audited sv now (google_user_out a)
                   (entry ''auth.login.refused'' ''Sign-in refused: the account is deactivated'' ''auth'') db')
              else (Logged_In (token_of_account now a db'), db')))"

text \<open>The browser's cookie against the request's state; \<open>None\<close> when the comparison raises.\<close>

definition state_ok :: "string option \<Rightarrow> string option \<Rightarrow> bool option" where
  "state_ok state cookie =
     (if truthy state \<and> truthy cookie then compare_digest (the state) (the cookie) else Some False)"

definition google_callback ::
  "server \<Rightarrow> datetime \<Rightarrow> uuid \<Rightarrow> string option \<Rightarrow> string option \<Rightarrow> string option \<Rightarrow> string + google_claims \<Rightarrow> auth_db \<Rightarrow>
   sign_in_answer \<times> auth_db" where
  "google_callback sv now i code state cookie google db =
     (case ad_sso db of
        None \<Rightarrow> (Login_Failed ''Google sign-in is not configured.'', db)
      | Some sso \<Rightarrow>
          if \<not> so_enabled sso \<or> \<not> truthy (so_client_id sso) \<or> \<not> truthy (so_client_secret sso) \<or> \<not> truthy (so_redirect_base_url sso)
          then (Login_Failed ''Google sign-in is not configured.'', db)
          else
            (case state_ok state cookie of
               None \<Rightarrow> (Callback_Error, db)
             | Some ok \<Rightarrow>
                 if \<not> ok then (Login_Failed (''Login expired or invalid '' @ em_dash @ '' please try again.''), db)
                 else if \<not> truthy code then (Login_Failed ''Google did not return an authorization code.'', db)
                 else
                   (case google of
                      Inl message \<Rightarrow> (Login_Failed message, db)
                    | Inr c \<Rightarrow>
                        if \<not> gc_email_verified c then (Login_Failed ''Your Google account's email is not verified.'', db)
                        else if gc_hd c \<noteq> so_workspace_domain sso then
                          (Login_Failed ''Sign-in is restricted to this organization's Google Workspace accounts.'', db)
                        else google_sign_in sv now i c sso db)))"

subsection \<open>Managing accounts (routers/users.py)\<close>

definition ROLES :: "string set" where
  "ROLES = {''admin'', ''viewer'', ''ou_viewer''}"

record account_update =
  up_role :: "string option"
  up_is_active :: "bool option"
  up_exempt :: "bool option"
  up_granted :: "string list option option" \<comment> \<open>None when the field is not in the request\<close>

definition apply_account_update :: "account_update \<Rightarrow> account \<Rightarrow> account" where
  "apply_account_update u a =
     a\<lparr>acc_role := (case up_role u of None \<Rightarrow> acc_role a | Some r \<Rightarrow> r),
       acc_is_active := (case up_is_active u of None \<Rightarrow> acc_is_active a | Some b \<Rightarrow> b),
       acc_exempt := (case up_exempt u of None \<Rightarrow> acc_exempt a | Some b \<Rightarrow> b),
       acc_granted := (case up_granted u of None \<Rightarrow> acc_granted a | Some g \<Rightarrow> g)\<rparr>"

text \<open>The columns of an account the trail compares.\<close>

definition account_row :: "account \<Rightarrow> (string \<times> pyval) list" where
  "account_row a =
     [(''role'', VStr (acc_role a)), (''is_active'', VBool (acc_is_active a)), (''exempt_from_timeout'', VBool (acc_exempt a)),
      (''granted_ou_paths'', case acc_granted a of None \<Rightarrow> VNone | Some g \<Rightarrow> VList (map VStr g))]"

definition AUDITED_COLUMNS :: "string list" where
  "AUDITED_COLUMNS = [''role'', ''is_active'', ''exempt_from_timeout'', ''granted_ou_paths'']"

definition account_changes :: "account \<Rightarrow> account \<Rightarrow> (string \<times> pyval) list" where
  "account_changes a a' =
     diff (snapshot (account_row a) AUDITED_COLUMNS) (snapshot (account_row a') AUDITED_COLUMNS) AUDITED_COLUMNS"

definition created_entry :: "string \<Rightarrow> string \<Rightarrow> string list option \<Rightarrow> string \<Rightarrow> audit_entry" where
  "created_entry email role granted ip =
     (entry ''user.create'' (''Created '' @ role @ '' account for '' @ email) ''user'')
       \<lparr>en_entity_label := Some email, en_source_ip := Some ip,
        en_changes := Some [(''role'', from_to VNone (VStr role)),
          (''granted_ou_paths'', from_to VNone (case granted of None \<Rightarrow> VNone | Some g \<Rightarrow> VList (map VStr g)))]\<rparr>"

definition create_user ::
  "server \<Rightarrow> datetime \<Rightarrow> string \<Rightarrow> uuid \<Rightarrow> signed_in \<Rightarrow> string \<Rightarrow> string \<Rightarrow> string list option \<Rightarrow> auth_db \<Rightarrow> (http_error + account) \<times> auth_db" where
  "create_user sv now ip i current email role granted db =
     (let email = sv_lower sv (py_strip email); a = (new_account i email role)\<lparr>acc_granted := granted\<rparr>;
          accounts = ad_accounts db @ [a]
      in if role \<notin> ROLES then (Inl (Http 422 ''role''), db)
         else if email = [] then (Inl (Http 422 ''Email is required''), db)
         else if \<not> unique_accounts accounts then (Inl (Http 409 ''An account with this email already exists''), db)
         else (Inr a, audited sv now current (created_entry email role granted ip) (db\<lparr>ad_accounts := accounts\<rparr>)))"

definition updated_entry :: "account \<Rightarrow> (string \<times> pyval) list \<Rightarrow> string \<Rightarrow> audit_entry" where
  "updated_entry a changes ip =
     (entry ''user.update'' (''Updated account '' @ acc_email a) ''user'')
       \<lparr>en_entity_id := Some (acc_id a), en_entity_label := Some (acc_email a), en_changes := Some changes,
        en_source_ip := Some ip\<rparr>"

definition update_user ::
  "server \<Rightarrow> datetime \<Rightarrow> string \<Rightarrow> signed_in \<Rightarrow> uuid \<Rightarrow> account_update \<Rightarrow> auth_db \<Rightarrow> (http_error + account) \<times> auth_db" where
  "update_user sv now ip current i u db =
     (if \<not> (case up_role u of None \<Rightarrow> True | Some r \<Rightarrow> r \<in> ROLES) then (Inl (Http 422 ''role''), db)
      else case find (\<lambda>a. acc_id a = i) (ad_accounts db) of
        None \<Rightarrow> (Inl (Http 404 ''User not found''), db)
      | Some a \<Rightarrow>
          (let a' = apply_account_update u a; changes = account_changes a a';
               db' = db\<lparr>ad_accounts := map (\<lambda>b. if acc_id b = i then a' else b) (ad_accounts db)\<rparr>
           in (Inr a', if changes = [] then db' else audited sv now current (updated_entry a' changes ip) db')))"

definition viewing_entry :: "account \<Rightarrow> audit_entry" where
  "viewing_entry t =
     (entry ''user.impersonate'' (''Started viewing as '' @ acc_email t) ''user'')
       \<lparr>en_entity_id := Some (acc_id t), en_entity_label := Some (acc_email t),
        en_changes := Some [(''target_role'', from_to VNone (VStr (acc_role t)))]\<rparr>"

definition impersonate_user ::
  "server \<Rightarrow> datetime \<Rightarrow> signed_in \<Rightarrow> uuid \<Rightarrow> auth_db \<Rightarrow> (http_error + claims) \<times> auth_db" where
  "impersonate_user sv now current i db =
     (case find (\<lambda>a. acc_id a = i) (ad_accounts db) of
        None \<Rightarrow> (Inl (Http 404 ''User not found''), db)
      | Some t \<Rightarrow>
          if \<not> acc_is_active t then (Inl (Http 400 ''Can't impersonate a deactivated account.''), db)
          else if acc_role t = ''admin'' then (Inl (Http 400 ''Can't impersonate another admin account.''), db)
          else
            (let admin_email = (if truthy (si_email current) then the (si_email current) else si_username current);
                 admins = (if truthy (si_email current) then accounts_of sv (the (si_email current)) db else []);
                 token = create_access_token (acc_id t) (acc_role t) now IMPERSONATION_TOKEN_MINUTES (Some (acc_email t))
                   (Some (case acc_name t of None \<Rightarrow> [] | Some n \<Rightarrow> n))
                   (if acc_role t = ''ou_viewer'' then Some (list_or_empty (acc_granted t)) else None) (Some admin_email);
                 row = \<lparr>im_admin_user_id = (case admins of [] \<Rightarrow> None | a # x \<Rightarrow> Some (acc_id a)), im_admin_email = admin_email,
                   im_target = acc_id t, im_expires_at = now + minutes IMPERSONATION_TOKEN_MINUTES\<rparr>
             in if 1 < length admins then (Inl ServerError, db)
                else (Inr token, audited sv now current (viewing_entry t)
                    (db\<lparr>ad_impersonations := ad_impersonations db @ [row]\<rparr>))))"

definition list_users :: "server \<Rightarrow> string option \<Rightarrow> string option \<Rightarrow> nat \<Rightarrow> nat \<Rightarrow> auth_db \<Rightarrow> account list \<times> nat" where
  "list_users sv search role page page_size db =
     (let rows = filter (\<lambda>a.
            (truthy search \<longrightarrow> sql_ilike (sv_sql_lower sv) (''%'' @ the search @ ''%'') (Some (acc_email a)) \<or>
               sql_ilike (sv_sql_lower sv) (''%'' @ the search @ ''%'') (acc_name a)) \<and>
            (truthy role \<longrightarrow> acc_role a = the role)) (ad_accounts db)
      in (take page_size (drop ((page - 1) * page_size) (sort_key acc_email rows)), length rows))"

subsection \<open>One request (main.py)\<close>

datatype auth_request =
    Login string string string
  | Me
  | Refresh
  | Callback uuid "string option" "string option" "string option" "string + google_claims"
  | List_Users
  | Create_User string uuid string string "string list option"
  | Update_User string uuid account_update
  | Impersonate uuid

datatype auth_response = Refused http_error | Fine | Token claims | Sent_Back sign_in_answer

definition http_method :: "auth_request \<Rightarrow> string" where
  "http_method request =
     (case request of Me \<Rightarrow> ''GET'' | Callback i c s k g \<Rightarrow> ''GET'' | List_Users \<Rightarrow> ''GET'' | Update_User ip i u \<Rightarrow> ''PATCH'' | _ \<Rightarrow> ''POST'')"

definition SAFE_METHODS :: "string set" where
  "SAFE_METHODS = {''GET'', ''HEAD'', ''OPTIONS''}"

definition block_impersonated_mutations :: "datetime \<Rightarrow> string \<Rightarrow> authorization \<Rightarrow> bool" where
  "block_impersonated_mutations now method header \<longleftrightarrow>
     method \<notin> SAFE_METHODS \<and>
     (case header of
        None \<Rightarrow> False
      | Some (scheme, token) \<Rightarrow> map ascii_lower scheme = ''bearer'' \<and>
          (case decode_access_token now token of None \<Rightarrow> False | Some c \<Rightarrow> truthy (cl_impersonated_by c)))"

definition answer :: "(http_error + 'a) \<times> auth_db \<Rightarrow> ('a \<Rightarrow> auth_response) \<Rightarrow> auth_response \<times> auth_db" where
  "answer r f = (case fst r of Inl e \<Rightarrow> Refused e | Inr x \<Rightarrow> f x, snd r)"

definition handle :: "server \<Rightarrow> datetime \<Rightarrow> int \<Rightarrow> authorization \<Rightarrow> auth_request \<Rightarrow> auth_db \<Rightarrow> auth_response \<times> auth_db" where
  "handle sv now clock header request db =
     (let current = get_current_user sv now header;
          as_admin = (\<lambda>act. case require_role [''admin''] current of Inl e \<Rightarrow> (Refused e, db) | Inr u \<Rightarrow> act u)
      in case request of
           Login caller username password \<Rightarrow> answer (login sv now clock caller username password db) Token
         | Me \<Rightarrow> answer (current, db) (\<lambda>u. Fine)
         | Refresh \<Rightarrow> answer (refresh sv now current db, db) Token
         | Callback i code state cookie google \<Rightarrow>
             (let (a, db') = google_callback sv now i code state cookie google db in (Sent_Back a, db'))
         | List_Users \<Rightarrow> as_admin (\<lambda>u. (Fine, db))
         | Create_User ip i email role granted \<Rightarrow>
             as_admin (\<lambda>u. answer (create_user sv now ip i u email role granted db) (\<lambda>a. Fine))
         | Update_User ip i up \<Rightarrow> as_admin (\<lambda>u. answer (update_user sv now ip u i up db) (\<lambda>a. Fine))
         | Impersonate i \<Rightarrow> as_admin (\<lambda>u. answer (impersonate_user sv now u i db) Token))"

definition READ_ONLY :: string where
  "READ_ONLY = ''This is a read-only \"View as\" session '' @ em_dash @ '' no changes can be made while impersonating another user.''"

definition serve :: "server \<Rightarrow> datetime \<Rightarrow> int \<Rightarrow> authorization \<Rightarrow> auth_request \<Rightarrow> auth_db \<Rightarrow> auth_response \<times> auth_db" where
  "serve sv now clock header request db =
     (if block_impersonated_mutations now (http_method request) header then (Refused (Http 403 READ_ONLY), db)
      else handle sv now clock header request db)"

section \<open>What a token can do\<close>

subsection \<open>One request\<close>

definition issued :: "auth_response \<Rightarrow> claims set" where
  "issued response = (case response of Token c \<Rightarrow> {c} | Sent_Back (Logged_In c) \<Rightarrow> {c} | _ \<Rightarrow> {})"

definition admins :: "auth_db \<Rightarrow> account set" where
  "admins db = {a \<in> set (ad_accounts db). acc_role a = ''admin''}"

lemma issued_simps [simp]:
  "issued (Refused e) = {}" "issued Fine = {}" "issued (Token c) = {c}" "issued (Sent_Back (Logged_In c)) = {c}"
  "issued (Sent_Back (Login_Failed m)) = {}" "issued (Sent_Back Callback_Error) = {}"
  by (simp_all add: issued_def)

lemma create_access_token_simps [simp]:
  "cl_role (create_access_token s r now m e n g i) = r"
  "cl_sub (create_access_token s r now m e n g i) = s"
  "cl_email (create_access_token s r now m e n g i) = e"
  "cl_exp (create_access_token s r now m e n g i) = now + minutes m"
  "cl_impersonated_by (create_access_token s r now m e n g i) = i"
  by (simp_all add: create_access_token_def)

lemma audited_simps [simp]:
  "ad_accounts (audited sv now actor en db) = ad_accounts db" "ad_sso (audited sv now actor en db) = ad_sso db"
  "ad_idle_timeout_minutes (audited sv now actor en db) = ad_idle_timeout_minutes db"
  "ad_audit (audited sv now actor en db) = ad_audit db @ [record_audit (sv_audit_id sv (length (ad_audit db))) now actor en]"
  by (simp_all add: audited_def)

lemma admins_audited [simp]: "admins (audited sv now actor en db) = admins db"
  by (simp add: admins_def)

lemma admins_cong: "ad_accounts db' = ad_accounts db \<Longrightarrow> admins db' = admins db"
  by (simp add: admins_def)

lemma current_user_role:
  assumes "get_current_user sv now header = Inr u"
  obtains scheme c where "header = Some (scheme, Some c)" and "si_role u = cl_role c" and "si_subject u = cl_sub c" and "now < cl_exp c"
    and "si_username u \<noteq> []" and "map ascii_lower scheme = ''bearer''"
  using assms by (auto simp: get_current_user_def decode_access_token_def truthy_iff split: option.splits if_splits)

lemma require_role_Inr: "require_role [r] current = Inr u \<longleftrightarrow> current = Inr u \<and> si_role u = r"
  by (auto simp: require_role_def split: sum.splits)

lemma refresh_role: "refresh sv now (Inr u) db = Inr c \<Longrightarrow> cl_role c = si_role u"
  by (auto simp: refresh_def Let_def split: if_splits list.splits)

lemma refresh_Inl [simp]: "refresh sv now (Inl e) db = Inl e"
  by (simp add: refresh_def)

subsection \<open>An outsider\<close>

text \<open>
  An outsider holds some tokens, none an admin's, and can get Google to vouch for him with some
  claims.  He is one as long as no admin's account answers to those claims and none of their
  addresses is on the list of initial admins.
\<close>

definition outsider :: "server \<Rightarrow> google_claims set \<Rightarrow> auth_db \<Rightarrow> bool" where
  "outsider sv G db \<longleftrightarrow>
     (\<forall>c\<in>G. (case ad_sso db of None \<Rightarrow> True | Some sso \<Rightarrow> gc_email c \<notin> set (admin_emails sso)) \<and>
       (\<forall>a\<in>admins db. acc_google_sub a \<noteq> Some (gc_sub c) \<and>
         (acc_google_sub a = None \<longrightarrow> sv_sql_lower sv (acc_email a) \<noteq> sv_lower sv (gc_email c))))"

definition presents :: "claims set \<Rightarrow> authorization \<Rightarrow> bool" where
  "presents K header \<longleftrightarrow> (case header of Some (scheme, Some c) \<Rightarrow> c \<in> K | _ \<Rightarrow> True)"

definition can_send :: "server \<Rightarrow> google_claims set \<Rightarrow> auth_request \<Rightarrow> bool" where
  "can_send sv G request \<longleftrightarrow>
     (case request of
        Login caller username password \<Rightarrow> \<not> (username = sv_dev_username sv \<and> sv_verifies sv password (sv_dev_password sv))
      | Callback i code state cookie (Inr c) \<Rightarrow> c \<in> G
      | _ \<Rightarrow> True)"

text \<open>What others do meanwhile is arbitrary, except making an admin of the outsider's own account.\<close>

inductive attack :: "server \<Rightarrow> google_claims set \<Rightarrow> claims set \<times> auth_db \<Rightarrow> claims set \<times> auth_db \<Rightarrow> bool"
  for sv G s where
  start: "attack sv G s s"
| request: "attack sv G s (K, db) \<Longrightarrow> presents K header \<Longrightarrow> can_send sv G r \<Longrightarrow>
    serve sv now clock header r db = (response, db') \<Longrightarrow> attack sv G s (K \<union> issued response, db')"
| others: "attack sv G s (K, db) \<Longrightarrow> outsider sv G db' \<Longrightarrow> attack sv G s (K, db')"

definition powerless :: "claims set \<Rightarrow> bool" where
  "powerless K \<longleftrightarrow> (\<forall>c\<in>K. cl_role c \<noteq> ''admin'')"

lemma outsider_mono:
  "outsider sv G db \<Longrightarrow> admins db' \<subseteq> admins db \<Longrightarrow> ad_sso db' = ad_sso db \<Longrightarrow> outsider sv G db'"
  unfolding outsider_def by (metis subsetD)

lemma filter_singletonD: "filter P xs = [a] \<Longrightarrow> a \<in> set xs \<and> P a"
  by (metis filter_eq_ConsD in_set_conv_decomp)

lemma found_is_no_admin:
  assumes "find_google_account sv c db = Inr (Some a)" and "outsider sv G db" and "c \<in> G"
  shows "acc_role a \<noteq> ''admin''"
proof
  assume admin: "acc_role a = ''admin''"
  have "a \<in> set (ad_accounts db) \<and> acc_google_sub a = Some (gc_sub c) \<or>
        a \<in> set (accounts_of sv (gc_email c) db) \<and> acc_google_sub a = None"
    using assms(1) by (auto simp: find_google_account_def split: list.splits dest: filter_singletonD)
  then show False
    using admin assms(2,3) by (auto simp: outsider_def admins_def accounts_of_def)
qed

lemma signed_in_account_role [simp]:
  "acc_role (signed_in_account now c a) = acc_role a" "acc_id (signed_in_account now c a) = acc_id a"
  by (simp_all add: signed_in_account_def)

lemma new_account_simps [simp]: "acc_role (new_account i e r) = r" "acc_id (new_account i e r) = i"
  by (simp_all add: new_account_def)

lemma token_of_account_role [simp]: "cl_role (token_of_account now a db) = acc_role a"
  by (simp add: token_of_account_def)

lemma google_sign_in_outsider:
  assumes "google_sign_in sv now i c sso db = (a, db')" and "outsider sv G db" and "c \<in> G" and "ad_sso db = Some sso"
  shows "powerless (issued (Sent_Back a)) \<and> admins db' \<subseteq> admins db \<and> ad_sso db' = ad_sso db"
proof (cases "find_google_account sv c db")
  case (Inl u)
  then show ?thesis using assms(1) by (auto simp: google_sign_in_def powerless_def)
next
  case (Inr found)
  show ?thesis
  proof (cases found)
    case None
    have "gc_email c \<notin> set (admin_emails sso)" using assms(2-4) by (auto simp: outsider_def)
    then show ?thesis
      using assms(1) Inr None
      by (auto simp: google_sign_in_def powerless_def role_for_def admins_def Let_def split: if_splits)
  next
    case (Some old)
    then have "acc_role old \<noteq> ''admin''" using found_is_no_admin assms(2,3) Inr by blast
    then show ?thesis
      using assms(1) Inr Some
      by (auto simp: google_sign_in_def powerless_def admins_def Let_def split: if_splits)
  qed
qed

lemma google_callback_outsider:
  assumes "google_callback sv now i code state cookie google db = (a, db')" and "outsider sv G db"
    and "case google of Inl m \<Rightarrow> True | Inr c \<Rightarrow> c \<in> G"
  shows "powerless (issued (Sent_Back a)) \<and> admins db' \<subseteq> admins db \<and> ad_sso db' = ad_sso db"
proof -
  consider "db' = db" "issued (Sent_Back a) = {}"
    | sso c where "ad_sso db = Some sso" and "google = Inr c" and "google_sign_in sv now i c sso db = (a, db')"
    using assms(1) by (auto simp: google_callback_def split: option.splits if_splits sum.splits)
  then show ?thesis
  proof cases
    case 1
    then show ?thesis by (simp add: powerless_def)
  next
    case 2
    then show ?thesis using google_sign_in_outsider assms(2,3) by auto
  qed
qed

lemma login_outsider:
  assumes "login sv now clock caller username password db = (a, db')"
    and "\<not> (username = sv_dev_username sv \<and> sv_verifies sv password (sv_dev_password sv))"
  shows "(\<exists>e. a = Inl e) \<and> ad_accounts db' = ad_accounts db \<and> ad_sso db' = ad_sso db"
  using assms by (auto simp: login_def split: option.splits prod.splits)

lemma request_outsider:
  assumes "serve sv now clock header r db = (response, db')"
    and "presents K header" and "powerless K" and "can_send sv G r" and "outsider sv G db"
  shows "powerless (issued response) \<and> admins db' \<subseteq> admins db \<and> ad_sso db' = ad_sso db"
proof -
  have no_admin: "require_role [''admin''] (get_current_user sv now header) \<noteq> Inr u" for u
    using assms(2,3) by (auto simp: require_role_Inr presents_def powerless_def elim!: current_user_role)
  then obtain e where refused: "require_role [''admin''] (get_current_user sv now header) = Inl e"
    by (cases "require_role [''admin''] (get_current_user sv now header)") auto
  show ?thesis
  proof (cases "block_impersonated_mutations now (http_method r) header")
    case True
    then show ?thesis using assms(1) by (auto simp: serve_def powerless_def)
  next
    case False
    then have served: "handle sv now clock header r db = (response, db')" using assms(1) by (simp add: serve_def)
    show ?thesis
    proof (cases r)
      case (Login caller username password)
      then obtain a where a: "login sv now clock caller username password db = (a, db')" and "response = (case a of Inl e \<Rightarrow> Refused e | Inr c \<Rightarrow> Token c)"
        using served by (cases "login sv now clock caller username password db") (simp add: handle_def answer_def)
      then show ?thesis
        using login_outsider [OF a] assms(4) Login by (auto simp: can_send_def powerless_def admins_def)
    next
      case (Callback i code state cookie google)
      then obtain a where a: "google_callback sv now i code state cookie google db = (a, db')" and resp: "response = Sent_Back a"
        using served by (cases "google_callback sv now i code state cookie google db") (simp add: handle_def)
      have "case google of Inl m \<Rightarrow> True | Inr c \<Rightarrow> c \<in> G"
        using assms(4) Callback by (simp add: can_send_def split: sum.splits)
      then show ?thesis using google_callback_outsider [OF a assms(5)] resp by simp
    next
      case Refresh
      have "cl_role c \<noteq> ''admin''" if "refresh sv now (get_current_user sv now header) db = Inr c" for c
        using that no_admin by (cases "get_current_user sv now header") (auto dest: refresh_role simp: require_role_Inr)
      then show ?thesis
        using served Refresh by (auto simp: handle_def answer_def powerless_def split: sum.splits)
    qed (use served refused in \<open>auto simp: handle_def answer_def powerless_def split: sum.splits\<close>)
  qed
qed

lemma attack_invariant:
  assumes "attack sv G s s'" and "powerless (fst s)" and "outsider sv G (snd s)"
  shows "powerless (fst s') \<and> outsider sv G (snd s')"
  using assms
proof (induction rule: attack.induct)
  case (request K db header r now clock response db')
  then have "powerless (issued response) \<and> admins db' \<subseteq> admins db \<and> ad_sso db' = ad_sso db"
    using request_outsider by auto
  then show ?case using request outsider_mono by (auto simp: powerless_def)
qed simp_all

text \<open>C2: nobody makes himself an administrator. Whoever holds no admin's token, does not know the
  break-glass password and is vouched for by Google only under addresses and subjects that belong
  to no admin, may send any requests in any order, in between whatever others do: no answer ever
  gives him an admin's token, and none of his requests makes any account an admin's.\<close>

theorem nobody_promotes_himself:
  assumes "attack sv G (K, db) (K', db')" and "powerless K" and "outsider sv G db"
  shows "powerless K' \<and>
    (\<forall>header r now clock. presents K' header \<and> can_send sv G r \<longrightarrow>
       admins (snd (serve sv now clock header r db')) \<subseteq> admins db')"
proof -
  have inv: "powerless K'" "outsider sv G db'" using attack_invariant [OF assms(1)] assms(2,3) by simp_all
  have "admins (snd (serve sv now clock header r db')) \<subseteq> admins db'"
    if "presents K' header" "can_send sv G r" for header r now clock
    using request_outsider [of sv now clock header r db' "fst (serve sv now clock header r db')"
        "snd (serve sv now clock header r db')" K' G] that inv by simp
  then show ?thesis using inv by simp
qed

definition example_server :: server where
  "example_server = \<lparr>sv_dev_username = ''admin'', sv_dev_password = ''pw'', sv_verifies = (=),
     sv_lower = map ascii_lower, sv_sql_lower = map ascii_lower, sv_audit_id = str_nat\<rparr>"

definition example_google :: google_claims where
  "example_google = \<lparr>gc_sub = ''g7'', gc_email = ''eve@x.org'', gc_email_verified = True, gc_hd = Some ''x.org'',
     gc_name = None, gc_picture = None\<rparr>"

definition example_auth :: auth_db where
  "example_auth = \<lparr>ad_accounts = [new_account ''u1'' ''ann@x.org'' ''admin''], ad_idle_timeout_minutes = 60,
     ad_sso = Some \<lparr>so_enabled = True, so_client_id = Some ''id'', so_client_secret = Some ''s'',
       so_redirect_base_url = Some ''https://p'', so_workspace_domain = Some ''x.org'',
       so_initial_admin_emails = Some ''ann@x.org''\<rparr>,
     ad_limiter = login_limiter 0, ad_audit = [], ad_impersonations = []\<rparr>"

definition example_callback :: auth_request where
  "example_callback = Callback ''u2'' (Some ''code'') (Some ''st'') (Some ''st'') (Inr example_google)"

lemma example_attack:
  "attack example_server {example_google} ({}, example_auth)
     ({} \<union> issued (fst (serve example_server 0 0 None example_callback example_auth)),
      snd (serve example_server 0 0 None example_callback example_auth))"
  by (rule attack.request [OF attack.start, where header = None and r = example_callback and now = 0 and clock = 0])
    (simp_all add: presents_def can_send_def example_callback_def)

theorem nobody_promotes_himself_witness:
  "powerless ({} \<union> issued (fst (serve example_server 0 0 None example_callback example_auth)))"
proof -
  have "outsider example_server {example_google} example_auth" by code_simp
  then show ?thesis using nobody_promotes_himself [OF example_attack] by (simp add: powerless_def)
qed

subsection \<open>View as\<close>

text \<open>Requests that prove who is asking by something else than the token.\<close>

definition brings_own_proof :: "auth_request \<Rightarrow> bool" where
  "brings_own_proof r \<longleftrightarrow> (case r of Login caller u p \<Rightarrow> True | Callback i c s k g \<Rightarrow> True | _ \<Rightarrow> False)"

lemma bearer_of_current_user:
  "get_current_user sv now (Some (scheme, Some c)) = Inr u \<Longrightarrow>
   map ascii_lower scheme = ''bearer'' \<and> now < cl_exp c \<and> si_role u = cl_role c"
  by (auto elim: current_user_role)

lemma view_as_only_looks:
  assumes "truthy (cl_impersonated_by c)" and "\<not> brings_own_proof r"
  shows "snd (serve sv now clock (Some (scheme, Some c)) r db) = db \<and>
         issued (fst (serve sv now clock (Some (scheme, Some c)) r db)) = {}"
proof (cases "block_impersonated_mutations now (http_method r) (Some (scheme, Some c))")
  case True
  then show ?thesis by (simp add: serve_def)
next
  case False
  show ?thesis
  proof (cases "get_current_user sv now (Some (scheme, Some c))")
    case (Inl e)
    then show ?thesis using False assms(2)
      by (cases r) (simp_all add: serve_def handle_def answer_def require_role_def brings_own_proof_def)
  next
    case (Inr u)
    then have "http_method r \<in> SAFE_METHODS"
      using False assms(1) bearer_of_current_user [OF Inr]
      by (simp add: block_impersonated_mutations_def decode_access_token_def)
    then show ?thesis using False assms(2) Inr
      by (cases r) (auto simp: serve_def handle_def answer_def require_role_def brings_own_proof_def http_method_def
          SAFE_METHODS_def)
  qed
qed

lemma impersonation_token:
  assumes "impersonate_user sv now u i db = (Inr c, db')" and "si_username u \<noteq> []"
  shows "cl_role c \<noteq> ''admin'' \<and> cl_exp c = now + minutes 20 \<and> truthy (cl_impersonated_by c)"
  using assms
  by (auto simp: impersonate_user_def Let_def IMPERSONATION_TOKEN_MINUTES_def truthy_iff split: option.splits if_splits)


definition admin_token :: claims where
  "admin_token = create_access_token ''admin'' ''admin'' 0 60 None None None None"

definition example_viewers :: auth_db where
  "example_viewers = example_auth\<lparr>ad_accounts := [new_account ''u1'' ''ann@x.org'' ''viewer'']\<rparr>"

definition view_as_token :: claims where
  "view_as_token = create_access_token ''u1'' ''viewer'' 5 20 (Some ''ann@x.org'') (Some []) None (Some ''admin'')"


subsection \<open>Renewal\<close>

text \<open>A token a person signed in with: not the break-glass account's, not a "View as".\<close>

definition personal :: "server \<Rightarrow> claims \<Rightarrow> bool" where
  "personal sv c \<longleftrightarrow> cl_sub c \<noteq> [] \<and> cl_sub c \<noteq> sv_dev_username sv \<and> cl_role c \<in> ROLES \<and> truthy (cl_email c) \<and>
     cl_impersonated_by c = None"

fun renew_all :: "server \<Rightarrow> (datetime \<times> int \<times> auth_db) list \<Rightarrow> claims \<Rightarrow> claims option" where
  "renew_all sv [] c = Some c"
| "renew_all sv ((now, clock, db) # later) c =
     (case serve sv now clock (Some (''bearer'', Some c)) Refresh db of
        (Token c', db') \<Rightarrow> renew_all sv later c'
      | _ \<Rightarrow> None)"

text \<open>Each renewal comes before the token it renews has run out; no two accounts share the address.\<close>

fun prompt :: "server \<Rightarrow> string \<Rightarrow> datetime \<Rightarrow> (datetime \<times> int \<times> auth_db) list \<Rightarrow> bool" where
  "prompt sv email expires [] = True"
| "prompt sv email expires ((now, clock, db) # later) =
     (now < expires \<and> length (accounts_of sv email db) \<le> 1 \<and>
      prompt sv email (now + minutes (min EXEMPT_TOKEN_MINUTES (ad_idle_timeout_minutes db))) later)"

lemma prompt_later: "prompt sv email e renewals \<Longrightarrow> e \<le> e' \<Longrightarrow> prompt sv email e' renewals"
  by (cases renewals) auto

lemma minutes_mono: "m \<le> n \<Longrightarrow> minutes m \<le> minutes n"
  by (simp add: minutes_def)

lemma personal_current_user:
  "personal sv c \<Longrightarrow> now < cl_exp c \<Longrightarrow> get_current_user sv now (Some (''bearer'', Some c)) =
     Inr \<lparr>si_username = the (cl_email c), si_role = cl_role c, si_subject = cl_sub c, si_email = cl_email c,
       si_name = cl_name c, si_granted = cl_granted c, si_impersonated_by = None\<rparr>"
  by (simp add: personal_def get_current_user_def decode_access_token_def ROLES_def ascii_lower_def of_char_of)

lemma one_renewal:
  assumes "personal sv c" and "now < cl_exp c" and "length (accounts_of sv (the (cl_email c)) db) \<le> 1"
  obtains c' where "serve sv now clock (Some (''bearer'', Some c)) Refresh db = (Token c', db)" and "personal sv c'"
    and "cl_role c' = cl_role c" and "cl_email c' = cl_email c"
    and "now + minutes (min EXEMPT_TOKEN_MINUTES (ad_idle_timeout_minutes db)) \<le> cl_exp c'"
proof -
  let ?u = "\<lparr>si_username = the (cl_email c), si_role = cl_role c, si_subject = cl_sub c, si_email = cl_email c,
    si_name = cl_name c, si_granted = cl_granted c, si_impersonated_by = None\<rparr>"
  have u: "get_current_user sv now (Some (''bearer'', Some c)) = Inr ?u"
    using assms(1,2) by (rule personal_current_user)
  have "\<not> block_impersonated_mutations now ''POST'' (Some (''bearer'', Some c))"
    using assms(1) by (simp add: block_impersonated_mutations_def personal_def decode_access_token_def)
  then have served: "serve sv now clock (Some (''bearer'', Some c)) Refresh db =
      answer (refresh sv now (Inr ?u) db, db) Token"
    by (simp add: serve_def handle_def http_method_def u)
  consider "accounts_of sv (the (cl_email c)) db = []" | a where "accounts_of sv (the (cl_email c)) db = [a]"
    using assms(3) by (cases "accounts_of sv (the (cl_email c)) db" rule: remdups_adj.cases) auto
  moreover have "minutes (min EXEMPT_TOKEN_MINUTES m) \<le> minutes m"
    "minutes (min EXEMPT_TOKEN_MINUTES m) \<le> minutes (if b then EXEMPT_TOKEN_MINUTES else m)" for m b
    by (simp_all add: minutes_mono)
  ultimately obtain c' where "refresh sv now (Inr ?u) db = Inr c'" and "personal sv c'" and "cl_role c' = cl_role c"
    and "cl_email c' = cl_email c" and "now + minutes (min EXEMPT_TOKEN_MINUTES (ad_idle_timeout_minutes db)) \<le> cl_exp c'"
    by cases (use assms(1) in \<open>auto simp: refresh_def personal_def Let_def\<close>)
  then show ?thesis using served that by (simp add: answer_def)
qed


definition ann_was_admin :: claims where
  "ann_was_admin = create_access_token ''u1'' ''admin'' 0 60 (Some ''ann@x.org'') (Some []) None None"

definition example_deactivated :: auth_db where
  "example_deactivated =
     example_auth\<lparr>ad_accounts := [(new_account ''u1'' ''ann@x.org'' ''viewer'')\<lparr>acc_is_active := False\<rparr>]\<rparr>"


subsection \<open>Failed sign-ins\<close>

text \<open>A failed sign-in leaves no trace of what was typed. Two attempts from one address, each
  with a name that is not the break-glass account's, get the same answer and leave the same
  database, whatever the two names and passwords; and with the account's own name a wrong
  password is not told from another.\<close>

theorem a_failed_sign_in_leaves_no_trace_of_what_was_typed:
  assumes "u \<noteq> sv_dev_username sv \<and> u' \<noteq> sv_dev_username sv \<or>
    u = u' \<and> \<not> sv_verifies sv p (sv_dev_password sv) \<and> \<not> sv_verifies sv p' (sv_dev_password sv)"
  shows "login sv now clock caller u p db = login sv now clock caller u' p' db"
  using assms by (auto simp: login_def attempted_actor_def Let_def split: option.splits prod.splits)

theorem a_failed_sign_in_leaves_no_trace_of_what_was_typed_witness:
  "login example_server 0 0 ''10.0.0.1'' ''hunter2'' ''x'' example_auth = login example_server 0 0 ''10.0.0.1'' ''bob'' ''y'' example_auth"
  by (rule a_failed_sign_in_leaves_no_trace_of_what_was_typed) (simp add: example_server_def)

subsection \<open>Roles\<close>

definition roles_kept :: "auth_db \<Rightarrow> auth_db \<Rightarrow> bool" where
  "roles_kept db db' \<longleftrightarrow>
     (\<forall>a\<in>set (ad_accounts db). \<forall>a'\<in>set (ad_accounts db'). acc_id a' = acc_id a \<longrightarrow> acc_role a' = acc_role a)"

definition account_ids :: "auth_db \<Rightarrow> uuid list" where
  "account_ids db = map acc_id (ad_accounts db)"

text \<open>The id the database gives a new row is not one it has given before.\<close>

definition fresh_id :: "auth_request \<Rightarrow> auth_db \<Rightarrow> bool" where
  "fresh_id r db \<longleftrightarrow>
     (case r of Callback i c s k g \<Rightarrow> i \<notin> set (account_ids db) | Create_User ip i e ro g \<Rightarrow> i \<notin> set (account_ids db) | _ \<Rightarrow> True)"

lemma same_id:
  "distinct (account_ids db) \<Longrightarrow> a \<in> set (ad_accounts db) \<Longrightarrow> b \<in> set (ad_accounts db) \<Longrightarrow> acc_id a = acc_id b \<Longrightarrow> a = b"
  by (auto simp: account_ids_def distinct_map inj_on_def)

lemma roles_kept_same: "distinct (account_ids db) \<Longrightarrow> ad_accounts db' = ad_accounts db \<Longrightarrow> roles_kept db db'"
  by (metis roles_kept_def same_id)

lemma roles_kept_append:
  assumes "distinct (account_ids db)" and "ad_accounts db' = ad_accounts db @ [n]" and "acc_id n \<notin> set (account_ids db)"
  shows "roles_kept db db'"
  using assms same_id [OF assms(1)] by (auto simp: roles_kept_def account_ids_def)

lemma roles_kept_replace:
  assumes "distinct (account_ids db)" and "old \<in> set (ad_accounts db)" and "acc_role n = acc_role old" and "acc_id n = acc_id old"
    and "ad_accounts db' = map (\<lambda>b. if acc_id b = acc_id old then n else b) (ad_accounts db)"
  shows "roles_kept db db'"
  unfolding roles_kept_def
proof (intro ballI impI)
  fix a a'
  assume a: "a \<in> set (ad_accounts db)" "a' \<in> set (ad_accounts db')" "acc_id a' = acc_id a"
  then obtain b where b: "b \<in> set (ad_accounts db)" "a' = (if acc_id b = acc_id old then n else b)" using assms(5) by auto
  then have "acc_id b = acc_id a" using a(3) assms(4) by (simp split: if_splits)
  then have "b = a" using same_id [OF assms(1)] a(1) b(1) by blast
  then show "acc_role a' = acc_role a" using b assms(2,3) same_id [OF assms(1)] by auto
qed

lemma login_accounts: "ad_accounts (snd (login sv now clock caller u p db)) = ad_accounts db"
  by (simp add: login_def split: option.split prod.split)

lemma impersonate_accounts: "ad_accounts (snd (impersonate_user sv now u i db)) = ad_accounts db"
  by (simp add: impersonate_user_def Let_def split: option.split)

lemma found_is_a_row:
  assumes "find_google_account sv c db = Inr (Some a)"
  shows "a \<in> set (ad_accounts db)"
proof -
  have "a \<in> set (ad_accounts db) \<or> a \<in> set (accounts_of sv (gc_email c) db)"
    using assms by (auto simp: find_google_account_def split: list.splits dest: filter_singletonD)
  then show ?thesis by (auto simp: accounts_of_def)
qed

lemma google_sign_in_roles:
  assumes "google_sign_in sv now i c sso db = (a, db')" and "distinct (account_ids db)" and "i \<notin> set (account_ids db)"
  shows "roles_kept db db'"
proof (cases "ad_accounts db' = ad_accounts db")
  case True
  then show ?thesis using assms(2) by (rule roles_kept_same [rotated])
next
  case changed: False
  then obtain found where found: "find_google_account sv c db = Inr found"
    using assms(1) by (cases "find_google_account sv c db") (auto simp: google_sign_in_def)
  show ?thesis
  proof (cases found)
    case None
    have "ad_accounts db' = ad_accounts db @ [signed_in_account now c (new_account i (gc_email c) (role_for (gc_email c) sso))]"
      using assms(1) found None changed by (auto simp: google_sign_in_def Let_def split: if_splits)
    then show ?thesis using roles_kept_append assms(2,3) by simp
  next
    case (Some old)
    have "ad_accounts db' = map (\<lambda>b. if acc_id b = acc_id old then signed_in_account now c old else b) (ad_accounts db)"
      using assms(1) found Some changed by (auto simp: google_sign_in_def Let_def split: if_splits)
    moreover have "old \<in> set (ad_accounts db)" using found Some found_is_a_row by blast
    ultimately show ?thesis using roles_kept_replace assms(2) signed_in_account_role by blast
  qed
qed

lemma google_callback_roles:
  assumes "google_callback sv now i code state cookie google db = (a, db')" and "distinct (account_ids db)"
    and "i \<notin> set (account_ids db)"
  shows "roles_kept db db'"
proof -
  consider "db' = db" | sso c where "google_sign_in sv now i c sso db = (a, db')"
    using assms(1) by (auto simp: google_callback_def split: option.splits if_splits sum.splits)
  then show ?thesis using roles_kept_same google_sign_in_roles assms(2,3) by cases blast+
qed

lemma create_user_roles:
  assumes "distinct (account_ids db)" and "i \<notin> set (account_ids db)"
  shows "roles_kept db (snd (create_user sv now ip i u email role granted db))"
proof (cases "ad_accounts (snd (create_user sv now ip i u email role granted db)) = ad_accounts db")
  case True
  then show ?thesis using roles_kept_same assms by blast
next
  case False
  then have "ad_accounts (snd (create_user sv now ip i u email role granted db)) =
      ad_accounts db @ [(new_account i (sv_lower sv (py_strip email)) role)\<lparr>acc_granted := granted\<rparr>]"
    by (auto simp: create_user_def Let_def split: if_splits)
  then show ?thesis by (rule roles_kept_append [OF assms(1)]) (use assms in simp)
qed

text \<open>A request that changes a role is an admin's update.\<close>

lemma only_an_update_changes_a_role:
  assumes "serve sv now clock header r db = (response, db')" and "distinct (account_ids db)" and "fresh_id r db"
    and "\<not> roles_kept db db'"
  obtains ip i up u where "r = Update_User ip i up" and "get_current_user sv now header = Inr u" and "si_role u = ''admin''"
    and "db' = snd (update_user sv now ip u i up db)"
proof -
  have same: "ad_accounts db' \<noteq> ad_accounts db" using assms(2,4) roles_kept_same by blast
  have served: "handle sv now clock header r db = (response, db')"
    using assms(1) same by (auto simp: serve_def split: if_splits)
  show ?thesis
  proof (cases r)
    case (Login caller u p)
    then show ?thesis using served same by (auto simp: handle_def answer_def login_accounts)
  next
    case (Callback i code state cookie google)
    then have "roles_kept db db'"
      using served assms(2,3) google_callback_roles [of sv now i code state cookie google db]
      by (auto simp: handle_def fresh_id_def split: prod.splits)
    then show ?thesis using assms(4) by simp
  next
    case (Create_User ip i email role granted)
    then have "roles_kept db db'"
      using served assms(2,3) same by (auto simp: handle_def answer_def fresh_id_def create_user_roles split: sum.splits)
    then show ?thesis using assms(4) by simp
  next
    case (Update_User ip i up)
    then obtain u where u: "require_role [''admin''] (get_current_user sv now header) = Inr u"
      using served same by (cases "require_role [''admin''] (get_current_user sv now header)") (auto simp: handle_def)
    then have "db' = snd (update_user sv now ip u i up db)" using Update_User served by (auto simp: handle_def answer_def)
    then show ?thesis using that Update_User u by (simp add: require_role_Inr)
  qed (use served same in \<open>auto simp: handle_def answer_def impersonate_accounts split: sum.splits\<close>)
qed

lemma role_change_recorded:
  assumes "acc_role a' \<noteq> acc_role a"
  shows "account_changes a a' \<noteq> [] \<and>
    map_of (the (safe_changes (Some (account_changes a a')))) ''role'' = Some (from_to (VStr (acc_role a)) (VStr (acc_role a')))"
proof -
  have open_field: "\<not> is_secret ''role''" by code_simp
  have role: "get_or_None (snapshot (account_row x) AUDITED_COLUMNS) ''role'' = VStr (acc_role x)" for x
    by (simp add: get_or_None_def snapshot_def AUDITED_COLUMNS_def account_row_def)
  have "map_of (account_changes a a') ''role'' = Some (from_to (VStr (acc_role a)) (VStr (acc_role a')))"
  proof -
    have "''role'' \<in> set AUDITED_COLUMNS" by (simp add: AUDITED_COLUMNS_def)
    then show ?thesis unfolding account_changes_def
      by (subst diff_map_of) (use assms open_field in \<open>auto simp: role difference_def\<close>)
  qed
  then show ?thesis using safe_changes_map_of [OF _ open_field] by (auto simp: from_to_def)
qed

text \<open>C16: no role changes unseen. Whatever the request, if an account's role is another one
  afterwards, an admin's update did it and the same commit put a row on the trail that names the
  account, the old role and the new.\<close>

theorem no_role_changes_unseen:
  assumes "serve sv now clock header r db = (response, db')" and "distinct (account_ids db)" and "fresh_id r db"
    and "a \<in> set (ad_accounts db)" and "a' \<in> set (ad_accounts db')" and "acc_id a' = acc_id a" and "acc_role a' \<noteq> acc_role a"
  shows "\<exists>e. ad_audit db' = ad_audit db @ [e] \<and> ae_action e = ''user.update'' \<and> ae_actor_role e = ''admin'' \<and>
    ae_entity_id e = Some (acc_id a) \<and>
    map_of (the (ae_changes e)) ''role'' = Some (from_to (VStr (acc_role a)) (VStr (acc_role a')))"
proof -
  have "\<not> roles_kept db db'" using assms(4-7) by (auto simp: roles_kept_def)
  then obtain ip i up u where r: "r = Update_User ip i up" and u: "si_role u = ''admin''"
    and db': "db' = snd (update_user sv now ip u i up db)"
    using only_an_update_changes_a_role [OF assms(1-3)] by metis
  have "ad_accounts db' \<noteq> ad_accounts db"
    using assms(2,4-7) same_id by metis
  then obtain b where b: "find (\<lambda>x. acc_id x = i) (ad_accounts db) = Some b"
    and rows: "ad_accounts db' = map (\<lambda>x. if acc_id x = i then apply_account_update up b else x) (ad_accounts db)"
    and trail: "account_changes b (apply_account_update up b) \<noteq> [] \<Longrightarrow> ad_audit db' = ad_audit db @
      [record_audit (sv_audit_id sv (length (ad_audit db))) now u
        (updated_entry (apply_account_update up b) (account_changes b (apply_account_update up b)) ip)]"
    using db' by (auto simp: update_user_def Let_def split: option.splits if_splits)
  have "b \<in> set (ad_accounts db)" "acc_id b = i" using b by (auto simp: find_Some_iff)
  have "a' = apply_account_update up b"
  proof (rule ccontr)
    assume "a' \<noteq> apply_account_update up b"
    then have "a' \<in> set (ad_accounts db)" using assms(5) by (auto simp: rows split: if_splits)
    then show False using assms(2,4,6,7) same_id by metis
  qed
  moreover have key: "acc_id (apply_account_update up b) = acc_id b" by (simp add: apply_account_update_def)
  ultimately have "a = b" using assms(2,4,6) \<open>b \<in> set (ad_accounts db)\<close> same_id by metis
  then show ?thesis
    using trail role_change_recorded [OF assms(7)] \<open>a' = apply_account_update up b\<close> u key
    by (simp add: record_audit_def updated_entry_def entry_def)
qed

definition promotion :: auth_request where
  "promotion = Update_User ''10.0.0.9'' ''u1'' \<lparr>up_role = Some ''admin'', up_is_active = None, up_exempt = None, up_granted = None\<rparr>"

theorem no_role_changes_unseen_witness:
  "\<exists>e. ad_audit (snd (serve example_server 5 0 (Some (''Bearer'', Some admin_token)) promotion example_viewers)) =
       ad_audit example_viewers @ [e] \<and>
     map_of (the (ae_changes e)) ''role'' = Some (from_to (VStr ''viewer'') (VStr ''admin''))"
proof -
  let ?s = "serve example_server 5 0 (Some (''Bearer'', Some admin_token)) promotion example_viewers"
  have "distinct (account_ids example_viewers)" and "fresh_id promotion example_viewers"
    and "new_account ''u1'' ''ann@x.org'' ''viewer'' \<in> set (ad_accounts example_viewers)"
    and "new_account ''u1'' ''ann@x.org'' ''admin'' \<in> set (ad_accounts (snd ?s))"
    by code_simp+
  from no_role_changes_unseen [OF prod.collapse [symmetric] this] show ?thesis by auto
qed

end
