(* ===== verification/Snmp_Counters.thy ===== *)
theory Snmp_Counters
  imports Notifications Models
begin

section \<open>Page counters and supplies over SNMP (app/printers/snmp_counters.py)\<close>

text \<open>
  The net-snmp commands and their output, the vendor profile, the counters of each vendor, the
  supplies table with what is guessed from its descriptions, and the two operations that write:
  the counter poll and the toner poll.  The commands and the decryption of a stored community are
  parameters.  A percentage is rounded from the exact quotient.
\<close>

subsection \<open>Constants\<close>

definition SNMP_TIMEOUT_SECONDS :: int where "SNMP_TIMEOUT_SECONDS = 3"
definition SNMP_RETRIES :: int where "SNMP_RETRIES = 1"

definition STANDARD_MARKER_LIFECOUNT_OID :: string where
  "STANDARD_MARKER_LIFECOUNT_OID = ''1.3.6.1.2.1.43.10.2.1.4''"
definition CANON_LABEL_OID :: string where "CANON_LABEL_OID = ''1.3.6.1.4.1.1602.1.11.2.1.1.2''"
definition CANON_VALUE_OID :: string where "CANON_VALUE_OID = ''1.3.6.1.4.1.1602.1.11.2.1.1.3''"
definition KONICA_TOTAL_OID :: string where "KONICA_TOTAL_OID = ''1.3.6.1.4.1.18334.1.1.1.5.7.2.1.1.0''"
definition KONICA_METER_A_OID :: string where "KONICA_METER_A_OID = ''1.3.6.1.4.1.18334.1.1.1.5.7.2.2.1.5.1.1''"
definition KONICA_METER_B_OID :: string where "KONICA_METER_B_OID = ''1.3.6.1.4.1.18334.1.1.1.5.7.2.2.1.5.1.2''"
definition SYS_DESCR_OID :: string where "SYS_DESCR_OID = ''1.3.6.1.2.1.1.1.0''"
definition SUPPLIES_TYPE_OID :: string where "SUPPLIES_TYPE_OID = ''1.3.6.1.2.1.43.11.1.1.5''"
definition SUPPLIES_DESCRIPTION_OID :: string where "SUPPLIES_DESCRIPTION_OID = ''1.3.6.1.2.1.43.11.1.1.6''"
definition SUPPLIES_LEVEL_OID :: string where "SUPPLIES_LEVEL_OID = ''1.3.6.1.2.1.43.11.1.1.9''"
definition SUPPLIES_MAX_CAPACITY_OID :: string where "SUPPLIES_MAX_CAPACITY_OID = ''1.3.6.1.2.1.43.11.1.1.8''"
definition CARTRIDGE_SUPPLY_TYPES :: "string set" where "CARTRIDGE_SUPPLY_TYPES = {''3'', ''6'', ''21''}"

subsection \<open>The vendor\<close>

record snmp_config =
  sc_community :: string
  sc_version :: string
  sc_port :: int
  sc_vendor_profile :: string

record snmp_defaults =
  sd_community_encrypted :: "string option"
  sd_version :: string
  sd_port :: int
  sd_enabled :: bool
  sd_retention_days :: int

definition snmp_defaults_row :: "string \<Rightarrow> snmp_defaults" where
  "snmp_defaults_row public_encrypted = \<lparr>sd_community_encrypted = Some public_encrypted, sd_version = ''v2c'',
     sd_port = 161, sd_enabled = False, sd_retention_days = 180\<rparr>"

definition get_or_create_snmp_defaults :: "(string \<Rightarrow> string) \<Rightarrow> snmp_defaults option \<Rightarrow> snmp_defaults" where
  "get_or_create_snmp_defaults encrypt stored =
     (case stored of Some d \<Rightarrow> d | None \<Rightarrow> snmp_defaults_row (encrypt ''public''))"

text \<open>A printer with the columns of the SNMP polls.\<close>

record metered = printer +
  mt_ip_address :: string
  mt_manufacturer :: "string option"
  mt_model :: "string option"
  mt_room :: "string option"
  mt_snmp_enabled :: bool
  mt_community_encrypted :: "string option"
  mt_snmp_version :: "string option"
  mt_snmp_port :: "int option"
  mt_vendor_profile :: "string option"
  mt_total :: "int option"
  mt_copy :: "int option"
  mt_print :: "int option"
  mt_confidence :: "string option"
  mt_profile_used :: "string option"
  mt_error :: "string option"
  mt_checked_at :: "datetime option"

definition VENDOR_HINTS :: "(string \<times> string) list" where
  "VENDOR_HINTS = [(''canon'', ''canon''), (''konica'', ''konica_minolta''), (''minolta'', ''konica_minolta''),
     (''bizhub'', ''konica_minolta''), (''hp '', ''hp''), (''hewlett'', ''hp''), (''laserjet'', ''hp''),
     (''lexmark'', ''lexmark''), (''kyocera'', ''kyocera''), (''taskalfa'', ''kyocera'')]"

definition detect_vendor_profile_from_text :: "string \<Rightarrow> string" where
  "detect_vendor_profile_from_text text =
     (let haystack = map ascii_lower text
      in case find (\<lambda>(hint, profile). contains hint haystack) VENDOR_HINTS of None \<Rightarrow> ''generic'' | Some (h, p) \<Rightarrow> p)"

definition make_model :: "metered \<Rightarrow> string option" where
  "make_model p =
     (case map_of (list_or_empty (printer_capabilities p)) ''make_model'' of Some (JStr s) \<Rightarrow> Some s | _ \<Rightarrow> None)"

definition detect_vendor_profile :: "metered \<Rightarrow> string" where
  "detect_vendor_profile p =
     detect_vendor_profile_from_text (py_join '' '' (map the (filter truthy [mt_manufacturer p, mt_model p, make_model p])))"

definition resolve_snmp_config :: "(string \<Rightarrow> string) \<Rightarrow> metered \<Rightarrow> snmp_defaults \<Rightarrow> snmp_config" where
  "resolve_snmp_config decrypt p d =
     (let community = (if truthy (mt_community_encrypted p) then mt_community_encrypted p else sd_community_encrypted d)
      in \<lparr>sc_community = (if truthy community then decrypt (the community) else ''public''),
          sc_version = (if truthy (mt_snmp_version p) then the (mt_snmp_version p) else sd_version d),
          sc_port = (if int_or_zero (mt_snmp_port p) \<noteq> 0 then the (mt_snmp_port p) else sd_port d),
          sc_vendor_profile = (if truthy (mt_vendor_profile p) then the (mt_vendor_profile p) else detect_vendor_profile p)\<rparr>)"

subsection \<open>The commands\<close>

datatype snmp_error = SnmpProbeError string | SnmpOther string

definition run_snmp :: "runner \<Rightarrow> string list \<Rightarrow> snmp_error + string" where
  "run_snmp run argv =
     (case run argv of
        FileNotFound \<Rightarrow> Inl (SnmpProbeError (''The `snmpget`/`snmpwalk` commands aren't available on the PrintOps server '' @
          ''(install the `snmp` package).''))
      | OtherOSError m \<Rightarrow> Inl (SnmpOther m)
      | TimedOut \<Rightarrow> Inl (SnmpProbeError ''SNMP request timed out.'')
      | Exited code out err \<Rightarrow>
          if code \<noteq> 0 then
            (let reason = py_strip (if err \<noteq> [] then err else out)
             in Inl (SnmpProbeError (if reason \<noteq> [] then reason else ''snmp command exited with an error.'')))
          else if py_strip out = [] then Inl (SnmpProbeError ''No response from device.'')
          else Inr out)"

definition base_argv :: "string \<Rightarrow> string \<Rightarrow> string \<Rightarrow> snmp_config \<Rightarrow> string list" where
  "base_argv command ip oid config =
     [command, ''-v'' @ (if prefix ''v'' (sc_version config) then drop 1 (sc_version config) else sc_version config),
      ''-c'', sc_community config, ''-t'', str_int SNMP_TIMEOUT_SECONDS, ''-r'', str_int SNMP_RETRIES, ''-On'',
      ip @ '':'' @ str_int (sc_port config), oid]"

definition snmp_get :: "runner \<Rightarrow> string \<Rightarrow> string \<Rightarrow> snmp_config \<Rightarrow> snmp_error + string" where
  "snmp_get run ip oid config = run_snmp run (base_argv ''snmpget'' ip oid config)"

text \<open>\<open>text.partition(sep)\<close>: what comes before the first separator and after it.\<close>

fun partition_at :: "string \<Rightarrow> string \<Rightarrow> (string \<times> string) option" where
  "partition_at sep [] = (if sep = [] then Some ([], []) else None)"
| "partition_at sep (c # s) =
     (if prefix sep (c # s) then Some ([], drop (length sep) (c # s))
      else map_option (\<lambda>(before, after). (c # before, after)) (partition_at sep s))"

definition walk_line :: "string \<Rightarrow> string \<Rightarrow> (string, string) dict \<Rightarrow> (string, string) dict" where
  "walk_line oid line rows =
     (case partition_at '' = '' line of
        None \<Rightarrow> rows
      | Some (raw_oid, val) \<Rightarrow>
          (let raw_oid = py_strip raw_oid; pre = ''.'' @ oid @ ''.''
           in if \<not> prefix pre raw_oid then rows else AList.update (drop (length pre) raw_oid) (py_strip val) rows))"

definition snmp_walk :: "runner \<Rightarrow> string \<Rightarrow> string \<Rightarrow> snmp_config \<Rightarrow> snmp_error + (string, string) dict" where
  "snmp_walk run ip oid config =
     (case run_snmp run (base_argv ''snmpwalk'' ip oid config) of
        Inl e \<Rightarrow> Inl e
      | Inr out \<Rightarrow> Inr (fold (walk_line oid) (splitlines out) []))"

definition extract_counter_value :: "string \<Rightarrow> int option" where
  "extract_counter_value raw = (case partition_at '':'' raw of None \<Rightarrow> None | Some (t, v) \<Rightarrow> read_signed (py_strip v))"

definition strip_quotes :: "string \<Rightarrow> string" where
  "strip_quotes s = rev (dropWhile (\<lambda>c. c = CHR 0x22) (rev (dropWhile (\<lambda>c. c = CHR 0x22) s)))"

definition extract_string_value :: "string \<Rightarrow> string option" where
  "extract_string_value raw = (case partition_at '':'' raw of None \<Rightarrow> None | Some (t, v) \<Rightarrow> Some (strip_quotes (py_strip v)))"

definition get_sys_descr_vendor_profile :: "runner \<Rightarrow> string \<Rightarrow> snmp_config \<Rightarrow> snmp_error + string option" where
  "get_sys_descr_vendor_profile run ip config =
     (case snmp_get run ip SYS_DESCR_OID config of
        Inl (SnmpProbeError m) \<Rightarrow> Inr None
      | Inl e \<Rightarrow> Inl e
      | Inr raw \<Rightarrow>
          (let profile = detect_vendor_profile_from_text (list_or_empty (extract_string_value raw))
           in Inr (if profile \<noteq> ''generic'' then Some profile else None)))"

definition get_standard_total :: "runner \<Rightarrow> string \<Rightarrow> snmp_config \<Rightarrow> snmp_error + int" where
  "get_standard_total run ip config =
     (case snmp_walk run ip STANDARD_MARKER_LIFECOUNT_OID config of
        Inl e \<Rightarrow> Inl e
      | Inr rows \<Rightarrow>
          (let counts = List.map_filter extract_counter_value (map snd rows)
           in if counts = [] then Inl (SnmpProbeError ''Standard Printer MIB returned no usable counter.'')
              else Inr (sum_list counts)))"

subsection \<open>Copies and prints apart\<close>

record vendor_breakdown =
  vb_copy :: "int option"
  vb_print :: "int option"
  vb_confidence :: string

definition canon_row :: "(string, string) dict \<Rightarrow> string \<times> string \<Rightarrow> int option \<times> int option \<Rightarrow> int option \<times> int option" where
  "canon_row counts row found =
     (case row of (index, raw_label) \<Rightarrow> case found of (copies, prints) \<Rightarrow>
        (let label = map ascii_lower (list_or_empty (extract_string_value raw_label))
         in if \<not> contains ''total'' label then (copies, prints)
            else
              (case extract_counter_value (list_or_empty (map_of counts index)) of
                 None \<Rightarrow> (copies, prints)
               | Some n \<Rightarrow>
                   if prefix ''copy'' label \<and> copies = None then (Some n, prints)
                   else if prefix ''print'' label \<and> prints = None then (copies, Some n)
                   else (copies, prints))))"

definition canon_breakdown :: "runner \<Rightarrow> string \<Rightarrow> snmp_config \<Rightarrow> snmp_error + vendor_breakdown" where
  "canon_breakdown run ip config =
     (case snmp_walk run ip CANON_LABEL_OID config of
        Inl e \<Rightarrow> Inl e
      | Inr labels \<Rightarrow>
          (case snmp_walk run ip CANON_VALUE_OID config of
             Inl e \<Rightarrow> Inl e
           | Inr counts \<Rightarrow>
               (let (copies, prints) = fold (canon_row counts) labels (None, None)
                in Inr \<lparr>vb_copy = copies, vb_print = prints, vb_confidence = ''verified''\<rparr>)))"

definition konica_minolta_breakdown :: "runner \<Rightarrow> string \<Rightarrow> snmp_config \<Rightarrow> snmp_error + vendor_breakdown" where
  "konica_minolta_breakdown run ip config =
     (case snmp_get run ip KONICA_TOTAL_OID config of
        Inl e \<Rightarrow> Inl e
      | Inr whole \<Rightarrow>
          (case snmp_get run ip KONICA_METER_A_OID config of
             Inl e \<Rightarrow> Inl e
           | Inr a \<Rightarrow>
               (case snmp_get run ip KONICA_METER_B_OID config of
                  Inl e \<Rightarrow> Inl e
                | Inr b \<Rightarrow> Inr \<lparr>vb_copy = extract_counter_value a, vb_print = extract_counter_value b,
                    vb_confidence = ''best_effort''\<rparr>)))"

definition unsupported_breakdown :: vendor_breakdown where
  "unsupported_breakdown = \<lparr>vb_copy = None, vb_print = None, vb_confidence = ''unsupported''\<rparr>"

definition breakdown_of :: "string \<Rightarrow> runner \<Rightarrow> string \<Rightarrow> snmp_config \<Rightarrow> snmp_error + vendor_breakdown" where
  "breakdown_of profile run ip config =
     (if profile = ''canon'' then canon_breakdown run ip config
      else if profile = ''konica_minolta'' then konica_minolta_breakdown run ip config
      else Inr unsupported_breakdown)"

subsection \<open>The counter poll\<close>

text \<open>What was read before an unexpected exception stays on the row.\<close>

definition poll_counters :: "runner \<Rightarrow> (string \<Rightarrow> string) \<Rightarrow> datetime \<Rightarrow> snmp_defaults \<Rightarrow> metered \<Rightarrow> (string + bool) \<times> metered" where
  "poll_counters run decrypt now d p =
     (let config = resolve_snmp_config decrypt p d; ip = mt_ip_address p
      in case get_standard_total run ip config of
           Inl (SnmpProbeError m) \<Rightarrow> (Inr False, p\<lparr>mt_error := Some m, mt_checked_at := Some now\<rparr>)
         | Inl (SnmpOther m) \<Rightarrow> (Inl m, p)
         | Inr pages \<Rightarrow>
             (let p1 = p\<lparr>mt_total := Some pages, mt_error := None\<rparr>
              in case (if truthy (mt_vendor_profile p) then Inr None else get_sys_descr_vendor_profile run ip config) of
                   Inl (SnmpProbeError m) \<Rightarrow> (Inl m, p1)
                 | Inl (SnmpOther m) \<Rightarrow> (Inl m, p1)
                 | Inr live \<Rightarrow>
                     (let profile = (case live of None \<Rightarrow> sc_vendor_profile config | Some v \<Rightarrow> v);
                          write = (\<lambda>b. (Inr True, p1\<lparr>mt_copy := vb_copy b, mt_print := vb_print b,
                            mt_confidence := Some (vb_confidence b), mt_profile_used := Some profile,
                            mt_checked_at := Some now\<rparr>))
                      in case breakdown_of profile run ip config of
                           Inl (SnmpProbeError m) \<Rightarrow> write unsupported_breakdown
                         | Inl (SnmpOther m) \<Rightarrow> (Inl m, p1)
                         | Inr b \<Rightarrow> write b)))"

definition refresh_printer_counters ::
  "runner \<Rightarrow> (string \<Rightarrow> string) \<Rightarrow> datetime \<Rightarrow> snmp_defaults \<Rightarrow> metered \<Rightarrow> (string + bool) \<times> metered" where
  "refresh_printer_counters run decrypt now d p =
     (if \<not> mt_snmp_enabled p then (Inr False, p) else poll_counters run decrypt now d p)"

definition record_reading :: "metered \<Rightarrow> counter_reading" where
  "record_reading p = \<lparr>reading_printer_id = printer_id p, reading_at = the (mt_checked_at p), reading_total = mt_total p,
     reading_copy = mt_copy p, reading_print = mt_print p\<rparr>"

subsection \<open>Supplies\<close>

record detected_supply =
  ds_description :: string
  ds_color :: "string option"
  ds_high_capacity :: "bool option"
  ds_level_percent :: "int option"
  ds_guessed_model :: "string option"

definition COLOR_KEYWORDS :: "string list" where
  "COLOR_KEYWORDS = [''cyan'', ''magenta'', ''yellow'', ''black'']"

definition LETTER_COLORS :: "(char \<times> string) list" where
  "LETTER_COLORS = [(CHR ''c'', ''cyan''), (CHR ''m'', ''magenta''), (CHR ''y'', ''yellow''), (CHR ''k'', ''black'')]"

definition is_letter :: "char \<Rightarrow> bool" where
  "is_letter c \<longleftrightarrow> (let n = of_char (ascii_lower c) :: int in 97 \<le> n \<and> n \<le> 122)"

text \<open>
  The regular expressions, as matchers.  A byte beyond ASCII belongs to a word (\<open>\\w\<close>) here and is
  no digit.
\<close>

definition is_word :: "char \<Rightarrow> bool" where
  "is_word c \<longleftrightarrow> is_letter c \<or> is_digit c \<or> c = CHR ''_'' \<or> 128 \<le> (of_char c :: int)"

definition part_number_color :: "string \<Rightarrow> char option" where
  "part_number_color s =
     (let letters = takeWhile is_letter s; rest = dropWhile is_letter s;
          rest = (case rest of [] \<Rightarrow> [] | c # cs \<Rightarrow> if c = CHR ''-'' \<or> c = CHR '' '' then cs else rest);
          digits = takeWhile is_digit rest; tail = dropWhile is_digit rest
      in if 1 \<le> length letters \<and> length letters \<le> 4 \<and> 2 \<le> length digits then
           (case tail of [c] \<Rightarrow> if ascii_lower c \<in> set ''cmyk'' then Some (ascii_lower c) else None | _ \<Rightarrow> None)
         else None)"

definition guess_cartridge_color :: "string \<Rightarrow> string option" where
  "guess_cartridge_color description =
     (case find (\<lambda>keyword. contains keyword (map ascii_lower description)) COLOR_KEYWORDS of
        Some color \<Rightarrow> Some color
      | None \<Rightarrow> (case part_number_color (py_strip description) of None \<Rightarrow> None | Some c \<Rightarrow> map_of LETTER_COLORS c))"

definition HIGH_CAPACITY_KEYWORDS :: "string list" where
  "HIGH_CAPACITY_KEYWORDS = [''xl'', ''high yield'', ''high-yield'', ''high capacity'', ''high-capacity'']"

definition guess_high_capacity :: "string \<Rightarrow> bool option" where
  "guess_high_capacity description =
     (if list_ex (\<lambda>keyword. contains keyword (map ascii_lower description)) HIGH_CAPACITY_KEYWORDS then Some True else None)"

text \<open>\<open>re.search\<close>: the first position, with the character before it, at which a matcher succeeds.\<close>

fun search_from :: "(string \<Rightarrow> 'a option) \<Rightarrow> bool \<Rightarrow> string \<Rightarrow> 'a option" where
  "search_from matcher in_word s =
     (case (if in_word then None else matcher s) of
        Some x \<Rightarrow> Some x
      | None \<Rightarrow> (case s of [] \<Rightarrow> None | c # cs \<Rightarrow> search_from matcher (is_word c) cs))"

definition match_hp :: "string \<Rightarrow> string option" where
  "match_hp s =
     (if \<not> prefix ''HP'' s then None
      else
        (let rest = drop 2 s; token = dropWhile py_isspace rest; model = takeWhile (\<lambda>c. is_letter c \<or> is_digit c) token
         in if token = rest \<or> model = [] \<or> dropWhile py_isspace (drop (length model) token) \<noteq> [] then None else Some model))"

text \<open>Digits followed by the end of a word.\<close>

definition whole_digits :: "string \<Rightarrow> string option" where
  "whole_digits s =
     (let digits = takeWhile is_digit s; rest = dropWhile is_digit s
      in if digits = [] \<or> (rest \<noteq> [] \<and> is_word (hd rest)) then None else Some digits)"

definition match_cartridge :: "string \<Rightarrow> string option" where
  "match_cartridge s =
     (if \<not> prefix ''Cartridge'' s then None
      else (let rest = drop 9 s; token = dropWhile py_isspace rest in if token = rest then None else whole_digits token))"

definition match_crg :: "string \<Rightarrow> string option" where
  "match_crg s =
     (if map ascii_lower (take 3 s) \<noteq> ''crg'' then None
      else map_option (\<lambda>digits. take 3 s @ digits) (whole_digits (drop 3 s)))"

definition guess_model_from_description :: "string \<Rightarrow> string option" where
  "guess_model_from_description description =
     (let lower = map ascii_lower description;
          hp = (if contains ''hp'' lower then search_from match_hp False description else None)
      in case hp of
           Some model \<Rightarrow> Some model
         | None \<Rightarrow>
             if contains ''canon'' lower then
               (case search_from match_cartridge False description of
                  Some n \<Rightarrow> Some (''Canon '' @ n)
                | None \<Rightarrow> map_option (\<lambda>n. ''Canon '' @ n) (search_from match_crg False description))
             else None)"

definition compute_level_percent :: "int option \<Rightarrow> int option \<Rightarrow> int option" where
  "compute_level_percent level max_capacity =
     (case (level, max_capacity) of
        (Some l, Some m) \<Rightarrow> if l < 0 \<or> m \<le> 0 then None else Some (max 0 (min 100 (round_div (l * 100) m)))
      | _ \<Rightarrow> None)"

definition supply_of ::
  "(string, string) dict \<Rightarrow> (string, string) dict \<Rightarrow> (string, string) dict \<Rightarrow> string \<times> string \<Rightarrow> detected_supply option" where
  "supply_of descriptions levels capacities row =
     (case row of (index, raw_type) \<Rightarrow>
        (case extract_counter_value raw_type of
           None \<Rightarrow> None
         | Some t \<Rightarrow>
             if str_int t \<notin> CARTRIDGE_SUPPLY_TYPES then None
             else
               (case map_of descriptions index of
                  None \<Rightarrow> None
                | Some raw \<Rightarrow>
                    (let description = list_or_empty (extract_string_value raw);
                         read = (\<lambda>table. extract_counter_value (list_or_empty (map_of table index)))
                     in if description = [] then None
                        else Some \<lparr>ds_description = description, ds_color = guess_cartridge_color description,
                          ds_high_capacity = guess_high_capacity description,
                          ds_level_percent = compute_level_percent (read levels) (read capacities),
                          ds_guessed_model = guess_model_from_description description\<rparr>))))"

definition supply_levels :: "runner \<Rightarrow> string \<Rightarrow> snmp_config \<Rightarrow> snmp_error + (string, string) dict \<times> (string, string) dict" where
  "supply_levels run ip config =
     (case snmp_walk run ip SUPPLIES_LEVEL_OID config of
        Inl (SnmpProbeError m) \<Rightarrow> Inr ([], [])
      | Inl e \<Rightarrow> Inl e
      | Inr levels \<Rightarrow>
          (case snmp_walk run ip SUPPLIES_MAX_CAPACITY_OID config of
             Inl (SnmpProbeError m) \<Rightarrow> Inr ([], [])
           | Inl e \<Rightarrow> Inl e
           | Inr capacities \<Rightarrow> Inr (levels, capacities)))"

definition get_toner_supplies :: "runner \<Rightarrow> string \<Rightarrow> snmp_config \<Rightarrow> snmp_error + detected_supply list" where
  "get_toner_supplies run ip config =
     (case snmp_walk run ip SUPPLIES_TYPE_OID config of
        Inl e \<Rightarrow> Inl e
      | Inr types \<Rightarrow>
          (case snmp_walk run ip SUPPLIES_DESCRIPTION_OID config of
             Inl e \<Rightarrow> Inl e
           | Inr descriptions \<Rightarrow>
               (case supply_levels run ip config of
                  Inl e \<Rightarrow> Inl e
                | Inr (levels, capacities) \<Rightarrow>
                    (let supplies = List.map_filter (supply_of descriptions levels capacities) types
                     in if supplies = [] then Inl (SnmpProbeError ''No toner/ink cartridge supplies reported by this device.'')
                        else Inr supplies))))"

subsection \<open>The toner poll\<close>

text \<open>The cartridge rows of one printer by color, the history of levels and the notification tables.\<close>

record toner_row =
  tn_model :: "string option"
  tn_cost :: rat
  tn_yield_pages :: int
  tn_description :: "string option"
  tn_high_capacity :: "bool option"
  tn_detected_at :: "datetime option"
  tn_level_percent :: "int option"
  tn_level_checked_at :: "datetime option"

record toner_reading =
  tr_printer_id :: uuid
  tr_color :: string
  tr_level_percent :: int
  tr_recorded_at :: datetime

record toner_state =
  ts_rows :: "(string, toner_row) dict"
  ts_readings :: "toner_reading list"
  ts_notices :: notify_db

definition new_toner_row :: toner_row where
  "new_toner_row = \<lparr>tn_model = None, tn_cost = 0, tn_yield_pages = 0, tn_description = None, tn_high_capacity = None,
     tn_detected_at = None, tn_level_percent = None, tn_level_checked_at = None\<rparr>"

definition detected_row :: "datetime \<Rightarrow> detected_supply \<Rightarrow> toner_row \<Rightarrow> toner_row" where
  "detected_row now s r =
     r\<lparr>tn_description := Some (ds_description s), tn_high_capacity := ds_high_capacity s, tn_detected_at := Some now,
       tn_level_percent := ds_level_percent s, tn_level_checked_at := Some now,
       tn_model := (if \<not> truthy (tn_model r) \<and> truthy (ds_guessed_model s) then ds_guessed_model s else tn_model r)\<rparr>"

definition sync_supply ::
  "notification_settings \<Rightarrow> (string \<Rightarrow> uuid) \<Rightarrow> metered \<Rightarrow> datetime \<Rightarrow> detected_supply \<Rightarrow> toner_state \<Rightarrow> toner_state" where
  "sync_supply settings ids p now s st =
     (case ds_color s of
        None \<Rightarrow> st
      | Some color \<Rightarrow>
          (let row = (case map_of (ts_rows st) color of None \<Rightarrow> new_toner_row | Some r \<Rightarrow> r);
               st = st\<lparr>ts_rows := AList.update color (detected_row now s row) (ts_rows st)\<rparr>
           in case ds_level_percent s of
                None \<Rightarrow> st
              | Some level \<Rightarrow>
                  st\<lparr>ts_readings := ts_readings st @ [\<lparr>tr_printer_id = printer_id p, tr_color = color,
                       tr_level_percent = level, tr_recorded_at = now\<rparr>],
                     ts_notices := snd (notify_toner settings (printer_where (printer_building p) (mt_room p)) (ids color)
                       (printer.truncate p) color level now (ts_notices st))\<rparr>))"

definition sync_toner_levels ::
  "runner \<Rightarrow> notification_settings \<Rightarrow> (string \<Rightarrow> uuid) \<Rightarrow> metered \<Rightarrow> snmp_config \<Rightarrow> datetime \<Rightarrow> toner_state \<Rightarrow>
   (snmp_error + detected_supply list) \<times> toner_state" where
  "sync_toner_levels run settings ids p config now st =
     (case get_toner_supplies run (mt_ip_address p) config of
        Inl e \<Rightarrow> (Inl e, st)
      | Inr supplies \<Rightarrow>
          (Inr (filter (\<lambda>s. ds_color s = None) supplies), fold (sync_supply settings ids p now) supplies st))"

section \<open>What the polls promise\<close>

subsection \<open>The counter poll\<close>

definition same_counters :: "metered \<Rightarrow> metered \<Rightarrow> bool" where
  "same_counters p q \<longleftrightarrow> mt_total q = mt_total p \<and> mt_copy q = mt_copy p \<and> mt_print q = mt_print p \<and>
     mt_confidence q = mt_confidence p"

lemma breakdown_confidence:
  "breakdown_of profile run ip config = Inr b \<Longrightarrow>
   vb_confidence b \<in> {''verified'', ''best_effort'', ''unsupported''} \<and>
   (vb_confidence b = ''unsupported'' \<longrightarrow> vb_copy b = None \<and> vb_print b = None)"
  by (auto simp: breakdown_of_def canon_breakdown_def konica_minolta_breakdown_def unsupported_breakdown_def Let_def
      split: if_splits sum.splits prod.splits)

text \<open>A reading is recorded only of what was just read. A counter poll that reports a fresh
  read leaves a total, no error and the moment of the poll, and counts copies apart only when the
  meter does; one that reports none leaves the last counters as they were.\<close>

theorem only_a_fresh_read_is_recorded:
  "case refresh_printer_counters run decrypt now d p of
     (Inr fresh, q) \<Rightarrow>
       if fresh then reading_at (record_reading q) = now \<and> reading_total (record_reading q) \<noteq> None \<and> mt_error q = None \<and>
         (mt_confidence q = Some ''unsupported'' \<longrightarrow> reading_copy (record_reading q) = None)
       else same_counters p q
   | (Inl e, q) \<Rightarrow> mt_copy q = mt_copy p \<and> mt_confidence q = mt_confidence p"
  by (auto simp: refresh_printer_counters_def poll_counters_def Let_def same_counters_def record_reading_def
      unsupported_breakdown_def dest: breakdown_confidence split: sum.splits snmp_error.splits if_splits)

subsection \<open>The toner poll\<close>

lemma level_percent_range: "compute_level_percent l m = Some n \<Longrightarrow> 0 \<le> n \<and> n \<le> 100"
  by (auto simp: compute_level_percent_def split: option.splits if_splits)

definition sane_supply :: "detected_supply \<Rightarrow> bool" where
  "sane_supply s \<longleftrightarrow> (case ds_level_percent s of None \<Rightarrow> True | Some n \<Rightarrow> 0 \<le> n \<and> n \<le> 100)"

lemma supply_of_sane: "supply_of descriptions levels capacities row = Some s \<Longrightarrow> sane_supply s"
  by (auto simp: supply_of_def sane_supply_def Let_def split: prod.splits option.splits if_splits dest: level_percent_range)

lemma supplies_sane:
  assumes "get_toner_supplies run ip config = Inr supplies"
  shows "list_all sane_supply supplies"
proof -
  obtain descriptions levels capacities types where "supplies = List.map_filter (supply_of descriptions levels capacities) types"
    using assms by (auto simp: get_toner_supplies_def Let_def split: sum.splits prod.splits if_splits)
  then show ?thesis by (auto simp: list_all_iff List.map_filter_def intro: supply_of_sane)
qed

definition entered :: "toner_row \<Rightarrow> toner_row \<Rightarrow> bool" where
  "entered r r' \<longleftrightarrow> tn_cost r' = tn_cost r \<and> tn_yield_pages r' = tn_yield_pages r \<and>
     (truthy (tn_model r) \<longrightarrow> tn_model r' = tn_model r)"

lemma entered_refl: "entered r r"
  by (simp add: entered_def)

lemma entered_trans: "entered r s \<Longrightarrow> entered s t \<Longrightarrow> entered r t"
  by (auto simp: entered_def)

lemma entered_detected: "entered r (detected_row now s r)"
  by (simp add: entered_def detected_row_def)

lemma sync_supply_rows:
  "map_of (ts_rows st) color = Some r \<Longrightarrow>
   \<exists>r'. map_of (ts_rows (sync_supply settings ids p now s st)) color = Some r' \<and> entered r r'"
  by (auto simp: sync_supply_def Let_def update_conv' entered_refl entered_detected split: option.splits)

lemma sync_supplies_rows:
  "map_of (ts_rows st) color = Some r \<Longrightarrow>
   \<exists>r'. map_of (ts_rows (fold (sync_supply settings ids p now) supplies st)) color = Some r' \<and> entered r r'"
proof (induction supplies arbitrary: st r)
  case Nil
  then show ?case by (auto simp: entered_refl)
next
  case (Cons s supplies)
  then obtain r' where "map_of (ts_rows (sync_supply settings ids p now s st)) color = Some r'" "entered r r'"
    using sync_supply_rows by blast
  then show ?case using Cons.IH entered_trans by fastforce
qed

lemma sync_supply_readings:
  "sane_supply s \<Longrightarrow> \<exists>new. ts_readings (sync_supply settings ids p now s st) = ts_readings st @ new \<and>
     list_all (\<lambda>r. 0 \<le> tr_level_percent r \<and> tr_level_percent r \<le> 100 \<and> tr_recorded_at r = now) new"
  by (auto simp: sync_supply_def sane_supply_def Let_def split: option.splits)

lemma sync_supplies_readings:
  "list_all sane_supply supplies \<Longrightarrow>
   \<exists>new. ts_readings (fold (sync_supply settings ids p now) supplies st) = ts_readings st @ new \<and>
     list_all (\<lambda>r. 0 \<le> tr_level_percent r \<and> tr_level_percent r \<le> 100 \<and> tr_recorded_at r = now) new"
proof (induction supplies arbitrary: st)
  case (Cons s supplies)
  obtain a where a: "ts_readings (sync_supply settings ids p now s st) = ts_readings st @ a"
    "list_all (\<lambda>r. 0 \<le> tr_level_percent r \<and> tr_level_percent r \<le> 100 \<and> tr_recorded_at r = now) a"
    using Cons.prems sync_supply_readings by fastforce
  then show ?case using Cons.IH [of "sync_supply settings ids p now s st"] Cons.prems by force
qed simp

text \<open>A toner poll keeps what the admin entered. Whatever the device reports, no cartridge row
  is lost, its cost and yield stay, a model once there is not overwritten, and the history only
  gains levels between 0 and 100 at the moment of the poll.\<close>

theorem a_toner_poll_keeps_what_the_admin_entered:
  "let st' = snd (sync_toner_levels run settings ids p config now st)
   in (\<forall>color. case map_of (ts_rows st) color of None \<Rightarrow> True
         | Some r \<Rightarrow> (case map_of (ts_rows st') color of None \<Rightarrow> False | Some r' \<Rightarrow> entered r r')) \<and>
      (\<exists>new. ts_readings st' = ts_readings st @ new \<and>
         list_all (\<lambda>r. 0 \<le> tr_level_percent r \<and> tr_level_percent r \<le> 100 \<and> tr_recorded_at r = now) new)"
proof (cases "get_toner_supplies run (mt_ip_address p) config")
  case (Inl e)
  then show ?thesis by (simp add: sync_toner_levels_def entered_refl split: option.split)
next
  case (Inr supplies)
  have "case map_of (ts_rows st) color of None \<Rightarrow> True
      | Some r \<Rightarrow> (case map_of (ts_rows (fold (sync_supply settings ids p now) supplies st)) color of
          None \<Rightarrow> False | Some r' \<Rightarrow> entered r r')" for color
    using sync_supplies_rows [of st color _ settings ids p now supplies] by (auto split: option.splits)
  then show ?thesis
    using Inr sync_supplies_readings [OF supplies_sane [OF Inr], of settings ids p now st]
    by (simp add: sync_toner_levels_def Let_def)
qed

subsection \<open>What is guessed from a description\<close>

lemma descriptions_seen_in_the_fleet:
  "guess_cartridge_color ''TK-8802C'' = Some ''cyan''" "guess_cartridge_color ''Canon CRG052 Black Toner'' = Some ''black''"
  "guess_cartridge_color ''Drum'' = None"
  "guess_model_from_description ''Black Cartridge HP CF226A'' = Some ''CF226A''"
  "guess_model_from_description ''Canon Cartridge 054 Black Toner'' = Some ''Canon 054''"
  "guess_model_from_description ''Canon CRG052 Black Toner'' = Some ''Canon CRG052''"
  "guess_model_from_description ''Toner (Black)'' = None"
  by code_simp+

end
