(* ===== verification/Counter_History.thy ===== *)
theory Counter_History
  imports Snmp_Counters Report_Queries Iso_Format "HOL-Library.Sublist"
begin

section \<open>What the meters moved by (app/printers/counter_history.py, toner_history.py)\<close>

text \<open>
  The daily differences of a printer's page counters, the daily level of its cartridges, and the
  purge of both histories (app/main.py).  Days are UTC days.
\<close>

subsection \<open>Daily differences\<close>

record counter_delta =
  cd_bucket_start :: date
  cd_total :: "int option"
  cd_copy :: "int option"
  cd_print :: "int option"

definition field_delta :: "int option \<Rightarrow> int option \<Rightarrow> int option" where
  "field_delta current previous =
     (case (current, previous) of (Some c, Some p) \<Rightarrow> if c - p < 0 then None else Some (c - p) | _ \<Rightarrow> None)"

definition reading_day :: "counter_reading \<Rightarrow> date" where
  "reading_day r = date_of (reading_at r)"

definition last_per_day :: "counter_reading list \<Rightarrow> (date, counter_reading) dict" where
  "last_per_day readings = fold (\<lambda>r. AList.update (reading_day r) r) readings []"

definition of_previous :: "(counter_reading \<Rightarrow> int option) \<Rightarrow> counter_reading option \<Rightarrow> int option" where
  "of_previous field previous = (case previous of None \<Rightarrow> None | Some r \<Rightarrow> field r)"

fun day_deltas :: "counter_reading option \<Rightarrow> (date \<times> counter_reading) list \<Rightarrow> counter_delta list" where
  "day_deltas previous [] = []"
| "day_deltas previous ((day, current) # later) =
     \<lparr>cd_bucket_start = day, cd_total = field_delta (reading_total current) (of_previous reading_total previous),
      cd_copy = field_delta (reading_copy current) (of_previous reading_copy previous),
      cd_print = field_delta (reading_print current) (of_previous reading_print previous)\<rparr> # day_deltas (Some current) later"

definition diff_readings :: "counter_reading list \<Rightarrow> counter_reading option \<Rightarrow> counter_delta list" where
  "diff_readings readings boundary = day_deltas boundary (sort_key fst (last_per_day readings))"

definition latest_reading :: "counter_reading list \<Rightarrow> counter_reading option" where
  "latest_reading readings = (case sort_key reading_at readings of [] \<Rightarrow> None | r # rs \<Rightarrow> Some (last (r # rs)))"

definition window_boundary ::
  "counter_reading list \<Rightarrow> uuid \<Rightarrow> datetime \<Rightarrow> datetime option \<Rightarrow> counter_reading option" where
  "window_boundary table pid start since =
     latest_reading (filter (\<lambda>r. reading_printer_id r = pid \<and> reading_at r < start \<and>
       (case since of None \<Rightarrow> True | Some f \<Rightarrow> f \<le> reading_at r)) table)"

definition window_readings :: "counter_reading list \<Rightarrow> uuid \<Rightarrow> datetime \<Rightarrow> datetime \<Rightarrow> counter_reading list" where
  "window_readings table pid start until =
     sort_key reading_at (filter (\<lambda>r. reading_printer_id r = pid \<and> start \<le> reading_at r \<and> reading_at r < until) table)"

definition get_daily_deltas_range ::
  "counter_reading list \<Rightarrow> uuid \<Rightarrow> datetime \<Rightarrow> datetime \<Rightarrow> datetime option \<Rightarrow> counter_delta list" where
  "get_daily_deltas_range table pid start until since =
     (let boundary = window_boundary table pid start since; readings = window_readings table pid start until
      in if boundary = None \<and> (case since of None \<Rightarrow> False | Some f \<Rightarrow> start \<le> f) \<and> readings \<noteq> []
         then diff_readings (tl readings) (Some (hd readings))
         else diff_readings readings boundary)"

definition get_daily_deltas :: "counter_reading list \<Rightarrow> uuid \<Rightarrow> int \<Rightarrow> datetime \<Rightarrow> counter_delta list" where
  "get_daily_deltas table pid n now = get_daily_deltas_range table pid (now - days n) now None"

subsection \<open>Daily levels\<close>

record toner_level =
  tl_bucket_start :: date
  tl_black :: "int option"
  tl_cyan :: "int option"
  tl_magenta :: "int option"
  tl_yellow :: "int option"

definition note_level :: "toner_reading \<Rightarrow> (date, (string, int) dict) dict \<Rightarrow> (date, (string, int) dict) dict" where
  "note_level r by_day =
     (let day = date_of (tr_recorded_at r); colors = list_or_empty (map_of by_day day)
      in AList.update day (AList.update (tr_color r) (tr_level_percent r) colors) by_day)"

definition last_reading_per_day_per_color :: "toner_reading list \<Rightarrow> (date, (string, int) dict) dict" where
  "last_reading_per_day_per_color readings = fold note_level readings []"

definition get_daily_toner_levels :: "toner_reading list \<Rightarrow> uuid \<Rightarrow> int \<Rightarrow> datetime \<Rightarrow> toner_level list" where
  "get_daily_toner_levels table pid n now =
     (let readings = sort_key tr_recorded_at (filter (\<lambda>r. tr_printer_id r = pid \<and> now - days n \<le> tr_recorded_at r \<and>
            tr_recorded_at r < now) table)
      in map (\<lambda>(day, colors). \<lparr>tl_bucket_start = day, tl_black = map_of colors ''black'', tl_cyan = map_of colors ''cyan'',
           tl_magenta = map_of colors ''magenta'', tl_yellow = map_of colors ''yellow''\<rparr>)
         (sort_key fst (last_reading_per_day_per_color readings)))"

subsection \<open>The purge of both histories\<close>

definition purge_counter_readings ::
  "datetime \<Rightarrow> snmp_defaults \<Rightarrow> counter_reading list \<times> toner_reading list \<Rightarrow> counter_reading list \<times> toner_reading list" where
  "purge_counter_readings now d tables =
     (let cutoff = now - days (sd_retention_days d)
      in (filter (\<lambda>r. cutoff \<le> reading_at r) (fst tables), filter (\<lambda>r. cutoff \<le> tr_recorded_at r) (snd tables)))"

subsection \<open>The last reading of each day\<close>

lemma last_per_day_snoc: "last_per_day (rs @ [r]) = AList.update (reading_day r) r (last_per_day rs)"
  by (simp add: last_per_day_def)

lemma update_last_key:
  "sorted_wrt (<) (map fst (xs @ [(k, v)])) \<Longrightarrow> AList.update k w (xs @ [(k, v)]) = xs @ [(k, w)]"
  for k :: "'a :: linorder"
  by (induction xs) auto

lemma update_new_key: "k \<notin> fst ` set xs \<Longrightarrow> AList.update k w xs = xs @ [(k, w)]"
  by (induction xs) auto

text \<open>Readings in the order of their days: one entry per day, the days ascending, each with a
  reading of the list, the last entry with the last.\<close>

lemma last_per_day_ascending:
  assumes "sorted_wrt (\<lambda>r s. reading_day r \<le> reading_day s) rs"
  shows "sorted_wrt (<) (map fst (last_per_day rs)) \<and> subseq (map snd (last_per_day rs)) rs \<and>
    (\<forall>d\<in>fst ` set (last_per_day rs). \<exists>r\<in>set rs. d = reading_day r) \<and>
    (rs \<noteq> [] \<longrightarrow> last_per_day rs \<noteq> [] \<and> last (last_per_day rs) = (reading_day (last rs), last rs))"
  using assms
proof (induction rs rule: rev_induct)
  case (snoc r rs)
  then have le: "\<forall>s\<in>set rs. reading_day s \<le> reading_day r" and asc: "sorted_wrt (\<lambda>r s. reading_day r \<le> reading_day s) rs"
    by (auto simp: sorted_wrt_append)
  note IH = snoc.IH [OF asc]
  show ?case
  proof (cases "reading_day r \<in> fst ` set (last_per_day rs)")
    case False
    then have "last_per_day (rs @ [r]) = last_per_day rs @ [(reading_day r, r)]"
      by (simp add: last_per_day_snoc update_new_key)
    moreover have "\<forall>d\<in>fst ` set (last_per_day rs). d < reading_day r"
      using IH le False by (metis order_le_imp_less_or_eq)
    ultimately show ?thesis using IH by (auto simp: sorted_wrt_append intro: list_emb_append_mono)
  next
    case True
    then have "last_per_day rs \<noteq> []" by auto
    then obtain ys d q where ys: "last_per_day rs = ys @ [(d, q)]" by (metis rev_exhaust surj_pair)
    have "d = reading_day r"
    proof (rule antisym)
      show "d \<le> reading_day r" using IH le ys by auto
      show "reading_day r \<le> d" using IH True ys by (auto simp: sorted_wrt_append less_imp_le)
    qed
    then have new: "last_per_day (rs @ [r]) = ys @ [(reading_day r, r)]"
      using update_last_key [of ys "reading_day r" q r] IH ys by (simp add: last_per_day_snoc)
    have "subseq (map snd ys) (map snd ys @ [q])" by (intro prefix_imp_subseq prefixI) (rule refl)
    moreover have "subseq (map snd ys @ [q]) rs" using IH ys by simp
    ultimately have "subseq (map snd ys) rs" by (rule subseq_order.trans)
    then show ?thesis using IH ys new \<open>d = reading_day r\<close> by (auto intro: list_emb_append_mono)
  qed
qed (simp add: last_per_day_def)

subsection \<open>Differences add up\<close>

lemma date_of_mono_days: "x \<le> y \<Longrightarrow> x div days 1 \<le> y div days 1"
  by (simp add: days_def zdiv_mono1)

text \<open>Meters that were read every time and never went down.\<close>

fun climbs :: "(counter_reading \<Rightarrow> int option) \<Rightarrow> int \<Rightarrow> counter_reading list \<Rightarrow> bool" where
  "climbs field n [] = True"
| "climbs field n (r # rs) = (case field r of None \<Rightarrow> False | Some m \<Rightarrow> n \<le> m \<and> climbs field m rs)"

lemma climbs_later: "climbs field n rs \<Longrightarrow> m \<le> n \<Longrightarrow> climbs field m rs"
  by (cases rs) (auto split: option.splits)

lemma climbs_subseq: "subseq ss rs \<Longrightarrow> climbs field n rs \<Longrightarrow> climbs field n ss"
proof (induction arbitrary: n rule: list_emb.induct)
  case (list_emb_Cons xs ys y)
  then show ?case using climbs_later by (auto split: option.splits)
next
  case (list_emb_Cons2 x y xs ys)
  then show ?case by (auto split: option.splits)
qed simp

lemma climbs_last: "climbs field n rs \<Longrightarrow> rs \<noteq> [] \<Longrightarrow> \<exists>m. field (last rs) = Some m \<and> n \<le> m"
proof (induction rs arbitrary: n)
  case (Cons r rs)
  then show ?case by (cases "rs = []") (fastforce split: option.splits)+
qed simp

lemma field_delta_climb [simp]: "n \<le> m \<Longrightarrow> field_delta (Some m) (Some n) = Some (m - n)"
  by (simp add: field_delta_def)

lemma day_deltas_telescope:
  assumes "climbs reading_copy n (map snd entries)" and "reading_copy b = Some n"
  shows "(\<forall>d\<in>set (day_deltas (Some b) entries). cd_copy d \<noteq> None) \<and>
    sum_list (map (\<lambda>d. the (cd_copy d)) (day_deltas (Some b) entries)) =
      (if entries = [] then 0 else the (reading_copy (snd (last entries))) - n)"
  using assms
proof (induction entries arbitrary: b n)
  case (Cons e entries)
  obtain day r where e: "e = (day, r)" by (cases e)
  then obtain m where m: "reading_copy r = Some m" "n \<le> m" "climbs reading_copy m (map snd entries)"
    using Cons.prems(1) by (auto split: option.splits)
  from Cons.IH [OF m(3,1)] show ?case
    using e m Cons.prems(2) by (auto simp: of_previous_def)
qed simp

lemma date_of_mono:
  assumes "datable x" and "datable y" and "x \<le> y"
  shows "date_of x \<le> date_of y"
proof -
  have ok: "1 \<le> x div days 1" "x div days 1 \<le> MAXORDINAL" "1 \<le> y div days 1" "y div days 1 \<le> MAXORDINAL"
    using assms by (simp_all add: datable_def)
  have "toordinal (date_of x) \<le> toordinal (date_of y)"
    using date_of_mono_days [OF assms(3)] ok by (simp add: date_of_def toordinal_fromordinal)
  then show ?thesis using ok by (simp add: toordinal_le_iff date_of_def valid_fromordinal)
qed

lemma ascending_days:
  assumes "sorted (map reading_at rs)" and "\<forall>r\<in>set rs. datable (reading_at r)"
  shows "sorted_wrt (\<lambda>r s. reading_day r \<le> reading_day s) rs"
  using assms by (induction rs) (auto simp: reading_day_def date_of_mono)

lemma last_per_day_sorted:
  assumes "sorted (map reading_at rs)" and "\<forall>r\<in>set rs. datable (reading_at r)"
  shows "sort_key fst (last_per_day rs) = last_per_day rs"
  using last_per_day_ascending [OF ascending_days [OF assms]]
  by (intro sort_key_id_if_sorted) (simp add: strict_sorted_imp_sorted)

lemma window_readings_facts:
  "sorted (map reading_at (window_readings table pid start until))"
  "set (window_readings table pid start until) \<subseteq> set table"
  by (auto simp: window_readings_def)

text \<open>The daily copies of a printer add up to what its meter moved by. When every reading of
  the window has the copy meter and it never goes down, each day with a reading has a difference
  and their sum is the last reading less the one before the window.\<close>

theorem daily_copies_add_up_to_the_meter:
  assumes "window_boundary table pid start since = Some b" and "reading_copy b = Some n"
    and "climbs reading_copy n (window_readings table pid start until)"
    and "\<forall>r\<in>set table. datable (reading_at r)" and "window_readings table pid start until \<noteq> []"
  shows "(\<forall>d\<in>set (get_daily_deltas_range table pid start until since). cd_copy d \<noteq> None) \<and>
    sum_list (map (\<lambda>d. the (cd_copy d)) (get_daily_deltas_range table pid start until since)) =
      the (reading_copy (last (window_readings table pid start until))) - n"
proof -
  let ?rs = "window_readings table pid start until"
  have asc: "sorted (map reading_at ?rs)" "\<forall>r\<in>set ?rs. datable (reading_at r)"
    using window_readings_facts [of table pid start until] assms(4) by auto
  note facts = last_per_day_ascending [OF ascending_days [OF asc]]
  have "climbs reading_copy n (map snd (last_per_day ?rs))"
    using facts assms(3) climbs_subseq by blast
  from day_deltas_telescope [OF this assms(2)] show ?thesis
    using facts assms(1,5) by (simp add: get_daily_deltas_range_def diff_readings_def last_per_day_sorted [OF asc] Let_def)
qed

definition example_reading :: "int \<Rightarrow> int option \<Rightarrow> int \<Rightarrow> counter_reading" where
  "example_reading day copies meter = \<lparr>reading_printer_id = ''p1'', reading_at = days (738000 + day) + hours 12,
     reading_total = Some meter, reading_copy = copies, reading_print = None\<rparr>"

theorem daily_copies_add_up_to_the_meter_witness:
  "sum_list (map (\<lambda>d. the (cd_copy d)) (get_daily_deltas_range
     [example_reading 0 (Some 10) 0, example_reading 1 (Some 14) 0, example_reading 2 (Some 20) 0] ''p1''
     (days 738001) (days 738009) None)) = 10"
proof -
  let ?t = "[example_reading 0 (Some 10) 0, example_reading 1 (Some 14) 0, example_reading 2 (Some 20) 0]"
  have w: "window_readings ?t ''p1'' (days 738001) (days 738009) = [example_reading 1 (Some 14) 0, example_reading 2 (Some 20) 0]"
    "window_boundary ?t ''p1'' (days 738001) None = Some (example_reading 0 (Some 10) 0)"
    by (simp_all add: window_readings_def window_boundary_def latest_reading_def example_reading_def days_def hours_def)
  show ?thesis
    using daily_copies_add_up_to_the_meter [OF w(2), of 10 "days 738009"] w(1)
    by (simp add: example_reading_def datable_def days_def hours_def MAXORDINAL_def)
qed

text \<open>A day that ends in a reading without the copy meter takes the next day's difference with it.\<close>

lemma a_reading_without_copies_loses_two_days:
  assumes "reading_day r < reading_day s" and "reading_copy r = None"
  shows "map cd_copy (diff_readings [r, s] boundary) = [None, None]"
proof -
  have "last_per_day [r, s] = [(reading_day r, r), (reading_day s, s)]"
    using assms(1) by (auto simp: last_per_day_def)
  then show ?thesis using assms by (simp add: diff_readings_def field_delta_def of_previous_def less_imp_le split: option.splits)
qed

end
