(* ===== verification/Copy_Activity.thy ===== *)
theory Copy_Activity
  imports Counter_History
begin

section \<open>Copies with and without a name (copiers/device_owner.py, reports/tracked_copies.py, reports/untracked_copies.py)\<close>

text \<open>
  The copies of a copier that belongs to one person, taken from its own meter; the summary of the
  copying that has a name; and the estimate of the copying that has none.  Tables are lists; the
  printers carry the columns of the SNMP polls.
\<close>

definition MEASURED_CONFIDENCE :: "string option set" where
  "MEASURED_CONFIDENCE = {Some ''verified'', Some ''best_effort''}"

definition ESTIMATED_CONFIDENCE :: "string option" where
  "ESTIMATED_CONFIDENCE = Some ''unsupported''"

subsection \<open>A copier with one owner (device_owner.py)\<close>

record copier =
  co_id :: uuid
  co_name :: string
  co_vendor :: string
  co_model :: "string option"
  co_serial_number :: "string option"
  co_building :: "string option"
  co_printer_id :: "uuid option"
  co_auto_poll_counters :: bool
  co_owner_email :: "string option"
  co_attributed_through :: "datetime option"

record owner_row =
  ow_device :: uuid
  ow_vendor :: string
  ow_model :: "string option"
  ow_serial_number :: "string option"
  ow_building :: "string option"
  ow_staff_email :: string
  ow_identity_used :: string
  ow_identity_type :: string
  ow_activity :: string
  ow_page_count :: int
  ow_color_page_count :: "int option"
  ow_monochrome_page_count :: "int option"
  ow_duplex :: "bool option"
  ow_period_start :: datetime
  ow_period_end :: datetime
  ow_source_connector :: string
  ow_meter_from :: int
  ow_meter_to :: int

record owner_result =
  or_attributed_pages :: int
  or_usage_rows :: int
  or_baselined :: bool
  or_meter_reset :: bool
  or_skipped_reason :: "string option"

definition DEFAULT_OWNER_IDENTITY :: string where
  "DEFAULT_OWNER_IDENTITY = ''(device default owner)''"

definition SOURCE_CONNECTOR :: string where
  "SOURCE_CONNECTOR = ''device_default_owner''"

definition nothing_new :: owner_result where
  "nothing_new = \<lparr>or_attributed_pages = 0, or_usage_rows = 0, or_baselined = False, or_meter_reset = False,
     or_skipped_reason = None\<rparr>"

definition skipped :: "string \<Rightarrow> owner_result" where
  "skipped reason = nothing_new\<lparr>or_skipped_reason := Some reason\<rparr>"

definition dash :: string where
  "dash = [CHR 0xE2, CHR 0x80, CHR 0x94]"

definition owner_message :: "owner_result \<Rightarrow> string" where
  "owner_message r =
     (if truthy (or_skipped_reason r) then the (or_skipped_reason r)
      else if or_meter_reset r then
        ''the printer's meter reads lower than last time '' @ dash @ '' it was reset or replaced, so counting restarts from here''
      else if or_baselined r then ''counting copies for this owner from now on''
      else if or_attributed_pages r = 0 then ''no new copies since the last read''
      else str_int (or_attributed_pages r) @ '' copies attributed'')"

text \<open>The readings of a printer that have the copy meter.\<close>

definition copy_readings :: "uuid \<Rightarrow> counter_reading list \<Rightarrow> counter_reading list" where
  "copy_readings pid table = filter (\<lambda>r. reading_printer_id r = pid \<and> reading_copy r \<noteq> None) table"

definition latest_copy_reading :: "uuid \<Rightarrow> datetime option \<Rightarrow> counter_reading list \<Rightarrow> counter_reading option" where
  "latest_copy_reading pid before table =
     latest_reading (filter (\<lambda>r. case before of None \<Rightarrow> True | Some t \<Rightarrow> reading_at r \<le> t) (copy_readings pid table))"

definition earliest_reading_after :: "uuid \<Rightarrow> datetime \<Rightarrow> counter_reading list \<Rightarrow> counter_reading option" where
  "earliest_reading_after pid t table =
     (case sort_key reading_at (filter (\<lambda>r. t < reading_at r) (copy_readings pid table)) of [] \<Rightarrow> None | r # rs \<Rightarrow> Some r)"

definition usage_row :: "copier \<Rightarrow> string \<Rightarrow> int \<Rightarrow> datetime \<Rightarrow> datetime \<Rightarrow> int \<Rightarrow> int \<Rightarrow> owner_row" where
  "usage_row device owner delta period_start period_end base_value current_value =
     \<lparr>ow_device = co_id device, ow_vendor = co_vendor device, ow_model = co_model device,
      ow_serial_number = co_serial_number device, ow_building = co_building device, ow_staff_email = owner,
      ow_identity_used = DEFAULT_OWNER_IDENTITY, ow_identity_type = ''device_default'', ow_activity = ''copy'',
      ow_page_count = delta, ow_color_page_count = None, ow_monochrome_page_count = None, ow_duplex = None,
      ow_period_start = period_start, ow_period_end = period_end, ow_source_connector = SOURCE_CONNECTOR,
      ow_meter_from = base_value, ow_meter_to = current_value\<rparr>"

definition meter_of :: "counter_reading \<Rightarrow> int" where
  "meter_of r = the (reading_copy r)"

text \<open>From the watermark on; a result, the device and the rows added.\<close>

definition attribute_since ::
  "uuid \<Rightarrow> counter_reading list \<Rightarrow> counter_reading \<Rightarrow> datetime \<Rightarrow> copier \<Rightarrow> owner_result \<times> copier \<times> owner_row list" where
  "attribute_since pid table newest watermark device =
     (let base = (case latest_copy_reading pid (Some watermark) table of
            Some r \<Rightarrow> Some r | None \<Rightarrow> earliest_reading_after pid watermark table)
      in case base of
           None \<Rightarrow> (nothing_new, device, [])
         | Some b \<Rightarrow>
             if reading_at newest \<le> reading_at b then (nothing_new, device, [])
             else
               (let delta = meter_of newest - meter_of b;
                    moved = device\<lparr>co_attributed_through := Some (reading_at newest)\<rparr>
                in if delta < 0 then (nothing_new\<lparr>or_baselined := True, or_meter_reset := True\<rparr>, moved, [])
                   else if delta = 0 then (nothing_new, moved, [])
                   else (nothing_new\<lparr>or_attributed_pages := delta, or_usage_rows := 1\<rparr>, moved,
                     [usage_row device (the (co_owner_email device)) delta (reading_at b) (reading_at newest)
                        (meter_of b) (meter_of newest)])))"

definition attribute_device_copies ::
  "metered list \<Rightarrow> uuid list \<Rightarrow> counter_reading list \<Rightarrow> copier \<Rightarrow> owner_result \<times> copier \<times> owner_row list" where
  "attribute_device_copies printers polled table device =
     (if \<not> truthy (co_owner_email device) then (skipped ''no default owner set for this device'', device, [])
      else if co_auto_poll_counters device \<or> co_id device \<in> set polled then
        (skipped (''this copier reports per-account counters, which already say who made each copy '' @ dash @
           '' a whole-device owner would count the same copies a second time, so it is not applied here''), device, [])
      else
        (case co_printer_id device of
           None \<Rightarrow> (skipped ''this copier isn't linked to a printer, so PrintOps has no meter to read'', device, [])
         | Some pid \<Rightarrow>
             (case find (\<lambda>p. printer_id p = pid) printers of
                None \<Rightarrow> (skipped ''the linked printer no longer exists'', device, [])
              | Some p \<Rightarrow>
                  if \<not> mt_snmp_enabled p then
                    (skipped (''SNMP is off for '' @ printer_name p @ '', so its copy meter is never read''), device, [])
                  else if mt_confidence p \<notin> MEASURED_CONFIDENCE then
                    (skipped (printer_name p @ '' reports one combined page total, not a separate copy counter '' @ dash @
                       '' copies can't be measured on this device''), device, [])
                  else
                    (case latest_copy_reading pid None table of
                       None \<Rightarrow> (skipped (''no copy meter readings recorded yet '' @ dash @
                           '' check back after the next SNMP poll''), device, [])
                     | Some newest \<Rightarrow>
                         (case co_attributed_through device of
                            None \<Rightarrow> (nothing_new\<lparr>or_baselined := True\<rparr>,
                              device\<lparr>co_attributed_through := Some (reading_at newest)\<rparr>, [])
                          | Some watermark \<Rightarrow> attribute_since pid table newest watermark device)))))"

text \<open>Naming an owner and moving the copier to another printer (routers/mfp_devices.py).\<close>

definition name_owner :: "string option \<Rightarrow> copier \<Rightarrow> copier" where
  "name_owner email device =
     (let email = (if truthy email then email else None)
      in (if email \<noteq> co_owner_email device then device\<lparr>co_attributed_through := None\<rparr> else device)\<lparr>co_owner_email := email\<rparr>)"

definition link_printer :: "uuid option \<Rightarrow> copier \<Rightarrow> copier" where
  "link_printer pid device = device\<lparr>co_printer_id := pid\<rparr>"

subsection \<open>Copying that has a name (tracked_copies.py)\<close>

record tracked_device =
  td_device_id :: uuid
  td_device_name :: string
  td_building :: "string option"
  td_copy_pages :: int
  td_scan_pages :: int
  td_fax_pages :: int
  td_people :: nat
  td_unattributed_pages :: int

record tracked_summary =
  tk_copy_pages :: int
  tk_scan_pages :: int
  tk_fax_pages :: int
  tk_people :: nat
  tk_unattributed_pages :: int
  tk_devices_reporting :: nat
  tk_devices :: "tracked_device list"

definition pages_of :: "copy_row list \<Rightarrow> int" where
  "pages_of us = sum_of copy_pages_of us"

definition filtered_usage :: "report_filters \<Rightarrow> report_tables \<Rightarrow> copy_row list" where
  "filtered_usage f db = map fst (apply_copier_filters f db)"

text \<open>\<open>count(distinct staff_email)\<close> over the rows that have one.\<close>

definition people_in :: "copy_row list \<Rightarrow> nat" where
  "people_in us = length (remdups (List.map_filter cu_staff_email us))"

definition tracked_device_entry :: "report_tables \<Rightarrow> uuid \<Rightarrow> copy_row list \<Rightarrow> tracked_device" where
  "tracked_device_entry db did mine =
     (let of_activity = (\<lambda>a. pages_of (filter (\<lambda>u. cu_activity u = a) mine));
          device = find (\<lambda>d. md_id d = did) (rt_devices db)
      in \<lparr>td_device_id = did, td_device_name = (case device of None \<Rightarrow> ''(deleted copier)'' | Some d \<Rightarrow> md_name d),
          td_building = (case device of None \<Rightarrow> None | Some d \<Rightarrow> md_building d),
          td_copy_pages = of_activity ''copy'', td_scan_pages = of_activity ''scan'', td_fax_pages = of_activity ''fax'',
          td_people = people_in mine,
          td_unattributed_pages = pages_of (filter (\<lambda>u. cu_staff_email u = None) mine)\<rparr>)"

definition get_tracked_copy_summary :: "report_filters \<Rightarrow> report_tables \<Rightarrow> tracked_summary" where
  "get_tracked_copy_summary f db =
     (let us = filtered_usage f db;
          entries = sort_key (\<lambda>e. - td_copy_pages e) (map (\<lambda>(did, mine). tracked_device_entry db did mine) (group_rows cu_device us))
      in \<lparr>tk_copy_pages = sum_of td_copy_pages entries, tk_scan_pages = sum_of td_scan_pages entries,
          tk_fax_pages = sum_of td_fax_pages entries, tk_people = people_in us,
          tk_unattributed_pages = sum_of td_unattributed_pages entries,
          tk_devices_reporting = length (filter (\<lambda>d. md_last_counter_poll_at d \<noteq> None) (rt_devices db)),
          tk_devices = entries\<rparr>)"

subsection \<open>Copying that has none (untracked_copies.py)\<close>

record untracked_settings =
  ut_enabled :: bool
  ut_enabled_at :: "datetime option"

definition update_untracked_settings :: "datetime \<Rightarrow> bool option \<Rightarrow> untracked_settings \<Rightarrow> untracked_settings" where
  "update_untracked_settings now enabled s =
     (case enabled of
        None \<Rightarrow> s
      | Some on \<Rightarrow> (if on \<and> \<not> ut_enabled s then s\<lparr>ut_enabled_at := Some now\<rparr> else s)\<lparr>ut_enabled := on\<rparr>)"

record untracked_printer =
  up_printer_id :: uuid
  up_printer_name :: string
  up_measured_copies :: int
  up_estimated_untracked :: int

record untracked_summary =
  us_measured_copies :: int
  us_estimated_untracked :: int
  us_tracking_since :: "datetime option"
  us_printers :: "untracked_printer list"

record meter_tables =
  mm_printers :: "metered list"
  mm_devices :: "mfp_device list"
  mm_readings :: "counter_reading list"
  mm_jobs :: "job list"

definition eligible_printers :: "report_filters \<Rightarrow> meter_tables \<Rightarrow> metered list" where
  "eligible_printers f db =
     filter (\<lambda>p. mt_snmp_enabled p \<and> wanted (rf_building f) (printer_building p) \<and>
         wanted (rf_department f) (printer_department p) \<and> wanted (rf_printer_id f) (Some (printer_id p)) \<and>
         Some (printer_id p) \<notin> md_printer_id ` set (mm_devices db)) (mm_printers db)"

definition daily_print_pages :: "job list \<Rightarrow> uuid \<Rightarrow> datetime \<Rightarrow> datetime \<Rightarrow> date \<Rightarrow> int" where
  "daily_print_pages jobs pid start until day =
     sum_list (map (\<lambda>j. int_or_zero (job_page_count j))
       (filter (\<lambda>j. job_printer_id j = pid \<and> start \<le> job_created_at j \<and> job_created_at j < until \<and>
          date_of (job_created_at j) = day) jobs))"

definition measured_copies :: "counter_delta list \<Rightarrow> int" where
  "measured_copies deltas = sum_list (map (\<lambda>d. int_or_zero (cd_copy d)) deltas)"

definition estimated_untracked :: "(date \<Rightarrow> int) \<Rightarrow> counter_delta list \<Rightarrow> int" where
  "estimated_untracked printed deltas =
     sum_list (map (\<lambda>d. case cd_total d of None \<Rightarrow> 0 | Some n \<Rightarrow> max (n - printed (cd_bucket_start d)) 0) deltas)"

definition untracked_entry :: "meter_tables \<Rightarrow> datetime \<Rightarrow> datetime \<Rightarrow> datetime \<Rightarrow> metered \<Rightarrow> untracked_printer" where
  "untracked_entry db start until since p =
     (let deltas = get_daily_deltas_range (mm_readings db) (printer_id p) start until (Some since);
          measured = mt_confidence p \<in> MEASURED_CONFIDENCE
      in \<lparr>up_printer_id = printer_id p, up_printer_name = printer_name p,
          up_measured_copies = (if measured then measured_copies deltas else 0),
          up_estimated_untracked =
            (if measured then 0 else estimated_untracked (daily_print_pages (mm_jobs db) (printer_id p) start until) deltas)\<rparr>)"

definition no_untracked :: "datetime option \<Rightarrow> untracked_summary" where
  "no_untracked since = \<lparr>us_measured_copies = 0, us_estimated_untracked = 0, us_tracking_since = since, us_printers = []\<rparr>"

definition get_untracked_copy_summary ::
  "untracked_settings \<Rightarrow> datetime \<Rightarrow> report_filters \<Rightarrow> meter_tables \<Rightarrow> untracked_summary" where
  "get_untracked_copy_summary settings now f db =
     (case (ut_enabled settings, ut_enabled_at settings) of
        (True, Some since) \<Rightarrow>
          (let start = (case rf_start f of None \<Rightarrow> since | Some t \<Rightarrow> max t since);
               until = (case rf_end f of None \<Rightarrow> now | Some t \<Rightarrow> t)
           in if until \<le> start then no_untracked (Some since)
              else
                (let counted = filter (\<lambda>p. mt_confidence p \<in> MEASURED_CONFIDENCE \<or> mt_confidence p = ESTIMATED_CONFIDENCE)
                       (eligible_printers f db);
                     entries = map (untracked_entry db start until since) counted
                 in \<lparr>us_measured_copies = sum_list (map up_measured_copies entries),
                     us_estimated_untracked = sum_list (map up_estimated_untracked entries), us_tracking_since = Some since,
                     us_printers = sort_key (\<lambda>e. - (up_measured_copies e + up_estimated_untracked e))
                       (filter (\<lambda>e. up_measured_copies e \<noteq> 0 \<or> up_estimated_untracked e \<noteq> 0) entries)\<rparr>))
      | _ \<Rightarrow> no_untracked None)"

section \<open>What is counted, and how often\<close>

subsection \<open>The owner of a copier\<close>

lemma latest_reading_Some:
  "latest_reading rs = Some r \<Longrightarrow> r \<in> set rs \<and> (\<forall>q\<in>set rs. reading_at q \<le> reading_at r)"
proof -
  assume some: "latest_reading rs = Some r"
  have asc: "sorted (map reading_at (sort_key reading_at rs))" by simp
  obtain x xs where s: "sort_key reading_at rs = x # xs" "r = last (x # xs)"
    using some by (auto simp: latest_reading_def split: list.splits)
  then have split: "sort_key reading_at rs = butlast (x # xs) @ [r]" by (metis append_butlast_last_id list.distinct(1))
  then have "\<forall>q\<in>set (sort_key reading_at rs). reading_at q \<le> reading_at r"
    using asc by (auto simp: sorted_append)
  moreover have "r \<in> set (sort_key reading_at rs)" unfolding split by simp
  ultimately show ?thesis by simp
qed

lemma latest_reading_None: "latest_reading rs = None \<longleftrightarrow> rs = []"
proof -
  have "sort_key reading_at rs = [] \<longleftrightarrow> rs = []" by (metis length_0_conv length_sort)
  then show ?thesis by (auto simp: latest_reading_def split: list.splits)
qed

lemma earliest_reading_afterD:
  assumes "earliest_reading_after pid t table = Some r"
  shows "r \<in> set (copy_readings pid table) \<and> t < reading_at r"
proof -
  obtain rs where first: "sort_key reading_at (filter (\<lambda>r. t < reading_at r) (copy_readings pid table)) = r # rs"
    using assms by (auto simp: earliest_reading_after_def split: list.splits)
  have "r \<in> set (sort_key reading_at (filter (\<lambda>r. t < reading_at r) (copy_readings pid table)))"
    unfolding first by simp
  then show ?thesis by simp
qed

text \<open>
  The life of one copier with an owner: polls of its printer's meter, each later than those before,
  the purge of old readings, attribution runs under any settings, and owners named.  The history
  keeps what the purge forgets.
\<close>

record owner_state =
  os_copier :: copier
  os_readings :: "counter_reading list"
  os_history :: "counter_reading list"
  os_usage :: "owner_row list"

inductive owner_run :: "uuid \<Rightarrow> owner_state \<Rightarrow> bool" for pid where
  start: "co_printer_id c = Some pid \<Longrightarrow> co_attributed_through c = None \<Longrightarrow>
    owner_run pid \<lparr>os_copier = c, os_readings = [], os_history = [], os_usage = []\<rparr>"
| poll: "owner_run pid st \<Longrightarrow> reading_printer_id r = pid \<Longrightarrow>
    \<forall>q\<in>set (os_history st). reading_at q < reading_at r \<Longrightarrow>
    owner_run pid (st\<lparr>os_readings := os_readings st @ [r], os_history := os_history st @ [r]\<rparr>)"
| purge: "owner_run pid st \<Longrightarrow> owner_run pid (st\<lparr>os_readings := filter (\<lambda>r. cutoff \<le> reading_at r) (os_readings st)\<rparr>)"
| attribute: "owner_run pid st \<Longrightarrow>
    attribute_device_copies printers polled (os_readings st) (os_copier st) = (result, c, rows) \<Longrightarrow>
    owner_run pid (st\<lparr>os_copier := c, os_usage := os_usage st @ rows\<rparr>)"
| name: "owner_run pid st \<Longrightarrow> owner_run pid (st\<lparr>os_copier := name_owner email (os_copier st)\<rparr>)"

definition usable :: "uuid \<Rightarrow> owner_state \<Rightarrow> counter_reading set" where
  "usable pid st = set (copy_readings pid (os_readings st))"

definition metered_row :: "counter_reading set \<Rightarrow> owner_row \<Rightarrow> bool" where
  "metered_row history w \<longleftrightarrow> ow_period_start w < ow_period_end w \<and> 0 < ow_page_count w \<and>
     (\<exists>r\<in>history. \<exists>s\<in>history. reading_at r = ow_period_start w \<and> reading_at s = ow_period_end w \<and>
        ow_page_count w = meter_of s - meter_of r)"

definition ends_by :: "owner_row list \<Rightarrow> datetime \<Rightarrow> bool" where
  "ends_by rows t \<longleftrightarrow> (\<forall>w\<in>set rows. ow_period_end w \<le> t)"

definition watermark_ok :: "uuid \<Rightarrow> owner_state \<Rightarrow> bool" where
  "watermark_ok pid st \<longleftrightarrow>
     (case co_attributed_through (os_copier st) of
        None \<Rightarrow> True
      | Some t \<Rightarrow> ends_by (os_usage st) t \<and> t \<in> reading_at ` set (os_history st) \<and>
          (t \<in> reading_at ` usable pid st \<or> (\<forall>r\<in>usable pid st. t < reading_at r)))"

definition owner_ok :: "uuid \<Rightarrow> owner_state \<Rightarrow> bool" where
  "owner_ok pid st \<longleftrightarrow> co_printer_id (os_copier st) = Some pid \<and> set (os_readings st) \<subseteq> set (os_history st) \<and>
     list_all (metered_row (set (os_history st))) (os_usage st) \<and>
     sorted_wrt (\<lambda>v w. ow_period_end v \<le> ow_period_start w) (os_usage st) \<and>
     (usable pid st = {} \<or> (\<exists>r\<in>usable pid st. ends_by (os_usage st) (reading_at r))) \<and> watermark_ok pid st"

lemma metered_row_mono: "metered_row h w \<Longrightarrow> h \<subseteq> h' \<Longrightarrow> metered_row h' w"
  unfolding metered_row_def by blast

lemma metered_row_end: "metered_row h w \<Longrightarrow> \<exists>s\<in>h. reading_at s = ow_period_end w"
  unfolding metered_row_def by blast

lemma usable_history: "owner_ok pid st \<Longrightarrow> usable pid st \<subseteq> set (os_history st)"
  by (auto simp: owner_ok_def usable_def copy_readings_def)

lemma ends_by_history:
  "list_all (metered_row h) rows \<Longrightarrow> \<forall>q\<in>h. reading_at q < t \<Longrightarrow> ends_by rows t"
  by (fastforce simp: ends_by_def list_all_iff dest: metered_row_end)

lemma ends_by_later: "ends_by rows t \<Longrightarrow> t \<le> u \<Longrightarrow> ends_by rows u"
  by (auto simp: ends_by_def)

lemma owner_ok_poll:
  assumes ok: "owner_ok pid st" and "reading_printer_id r = pid" and later: "\<forall>q\<in>set (os_history st). reading_at q < reading_at r"
  shows "owner_ok pid (st\<lparr>os_readings := os_readings st @ [r], os_history := os_history st @ [r]\<rparr>)"
    (is "owner_ok pid ?st")
proof -
  have usable: "usable pid ?st = usable pid st \<union> (if reading_copy r \<noteq> None then {r} else {})"
    using assms(2) by (auto simp: usable_def copy_readings_def)
  have rows: "list_all (metered_row (set (os_history ?st))) (os_usage ?st)"
    using ok by (auto simp: owner_ok_def list_all_iff intro: metered_row_mono)
  have ends: "ends_by (os_usage st) (reading_at r)"
    using ok later ends_by_history unfolding owner_ok_def by blast
  have "watermark_ok pid ?st"
    using ok later unfolding watermark_ok_def usable by (auto simp: owner_ok_def watermark_ok_def split: option.splits)
  moreover have "usable pid ?st = {} \<or> (\<exists>r\<in>usable pid ?st. ends_by (os_usage ?st) (reading_at r))"
    using ok ends unfolding usable by (auto simp: owner_ok_def)
  ultimately show ?thesis using ok rows unfolding owner_ok_def by auto
qed

lemma owner_ok_purge:
  assumes ok: "owner_ok pid st"
  shows "owner_ok pid (st\<lparr>os_readings := filter (\<lambda>r. cutoff \<le> reading_at r) (os_readings st)\<rparr>)" (is "owner_ok pid ?st")
proof -
  have usable: "usable pid ?st = {r \<in> usable pid st. cutoff \<le> reading_at r}"
    by (auto simp: usable_def copy_readings_def)
  have "usable pid ?st = {} \<or> (\<exists>r\<in>usable pid ?st. ends_by (os_usage ?st) (reading_at r))"
  proof (cases "usable pid ?st = {}")
    case False
    then obtain u where u: "u \<in> usable pid st" "cutoff \<le> reading_at u" unfolding usable by auto
    obtain r where r: "r \<in> usable pid st" "ends_by (os_usage st) (reading_at r)"
      using ok u by (auto simp: owner_ok_def)
    then show ?thesis using u ends_by_later [of "os_usage st" "reading_at r" "reading_at u"] unfolding usable
      by (cases "cutoff \<le> reading_at r") auto
  qed simp
  moreover have "watermark_ok pid ?st"
    using ok unfolding watermark_ok_def usable by (force simp: owner_ok_def watermark_ok_def split: option.splits)
  ultimately show ?thesis using ok unfolding owner_ok_def by auto
qed

lemma latest_copy_reading_Some:
  "latest_copy_reading pid before table = Some r \<Longrightarrow>
   r \<in> set (copy_readings pid table) \<and>
   (case before of None \<Rightarrow> True | Some t \<Rightarrow> reading_at r \<le> t) \<and>
   (\<forall>q\<in>set (copy_readings pid table). (case before of None \<Rightarrow> True | Some t \<Rightarrow> reading_at q \<le> t) \<longrightarrow> reading_at q \<le> reading_at r)"
  unfolding latest_copy_reading_def by (drule latest_reading_Some) auto

lemma latest_copy_reading_None:
  "latest_copy_reading pid (Some t) table = None \<Longrightarrow> q \<in> set (copy_readings pid table) \<Longrightarrow> t < reading_at q"
  unfolding latest_copy_reading_def latest_reading_None by (auto simp: filter_empty_conv)

text \<open>Where an attribution starts: no earlier than any row ends.\<close>

lemma attribution_starts_late:
  assumes ok: "owner_ok pid st" and mark: "co_attributed_through (os_copier st) = Some t"
    and base: "(case latest_copy_reading pid (Some t) (os_readings st) of
       Some r \<Rightarrow> Some r | None \<Rightarrow> earliest_reading_after pid t (os_readings st)) = Some b"
  shows "b \<in> usable pid st \<and> ends_by (os_usage st) (reading_at b)"
proof (cases "latest_copy_reading pid (Some t) (os_readings st)")
  case None
  then have "earliest_reading_after pid t (os_readings st) = Some b" using base by simp
  then have "b \<in> usable pid st" "t < reading_at b" by (auto simp: usable_def dest!: earliest_reading_afterD)
  then show ?thesis using ok mark ends_by_later [of "os_usage st" t "reading_at b"]
    by (auto simp: owner_ok_def watermark_ok_def)
next
  case (Some r)
  then have b: "b \<in> usable pid st" "reading_at b \<le> t"
    "\<forall>q\<in>usable pid st. reading_at q \<le> t \<longrightarrow> reading_at q \<le> reading_at b"
    using base latest_copy_reading_Some [OF Some] by (auto simp: usable_def)
  then have "t \<in> reading_at ` usable pid st" using ok mark by (force simp: owner_ok_def watermark_ok_def)
  then have "reading_at b = t" using b by force
  then show ?thesis using ok mark b(1) by (auto simp: owner_ok_def watermark_ok_def)
qed

lemma attribution_cases:
  assumes "attribute_device_copies printers polled table device = (result, c, rows)" and "co_printer_id device = Some pid"
  obtains "rows = []" and "c = device"
    | newest where "latest_copy_reading pid None table = Some newest"
      and "c = device\<lparr>co_attributed_through := Some (reading_at newest)\<rparr>" and "rows = []"
    | newest t b where "latest_copy_reading pid None table = Some newest"
      and "c = device\<lparr>co_attributed_through := Some (reading_at newest)\<rparr>" and "co_attributed_through device = Some t"
      and "(case latest_copy_reading pid (Some t) table of Some r \<Rightarrow> Some r | None \<Rightarrow> earliest_reading_after pid t table) = Some b"
      and "reading_at b < reading_at newest" and "0 < meter_of newest - meter_of b"
      and "rows = [usage_row device (the (co_owner_email device)) (meter_of newest - meter_of b) (reading_at b)
        (reading_at newest) (meter_of b) (meter_of newest)]"
proof (cases "attribute_device_copies printers polled table device = (result, device, [])")
  case True
  then show ?thesis using assms(1) that(1) by simp
next
  case moved: False
  then obtain newest where newest: "latest_copy_reading pid None table = Some newest"
    using assms by (auto simp: attribute_device_copies_def split: if_splits option.splits)
  show ?thesis
  proof (cases "co_attributed_through device")
    case None
    then have "c = device\<lparr>co_attributed_through := Some (reading_at newest)\<rparr> \<and> rows = []"
      using assms moved newest by (auto simp: attribute_device_copies_def split: if_splits option.splits)
    then show ?thesis using that(2) newest by blast
  next
    case (Some t)
    then have since: "attribute_since pid table newest t device = (result, c, rows)"
      using assms moved newest by (auto simp: attribute_device_copies_def split: if_splits option.splits)
    then obtain b where b: "(case latest_copy_reading pid (Some t) table of Some r \<Rightarrow> Some r
        | None \<Rightarrow> earliest_reading_after pid t table) = Some b" and "reading_at b < reading_at newest"
      using assms(1) moved by (auto simp: attribute_since_def Let_def split: option.splits if_splits)
    then show ?thesis using since that(2,3) newest Some by (auto simp: attribute_since_def Let_def split: if_splits)
  qed
qed

lemma newest_ends:
  assumes "owner_ok pid st" and "latest_copy_reading pid None (os_readings st) = Some newest"
  shows "newest \<in> usable pid st \<and> ends_by (os_usage st) (reading_at newest)"
proof -
  have n: "newest \<in> usable pid st" "\<forall>q\<in>usable pid st. reading_at q \<le> reading_at newest"
    using latest_copy_reading_Some [OF assms(2)] by (simp_all add: usable_def)
  then show ?thesis using assms(1) ends_by_later unfolding owner_ok_def by blast
qed

lemma owner_ok_attribute:
  assumes ok: "owner_ok pid st"
    and run: "attribute_device_copies printers polled (os_readings st) (os_copier st) = (result, c, rows)"
  shows "owner_ok pid (st\<lparr>os_copier := c, os_usage := os_usage st @ rows\<rparr>)" (is "owner_ok pid ?st")
proof -
  have usable: "usable pid ?st = usable pid st" by (simp add: usable_def)
  have history: "usable pid st \<subseteq> set (os_history st)" using ok by (rule usable_history)
  have "co_printer_id (os_copier st) = Some pid" using ok by (simp add: owner_ok_def)
  with run show ?thesis
  proof (cases rule: attribution_cases)
    case 1
    then show ?thesis using ok by simp
  next
    case (2 newest)
    then have "newest \<in> usable pid st \<and> ends_by (os_usage st) (reading_at newest)" using newest_ends ok by blast
    then show ?thesis using ok 2 history unfolding owner_ok_def watermark_ok_def usable by auto
  next
    case (3 newest t b)
    let ?w = "usage_row (os_copier st) (the (co_owner_email (os_copier st))) (meter_of newest - meter_of b) (reading_at b)
      (reading_at newest) (meter_of b) (meter_of newest)"
    have newest: "newest \<in> usable pid st" "ends_by (os_usage st) (reading_at newest)"
      using newest_ends ok 3(1) by blast+
    have b: "b \<in> usable pid st" "ends_by (os_usage st) (reading_at b)"
      using attribution_starts_late [OF ok 3(3,4)] by simp_all
    have "metered_row (set (os_history st)) ?w"
      unfolding metered_row_def using 3(5,6) newest(1) b(1) history by (auto simp: usage_row_def)
    moreover have "sorted_wrt (\<lambda>v w. ow_period_end v \<le> ow_period_start w) (os_usage st @ [?w])"
      using ok b(2) by (auto simp: owner_ok_def sorted_wrt_append ends_by_def usage_row_def)
    moreover have "ends_by (os_usage st @ [?w]) (reading_at newest)"
      using newest(2) by (auto simp: ends_by_def usage_row_def)
    ultimately show ?thesis
      using ok 3 newest(1) history unfolding owner_ok_def watermark_ok_def usable by auto
  qed
qed

lemma owner_ok_name: "owner_ok pid st \<Longrightarrow> owner_ok pid (st\<lparr>os_copier := name_owner email (os_copier st)\<rparr>)"
  by (simp add: owner_ok_def watermark_ok_def usable_def name_owner_def Let_def cong: option.case_cong)

lemma owner_run_ok: "owner_run pid st \<Longrightarrow> owner_ok pid st"
proof (induction rule: owner_run.induct)
  case (start c)
  then show ?case by (simp add: owner_ok_def usable_def copy_readings_def watermark_ok_def)
qed (simp_all add: owner_ok_poll owner_ok_purge owner_ok_attribute owner_ok_name)

text \<open>C19: no copy is charged twice to an owner. Whatever is polled, purged, attributed and named in
  whatever order, the usage rows of a copier cover spans of time that do not overlap, and each
  counts what the meter moved by between two readings taken at its ends.\<close>

theorem no_copy_is_attributed_twice:
  assumes "owner_run pid st"
  shows "sorted_wrt (\<lambda>v w. ow_period_end v \<le> ow_period_start w) (os_usage st) \<and>
    list_all (metered_row (set (os_history st))) (os_usage st)"
  using owner_run_ok [OF assms] by (simp add: owner_ok_def)

definition example_copier :: copier where
  "example_copier = \<lparr>co_id = ''c1'', co_name = ''Office'', co_vendor = ''Canon'', co_model = None, co_serial_number = None,
     co_building = None, co_printer_id = Some ''p1'', co_auto_poll_counters = False, co_owner_email = Some ''ann@x.org'',
     co_attributed_through = None\<rparr>"

definition example_metered :: "uuid \<Rightarrow> string \<Rightarrow> metered" where
  "example_metered i confidence = printer.extend (printer_defaults i ''Office'')
     (metered.fields ''10.0.0.7'' None None None True None None None None None None None (Some confidence) None None None)"

theorem no_copy_is_attributed_twice_witness:
  "\<exists>st. owner_run ''p1'' st \<and> sorted_wrt (\<lambda>v w. ow_period_end v \<le> ow_period_start w) (os_usage st) \<and>
     map ow_page_count (os_usage st) = [7]"
proof -
  let ?r = "example_reading 0 (Some 10) 0" and ?s = "example_reading 1 (Some 17) 0"
  let ?p = "[example_metered ''p1'' ''verified'']"
  let ?c = "example_copier\<lparr>co_attributed_through := Some (reading_at ?r)\<rparr>"
  note run = owner_run.start [of example_copier "''p1''"]
  have "owner_run ''p1'' \<lparr>os_copier = example_copier, os_readings = [?r], os_history = [?r], os_usage = []\<rparr>"
    using owner_run.poll [OF run, of ?r] by (simp add: example_copier_def example_reading_def)
  moreover have "attribute_device_copies ?p [] [?r] example_copier = (nothing_new\<lparr>or_baselined := True\<rparr>, ?c, [])"
    by code_simp
  ultimately have "owner_run ''p1'' \<lparr>os_copier = ?c, os_readings = [?r], os_history = [?r], os_usage = []\<rparr>"
    using owner_run.attribute [of "''p1''" "\<lparr>os_copier = example_copier, os_readings = [?r], os_history = [?r], os_usage = []\<rparr>"]
    by fastforce
  from owner_run.poll [OF this, of ?s]
  have two: "owner_run ''p1'' \<lparr>os_copier = ?c, os_readings = [?r, ?s], os_history = [?r, ?s], os_usage = []\<rparr>"
    by (simp add: example_reading_def days_def hours_def)
  obtain result c rows where a: "attribute_device_copies ?p [] [?r, ?s] ?c = (result, c, rows)" by (metis prod_cases3)
  have "map ow_page_count (snd (snd (attribute_device_copies ?p [] [?r, ?s] ?c))) = [7]" by code_simp
  then have "map ow_page_count rows = [7]" by (simp add: a)
  moreover have run: "owner_run ''p1'' \<lparr>os_copier = c, os_readings = [?r, ?s], os_history = [?r, ?s], os_usage = rows\<rparr>"
    using owner_run.attribute [OF two, of ?p "[]" result c rows] a by simp
  ultimately show ?thesis using no_copy_is_attributed_twice [OF run] by (intro exI conjI) auto
qed

text \<open>Moving a copier bills its owner for another printer's past. When a copier with an owner is
  linked to another printer, the next run charges the owner with everything that printer's meter
  moved by since the copier was last attributed, although all of it happened before the move.\<close>

theorem moving_a_copier_bills_the_other_printers_past:
  assumes "truthy (co_owner_email device)" and "\<not> co_auto_poll_counters device" and "co_id device \<notin> set polled"
    and "find (\<lambda>p. printer_id p = other) printers = Some p" and "mt_snmp_enabled p" and "mt_confidence p \<in> MEASURED_CONFIDENCE"
    and "co_attributed_through device = Some watermark"
    and "latest_copy_reading other (Some watermark) table = Some r" and "latest_copy_reading other None table = Some s"
    and "reading_at r < reading_at s" and "meter_of r < meter_of s"
  shows "\<exists>w. snd (snd (attribute_device_copies printers polled table (link_printer (Some other) device))) = [w] \<and>
    ow_page_count w = meter_of s - meter_of r \<and> Some (ow_staff_email w) = co_owner_email device"
  using assms
  by (auto simp: attribute_device_copies_def attribute_since_def link_printer_def usage_row_def truthy_iff Let_def)

theorem moving_a_copier_bills_the_other_printers_past_witness:
  "\<exists>w. snd (snd (attribute_device_copies [example_metered ''p1'' ''verified''] []
     [example_reading 0 (Some 100) 0, example_reading 30 (Some 5100) 0]
     (link_printer (Some ''p1'') (example_copier\<lparr>co_printer_id := Some ''p0'', co_attributed_through := Some (days 738001)\<rparr>)))) = [w] \<and>
     ow_page_count w = 5000"
proof -
  let ?r = "example_reading 0 (Some 100) 0" and ?s = "example_reading 30 (Some 5100) 0"
  let ?c = "example_copier\<lparr>co_printer_id := Some ''p0'', co_attributed_through := Some (days 738001)\<rparr>"
  have "\<exists>w. snd (snd (attribute_device_copies [example_metered ''p1'' ''verified''] [] [?r, ?s] (link_printer (Some ''p1'') ?c))) = [w] \<and>
      ow_page_count w = meter_of ?s - meter_of ?r \<and> Some (ow_staff_email w) = co_owner_email ?c"
    by (rule moving_a_copier_bills_the_other_printers_past [where p = "example_metered ''p1'' ''verified''" and watermark = "days 738001"])
      code_simp+
  moreover have "meter_of ?s - meter_of ?r = 5000" by code_simp
  ultimately show ?thesis by auto
qed

subsection \<open>Copying that has a name\<close>

lemma tracked_sums:
  "tk_copy_pages (get_tracked_copy_summary f db) = sum_if (\<lambda>u. cu_activity u = ''copy'') copy_pages_of (filtered_usage f db)"
  "tk_unattributed_pages (get_tracked_copy_summary f db) = sum_if (\<lambda>u. cu_staff_email u = None) copy_pages_of (filtered_usage f db)"
  using group_rows_sum [of "\<lambda>u. if cu_activity u = ''copy'' then copy_pages_of u else 0" cu_device "filtered_usage f db"]
    group_rows_sum [of "\<lambda>u. if cu_staff_email u = None then copy_pages_of u else 0" cu_device "filtered_usage f db"]
  by (simp_all add: get_tracked_copy_summary_def tracked_device_entry_def pages_of_def sum_of_map sum_of_filter sum_if_def
      split_def Let_def)

lemma combined_copy_total:
  "cs_copy_pages (get_combined_summary f db) =
   sum_of copy_pages_of (filter (\<lambda>u. cu_activity u = ''copy'' \<and> cu_staff_email u \<noteq> None) (filtered_usage f db))"
proof -
  have "cs_copy_pages (get_combined_summary f db) =
      sum_of (\<lambda>(k, rows). sum_of (\<lambda>u. if cu_activity u = ''copy'' then copy_pages_of u else 0) rows)
        (group_rows cu_staff_email (filter (\<lambda>u. cu_staff_email u \<noteq> None) (filtered_usage f db)))"
    by (simp add: get_combined_summary_def get_copier_usage_totals_def filtered_usage_def sum_of_map sum_of_filter
        split_def Let_def)
  also have "\<dots> = sum_of (\<lambda>u. if cu_activity u = ''copy'' then copy_pages_of u else 0)
      (filter (\<lambda>u. cu_staff_email u \<noteq> None) (filtered_usage f db))"
    by (rule group_rows_sum)
  finally show ?thesis by (simp add: sum_of_filter) (auto simp: sum_of_def intro!: arg_cong [where f = sum_list])
qed

text \<open>The two reports on copying agree up to the copies nobody owns, and the summary of tracked
  copies includes those. Its copies are the combined report's copies and the unowned ones.\<close>

theorem tracked_copies_include_the_unowned:
  "tk_copy_pages (get_tracked_copy_summary f db) = cs_copy_pages (get_combined_summary f db) +
     sum_of copy_pages_of (filter (\<lambda>u. cu_activity u = ''copy'' \<and> cu_staff_email u = None) (filtered_usage f db))"
  unfolding tracked_sums combined_copy_total sum_if_def
  by (induction "filtered_usage f db") (auto simp: sum_of_filter simp flip: sum_of_add intro!: sum_of_cong)

subsection \<open>Copying that has none\<close>

lemma window_boundary_since:
  "window_boundary (filter (\<lambda>r. since \<le> reading_at r) table) pid start (Some since) = window_boundary table pid start (Some since)"
  by (simp add: window_boundary_def conj_ac)

lemma window_readings_since:
  "since \<le> start \<Longrightarrow> window_readings (filter (\<lambda>r. since \<le> reading_at r) table) pid start until = window_readings table pid start until"
  by (auto simp: window_readings_def intro!: arg_cong [where f = "sort_key reading_at"] filter_cong)

lemma deltas_since:
  "since \<le> start \<Longrightarrow> get_daily_deltas_range (filter (\<lambda>r. since \<le> reading_at r) table) pid start until (Some since) =
   get_daily_deltas_range table pid start until (Some since)"
  by (simp add: get_daily_deltas_range_def window_boundary_since window_readings_since)

definition forget_before :: "datetime \<Rightarrow> meter_tables \<Rightarrow> meter_tables" where
  "forget_before t db = db\<lparr>mm_readings := filter (\<lambda>r. t \<le> reading_at r) (mm_readings db),
     mm_jobs := filter (\<lambda>j. t \<le> job_created_at j) (mm_jobs db)\<rparr>"

lemma daily_print_pages_since:
  "since \<le> start \<Longrightarrow> daily_print_pages (filter (\<lambda>j. since \<le> job_created_at j) jobs) pid start until =
   daily_print_pages jobs pid start until"
  unfolding daily_print_pages_def by (intro ext arg_cong [where f = sum_list] arg_cong [where f = "map _"])
    (auto intro!: filter_cong)

lemma untracked_entry_since:
  "since \<le> start \<Longrightarrow> untracked_entry (forget_before since db) start until since p = untracked_entry db start until since p"
  by (simp add: untracked_entry_def forget_before_def deltas_since daily_print_pages_since Let_def cong: if_cong)

lemma eligible_forget: "eligible_printers f (forget_before t db) = eligible_printers f db"
  by (simp add: eligible_printers_def forget_before_def)

text \<open>C32: the report of untracked copies never reaches back before it was enabled: with every meter
  reading and every job from before that moment gone it is the same report.\<close>

theorem untracked_copies_never_reach_back:
  assumes "ut_enabled_at settings = Some since"
  shows "get_untracked_copy_summary settings now f (forget_before since db) = get_untracked_copy_summary settings now f db"
proof -
  have "untracked_entry (forget_before since db) start until since = untracked_entry db start until since"
    if "since \<le> start" for start until
    using that by (intro ext) (simp add: untracked_entry_since)
  then show ?thesis using assms
    by (simp add: get_untracked_copy_summary_def eligible_forget Let_def split: bool.split option.split)
qed

theorem untracked_copies_never_reach_back_witness:
  "get_untracked_copy_summary \<lparr>ut_enabled = True, ut_enabled_at = Some 7\<rparr> 9 no_filters
     (forget_before 7 \<lparr>mm_printers = [], mm_devices = [], mm_readings = [example_reading 0 None 5], mm_jobs = []\<rparr>) =
   get_untracked_copy_summary \<lparr>ut_enabled = True, ut_enabled_at = Some 7\<rparr> 9 no_filters
     \<lparr>mm_printers = [], mm_devices = [], mm_readings = [example_reading 0 None 5], mm_jobs = []\<rparr>"
  by (rule untracked_copies_never_reach_back) simp

text \<open>C20: a day without readings turns printing into untracked copying. When a printer without a copy
  meter is read on one day and next on a later one, everything printed on other days counts against
  nothing: pages that PrintOps printed, every one, are reported as copies.\<close>

theorem a_day_without_readings_turns_prints_into_copies:
  assumes "mt_confidence p = ESTIMATED_CONFIDENCE"
    and "window_boundary (mm_readings db) (printer_id p) start (Some since) = Some r"
    and "window_readings (mm_readings db) (printer_id p) start until = [s]"
    and "reading_total r = Some m" and "reading_total s = Some n" and "m \<le> n"
    and "n - m = sum_list (map (\<lambda>j. int_or_zero (job_page_count j)) (mm_jobs db))"
    and "list_all (\<lambda>j. date_of (job_created_at j) \<noteq> reading_day s) (mm_jobs db)"
  shows "up_estimated_untracked (untracked_entry db start until since p) =
    sum_list (map (\<lambda>j. int_or_zero (job_page_count j)) (mm_jobs db))"
proof -
  have "filter (\<lambda>j. job_printer_id j = printer_id p \<and> start \<le> job_created_at j \<and> job_created_at j < until \<and>
      date_of (job_created_at j) = reading_day s) (mm_jobs db) = []"
    using assms(8) by (auto simp: filter_empty_conv list_all_iff)
  then have printed: "daily_print_pages (mm_jobs db) (printer_id p) start until (reading_day s) = 0"
    by (simp add: daily_print_pages_def)
  have "get_daily_deltas_range (mm_readings db) (printer_id p) start until (Some since) =
      [\<lparr>cd_bucket_start = reading_day s, cd_total = Some (n - m), cd_copy = field_delta (reading_copy s) (reading_copy r),
        cd_print = field_delta (reading_print s) (reading_print r)\<rparr>]"
    using assms(2-6)
    by (simp add: get_daily_deltas_range_def diff_readings_def last_per_day_def of_previous_def Let_def field_delta_def)
  then show ?thesis using assms(1,6,7) printed
    by (simp add: untracked_entry_def estimated_untracked_def ESTIMATED_CONFIDENCE_def MEASURED_CONFIDENCE_def)
qed

definition example_meters :: meter_tables where
  "example_meters = \<lparr>mm_printers = [example_metered ''p1'' ''unsupported''], mm_devices = [],
     mm_readings = [example_reading 0 None 1000, example_reading 2 None 1200],
     mm_jobs = [(job_defaults ''j1'' ''p1'' (days 738001 + hours 9))\<lparr>job_page_count := Some 200\<rparr>]\<rparr>"

theorem a_day_without_readings_turns_prints_into_copies_witness:
  "up_estimated_untracked (untracked_entry example_meters (days 738001) (days 738009) (days 738000)
     (example_metered ''p1'' ''unsupported'')) = 200"
proof -
  let ?p = "example_metered ''p1'' ''unsupported''" and ?r = "example_reading 0 None 1000" and ?s = "example_reading 2 None 1200"
  have "window_boundary (mm_readings example_meters) (printer_id ?p) (days 738001) (Some (days 738000)) = Some ?r"
    "window_readings (mm_readings example_meters) (printer_id ?p) (days 738001) (days 738009) = [?s]"
    "reading_total ?r = Some 1000" "reading_total ?s = Some 1200" "mt_confidence ?p = ESTIMATED_CONFIDENCE"
    "list_all (\<lambda>j. date_of (job_created_at j) \<noteq> reading_day ?s) (mm_jobs example_meters)"
    "sum_list (map (\<lambda>j. int_or_zero (job_page_count j)) (mm_jobs example_meters)) = 200"
    by code_simp+
  then show ?thesis
    using a_day_without_readings_turns_prints_into_copies [of ?p example_meters "days 738001" "days 738000" ?r "days 738009" ?s 1000 1200]
    by simp
qed

lemma eligible_is_not_linked:
  "p \<in> set (eligible_printers f db) \<Longrightarrow> mt_snmp_enabled p \<and> Some (printer_id p) \<notin> md_printer_id ` set (mm_devices db)"
  by (simp add: eligible_printers_def)

text \<open>No copy is both estimated and tracked. A printer that has a copier's record linked to it is
  not in the report of untracked copies.\<close>

theorem untracked_printers_have_no_copier:
  "list_all (\<lambda>e. Some (up_printer_id e) \<notin> md_printer_id ` set (mm_devices db))
     (us_printers (get_untracked_copy_summary settings now f db))"
  by (auto simp: get_untracked_copy_summary_def no_untracked_def untracked_entry_def list_all_iff Let_def
      dest: eligible_is_not_linked split: bool.splits option.splits)

end
