(* ===== verification/Printer_Limits.thy ===== *)
theory Printer_Limits
  imports Quotas Audit_Trail Report_Queries Attribution
begin

section \<open>Quotas, release bypasses and allowed units of a printer (app/routers/printers.py)\<close>

text \<open>
  The admin's endpoints for the three tables that hang off a printer, over one state with the
  tables they read.  An endpoint answers with its result or an HTTP error and leaves a state; an
  error before the commit leaves the state it found.  The clock, the ids of new rows and the case
  mappings of Python and of the database are the environment of a request.  Requests are taken
  one at a time: two at once can only differ in which of them meets a unique constraint.
\<close>

record quota_row = user_quota +
  qr_id :: uuid

record bypass_row =
  rb_id :: uuid
  rb_printer_id :: uuid
  rb_user_email :: string

record allowed_ou =
  ao_id :: uuid
  ao_printer_id :: uuid
  ao_ou_path :: string

record limits_db =
  ld_printers :: "printer list"
  ld_users :: "roster_user list"
  ld_quotas :: "quota_row list"
  ld_bypasses :: "bypass_row list"
  ld_ous :: "allowed_ou list"
  ld_jobs :: "job list"
  ld_trail :: "audit_event list"

record admin_env =
  av_lower :: "string \<Rightarrow> string" \<comment> \<open>Python's\<close>
  av_sql_lower :: "string \<Rightarrow> string"
  av_now :: datetime
  av_row_id :: uuid
  av_event_id :: uuid
  av_actor :: signed_in
  av_ip :: "string option"

definition quoted :: "string \<Rightarrow> string" where
  "quoted s = [CHR 0x27] @ s @ [CHR 0x27]"

definition long_dash :: string where
  "long_dash = [CHR 0xE2, CHR 0x80, CHR 0x94]"

text \<open>More than one row is an exception nobody catches.\<close>

definition scalar_one_or_none :: "'a list \<Rightarrow> http_error + 'a option" where
  "scalar_one_or_none rows = (case rows of [] \<Rightarrow> Inr None | [x] \<Rightarrow> Inr (Some x) | _ \<Rightarrow> Inl ServerError)"

definition get_printer_or_404 :: "uuid \<Rightarrow> limits_db \<Rightarrow> http_error + printer" where
  "get_printer_or_404 pid db =
     (case find (\<lambda>p. printer_id p = pid) (ld_printers db) of
        None \<Rightarrow> Inl (Http 404 ''Printer not found'') | Some p \<Rightarrow> Inr p)"

definition on_roster :: "admin_env \<Rightarrow> string \<Rightarrow> string \<Rightarrow> limits_db \<Rightarrow> http_error + unit" where
  "on_roster av email typed db =
     (case scalar_one_or_none (filter (\<lambda>u. av_sql_lower av (ru_email u) = email) (ld_users db)) of
        Inl e \<Rightarrow> Inl e
      | Inr None \<Rightarrow> Inl (Http 400 (quoted typed @ '' is not in the synced Google Workspace user '' @
          ''roster '' @ long_dash @ '' sync Google Workspace settings, or double-check the address.''))
      | Inr (Some u) \<Rightarrow> Inr ())"

definition staged :: "admin_env \<Rightarrow> audit_entry \<Rightarrow> limits_db \<Rightarrow> limits_db" where
  "staged av en db = db\<lparr>ld_trail := ld_trail db @
     [record_audit (av_event_id av) (av_now av) (av_actor av) (en\<lparr>en_source_ip := av_ip av\<rparr>)]\<rparr>"

definition about :: "string \<Rightarrow> string \<Rightarrow> string \<Rightarrow> uuid \<Rightarrow> string \<Rightarrow> audit_entry" where
  "about action summary entity_type ident label =
     (entry action summary entity_type)\<lparr>en_entity_id := Some ident, en_entity_label := Some label\<rparr>"

subsection \<open>Page quotas\<close>

definition quota_is_active :: "quota_row \<Rightarrow> string \<Rightarrow> bool" where
  "quota_is_active q mode \<longleftrightarrow> (if mode = ''exclude'' then True else uq_user_email q \<noteq> None \<and> uq_page_limit q \<noteq> None)"

record quota_out =
  qo_row :: quota_row
  qo_pages_used :: int
  qo_active :: bool

definition quota_out_of :: "admin_env \<Rightarrow> limits_db \<Rightarrow> quota_row \<Rightarrow> string \<Rightarrow> bool option \<Rightarrow> http_error + quota_out" where
  "quota_out_of av db q mode active =
     (case period_bounds (uq_period q) (av_now av) of
        Inl e \<Rightarrow> Inl ServerError
      | Inr (s, e) \<Rightarrow> Inr
          \<lparr>qo_row = q,
           qo_pages_used = (if truthy (uq_user_email q)
              then get_pages_used (ld_jobs db) (uq_printer_id q) (the (uq_user_email q)) s e else 0),
           qo_active = (case active of None \<Rightarrow> quota_is_active q mode | Some a \<Rightarrow> a)\<rparr>)"

fun all_or_error :: "('e + 'a) list \<Rightarrow> 'e + 'a list" where
  "all_or_error [] = Inr []"
| "all_or_error (Inl e # xs) = Inl e"
| "all_or_error (Inr x # xs) = map_sum id (\<lambda>ys. x # ys) (all_or_error xs)"

text \<open>The default row first, then by address.\<close>

definition quotas_of :: "uuid \<Rightarrow> limits_db \<Rightarrow> quota_row list" where
  "quotas_of pid db =
     sort_key (\<lambda>q. case uq_user_email q of None \<Rightarrow> (False, []) | Some u \<Rightarrow> (True, u))
       (filter (\<lambda>q. uq_printer_id q = pid) (ld_quotas db))"

definition list_printer_quotas :: "admin_env \<Rightarrow> uuid \<Rightarrow> limits_db \<Rightarrow> http_error + quota_out list" where
  "list_printer_quotas av pid db =
     (case get_printer_or_404 pid db of
        Inl e \<Rightarrow> Inl e
      | Inr p \<Rightarrow>
          (let quotas = quotas_of pid db; has_blanket = list_ex (\<lambda>q. uq_user_email q = None) quotas
           in all_or_error (map (\<lambda>q. quota_out_of av db q (printer_quota_mode p)
                (if printer_quota_mode p = ''exclude'' \<and> uq_user_email q \<noteq> None \<and> \<not> has_blanket
                 then Some False else None)) quotas)))"

record quota_create =
  qc_user_email :: "string option"
  qc_period :: string
  qc_page_limit :: "int option"

definition optional_str :: "string option \<Rightarrow> pyval" where
  "optional_str s = (case s of None \<Rightarrow> VNone | Some t \<Rightarrow> VStr t)"

definition optional_num :: "int option \<Rightarrow> pyval" where
  "optional_num n = (case n of None \<Rightarrow> VNone | Some i \<Rightarrow> VNum (of_int i))"

text \<open>What a quota must be before anyone is looked up.\<close>

definition quota_makes_sense :: "printer \<Rightarrow> string option \<Rightarrow> int option \<Rightarrow> http_error + unit" where
  "quota_makes_sense p email limit =
     (case limit of
        None \<Rightarrow>
          if email = None then Inl (Http 400 ''A default quota needs a page limit.'')
          else if printer_quota_mode p \<noteq> ''exclude'' then
            Inl (Http 400 (''Exemptions only apply to a printer in exclude mode. Switch this printer'' @
              [CHR 0x27] @ ''s quota mode first, or give this user a page limit.''))
          else Inr ()
      | Some n \<Rightarrow> if n < 1 then Inl (Http 400 ''A page limit must be at least 1.'') else Inr ())"

definition create_printer_quota ::
  "admin_env \<Rightarrow> uuid \<Rightarrow> quota_create \<Rightarrow> limits_db \<Rightarrow> (http_error + quota_out) \<times> limits_db" where
  "create_printer_quota av pid payload db =
     (if qc_period payload \<notin> set QUOTA_PERIODS then (Inl (Http 422 ''period''), db)
      else
        (case get_printer_or_404 pid db of
           Inl e \<Rightarrow> (Inl e, db)
         | Inr p \<Rightarrow>
             (let email = (if truthy (qc_user_email payload)
                           then Some (av_lower av (py_strip (the (qc_user_email payload)))) else None)
              in case quota_makes_sense p email (qc_page_limit payload) of
                   Inl e \<Rightarrow> (Inl e, db)
                 | Inr _ \<Rightarrow>
                     (case (case email of None \<Rightarrow> Inr () | Some u \<Rightarrow> on_roster av u (the (qc_user_email payload)) db) of
                        Inl e \<Rightarrow> (Inl e, db)
                      | Inr _ \<Rightarrow>
                          (case scalar_one_or_none (filter (\<lambda>q. uq_printer_id q = pid \<and> uq_user_email q = email) (ld_quotas db)) of
                             Inl e \<Rightarrow> (Inl e, db)
                           | Inr (Some q) \<Rightarrow>
                               (Inl (Http 409 (if email \<noteq> None
                                  then ''A quota for '' @ quoted (the (qc_user_email payload)) @ '' already exists on this printer.''
                                  else ''A default quota already exists on this printer.'')), db)
                           | Inr None \<Rightarrow>
                               (let q = \<lparr>uq_printer_id = pid, uq_user_email = email, uq_period = qc_period payload,
                                         uq_page_limit = qc_page_limit payload, qr_id = av_row_id av\<rparr>;
                                    db' = staged av
                                      ((about ''printer.quota.create'' (''Added a print quota on '' @ printer_name p)
                                          ''printer_quota'' (qr_id q) (printer_name p))
                                         \<lparr>en_changes := Some
                                            [(''user_email'', from_to VNone (optional_str (uq_user_email q))),
                                             (''page_limit'', from_to VNone (optional_num (uq_page_limit q)))]\<rparr>)
                                      (db\<lparr>ld_quotas := ld_quotas db @ [q]\<rparr>)
                                in (quota_out_of av db' q (printer_quota_mode p) None, db')))))))"

definition quota_columns :: "string list" where
  "quota_columns = [''id'', ''printer_id'', ''user_email'', ''period'', ''page_limit'']"

definition quota_values :: "quota_row \<Rightarrow> (string \<times> pyval) list" where
  "quota_values q =
     [(''id'', VOther (qr_id q)), (''printer_id'', VOther (uq_printer_id q)),
      (''user_email'', optional_str (uq_user_email q)), (''period'', VStr (uq_period q)),
      (''page_limit'', optional_num (uq_page_limit q))]"

definition quota_changes :: "quota_row \<Rightarrow> quota_row \<Rightarrow> (string \<times> pyval) list" where
  "quota_changes old new =
     (let names = auditable_fields quota_columns {''printer_id''}
      in diff (snapshot (quota_values old) names) (snapshot (quota_values new) names) names)"

text \<open>\<open>db.get\<close> by the row's id, and the check that it hangs off this printer.\<close>

definition find_quota :: "uuid \<Rightarrow> uuid \<Rightarrow> limits_db \<Rightarrow> http_error + quota_row" where
  "find_quota pid i db =
     (case find (\<lambda>q. qr_id q = i) (ld_quotas db) of
        None \<Rightarrow> Inl (Http 404 ''Quota not found'')
      | Some q \<Rightarrow> if uq_printer_id q \<noteq> pid then Inl (Http 404 ''Quota not found'') else Inr q)"

definition update_printer_quota ::
  "admin_env \<Rightarrow> uuid \<Rightarrow> uuid \<Rightarrow> string option \<Rightarrow> int option \<Rightarrow> limits_db \<Rightarrow> (http_error + quota_out) \<times> limits_db" where
  "update_printer_quota av pid i new_period new_limit db =
     (if (case new_period of None \<Rightarrow> False | Some s \<Rightarrow> s \<notin> set QUOTA_PERIODS) then (Inl (Http 422 ''period''), db)
      else
        (case get_printer_or_404 pid db of
           Inl e \<Rightarrow> (Inl e, db)
         | Inr p \<Rightarrow>
             (case find_quota pid i db of
                Inl e \<Rightarrow> (Inl e, db)
              | Inr old \<Rightarrow>
                  if (case new_limit of None \<Rightarrow> False | Some n \<Rightarrow> n < 1)
                  then (Inl (Http 400 ''A page limit must be at least 1.''), db)
                  else
                    (let q = old\<lparr>uq_period := (case new_period of None \<Rightarrow> uq_period old | Some s \<Rightarrow> s),
                                 uq_page_limit := (case new_limit of None \<Rightarrow> uq_page_limit old | Some n \<Rightarrow> Some n)\<rparr>;
                         changes = quota_changes old q;
                         db' = db\<lparr>ld_quotas := write_back qr_id [q] (ld_quotas db)\<rparr>;
                         label = (if truthy (uq_user_email q) then the (uq_user_email q) else printer_name p);
                         db' = (if changes = [] then db'
                                else staged av
                                  ((about ''printer.quota.update'' (''Changed a print quota on '' @ printer_name p)
                                      ''printer_quota'' (qr_id q) label)\<lparr>en_changes := Some changes\<rparr>) db')
                     in (quota_out_of av db' q (printer_quota_mode p) None, db')))))"

definition delete_printer_quota :: "admin_env \<Rightarrow> uuid \<Rightarrow> uuid \<Rightarrow> limits_db \<Rightarrow> (http_error + unit) \<times> limits_db" where
  "delete_printer_quota av pid i db =
     (case find_quota pid i db of
        Inl e \<Rightarrow> (Inl e, db)
      | Inr q \<Rightarrow>
          (let label = (if truthy (uq_user_email q) then the (uq_user_email q) else ''the printer default'')
           in (Inr (), staged av
                 (about ''printer.quota.delete'' (''Removed a print quota ('' @ label @ '')'') ''printer_quota'' i label)
                 (db\<lparr>ld_quotas := filter (\<lambda>r. qr_id r \<noteq> i) (ld_quotas db)\<rparr>))))"

subsection \<open>Release bypasses\<close>

definition list_printer_release_bypasses :: "uuid \<Rightarrow> limits_db \<Rightarrow> http_error + bypass_row list" where
  "list_printer_release_bypasses pid db =
     map_sum id (\<lambda>p. sort_key rb_user_email (filter (\<lambda>b. rb_printer_id b = pid) (ld_bypasses db))) (get_printer_or_404 pid db)"

definition create_printer_release_bypass ::
  "admin_env \<Rightarrow> uuid \<Rightarrow> string \<Rightarrow> limits_db \<Rightarrow> (http_error + bypass_row) \<times> limits_db" where
  "create_printer_release_bypass av pid typed db =
     (case get_printer_or_404 pid db of
        Inl e \<Rightarrow> (Inl e, db)
      | Inr p \<Rightarrow>
          if printer_is_virtual p then
            (Inl (Http 400 (''A virtual queue has no real device to deliver a bypassed job to '' @ long_dash @
               '' it must always be held.'')), db)
          else
            (let email = av_lower av (py_strip typed)
             in case on_roster av email typed db of
                  Inl e \<Rightarrow> (Inl e, db)
                | Inr _ \<Rightarrow>
                    (case scalar_one_or_none (filter (\<lambda>b. rb_printer_id b = pid \<and> rb_user_email b = email) (ld_bypasses db)) of
                       Inl e \<Rightarrow> (Inl e, db)
                     | Inr (Some b) \<Rightarrow> (Inl (Http 409 (quoted typed @ '' already bypasses release on this printer.'')), db)
                     | Inr None \<Rightarrow>
                         (let b = \<lparr>rb_id = av_row_id av, rb_printer_id = pid, rb_user_email = email\<rparr>
                          in (Inr b, staged av
                                (about ''printer.release_bypass.create''
                                   (''Exempted '' @ email @ '' from print release on '' @ printer_name p)
                                   ''printer_release_bypass'' (rb_id b) email)
                                (db\<lparr>ld_bypasses := ld_bypasses db @ [b]\<rparr>))))))"

definition delete_printer_release_bypass :: "admin_env \<Rightarrow> uuid \<Rightarrow> uuid \<Rightarrow> limits_db \<Rightarrow> (http_error + unit) \<times> limits_db" where
  "delete_printer_release_bypass av pid i db =
     (case find (\<lambda>b. rb_id b = i) (ld_bypasses db) of
        None \<Rightarrow> (Inl (Http 404 ''Bypass not found''), db)
      | Some b \<Rightarrow>
          if rb_printer_id b \<noteq> pid then (Inl (Http 404 ''Bypass not found''), db)
          else (Inr (), staged av
                 (about ''printer.release_bypass.delete'' (''Removed the print-release exemption for '' @ rb_user_email b)
                    ''printer_release_bypass'' i (rb_user_email b))
                 (db\<lparr>ld_bypasses := filter (\<lambda>r. rb_id r \<noteq> i) (ld_bypasses db)\<rparr>)))"

subsection \<open>Allowed organisational units\<close>

definition list_printer_allowed_ous :: "uuid \<Rightarrow> limits_db \<Rightarrow> http_error + allowed_ou list" where
  "list_printer_allowed_ous pid db =
     map_sum id (\<lambda>p. sort_key ao_ou_path (filter (\<lambda>a. ao_printer_id a = pid) (ld_ous db))) (get_printer_or_404 pid db)"

definition create_printer_allowed_ou ::
  "admin_env \<Rightarrow> uuid \<Rightarrow> string \<Rightarrow> limits_db \<Rightarrow> (http_error + allowed_ou) \<times> limits_db" where
  "create_printer_allowed_ou av pid typed db =
     (case get_printer_or_404 pid db of
        Inl e \<Rightarrow> (Inl e, db)
      | Inr p \<Rightarrow>
          (let path = py_strip typed
           in case scalar_one_or_none (filter (\<lambda>u. ru_org_unit_path u = Some path) (ld_users db)) of
                Inl e \<Rightarrow> (Inl e, db)
              | Inr None \<Rightarrow>
                  (Inl (Http 400 (quoted typed @ '' doesn'' @ [CHR 0x27] @ ''t match any org unit in the synced Google '' @
                     ''Workspace roster '' @ long_dash @ '' sync Google Workspace settings, or double-check the path.'')), db)
              | Inr (Some u) \<Rightarrow>
                  (case scalar_one_or_none (filter (\<lambda>a. ao_printer_id a = pid \<and> ao_ou_path a = path) (ld_ous db)) of
                     Inl e \<Rightarrow> (Inl e, db)
                   | Inr (Some a) \<Rightarrow> (Inl (Http 409 (quoted typed @ '' is already allowed on this printer.'')), db)
                   | Inr None \<Rightarrow>
                       (let a = \<lparr>ao_id = av_row_id av, ao_printer_id = pid, ao_ou_path = path\<rparr>
                        in (Inr a, staged av
                              (about ''printer.allowed_ou.create'' (''Restricted '' @ printer_name p @ '' to '' @ path)
                                 ''printer_allowed_ou'' (ao_id a) path)
                              (db\<lparr>ld_ous := ld_ous db @ [a]\<rparr>))))))"

definition delete_printer_allowed_ou :: "admin_env \<Rightarrow> uuid \<Rightarrow> uuid \<Rightarrow> limits_db \<Rightarrow> (http_error + unit) \<times> limits_db" where
  "delete_printer_allowed_ou av pid i db =
     (case find (\<lambda>a. ao_id a = i) (ld_ous db) of
        None \<Rightarrow> (Inl (Http 404 ''Allowed OU not found''), db)
      | Some a \<Rightarrow>
          if ao_printer_id a \<noteq> pid then (Inl (Http 404 ''Allowed OU not found''), db)
          else (Inr (), staged av
                 (about ''printer.allowed_ou.delete'' (''Removed the '' @ ao_ou_path a @ '' restriction'')
                    ''printer_allowed_ou'' i (ao_ou_path a))
                 (db\<lparr>ld_ous := filter (\<lambda>r. ao_id r \<noteq> i) (ld_ous db)\<rparr>)))"

subsection \<open>Requests, and what they keep\<close>

datatype limits_request =
    Create_Quota admin_env uuid quota_create
  | Update_Quota admin_env uuid uuid "string option" "int option"
  | Delete_Quota admin_env uuid uuid
  | Create_Bypass admin_env uuid string
  | Delete_Bypass admin_env uuid uuid
  | Create_Ou admin_env uuid string
  | Delete_Ou admin_env uuid uuid

fun request_env :: "limits_request \<Rightarrow> admin_env" where
  "request_env (Create_Quota av pid payload) = av"
| "request_env (Update_Quota av pid i period limit) = av"
| "request_env (Delete_Quota av pid i) = av"
| "request_env (Create_Bypass av pid typed) = av"
| "request_env (Delete_Bypass av pid i) = av"
| "request_env (Create_Ou av pid typed) = av"
| "request_env (Delete_Ou av pid i) = av"

fun limits_step :: "limits_request \<Rightarrow> limits_db \<Rightarrow> limits_db" where
  "limits_step (Create_Quota av pid payload) db = snd (create_printer_quota av pid payload db)"
| "limits_step (Update_Quota av pid i period limit) db = snd (update_printer_quota av pid i period limit db)"
| "limits_step (Delete_Quota av pid i) db = snd (delete_printer_quota av pid i db)"
| "limits_step (Create_Bypass av pid typed) db = snd (create_printer_release_bypass av pid typed db)"
| "limits_step (Delete_Bypass av pid i) db = snd (delete_printer_release_bypass av pid i db)"
| "limits_step (Create_Ou av pid typed) db = snd (create_printer_allowed_ou av pid typed db)"
| "limits_step (Delete_Ou av pid i) db = snd (delete_printer_allowed_ou av pid i db)"

text \<open>
  The states the requests reach from empty tables, with whatever else happens to the rest of the
  database in between.  New rows get new ids, and a printer never turns into a virtual one
  (nothing writes \<open>is_virtual\<close>).
\<close>

inductive limits_reach :: "(string \<Rightarrow> string) \<Rightarrow> limits_db \<Rightarrow> bool" for lower where
  fresh: "ld_quotas db = [] \<Longrightarrow> ld_bypasses db = [] \<Longrightarrow> limits_reach lower db"
| request: "limits_reach lower db \<Longrightarrow> av_lower (request_env r) = lower \<Longrightarrow>
    av_row_id (request_env r) \<notin> qr_id ` set (ld_quotas db) \<Longrightarrow> limits_reach lower (limits_step r db)"
| elsewhere: "limits_reach lower db \<Longrightarrow> ld_quotas db' = ld_quotas db \<Longrightarrow> ld_bypasses db' = ld_bypasses db \<Longrightarrow>
    (\<And>pid p. get_printer_or_404 pid db' = Inr p \<Longrightarrow> printer_is_virtual p \<Longrightarrow> pid \<in> rb_printer_id ` set (ld_bypasses db) \<Longrightarrow>
       \<exists>old. get_printer_or_404 pid db = Inr old \<and> printer_is_virtual old) \<Longrightarrow>
    limits_reach lower db'"

definition quota_key :: "quota_row \<Rightarrow> uuid \<times> string option" where
  "quota_key q = (uq_printer_id q, uq_user_email q)"

definition quota_ok :: "(string \<Rightarrow> string) \<Rightarrow> quota_row \<Rightarrow> bool" where
  "quota_ok lower q \<longleftrightarrow> uq_period q \<in> set QUOTA_PERIODS \<and>
     (case uq_page_limit q of None \<Rightarrow> uq_user_email q \<noteq> None | Some n \<Rightarrow> 1 \<le> n) \<and>
     (case uq_user_email q of None \<Rightarrow> True | Some u \<Rightarrow> u \<in> range lower)"

definition bypass_ok :: "(string \<Rightarrow> string) \<Rightarrow> limits_db \<Rightarrow> bypass_row \<Rightarrow> bool" where
  "bypass_ok lower db b \<longleftrightarrow> rb_user_email b \<in> range lower \<and>
     (\<forall>p. get_printer_or_404 (rb_printer_id b) db = Inr p \<longrightarrow> \<not> printer_is_virtual p)"

definition limits_ok :: "(string \<Rightarrow> string) \<Rightarrow> limits_db \<Rightarrow> bool" where
  "limits_ok lower db \<longleftrightarrow>
     distinct (map quota_key (ld_quotas db)) \<and> distinct (map qr_id (ld_quotas db)) \<and>
     (\<forall>q \<in> set (ld_quotas db). quota_ok lower q) \<and> (\<forall>b \<in> set (ld_bypasses db). bypass_ok lower db b)"

lemma staged_tables [simp]:
  "ld_printers (staged av en db) = ld_printers db" "ld_users (staged av en db) = ld_users db"
  "ld_quotas (staged av en db) = ld_quotas db" "ld_bypasses (staged av en db) = ld_bypasses db"
  "ld_ous (staged av en db) = ld_ous db" "ld_jobs (staged av en db) = ld_jobs db"
  by (simp_all add: staged_def)

lemma bypass_ok_cong: "ld_printers db' = ld_printers db \<Longrightarrow> bypass_ok lower db' b = bypass_ok lower db b"
  by (simp add: bypass_ok_def get_printer_or_404_def)

lemma limits_ok_staged [simp]: "limits_ok lower (staged av en db) = limits_ok lower db"
  by (simp add: limits_ok_def bypass_ok_def get_printer_or_404_def)

lemma scalar_None: "scalar_one_or_none xs = Inr None \<longleftrightarrow> xs = []"
  by (auto simp: scalar_one_or_none_def split: list.splits)

lemma scalar_Some: "scalar_one_or_none xs = Inr (Some x) \<longleftrightarrow> xs = [x]"
  by (auto simp: scalar_one_or_none_def split: list.splits)

lemma create_quota_cases:
  obtains "snd (create_printer_quota av pid payload db) = db"
  | q where "qr_id q = av_row_id av" "quota_ok (av_lower av) q"
      "quota_key q \<notin> quota_key ` set (ld_quotas db)"
      "ld_quotas (snd (create_printer_quota av pid payload db)) = ld_quotas db @ [q]"
      "ld_bypasses (snd (create_printer_quota av pid payload db)) = ld_bypasses db"
      "ld_printers (snd (create_printer_quota av pid payload db)) = ld_printers db"
proof (cases "snd (create_printer_quota av pid payload db) = db")
  case False
  define email where "email = (if truthy (qc_user_email payload)
    then Some (av_lower av (py_strip (the (qc_user_email payload)))) else None)"
  define q where "q = \<lparr>uq_printer_id = pid, uq_user_email = email, uq_period = qc_period payload,
    uq_page_limit = qc_page_limit payload, qr_id = av_row_id av\<rparr>"
  define hits where "hits = scalar_one_or_none (filter (\<lambda>q. uq_printer_id q = pid \<and> uq_user_email q = email) (ld_quotas db))"
  define ros where "ros = (case email of None \<Rightarrow> Inr () | Some u \<Rightarrow> on_roster av u (the (qc_user_email payload)) db)"
  note run = create_printer_quota_def[of av pid payload db, unfolded Let_def, folded email_def, folded hits_def ros_def]
  have period: "qc_period payload \<in> set QUOTA_PERIODS" using False by (rule_tac ccontr) (simp add: run)
  obtain p where p: "get_printer_or_404 pid db = Inr p"
    using False period by (cases "get_printer_or_404 pid db") (simp_all add: run)
  have sense: "quota_makes_sense p email (qc_page_limit payload) = Inr ()"
    using False period p by (cases "quota_makes_sense p email (qc_page_limit payload)") (simp_all add: run)
  have roster: "ros = Inr ()" using False period p sense by (cases ros) (simp_all add: run)
  have hits: "hits = Inr None"
    using False period p sense roster by (cases hits; cases "projr hits") (simp_all add: run)
  then have new: "filter (\<lambda>q. uq_printer_id q = pid \<and> uq_user_email q = email) (ld_quotas db) = []"
    by (simp add: hits_def scalar_None)
  have "ld_quotas (snd (create_printer_quota av pid payload db)) = ld_quotas db @ [q]"
    "ld_bypasses (snd (create_printer_quota av pid payload db)) = ld_bypasses db"
    "ld_printers (snd (create_printer_quota av pid payload db)) = ld_printers db"
    using period p sense hits roster by (simp_all add: run q_def)
  with new sense period show ?thesis
    by (intro that(2)[of q]) (auto simp: q_def quota_ok_def quota_key_def email_def quota_makes_sense_def filter_empty_conv
        split: option.splits if_splits)
qed (rule that(1))

lemma create_quota_ok:
  assumes "limits_ok (av_lower av) db" "av_row_id av \<notin> qr_id ` set (ld_quotas db)"
  shows "limits_ok (av_lower av) (snd (create_printer_quota av pid payload db))"
  by (rule create_quota_cases[of av pid payload db]) (use assms in \<open>auto simp: limits_ok_def bypass_ok_cong[of "snd (create_printer_quota av pid payload db)" db]\<close>)

lemma find_quota_Inr:
  "find_quota pid i db = Inr q \<Longrightarrow> q \<in> set (ld_quotas db) \<and> qr_id q = i \<and> uq_printer_id q = pid"
  by (auto simp: find_quota_def find_Some_iff split: option.splits if_splits)

lemma write_back_single: "write_back ident [c] rows = map (\<lambda>r. if ident c = ident r then c else r) rows"
  by (simp add: write_back_def)

lemma update_quota_ok:
  assumes ok: "limits_ok lower db"
  shows "limits_ok lower (snd (update_printer_quota av pid i period limit db))"
proof (cases "find_quota pid i db")
  case (Inr old)
  note old = find_quota_Inr[OF this]
  define q where "q = old\<lparr>uq_period := (case period of None \<Rightarrow> uq_period old | Some s \<Rightarrow> s),
    uq_page_limit := (case limit of None \<Rightarrow> uq_page_limit old | Some n \<Rightarrow> Some n)\<rparr>"
  show ?thesis
  proof (cases "snd (update_printer_quota av pid i period limit db) = db")
    case False
    then have sense: "period = None \<or> (\<exists>s. period = Some s \<and> s \<in> set QUOTA_PERIODS)" "limit = None \<or> (\<exists>n \<ge> 1. limit = Some n)"
      by (auto simp: update_printer_quota_def Inr simp del: set_simps split: option.splits if_splits sum.splits)
    have after: "ld_quotas (snd (update_printer_quota av pid i period limit db)) = write_back qr_id [q] (ld_quotas db)"
      "ld_bypasses (snd (update_printer_quota av pid i period limit db)) = ld_bypasses db"
      "ld_printers (snd (update_printer_quota av pid i period limit db)) = ld_printers db"
      using False by (auto simp: update_printer_quota_def Inr Let_def q_def split: option.splits if_splits sum.splits)
    have keys: "map qr_id (write_back qr_id [q] (ld_quotas db)) = map qr_id (ld_quotas db)"
      "map quota_key (write_back qr_id [q] (ld_quotas db)) = map quota_key (ld_quotas db)"
      using ok old by (auto simp: write_back_single q_def quota_key_def limits_ok_def distinct_map dest: inj_onD)
    have "quota_ok lower old" using ok old by (simp add: limits_ok_def)
    then have "quota_ok lower q" using sense by (auto simp: quota_ok_def q_def split: option.splits)
    then show ?thesis
      using ok by (simp add: limits_ok_def after keys bypass_ok_cong[OF after(3)]) (auto simp: write_back_single)
  qed (simp add: ok)
qed (use ok in \<open>auto simp: update_printer_quota_def split: sum.splits\<close>)

lemma delete_quota_ok: "limits_ok lower db \<Longrightarrow> limits_ok lower (snd (delete_printer_quota av pid i db))"
  by (simp add: delete_printer_quota_def Let_def split: sum.splits)
     (auto simp: limits_ok_def bypass_ok_def get_printer_or_404_def distinct_map_filter)

lemma delete_bypass_ok: "limits_ok lower db \<Longrightarrow> limits_ok lower (snd (delete_printer_release_bypass av pid i db))"
  by (simp add: delete_printer_release_bypass_def Let_def split: option.splits)
     (auto simp: limits_ok_def bypass_ok_def get_printer_or_404_def)

lemma create_bypass_ok:
  assumes "limits_ok (av_lower av) db"
  shows "limits_ok (av_lower av) (snd (create_printer_release_bypass av pid typed db))"
proof (cases "get_printer_or_404 pid db")
  case (Inr p)
  then show ?thesis using assms
    by (simp add: create_printer_release_bypass_def Let_def split: sum.splits option.splits)
       (auto simp: limits_ok_def bypass_ok_def get_printer_or_404_def)
qed (use assms in \<open>simp add: create_printer_release_bypass_def\<close>)

lemma create_ou_ok: "limits_ok lower db \<Longrightarrow> limits_ok lower (snd (create_printer_allowed_ou av pid typed db))"
  by (simp add: create_printer_allowed_ou_def Let_def split: sum.splits option.splits)
     (auto simp: limits_ok_def bypass_ok_def get_printer_or_404_def)

lemma delete_ou_ok: "limits_ok lower db \<Longrightarrow> limits_ok lower (snd (delete_printer_allowed_ou av pid i db))"
  by (simp add: delete_printer_allowed_ou_def Let_def split: option.splits)
     (auto simp: limits_ok_def bypass_ok_def get_printer_or_404_def)

lemma limits_step_ok:
  "limits_ok lower db \<Longrightarrow> av_lower (request_env r) = lower \<Longrightarrow>
   av_row_id (request_env r) \<notin> qr_id ` set (ld_quotas db) \<Longrightarrow> limits_ok lower (limits_step r db)"
  by (cases r) (auto intro: create_quota_ok update_quota_ok delete_quota_ok create_bypass_ok delete_bypass_ok
      create_ou_ok delete_ou_ok)

lemma limits_reach_ok: "limits_reach lower db \<Longrightarrow> limits_ok lower db"
proof (induction rule: limits_reach.induct)
  case (request db r)
  then show ?case by (intro limits_step_ok)
next
  case (elsewhere db db')
  have "\<not> printer_is_virtual p"
    if "b \<in> set (ld_bypasses db)" "get_printer_or_404 (rb_printer_id b) db' = Inr p" for b p
    using elsewhere.hyps(4)[OF that(2)] elsewhere.IH that by (auto simp: limits_ok_def bypass_ok_def)
  with elsewhere.IH elsewhere.hyps(2,3) show ?case by (auto simp: limits_ok_def bypass_ok_def)
qed (simp add: limits_ok_def)

subsection \<open>The limit a person is under\<close>

definition limit_for :: "limits_db \<Rightarrow> printer \<Rightarrow> string \<Rightarrow> int option" where
  "limit_for db p u =
     (case get_effective_quota (map user_quota.truncate (ld_quotas db)) p (Some u) of
        None \<Rightarrow> None | Some q \<Rightarrow> uq_page_limit q)"

definition row_for :: "limits_db \<Rightarrow> uuid \<Rightarrow> string option \<Rightarrow> quota_row option" where
  "row_for db pid email = find (\<lambda>q. quota_key q = (pid, email)) (ld_quotas db)"

lemma truncated_quota [simp]:
  "uq_printer_id (user_quota.truncate q) = uq_printer_id q" "uq_user_email (user_quota.truncate q) = uq_user_email q"
  "uq_page_limit (user_quota.truncate q) = uq_page_limit q" "uq_period (user_quota.truncate q) = uq_period q"
  by (simp_all add: user_quota.truncate_def)

lemma find_map: "find P (map f xs) = map_option f (find (\<lambda>x. P (f x)) xs)"
  by (induction xs) auto

lemma limit_for_rows:
  "limit_for db p u =
     (let own = row_for db (printer_id p) (Some u); all = row_for db (printer_id p) None
      in if printer_quota_mode p = ''exclude''
         then (if own = None then Option.bind all uq_page_limit else None) else Option.bind own uq_page_limit)"
  by (simp add: limit_for_def get_effective_quota_def get_user_quota_def get_blanket_quota_def find_map row_for_def
      quota_key_def comp_def split: option.splits)

lemma row_for_member:
  assumes "limits_ok lower db" "q \<in> set (ld_quotas db)"
  shows "row_for db (uq_printer_id q) (uq_user_email q) = Some q"
proof -
  have "\<exists>r. row_for db (uq_printer_id q) (uq_user_email q) = Some r"
    using assms(2) by (auto simp: row_for_def find_None_iff quota_key_def simp flip: not_None_eq)
  then obtain r where r: "row_for db (uq_printer_id q) (uq_user_email q) = Some r" by blast
  then have "r \<in> set (ld_quotas db)" "quota_key r = quota_key q"
    by (auto simp: row_for_def quota_key_def find_Some_iff)
  with assms have "r = q" by (auto simp: limits_ok_def distinct_map dest: inj_onD)
  with r show ?thesis by simp
qed

lemma delete_quota_rows:
  assumes "limits_ok lower db" "q \<in> set (ld_quotas db)"
  shows "ld_quotas (snd (delete_printer_quota av (uq_printer_id q) (qr_id q) db)) = filter (\<lambda>r. r \<noteq> q) (ld_quotas db)"
proof -
  have same: "qr_id r = qr_id q \<longleftrightarrow> r = q" if "r \<in> set (ld_quotas db)" for r
    using assms that by (auto simp: limits_ok_def distinct_map dest: inj_onD)
  have "\<exists>r. find (\<lambda>r. qr_id r = qr_id q) (ld_quotas db) = Some r"
    using assms(2) by (auto simp: find_None_iff simp flip: not_None_eq)
  then obtain r where r: "find (\<lambda>r. qr_id r = qr_id q) (ld_quotas db) = Some r" by blast
  then have "r \<in> set (ld_quotas db)" "qr_id r = qr_id q" by (auto simp: find_Some_iff)
  then have "r = q" using same by blast
  then show ?thesis
    using r same by (auto simp: delete_printer_quota_def find_quota_def Let_def intro: filter_cong)
qed

lemma find_in_filter: "find P (filter Q xs) = find (\<lambda>x. Q x \<and> P x) xs"
  by (induction xs) auto

lemma row_for_deleted:
  assumes "limits_ok lower db" "q \<in> set (ld_quotas db)"
  shows "row_for (snd (delete_printer_quota av (uq_printer_id q) (qr_id q) db)) pid email =
    (if quota_key q = (pid, email) then None else row_for db pid email)"
proof (cases "quota_key q = (pid, email)")
  case True
  have "r = q" if "r \<in> set (ld_quotas db)" "quota_key r = (pid, email)" for r
    using assms that True by (auto simp: limits_ok_def distinct_map intro: inj_onD[of quota_key])
  with True show ?thesis
    by (auto simp: row_for_def delete_quota_rows[OF assms] find_in_filter find_None_iff)
next
  case False
  then have "(\<lambda>r. r \<noteq> q \<and> quota_key r = (pid, email)) = (\<lambda>r. quota_key r = (pid, email))" by auto
  with False show ?thesis by (simp add: row_for_def delete_quota_rows[OF assms] find_in_filter)
qed

lemma all_or_error_Inr: "all_or_error xs = Inr ys \<Longrightarrow> xs = map Inr ys"
proof (induction xs arbitrary: ys rule: all_or_error.induct)
  case (3 x xs)
  then show ?case by (cases "all_or_error xs") auto
qed auto

lemma somebody_without_a_row: "\<exists>u. row_for db pid (Some u) = None"
proof -
  have "finite (uq_user_email ` set (ld_quotas db))" by simp
  moreover have "infinite (range (Some :: string \<Rightarrow> string option))"
    by (simp add: finite_image_iff inj_Some infinite_UNIV_listI)
  ultimately obtain u where "Some u \<notin> uq_user_email ` set (ld_quotas db)"
    by (metis finite_subset image_subsetI)
  then have "quota_key q \<noteq> (pid, Some u)" if "q \<in> set (ld_quotas db)" for q
    using that by (auto simp: quota_key_def image_iff)
  then show ?thesis by (intro exI[of _ u]) (simp add: row_for_def find_None_iff)
qed

lemma removing_matters:
  assumes ok: "limits_ok lower db" and q: "q \<in> set (ld_quotas db)" and pid: "printer_id p = uq_printer_id q"
  shows "(\<exists>u. limit_for (snd (delete_printer_quota av (uq_printer_id q) (qr_id q) db)) p u \<noteq> limit_for db p u) \<longleftrightarrow>
    (if printer_quota_mode p = ''exclude'' then uq_user_email q = None \<or> row_for db (uq_printer_id q) None \<noteq> None
     else uq_user_email q \<noteq> None \<and> uq_page_limit q \<noteq> None)"
    (is "?matters \<longleftrightarrow> ?active")
proof -
  define pid where "pid = uq_printer_id q"
  have p: "printer_id p = pid" using pid by (simp add: pid_def)
  note fold = pid_def[symmetric]
  define db' where "db' = snd (delete_printer_quota av (uq_printer_id q) (qr_id q) db)"
  have self: "row_for db pid (uq_user_email q) = Some q" using row_for_member[OF ok q] by (simp add: pid_def)
  have gone: "row_for db' pid email = (if uq_user_email q = email then None else row_for db pid email)" for email
    using row_for_deleted[OF ok q, of av pid email] by (simp add: db'_def quota_key_def pid_def)
  have limited: "uq_user_email r = None \<Longrightarrow> r \<in> set (ld_quotas db) \<Longrightarrow> \<exists>n. uq_page_limit r = Some n" for r
    using ok by (force simp: limits_ok_def quota_ok_def split: option.splits)
  have "(\<exists>u. limit_for db' p u \<noteq> limit_for db p u) \<longleftrightarrow> ?active"
  proof (cases "uq_user_email q")
    case None
    then obtain n where n: "uq_page_limit q = Some n" using limited q by blast
    obtain u where "row_for db pid (Some u) = None" using somebody_without_a_row by blast
    then show ?thesis using None n self gone by (auto simp: limit_for_rows p Let_def fold intro!: exI[of _ u])
  next
    case (Some w)
    have "limit_for db' p u = limit_for db p u" if "u \<noteq> w" for u
      using that Some by (simp add: limit_for_rows p Let_def gone)
    then have "(\<exists>u. limit_for db' p u \<noteq> limit_for db p u) \<longleftrightarrow> limit_for db' p w \<noteq> limit_for db p w" by metis
    also have "\<dots> \<longleftrightarrow> ?active"
    proof (cases "row_for db pid None")
      case None
      then show ?thesis using Some self gone by (cases "uq_page_limit q") (auto simp: limit_for_rows p Let_def fold)
    next
      case (Some r)
      then have "r \<in> set (ld_quotas db)" "uq_user_email r = None"
        by (auto simp: row_for_def find_Some_iff quota_key_def)
      then obtain n where "uq_page_limit r = Some n" using limited by blast
      then show ?thesis using Some \<open>uq_user_email q = Some w\<close> self gone
        by (cases "uq_page_limit q") (auto simp: limit_for_rows p Let_def fold)
    qed
    finally show ?thesis .
  qed
  then show ?thesis by (simp add: db'_def pid_def)
qed

text \<open>
  C10: On every state the quota requests can reach, the quota card of a printer shows a row as
  active exactly when removing it would change the limit some person is under: a blanket row of a
  printer in include mode, an exemption kept from exclude mode, an exemption with nothing to be
  exempt from are the rows shown as inactive.
\<close>

theorem a_quota_is_active_iff_removing_it_matters:
  assumes reach: "limits_reach lower db"
    and p: "get_printer_or_404 pid db = Inr p"
    and listed: "list_printer_quotas av pid db = Inr outs" "out \<in> set outs"
  shows "qo_active out \<longleftrightarrow>
    (\<exists>u. limit_for (snd (delete_printer_quota av pid (qr_id (qo_row out)) db)) p u \<noteq> limit_for db p u)"
proof -
  note ok = limits_reach_ok[OF reach]
  have pid: "printer_id p = pid" using p by (auto simp: get_printer_or_404_def find_Some_iff split: option.splits)
  have rows: "set (quotas_of pid db) = {q \<in> set (ld_quotas db). uq_printer_id q = pid}"
    by (auto simp: quotas_of_def)
  have "list_ex (\<lambda>q. uq_user_email q = None) (quotas_of pid db) \<longleftrightarrow>
      (\<exists>q \<in> set (ld_quotas db). uq_printer_id q = pid \<and> uq_user_email q = None)"
    by (auto simp: list_ex_iff rows)
  then have blanket: "list_ex (\<lambda>q. uq_user_email q = None) (quotas_of pid db) \<longleftrightarrow> row_for db pid None \<noteq> None"
    by (auto simp: row_for_def find_None_iff quota_key_def simp flip: not_None_eq)
  define card where "card = (\<lambda>q. quota_out_of av db q (printer_quota_mode p)
    (if printer_quota_mode p = ''exclude'' \<and> uq_user_email q \<noteq> None \<and> row_for db pid None = None then Some False else None))"
  have "map card (quotas_of pid db) = map Inr outs"
    using listed(1) by (simp add: list_printer_quotas_def p Let_def blanket card_def all_or_error_Inr)
  then have "Inr out \<in> card ` set (quotas_of pid db)" using listed(2) by (metis image_eqI list.set_map)
  then obtain q where q: "q \<in> set (ld_quotas db)" "uq_printer_id q = pid" "card q = Inr out"
    by (auto simp: rows)
  then have out: "qo_row out = q" and active: "qo_active out \<longleftrightarrow>
      (if printer_quota_mode p = ''exclude'' then uq_user_email q = None \<or> row_for db pid None \<noteq> None
       else uq_user_email q \<noteq> None \<and> uq_page_limit q \<noteq> None)"
    by (auto simp: card_def quota_out_of_def quota_is_active_def split: sum.splits if_splits prod.splits)
  show ?thesis using removing_matters[OF ok q(1), of p av] by (simp add: out active pid q(2))
qed

subsection \<open>Who the limits reach\<close>

text \<open>The tables as the decision on a new job reads them (see \<open>Quotas\<close>).\<close>

definition quota_view :: "bool \<Rightarrow> notification_settings \<Rightarrow> notify_db \<Rightarrow> limits_db \<Rightarrow> quota_db" where
  "quota_view enabled ns notify db =
     \<lparr>qd_enabled = enabled, qd_quotas = map user_quota.truncate (ld_quotas db),
      qd_bypasses = map (\<lambda>b. (rb_printer_id b, rb_user_email b)) (ld_bypasses db), qd_jobs = ld_jobs db,
      qd_notification_settings = ns, qd_notify = notify\<rparr>"

lemma no_row_with_capitals:
  assumes "limits_ok lower db" "\<And>s. lower (lower s) = lower s" "lower u \<noteq> u"
  shows "row_for db pid (Some u) = None" "(pid, u) \<notin> (\<lambda>b. (rb_printer_id b, rb_user_email b)) ` set (ld_bypasses db)"
proof -
  have "u \<notin> range lower" using assms(2,3) by force
  then show "row_for db pid (Some u) = None"
    using assms(1) by (fastforce simp: row_for_def find_None_iff quota_key_def limits_ok_def quota_ok_def)
  show "(pid, u) \<notin> (\<lambda>b. (rb_printer_id b, rb_user_email b)) ` set (ld_bypasses db)"
    using assms(1) \<open>u \<notin> range lower\<close> by (auto simp: limits_ok_def bypass_ok_def)
qed

text \<open>
  C11: Nobody's quota holds a job sent under their own address with one letter in capitals.  The
  address a client states is kept as it was typed when it is nobody's alias, the quota rows hold
  lower-cased addresses, and the two are compared as they are: on a printer in include mode such a
  job is never held for a quota, whatever rows the requests have made, and no release bypass
  applies to it either.
\<close>

theorem capitals_escape_the_quota:
  assumes "limits_reach lower db" and "\<And>s. lower (lower s) = lower s" and "lower u \<noteq> u"
    and "looks_like_email u" "clean_cups_user w (Some u) = Some u" "find_attribution_alias w (ad_aliases ad) u = None"
    and "printer_quota_mode p = ''include''"
  shows "resolve_user w ad (Some u) host = Inr (u, ''cups'', None) \<and>
    (\<forall>enabled ns notify now eid hold.
       resolve_hold_reason (quota_view enabled ns notify db) p (Some u) now eid \<noteq> Inr (Some ''quota'', hold)) \<and>
    \<not> has_release_bypass (qd_bypasses (quota_view enabled' ns' notify' db)) (printer_id p) u"
proof (intro conjI allI)
  note none = no_row_with_capitals[OF limits_reach_ok[OF assms(1)] assms(2,3)]
  show "resolve_user w ad (Some u) host = Inr (u, ''cups'', None)" using assms(4,5,6) by (simp add: resolve_user_def)
  have "get_effective_quota (map user_quota.truncate (ld_quotas db)) p (Some u) = None"
    using assms(7) none(1)[of "printer_id p"]
    by (simp add: get_effective_quota_def get_user_quota_def find_map row_for_def quota_key_def)
  then show "resolve_hold_reason (quota_view enabled ns notify db) p (Some u) now eid \<noteq> Inr (Some ''quota'', hold)"
    for enabled ns notify now eid hold by (simp add: resolve_hold_reason_def quota_view_def)
  show "\<not> has_release_bypass (qd_bypasses (quota_view enabled' ns' notify' db)) (printer_id p) u"
    using none(2)[of "printer_id p"] by (simp add: has_release_bypass_def quota_view_def)
qed

text \<open>
  A virtual queue holds every job.  No request gives anybody a release bypass on one, so as long as it is a follow-me queue
  the decision on a new job is \<open>follow_me\<close>, whoever sends it, whatever quotas there are.
\<close>

theorem a_virtual_queue_holds_every_job:
  assumes "limits_reach lower db" and "get_printer_or_404 pid db = Inr p"
    and "printer_is_virtual p" "printer_follow_me_enabled p"
  shows "resolve_hold_reason (quota_view enabled ns notify db) p submitted_by now eid = Inr (Some ''follow_me'', notify)"
proof -
  have "printer_id p = pid" using assms(2) by (auto simp: get_printer_or_404_def find_Some_iff split: option.splits)
  then have "(printer_id p, u) \<notin> (\<lambda>b. (rb_printer_id b, rb_user_email b)) ` set (ld_bypasses db)" for u
    using limits_reach_ok[OF assms(1)] assms(2,3) by (auto simp: limits_ok_def bypass_ok_def)
  then show ?thesis
    using assms(4) by (auto simp: resolve_hold_reason_def quota_view_def has_release_bypass_def split: option.splits)
qed

text \<open>
  C31: Allowing an organisational unit on a printer works exactly when one single person of the
  roster sits directly in it: a unit of nobody (such as one with people only in units below it)
  is refused, and a unit of two or more is an internal error, because the check takes the people
  it finds to be at most one.  Nothing changes in either case.
\<close>

theorem only_a_unit_of_one_can_be_allowed:
  assumes "get_printer_or_404 pid db = Inr p"
    and "py_strip typed \<notin> ao_ou_path ` set (filter (\<lambda>a. ao_printer_id a = pid) (ld_ous db))"
  defines "people \<equiv> filter (\<lambda>u. ru_org_unit_path u = Some (py_strip typed)) (ld_users db)"
  shows "(length people = 1 \<longrightarrow> (\<exists>a. fst (create_printer_allowed_ou av pid typed db) = Inr a \<and>
      ao_ou_path a = py_strip typed \<and> ld_ous (snd (create_printer_allowed_ou av pid typed db)) = ld_ous db @ [a])) \<and>
    (length people = 0 \<longrightarrow> (\<exists>detail. create_printer_allowed_ou av pid typed db = (Inl (Http 400 detail), db))) \<and>
    (2 \<le> length people \<longrightarrow> create_printer_allowed_ou av pid typed db = (Inl ServerError, db))"
proof -
  have "filter (\<lambda>a. ao_printer_id a = pid \<and> ao_ou_path a = py_strip typed) (ld_ous db) = []"
    using assms(2) by (fastforce simp: filter_empty_conv image_iff)
  then show ?thesis
    using assms(1) by (cases people; cases "tl people")
      (auto simp: create_printer_allowed_ou_def people_def[symmetric] Let_def scalar_one_or_none_def)
qed

subsection \<open>A small office\<close>

definition office_env :: "uuid \<Rightarrow> admin_env" where
  "office_env i =
     \<lparr>av_lower = map ascii_lower, av_sql_lower = map ascii_lower, av_now = days 738000, av_row_id = i, av_event_id = ''e'' @ i,
      av_actor = example_admin, av_ip = None\<rparr>"

definition office :: limits_db where
  "office =
     \<lparr>ld_printers = [(printer_defaults ''p'' ''Office'')\<lparr>printer_quota_mode := ''exclude''\<rparr>, printer_defaults ''r'' ''Room 2'',
        (printer_defaults ''v'' ''Follow me'')\<lparr>printer_is_virtual := True, printer_follow_me_enabled := True\<rparr>],
      ld_users = [\<lparr>ru_email = ''ann@x.org'', ru_name = None, ru_org_unit_path = Some ''/Staff''\<rparr>,
        \<lparr>ru_email = ''bob@x.org'', ru_name = None, ru_org_unit_path = Some ''/Staff''\<rparr>,
        \<lparr>ru_email = ''cy@x.org'', ru_name = None, ru_org_unit_path = Some ''/Board''\<rparr>],
      ld_quotas = [], ld_bypasses = [], ld_ous = [], ld_jobs = [], ld_trail = []\<rparr>"

definition limit_of_ann :: limits_request where
  "limit_of_ann = Create_Quota (office_env ''1'') ''r''
     \<lparr>qc_user_email = Some '' Ann@x.org'', qc_period = ''daily'', qc_page_limit = Some 1\<rparr>"

definition exempt_bob :: limits_request where
  "exempt_bob = Create_Quota (office_env ''2'') ''p'' \<lparr>qc_user_email = Some ''bob@x.org'', qc_period = ''daily'', qc_page_limit = None\<rparr>"

definition limited_office :: limits_db where
  "limited_office = limits_step exempt_bob (limits_step limit_of_ann office)"

lemma limited_office_reach: "limits_reach (map ascii_lower) limited_office"
proof -
  have "limits_reach (map ascii_lower) office" by (rule limits_reach.fresh) code_simp+
  then have "limits_reach (map ascii_lower) (limits_step limit_of_ann office)"
    by (rule limits_reach.request) (simp add: limit_of_ann_def office_env_def, code_simp)
  then show ?thesis unfolding limited_office_def
    by (rule limits_reach.request) (simp add: exempt_bob_def office_env_def, code_simp)
qed

lemma ascii_lower_twice: "map ascii_lower (map ascii_lower s) = map ascii_lower s"
  by (simp add: ascii_lower_def Let_def)

text \<open>
  The answer to creating an exemption on a printer without a blanket row says that it is
  active, and the list read right after says that it is not.
\<close>

theorem a_new_exemption_says_it_works:
  "map_sum id qo_active (fst (create_printer_quota (office_env ''2'') ''p''
       \<lparr>qc_user_email = Some ''bob@x.org'', qc_period = ''daily'', qc_page_limit = None\<rparr> office)) = Inr True \<and>
   map_sum id (map qo_active) (list_printer_quotas (office_env ''3'') ''p''
     (snd (create_printer_quota (office_env ''2'') ''p''
       \<lparr>qc_user_email = Some ''bob@x.org'', qc_period = ''daily'', qc_page_limit = None\<rparr> office))) = Inr [False]"
  by (intro conjI; code_simp)

theorem a_quota_is_active_iff_removing_it_matters_witness:
  "\<exists>u. limit_for (snd (delete_printer_quota (office_env ''3'') ''r'' ''1'' limited_office)) (printer_defaults ''r'' ''Room 2'') u \<noteq>
     limit_for limited_office (printer_defaults ''r'' ''Room 2'') u"
proof -
  define out where "out = hd (projr (list_printer_quotas (office_env ''3'') ''r'' limited_office))"
  have out: "qo_active out" "qr_id (qo_row out) = ''1''" unfolding out_def by code_simp+
  have listed: "list_printer_quotas (office_env ''3'') ''r'' limited_office = Inr [out]" unfolding out_def by code_simp
  have p: "get_printer_or_404 ''r'' limited_office = Inr (printer_defaults ''r'' ''Room 2'')" by code_simp
  show ?thesis
    using a_quota_is_active_iff_removing_it_matters[OF limited_office_reach p listed, of out] out by simp
qed

theorem capitals_escape_the_quota_witness:
  "resolve_user (example_world\<lparr>ow_py_lower := map ascii_lower\<rparr>) example_attribution (Some ''Ann@x.org'') None =
     Inr (''Ann@x.org'', ''cups'', None) \<and> limit_for limited_office (printer_defaults ''r'' ''Room 2'') ''ann@x.org'' = Some 1"
proof
  have "map ascii_lower ''Ann@x.org'' \<noteq> ''Ann@x.org''" "looks_like_email ''Ann@x.org''"
    "clean_cups_user (example_world\<lparr>ow_py_lower := map ascii_lower\<rparr>) (Some ''Ann@x.org'') = Some ''Ann@x.org''"
    "find_attribution_alias (example_world\<lparr>ow_py_lower := map ascii_lower\<rparr>) (ad_aliases example_attribution) ''Ann@x.org'' = None"
    "printer_quota_mode (printer_defaults ''r'' ''Room 2'') = ''include''"
    by code_simp+
  from capitals_escape_the_quota[OF limited_office_reach ascii_lower_twice this]
  show "resolve_user (example_world\<lparr>ow_py_lower := map ascii_lower\<rparr>) example_attribution (Some ''Ann@x.org'') None =
     Inr (''Ann@x.org'', ''cups'', None)" by blast
qed code_simp

theorem a_virtual_queue_holds_every_job_witness:
  "resolve_hold_reason (quota_view True all_on \<lparr>nd_states = [], nd_events = []\<rparr> limited_office)
     ((printer_defaults ''v'' ''Follow me'')\<lparr>printer_is_virtual := True, printer_follow_me_enabled := True\<rparr>)
     (Some ''ann@x.org'') 0 ''e'' = Inr (Some ''follow_me'', \<lparr>nd_states = [], nd_events = []\<rparr>)"
  by (rule a_virtual_queue_holds_every_job[OF limited_office_reach, of "''v''"]) code_simp+

theorem only_a_unit_of_one_can_be_allowed_witness:
  "create_printer_allowed_ou (office_env ''4'') ''p'' ''/Staff'' office = (Inl ServerError, office)"
proof -
  have "get_printer_or_404 ''p'' office = Inr (hd (ld_printers office))"
    "py_strip ''/Staff'' \<notin> ao_ou_path ` set (filter (\<lambda>a. ao_printer_id a = ''p'') (ld_ous office))"
    "2 \<le> int (length (filter (\<lambda>u. ru_org_unit_path u = Some (py_strip ''/Staff'')) (ld_users office)))"
    by code_simp+
  then show ?thesis using only_a_unit_of_one_can_be_allowed[of "''p''" office _ "''/Staff''"] by simp
qed

end
