(* ===== verification/Self_Service.thy ===== *)
theory Self_Service
  imports Printer_Limits Release
begin

section \<open>Printing by upload (app/self_service_print, app/routers/self_service_print.py)\<close>

text \<open>
  Which printers a signed-in person may send a document to, what they may ask for, and the
  submission itself.  The command runner is a parameter, as is the name of the temporary file;
  capabilities are what discovery writes, so the lists in them are lists of texts.
\<close>

definition MAX_UPLOAD_BYTES :: int where
  "MAX_UPLOAD_BYTES = 25 * 1024 * 1024"

subsection \<open>What can be asked for (options.py)\<close>

definition OFFERABLE_FINISHINGS :: "(string, int) dict" where
  "OFFERABLE_FINISHINGS = [(''staple'', 4), (''punch'', 5)]"

definition SIDES_CHOICES :: "(string, string) dict" where
  "SIDES_CHOICES =
     [(''one-sided'', ''One-sided''), (''two-sided-long-edge'', ''Double-sided''),
      (''two-sided-short-edge'', ''Double-sided, flipped on the short edge'')]"

type_synonym capability_map = "(string, json) dict option"

definition reported :: "string \<Rightarrow> capability_map \<Rightarrow> json" where
  "reported key capabilities = (case map_of (list_or_empty capabilities) key of None \<Rightarrow> JNull | Some v \<Rightarrow> v)"

definition among :: "string \<Rightarrow> json \<Rightarrow> bool" where
  "among s v = (case v of JList xs \<Rightarrow> JStr s \<in> set xs | _ \<Rightarrow> False)"

definition offered_finishings :: "capability_map \<Rightarrow> string list" where
  "offered_finishings capabilities =
     filter (\<lambda>name. among name (reported ''finishings'' capabilities)) (map fst OFFERABLE_FINISHINGS)"

definition offered_sides :: "capability_map \<Rightarrow> string list" where
  "offered_sides capabilities =
     (let sides = reported ''sides_supported'' capabilities
      in if sides \<noteq> JNull then filter (\<lambda>side. among side sides) (map fst SIDES_CHOICES)
         else if json_bool (reported ''duplex_supported'' capabilities) then [''two-sided-long-edge''] else [])"

definition supports_duplex :: "capability_map \<Rightarrow> bool" where
  "supports_duplex capabilities \<longleftrightarrow> offered_sides capabilities \<noteq> []"

definition sides_option :: "string \<Rightarrow> capability_map \<Rightarrow> string list" where
  "sides_option sides capabilities =
     (if sides \<noteq> [] \<and> sides \<in> set (map fst SIDES_CHOICES) \<and>
         (sides = ''one-sided'' \<or> sides \<in> set (offered_sides capabilities))
      then [''-o'', ''sides='' @ sides] else [])"

definition finishing_codes :: "string list \<Rightarrow> capability_map \<Rightarrow> int list" where
  "finishing_codes finishings capabilities =
     sort (map (\<lambda>name. the (map_of OFFERABLE_FINISHINGS name))
       (filter (\<lambda>name. name \<in> set (offered_finishings capabilities)) finishings))"

definition lp_options :: "string \<Rightarrow> string list \<Rightarrow> capability_map \<Rightarrow> string list" where
  "lp_options sides finishings capabilities =
     (let codes = finishing_codes finishings capabilities
      in sides_option sides capabilities @
         (if codes \<noteq> [] then [''-o'', ''finishings='' @ py_join '','' (map str_int codes)] else []))"

subsection \<open>Who may print where (service.py)\<close>

definition ous_of :: "uuid \<Rightarrow> limits_db \<Rightarrow> string list" where
  "ous_of pid db = map ao_ou_path (filter (\<lambda>a. ao_printer_id a = pid) (ld_ous db))"

definition open_to :: "string option \<Rightarrow> limits_db \<Rightarrow> printer \<Rightarrow> bool" where
  "open_to user_ou db p \<longleftrightarrow>
     (let ous = ous_of (printer_id p) db
      in ous = [] \<or> (user_ou \<noteq> None \<and> list_ex (org_unit_matches user_ou) ous))"

definition get_allowed_printers_for_user :: "string \<Rightarrow> limits_db \<Rightarrow> http_error + printer list" where
  "get_allowed_printers_for_user email db =
     (case scalar_one_or_none (map ru_org_unit_path (filter (\<lambda>u. ru_email u = email) (ld_users db))) of
        Inl e \<Rightarrow> Inl e
      | Inr row \<Rightarrow>
          Inr (filter (open_to (case row of None \<Rightarrow> None | Some ou \<Rightarrow> ou) db)
            (sort_key printer_name (filter (\<lambda>p. printer_archived_at p = None) (ld_printers db)))))"

definition user_may_print_to :: "uuid \<Rightarrow> string \<Rightarrow> limits_db \<Rightarrow> http_error + bool" where
  "user_may_print_to pid email db =
     map_sum id (list_ex (\<lambda>p. printer_id p = pid)) (get_allowed_printers_for_user email db)"

definition upload_argv :: "uuid \<Rightarrow> string \<Rightarrow> string \<Rightarrow> int \<Rightarrow> string list \<Rightarrow> string \<Rightarrow> string list" where
  "upload_argv pid filename user_email copies options path =
     [''lp'', ''-d'', ''printops-'' @ pid, ''-U'', user_email, ''-t'', filename, ''-n'', str_int copies] @ options @ [path]"

definition submit_uploaded_print_job ::
  "runner \<Rightarrow> string \<Rightarrow> uuid \<Rightarrow> string \<Rightarrow> string \<Rightarrow> int \<Rightarrow> string list \<Rightarrow> release_answer" where
  "submit_uploaded_print_job run path pid filename user_email copies options =
     (case run (upload_argv pid filename user_email copies options path) of
        FileNotFound \<Rightarrow> ReleaseError (''The `lp` command isn'' @ [CHR 0x27] @ ''t available on the PrintOps server.'')
      | TimedOut \<Rightarrow> ReleaseError ''Submitting the print job timed out.''
      | OtherOSError e \<Rightarrow> ReleaseCrash
      | Exited rc out err \<Rightarrow>
          if rc \<noteq> 0 then
            (let reason = py_strip (if err \<noteq> [] then err else out)
             in if contains ''Unknown destination'' reason \<or> contains ''does not exist'' reason
                then ReleaseError (''No CUPS queue exists for this printer yet '' @ long_dash @ '' contact an admin.'')
                else ReleaseError (if reason \<noteq> [] then reason else ''lp exited with an error.''))
          else Handed (py_strip out))"

subsection \<open>The endpoints (routers/self_service_print.py)\<close>

definition require_email :: "signed_in \<Rightarrow> http_error + string" where
  "require_email u =
     (if truthy (si_email u) then Inr (the (si_email u))
      else Inl (Http 400 ''Self-service printing requires a Google Workspace account.''))"

record self_service_printer =
  ss_printer :: printer
  ss_sides :: "string list"
  ss_finishings :: "string list"

definition list_self_service_printers :: "signed_in \<Rightarrow> limits_db \<Rightarrow> http_error + self_service_printer list" where
  "list_self_service_printers u db =
     (case require_email u of
        Inl e \<Rightarrow> Inl e
      | Inr email \<Rightarrow>
          map_sum id (map (\<lambda>p. \<lparr>ss_printer = p, ss_sides = offered_sides (printer_capabilities p),
              ss_finishings = offered_finishings (printer_capabilities p)\<rparr>)) (get_allowed_printers_for_user email db))"

record upload =
  up_printer_id :: uuid
  up_copies :: int
  up_sides :: string
  up_finishings :: "string list"
  up_bytes :: string
  up_filename :: "string option"

text \<open>The answer, and the command line that was run, if one was.  (The \<open>repr\<close> in one message is written plainly.)\<close>

definition submit_self_service_print ::
  "runner \<Rightarrow> string \<Rightarrow> signed_in \<Rightarrow> upload \<Rightarrow> limits_db \<Rightarrow> (http_error + unit) \<times> string list option" where
  "submit_self_service_print run path user up db =
     (case require_email user of
        Inl e \<Rightarrow> (Inl e, None)
      | Inr email \<Rightarrow>
          if up_copies up < 1 then (Inl (Http 400 ''Copies must be at least 1.''), None)
          else if up_sides up \<noteq> [] \<and> up_sides up \<notin> set (map fst SIDES_CHOICES)
          then (Inl (Http 400 (''Unknown sides option: '' @ quoted (up_sides up))), None)
          else
            (case user_may_print_to (up_printer_id up) email db of
               Inl e \<Rightarrow> (Inl e, None)
             | Inr may \<Rightarrow>
                 if \<not> may then (Inl (Http 403 (''You aren'' @ [CHR 0x27] @ ''t allowed to print to this printer.'')), None)
                 else if int (length (up_bytes up)) > MAX_UPLOAD_BYTES
                 then (Inl (Http 413 (''File exceeds the '' @ str_int (MAX_UPLOAD_BYTES div (1024 * 1024)) @ ''MB limit.'')), None)
                 else if \<not> prefix ''%PDF-'' (up_bytes up) then (Inl (Http 400 ''Only PDF files are supported.''), None)
                 else
                   (case get_printer_or_404 (up_printer_id up) db of
                      Inl e \<Rightarrow> (Inl e, None)
                    | Inr p \<Rightarrow>
                        (let name = (if truthy (up_filename up) then the (up_filename up) else ''document.pdf'');
                             options = lp_options (up_sides up) (up_finishings up) (printer_capabilities p);
                             argv = upload_argv (up_printer_id up) name email (up_copies up) options path
                         in case submit_uploaded_print_job run path (up_printer_id up) name email (up_copies up) options of
                              Handed answer \<Rightarrow> (Inr (), Some argv)
                            | ReleaseError reason \<Rightarrow> (Inl (Http 502 reason), Some argv)
                            | ReleaseCrash \<Rightarrow> (Inl ServerError, Some argv)))))"

subsection \<open>The gate and the picker\<close>

lemma allowed_printers:
  "get_allowed_printers_for_user email db = Inr ps \<Longrightarrow>
   set ps = {p \<in> set (ld_printers db). printer_archived_at p = None \<and>
     (ous_of (printer_id p) db = [] \<or>
      (\<exists>u \<in> set (ld_users db). ru_email u = email \<and> ru_org_unit_path u \<noteq> None \<and>
         list_ex (org_unit_matches (ru_org_unit_path u)) (ous_of (printer_id p) db)))}"
proof -
  assume a: "get_allowed_printers_for_user email db = Inr ps"
  define found where "found = filter (\<lambda>u. ru_email u = email) (ld_users db)"
  consider "found = []" | u where "found = [u]"
    using a by (cases found; cases "tl found")
      (auto simp: get_allowed_printers_for_user_def found_def[symmetric] scalar_one_or_none_def)
  then show ?thesis
  proof cases
    case 1
    then have "u \<notin> set (ld_users db) \<or> ru_email u \<noteq> email" for u by (auto simp: found_def filter_empty_conv)
    then show ?thesis using a 1
      by (auto simp: get_allowed_printers_for_user_def found_def[symmetric] scalar_one_or_none_def open_to_def Let_def)
  next
    case 2
    then have "set found = {u}" by simp
    then have same: "v \<in> set (ld_users db) \<and> ru_email v = email \<longleftrightarrow> v = u" for v by (auto simp: found_def)
    have one: "(\<exists>v \<in> set (ld_users db). ru_email v = email \<and> P v) \<longleftrightarrow> P u" for P by (metis same)
    show ?thesis using a 2 unfolding one
      by (auto simp: get_allowed_printers_for_user_def found_def[symmetric] scalar_one_or_none_def open_to_def Let_def)
  qed
qed

lemma submitted_upload:
  assumes "submit_self_service_print run path user up db = (r, Some argv)"
  obtains email ps p where "si_email user = Some email" "email \<noteq> []" "1 \<le> up_copies up"
    "get_allowed_printers_for_user email db = Inr ps" "up_printer_id up \<in> printer_id ` set ps"
    "int (length (up_bytes up)) \<le> MAX_UPLOAD_BYTES" "prefix ''%PDF-'' (up_bytes up)"
    "get_printer_or_404 (up_printer_id up) db = Inr p"
    "argv = upload_argv (up_printer_id up) (if truthy (up_filename up) then the (up_filename up) else ''document.pdf'')
       email (up_copies up) (lp_options (up_sides up) (up_finishings up) (printer_capabilities p)) path"
    "r = Inr () \<longrightarrow> (\<exists>out err. run argv = Exited 0 out err)"
proof -
  obtain email where e: "require_email user = Inr email"
    using assms by (cases "require_email user") (auto simp: submit_self_service_print_def)
  obtain may where may: "user_may_print_to (up_printer_id up) email db = Inr may"
    using assms e by (cases "user_may_print_to (up_printer_id up) email db") (auto simp: submit_self_service_print_def split: if_splits)
  have may: "user_may_print_to (up_printer_id up) email db = Inr True"
    using assms e may by (cases may) (auto simp: submit_self_service_print_def split: if_splits)
  obtain p where p: "get_printer_or_404 (up_printer_id up) db = Inr p"
    using assms e may by (cases "get_printer_or_404 (up_printer_id up) db") (auto simp: submit_self_service_print_def split: if_splits)
  obtain ps where ps: "get_allowed_printers_for_user email db = Inr ps"
    using may by (cases "get_allowed_printers_for_user email db") (auto simp: user_may_print_to_def)
  then have "list_ex (\<lambda>p. printer_id p = up_printer_id up) ps" using may by (simp add: user_may_print_to_def)
  then have listed: "up_printer_id up \<in> printer_id ` set ps" by (force simp: list_ex_iff)
  show ?thesis
    using assms e may p ps
    by (intro that[OF _ _ _ ps listed _ _ p])
      (auto simp: submit_self_service_print_def Let_def require_email_def truthy_iff submit_uploaded_print_job_def
        split: if_splits release_answer.splits process_result.splits)
qed


text \<open>
  What is asked for beyond the offer of a printer changes nothing: the options are those of
  the offered finishings alone, in whatever order and company they are asked for, with the sides
  if they are one-sided or offered; and each of \<open>sides\<close> and \<open>finishings\<close> is given at most once,
  since a repeated option replaces the one before it.
\<close>

theorem only_the_offer_of_a_printer_counts:
  shows "(mset (filter (\<lambda>f. f \<in> set (offered_finishings caps)) fs) = mset (filter (\<lambda>f. f \<in> set (offered_finishings caps)) gs) \<longrightarrow>
      lp_options sides fs caps = lp_options sides gs caps) \<and>
    (sides \<noteq> ''one-sided'' \<and> sides \<notin> set (offered_sides caps) \<longrightarrow> lp_options sides fs caps = lp_options [] fs caps) \<and>
    length (filter (\<lambda>w. w = ''-o'') (lp_options sides fs caps)) \<le> 2 \<and>
    (\<forall>c \<in> set (finishing_codes fs caps). \<exists>name \<in> set fs. name \<in> set (offered_finishings caps) \<and>
       map_of OFFERABLE_FINISHINGS name = Some c)"
proof (intro conjI impI ballI)
  assume "mset (filter (\<lambda>f. f \<in> set (offered_finishings caps)) fs) = mset (filter (\<lambda>f. f \<in> set (offered_finishings caps)) gs)"
  then have "mset (map (\<lambda>n. the (map_of OFFERABLE_FINISHINGS n)) (filter (\<lambda>f. f \<in> set (offered_finishings caps)) fs)) =
      mset (map (\<lambda>n. the (map_of OFFERABLE_FINISHINGS n)) (filter (\<lambda>f. f \<in> set (offered_finishings caps)) gs))"
    by (simp only: mset_map)
  then have "finishing_codes fs caps = finishing_codes gs caps"
    unfolding finishing_codes_def by (metis (no_types) properties_for_sort sorted_sort mset_sort)
  then show "lp_options sides fs caps = lp_options sides gs caps" by (simp add: lp_options_def)
next
  show "length (filter (\<lambda>w. w = ''-o'') (lp_options sides fs caps)) \<le> 2"
    by (simp add: lp_options_def sides_option_def Let_def)
next
  fix c assume "c \<in> set (finishing_codes fs caps)"
  then obtain name where "name \<in> set fs" "name \<in> set (offered_finishings caps)" "c = the (map_of OFFERABLE_FINISHINGS name)"
    by (auto simp: finishing_codes_def)
  then show "\<exists>name \<in> set fs. name \<in> set (offered_finishings caps) \<and> map_of OFFERABLE_FINISHINGS name = Some c"
    by (intro bexI[of _ name]) (auto simp: offered_finishings_def OFFERABLE_FINISHINGS_def split: if_splits)
qed (auto simp: lp_options_def sides_option_def)

definition uploaded :: upload where
  "uploaded = \<lparr>up_printer_id = ''p'', up_copies = 2, up_sides = ''one-sided'', up_finishings = [''staple''], up_bytes = ''%PDF-1'',
     up_filename = None\<rparr>"

definition staff_ann :: signed_in where
  "staff_ann = example_admin\<lparr>si_email := Some ''ann@x.org''\<rparr>"

definition staff_office :: limits_db where
  "staff_office = office\<lparr>ld_ous := [\<lparr>ao_id = ''a'', ao_printer_id = ''p'', ao_ou_path = ''/Staff''\<rparr>]\<rparr>"

lemma uploaded_runs:
  "submit_self_service_print (\<lambda>a. Exited 0 [] []) ''/tmp/x.pdf'' staff_ann uploaded staff_office =
   (Inr (), Some [''lp'', ''-d'', ''printops-p'', ''-U'', ''ann@x.org'', ''-t'', ''document.pdf'', ''-n'', ''2'', ''-o'', ''sides=one-sided'', ''/tmp/x.pdf''])"
  by code_simp


theorem only_the_offer_of_a_printer_counts_witness:
  "lp_options ''one-sided'' [''staple'', ''bind'', ''punch''] (Some [(''finishings'', JList [JStr ''punch'', JStr ''staple''])]) =
     lp_options ''one-sided'' [''punch'', ''staple''] (Some [(''finishings'', JList [JStr ''punch'', JStr ''staple''])])"
proof -
  let ?caps = "Some [(''finishings'', JList [JStr ''punch'', JStr ''staple''])]"
  have "mset (filter (\<lambda>f. f \<in> set (offered_finishings ?caps)) [''staple'', ''bind'', ''punch'']) =
      mset (filter (\<lambda>f. f \<in> set (offered_finishings ?caps)) [''punch'', ''staple''])"
    by (simp add: offered_finishings_def OFFERABLE_FINISHINGS_def reported_def among_def list_or_empty_def)
  then show ?thesis
    using only_the_offer_of_a_printer_counts[of ?caps "[''staple'', ''bind'', ''punch'']" "[''punch'', ''staple'']"] by blast
qed

end
