(* ===== verification/Fleet_Admin.thy ===== *)
theory Fleet_Admin
  imports Printer_Limits Printer_Status
begin

section \<open>Printers and copiers under an admin's hand (app/routers/printers.py, app/routers/mfp_devices.py)\<close>

text \<open>
  The endpoints that add, change, archive and delete printers, move them to a new address, turn
  their copier side on and off, and edit the copier records themselves.  A row is the list of its
  columns with their Python values, as the audit trail sees it (see \<open>Audit_Trail\<close>); an update is the
  dictionary of the fields that were sent, after validation.  Encryption, password hashing, fresh
  tokens, the IPP probe, the capabilities it discovers and the command runner are the environment
  of a request.  An endpoint answers with its result or an error and leaves a state; a commit that
  meets a \<open>NOT NULL\<close> or unique constraint is an internal error and leaves the state as it was.
\<close>

type_synonym row = "(string \<times> pyval) list"

record fleet =
  fl_printers :: "row list"
  fl_devices :: "row list"
  fl_jobs :: "job list"
  fl_trail :: "audit_event list"

text \<open>What a probe of an address answers: the path it resolved, or the text of its error.\<close>

record fleet_env = admin_env +
  fe_encrypt :: "string \<Rightarrow> string"
  fe_hash :: "string \<Rightarrow> string"
  fe_stamp :: "datetime \<Rightarrow> string" \<comment> \<open>how a moment reads\<close>
  fe_token :: string \<comment> \<open>what \<open>secrets.token_urlsafe\<close> gives\<close>
  fe_run :: runner
  fe_discover :: "row \<Rightarrow> row" \<comment> \<open>the columns a discovery of this printer writes\<close>
  fe_probe :: "string \<Rightarrow> pyval \<Rightarrow> bool \<Rightarrow> pyval \<Rightarrow> string + pyval"

subsection \<open>Rows\<close>

definition set_col :: "string \<Rightarrow> pyval \<Rightarrow> row \<Rightarrow> row" where
  "set_col c v r = AList.update c v r"

definition set_cols :: "row \<Rightarrow> row \<Rightarrow> row" where
  "set_cols updates r = foldl (\<lambda>r (c, v). set_col c v r) r updates"

fun py_truth :: "pyval \<Rightarrow> bool" where
  "py_truth VNone = False"
| "py_truth (VBool b) = b"
| "py_truth (VNum n) = (n \<noteq> 0)"
| "py_truth (VStr s) = (s \<noteq> [])"
| "py_truth (VList xs) = (xs \<noteq> [])"
| "py_truth (VTuple xs) = (xs \<noteq> [])"
| "py_truth (VDict kvs) = (kvs \<noteq> [])"
| "py_truth (VOther s) = True"

text \<open>\<open>str\<close> of a column, of the types these columns have.\<close>

fun col_text :: "pyval \<Rightarrow> string" where
  "col_text (VStr s) = s"
| "col_text (VOther s) = s"
| "col_text VNone = ''None''"
| "col_text (VBool b) = (if b then ''True'' else ''False'')"
| "col_text (VNum n) = str_int \<lfloor>n\<rfloor>"
| "col_text _ = []"

definition is_row :: "uuid \<Rightarrow> row \<Rightarrow> bool" where
  "is_row i r \<longleftrightarrow> get_or_None r ''id'' = VOther i"

definition put_row :: "uuid \<Rightarrow> row \<Rightarrow> row list \<Rightarrow> row list" where
  "put_row i r rows = map (\<lambda>x. if is_row i x then r else x) rows"

definition printer_or_404 :: "uuid \<Rightarrow> fleet \<Rightarrow> http_error + row" where
  "printer_or_404 pid fl =
     (case find (is_row pid) (fl_printers fl) of None \<Rightarrow> Inl (Http 404 ''Printer not found'') | Some r \<Rightarrow> Inr r)"

definition device_or_404 :: "uuid \<Rightarrow> fleet \<Rightarrow> http_error + row" where
  "device_or_404 i fl =
     (case find (is_row i) (fl_devices fl) of None \<Rightarrow> Inl (Http 404 ''MFP device not found'') | Some r \<Rightarrow> Inr r)"

definition noted :: "fleet_env \<Rightarrow> audit_entry \<Rightarrow> fleet \<Rightarrow> fleet" where
  "noted av en fl = fl\<lparr>fl_trail := fl_trail fl @
     [record_audit (av_event_id av) (av_now av) (av_actor av) (en\<lparr>en_source_ip := av_ip av\<rparr>)]\<rparr>"

text \<open>What a failed commit leaves: the state the request found.\<close>

definition committed :: "bool \<Rightarrow> 'a \<Rightarrow> fleet \<Rightarrow> fleet \<Rightarrow> (http_error + 'a) \<times> fleet" where
  "committed ok a before after = (if ok then (Inr a, after) else (Inl ServerError, before))"

subsection \<open>The columns (models/printer.py, models/mfp_device.py)\<close>

definition PRINTER_DEFAULTS :: row where
  "PRINTER_DEFAULTS =
     [(''id'', VNone), (''tenant_id'', VStr ''default''), (''name'', VNone), (''manufacturer'', VNone), (''model'', VNone),
      (''is_virtual'', VBool False), (''ip_address'', VNone), (''hostname'', VNone), (''serial_number'', VNone),
      (''port'', VNum 631), (''use_tls'', VBool False), (''ipp_path'', VNone), (''pending_redirect'', VNone),
      (''ipp_path_detected'', VNone), (''airprint_enabled'', VBool False), (''roll_autocut'', VBool False),
      (''building'', VNone), (''room'', VNone), (''department'', VNone), (''notes'', VNone),
      (''capabilities'', VNone), (''capabilities_raw'', VNone), (''capabilities_detected_at'', VNone),
      (''capabilities_error'', VNone), (''queue_sync_error'', VNone), (''last_auto_queue_sync_at'', VNone),
      (''auto_queue_sync_failures'', VNum 0), (''archived_at'', VNone), (''status'', VStr ''unknown''),
      (''status_reasons'', VNone), (''status_message'', VNone), (''status_checked_at'', VNone), (''last_online_at'', VNone),
      (''status_probe_failures'', VNum 0), (''network_probe_log'', VNone), (''pages_not_printed'', VNone),
      (''copier_enabled'', VBool False), (''release_required'', VBool False), (''follow_me_enabled'', VBool False),
      (''release_token'', VNone), (''quota_mode'', VStr ''include''), (''snmp_enabled'', VBool True), (''snmp_port'', VNone),
      (''snmp_version'', VNone), (''snmp_community_encrypted'', VNone), (''snmp_vendor_profile'', VNone),
      (''page_count_total'', VNone), (''page_count_copy'', VNone), (''page_count_print'', VNone),
      (''page_count_confidence'', VNone), (''page_count_vendor_profile_used'', VNone), (''page_count_checked_at'', VNone),
      (''page_count_error'', VNone), (''wireless_broadcasting'', VNone), (''wireless_radios'', VNone),
      (''wireless_checked_at'', VNone), (''wireless_error'', VNone), (''ldap_enabled'', VBool False),
      (''ldap_bind_username'', VNone), (''ldap_bind_password_hash'', VNone), (''web_login_username'', VNone),
      (''web_login_password_encrypted'', VNone), (''scan_email_address'', VNone), (''scan_password_encrypted'', VNone)]"

definition PRINTER_NOT_NULL :: "string list" where
  "PRINTER_NOT_NULL =
     [''id'', ''tenant_id'', ''name'', ''is_virtual'', ''port'', ''use_tls'', ''airprint_enabled'', ''roll_autocut'',
      ''auto_queue_sync_failures'', ''status'', ''status_probe_failures'', ''copier_enabled'', ''release_required'',
      ''follow_me_enabled'', ''quota_mode'', ''snmp_enabled'', ''ldap_enabled'']"

definition DEVICE_DEFAULTS :: row where
  "DEVICE_DEFAULTS =
     [(''id'', VNone), (''tenant_id'', VStr ''default''), (''printer_id'', VNone), (''name'', VNone), (''vendor'', VStr ''generic''),
      (''model'', VNone), (''serial_number'', VNone), (''ip_address'', VNone), (''hostname'', VNone), (''building'', VNone),
      (''room'', VNone), (''department'', VNone), (''connector_type'', VStr ''generic_csv''), (''connector_config'', VNone),
      (''cap_walkup_copy_accounting'', VNone), (''cap_user_code_pin_auth'', VNone), (''cap_badge_card_auth'', VNone),
      (''cap_department_id_accounting'', VNone), (''cap_ldap_auth'', VNone), (''cap_local_user_table'', VNone),
      (''cap_remote_user_provisioning'', VNone), (''cap_csv_accounting_export'', VNone),
      (''cap_api_accounting_retrieval'', VNone), (''cap_snmp_meter_counters'', VNone), (''cap_scan_accounting'', VNone),
      (''cap_color_mono_accounting'', VNone), (''cap_quotas'', VNone), (''cap_secure_print_release'', VNone),
      (''capabilities_source'', VNone), (''capabilities_detected_at'', VNone), (''snmp_enabled'', VBool False),
      (''snmp_port'', VNone), (''snmp_version'', VNone), (''snmp_community_encrypted'', VNone), (''snmp_vendor_profile'', VNone),
      (''page_count_total'', VNone), (''page_count_copy'', VNone), (''page_count_print'', VNone),
      (''page_count_confidence'', VNone), (''page_count_vendor_profile_used'', VNone), (''page_count_checked_at'', VNone),
      (''page_count_error'', VNone), (''admin_username'', VNone), (''admin_password_encrypted'', VNone),
      (''provision_org_unit_paths'', VNone), (''auto_sync_users'', VBool False), (''last_user_sync_at'', VNone),
      (''last_user_sync_ok'', VNone), (''last_user_sync_message'', VNone), (''auto_poll_counters'', VBool False),
      (''last_counter_poll_at'', VNone), (''last_counter_poll_ok'', VNone), (''last_counter_poll_message'', VNone),
      (''default_owner_email'', VNone), (''default_owner_attributed_through'', VNone), (''last_test_connection_at'', VNone),
      (''last_test_connection_ok'', VNone), (''last_test_connection_message'', VNone), (''notes'', VNone)]"

definition DEVICE_NOT_NULL :: "string list" where
  "DEVICE_NOT_NULL =
     [''id'', ''tenant_id'', ''name'', ''vendor'', ''connector_type'', ''snmp_enabled'', ''auto_sync_users'', ''auto_poll_counters'']"

text \<open>The constraints: the columns that may not be null, the unique ones, and the foreign key.\<close>

definition printer_storable :: "uuid \<Rightarrow> row \<Rightarrow> fleet \<Rightarrow> bool" where
  "printer_storable pid r fl \<longleftrightarrow>
     list_all (\<lambda>c. get_or_None r c \<noteq> VNone) PRINTER_NOT_NULL \<and>
     list_all (\<lambda>x. is_row pid x \<or>
       list_all (\<lambda>c. get_or_None r c = VNone \<or> get_or_None x c \<noteq> get_or_None r c) [''release_token'', ''ldap_bind_username''])
       (fl_printers fl)"

definition device_storable :: "row \<Rightarrow> fleet \<Rightarrow> bool" where
  "device_storable d fl \<longleftrightarrow>
     list_all (\<lambda>c. get_or_None d c \<noteq> VNone) DEVICE_NOT_NULL \<and>
     (get_or_None d ''printer_id'' = VNone \<or>
      list_ex (\<lambda>x. get_or_None x ''id'' = get_or_None d ''printer_id'') (fl_printers fl))"

text \<open>Columns the machine writes on its own.\<close>

definition POLLED_PRINTER_FIELDS :: "string list" where
  "POLLED_PRINTER_FIELDS =
     [''tenant_id'', ''capabilities'', ''capabilities_raw'', ''capabilities_detected_at'', ''capabilities_error'',
      ''queue_sync_error'', ''last_auto_queue_sync_at'', ''auto_queue_sync_failures'', ''status'', ''status_reasons'',
      ''status_message'', ''status_checked_at'', ''status_probe_failures'', ''last_online_at'', ''network_probe_log'',
      ''pages_not_printed'', ''ipp_path_detected'', ''pending_redirect'', ''page_count_total'', ''page_count_copy'',
      ''page_count_print'', ''page_count_confidence'', ''page_count_vendor_profile_used'', ''page_count_checked_at'',
      ''page_count_error'', ''wireless_broadcasting'', ''wireless_radios'', ''wireless_checked_at'', ''wireless_error'']"

definition QUEUE_AFFECTING_FIELDS :: "string list" where
  "QUEUE_AFFECTING_FIELDS =
     [''name'', ''ip_address'', ''port'', ''use_tls'', ''ipp_path'', ''airprint_enabled'', ''release_required'', ''roll_autocut'']"

definition POLLED_DEVICE_FIELDS :: "string list" where
  "POLLED_DEVICE_FIELDS =
     [''tenant_id'', ''capabilities_source'', ''capabilities_detected_at'', ''page_count_total'', ''page_count_copy'',
      ''page_count_print'', ''page_count_confidence'', ''page_count_vendor_profile_used'', ''page_count_checked_at'',
      ''page_count_error'', ''last_user_sync_at'', ''last_user_sync_ok'', ''last_user_sync_message'', ''last_counter_poll_at'',
      ''last_counter_poll_ok'', ''last_counter_poll_message'', ''last_test_connection_at'', ''last_test_connection_ok'',
      ''last_test_connection_message'', ''default_owner_attributed_through'']"

definition audited_printer_columns :: "string list" where
  "audited_printer_columns = auditable_fields (map fst PRINTER_DEFAULTS) (set POLLED_PRINTER_FIELDS)"

definition audited_device_columns :: "string list" where
  "audited_device_columns = auditable_fields (map fst DEVICE_DEFAULTS) (set POLLED_DEVICE_FIELDS)"

definition row_changes :: "string list \<Rightarrow> row \<Rightarrow> row \<Rightarrow> (string \<times> pyval) list" where
  "row_changes names old new = diff (snapshot old names) (snapshot new names) names"

definition about_printer :: "string \<Rightarrow> string \<Rightarrow> uuid \<Rightarrow> row \<Rightarrow> audit_entry" where
  "about_printer action summary pid r = about action summary ''printer'' pid (col_text (get_or_None r ''name''))"

subsection \<open>The print queue of a printer\<close>

text \<open>
  The synchronisation runs long after the commit; a printer deleted meanwhile leaves nothing to
  record the result on.  An error of the operating system is nobody's to catch.
\<close>

definition sync_result :: "fleet_env \<Rightarrow> uuid \<Rightarrow> row \<Rightarrow> pyval option" where
  "sync_result av pid r =
     (case sync_queue (fe_run av) pid (py_truth (get_or_None r ''is_virtual'')) of
        Inr u \<Rightarrow> Some VNone
      | Inl (QueueSyncError e) \<Rightarrow> Some (VStr e)
      | Inl (SyncOSError e) \<Rightarrow> None)"

definition apply_queue_sync :: "fleet_env \<Rightarrow> uuid \<Rightarrow> fleet \<Rightarrow> (http_error + unit) \<times> fleet" where
  "apply_queue_sync av pid fl =
     (case find (is_row pid) (fl_printers fl) of
        None \<Rightarrow> (Inr (), fl)
      | Some r \<Rightarrow>
          (case sync_result av pid r of
             None \<Rightarrow> (Inl ServerError, fl)
           | Some err \<Rightarrow> (Inr (), fl\<lparr>fl_printers := put_row pid (set_col ''queue_sync_error'' err r) (fl_printers fl)\<rparr>)))"

definition then_sync :: "fleet_env \<Rightarrow> uuid \<Rightarrow> (http_error + unit) \<times> fleet \<Rightarrow> (http_error + unit) \<times> fleet" where
  "then_sync av pid res = (case res of (Inl e, fl) \<Rightarrow> (Inl e, fl) | (Inr u, fl) \<Rightarrow> apply_queue_sync av pid fl)"

subsection \<open>Adding a printer\<close>

definition CREATE_FIELDS :: "string list" where
  "CREATE_FIELDS =
     [''name'', ''port'', ''use_tls'', ''ipp_path'', ''airprint_enabled'', ''manufacturer'', ''model'', ''hostname'',
      ''serial_number'', ''building'', ''room'', ''department'', ''notes'', ''snmp_enabled'', ''snmp_port'', ''snmp_version'',
      ''snmp_vendor_profile'']"

definition secret_text :: "(string \<Rightarrow> string) \<Rightarrow> pyval \<Rightarrow> pyval" where
  "secret_text f v = (if py_truth v then VStr (f (col_text v)) else VNone)"

text \<open>A roll printer that reports a cutter cuts.\<close>

definition reports_trim :: "row \<Rightarrow> bool" where
  "reports_trim r =
     (case get_or_None r ''capabilities'' of
        VDict kvs \<Rightarrow> (case get_or_None kvs ''finishings'' of VList xs \<Rightarrow> VStr ''trim'' \<in> set xs | _ \<Rightarrow> False)
      | _ \<Rightarrow> False)"

definition created_row :: "fleet_env \<Rightarrow> row \<Rightarrow> row" where
  "created_row av payload =
     (let r = set_cols (map (\<lambda>c. (c, get_or_None payload c)) CREATE_FIELDS) (set_col ''id'' (VOther (av_row_id av)) PRINTER_DEFAULTS);
          r = set_col ''ip_address'' (VStr (col_text (get_or_None payload ''ip_address''))) r;
          r = set_col ''snmp_community_encrypted'' (secret_text (fe_encrypt av) (get_or_None payload ''snmp_community'')) r;
          r = set_cols (fe_discover av r) r
      in set_col ''roll_autocut'' (VBool (reports_trim r)) r)"

definition add_printer :: "fleet_env \<Rightarrow> string \<Rightarrow> string \<Rightarrow> row \<Rightarrow> fleet \<Rightarrow> (http_error + unit) \<times> fleet" where
  "add_printer av action summary r fl =
     then_sync av (av_row_id av)
       (committed (printer_storable (av_row_id av) r fl) () fl
          (noted av (about_printer action summary (av_row_id av) r) (fl\<lparr>fl_printers := fl_printers fl @ [r]\<rparr>)))"

definition create_printer :: "fleet_env \<Rightarrow> row \<Rightarrow> fleet \<Rightarrow> (http_error + unit) \<times> fleet" where
  "create_printer av payload fl =
     (let r = created_row av payload
      in add_printer av ''printer.create''
           (''Added printer '' @ col_text (get_or_None r ''name'') @ '' at '' @ col_text (get_or_None r ''ip_address'')) r fl)"

definition virtual_row :: "fleet_env \<Rightarrow> row \<Rightarrow> row" where
  "virtual_row av payload =
     set_cols
       ([(''name'', get_or_None payload ''name''), (''is_virtual'', VBool True), (''ip_address'', VNone),
         (''airprint_enabled'', VBool True), (''follow_me_enabled'', VBool True), (''release_token'', VStr (fe_token av)),
         (''snmp_enabled'', VBool False)] @
        map (\<lambda>c. (c, get_or_None payload c)) [''building'', ''room'', ''department'', ''notes''])
       (set_col ''id'' (VOther (av_row_id av)) PRINTER_DEFAULTS)"

definition create_virtual_queue :: "fleet_env \<Rightarrow> row \<Rightarrow> fleet \<Rightarrow> (http_error + unit) \<times> fleet" where
  "create_virtual_queue av payload fl =
     (let r = virtual_row av payload
      in add_printer av ''printer.create_virtual'' (''Added Follow-Me queue '' @ col_text (get_or_None r ''name'')) r fl)"

subsection \<open>Changing a printer\<close>

definition SHARED_WITH_COPIER :: "string list" where
  "SHARED_WITH_COPIER =
     [''name'', ''model'', ''serial_number'', ''ip_address'', ''hostname'', ''building'', ''room'', ''department'']"

definition copiers_of :: "uuid \<Rightarrow> fleet \<Rightarrow> row list" where
  "copiers_of pid fl = filter (\<lambda>d. get_or_None d ''printer_id'' = VOther pid) (fl_devices fl)"

definition device_id :: "row \<Rightarrow> uuid" where
  "device_id d = col_text (get_or_None d ''id'')"

definition mirror_to_copier :: "uuid \<Rightarrow> row \<Rightarrow> string list \<Rightarrow> fleet \<Rightarrow> fleet" where
  "mirror_to_copier pid r changed fl =
     (case (filter (\<lambda>c. c \<in> set changed) SHARED_WITH_COPIER, copiers_of pid fl) of
        (c # cs, d # ds) \<Rightarrow>
          fl\<lparr>fl_devices := put_row (device_id d) (set_cols (map (\<lambda>c. (c, get_or_None r c)) (c # cs)) d) (fl_devices fl)\<rparr>
      | _ \<Rightarrow> fl)"

text \<open>The write-only fields and the columns that keep them.\<close>

definition SECRET_FIELDS :: "string list" where
  "SECRET_FIELDS = [''snmp_community'', ''ldap_bind_password'', ''web_login_password'', ''scan_password'']"

definition put_secret :: "(string \<Rightarrow> string) \<Rightarrow> string \<Rightarrow> string \<Rightarrow> row \<Rightarrow> row \<Rightarrow> row" where
  "put_secret f field column payload r =
     (case map_of payload field of None \<Rightarrow> r | Some v \<Rightarrow> set_col column (secret_text f v) r)"

definition blank_clears :: "string list \<Rightarrow> row \<Rightarrow> row" where
  "blank_clears names = map (\<lambda>(c, v). (c, if c \<in> set names \<and> \<not> py_truth v then VNone else v))"

text \<open>The updates that go through the generic loop.\<close>

definition plain_updates :: "row \<Rightarrow> row" where
  "plain_updates payload =
     filter (\<lambda>(c, v). c \<notin> set SECRET_FIELDS)
       (blank_clears [''snmp_version'', ''snmp_port'', ''snmp_vendor_profile'', ''ldap_bind_username'']
         (map (\<lambda>(c, v). (c, if c = ''ip_address'' \<and> v \<noteq> VNone then VStr (col_text v) else v)) payload))"

definition updated_printer :: "fleet_env \<Rightarrow> row \<Rightarrow> row \<Rightarrow> row" where
  "updated_printer av payload r =
     (let r = set_cols (plain_updates payload) r;
          r = put_secret (fe_encrypt av) ''snmp_community'' ''snmp_community_encrypted'' payload r;
          r = put_secret (fe_encrypt av) ''web_login_password'' ''web_login_password_encrypted'' payload r;
          r = put_secret (fe_encrypt av) ''scan_password'' ''scan_password_encrypted'' payload r;
          r = put_secret (fe_hash av) ''ldap_bind_password'' ''ldap_bind_password_hash'' payload r
      in if (py_truth (get_or_None r ''release_required'') \<or> py_truth (get_or_None r ''follow_me_enabled'')) \<and>
            \<not> py_truth (get_or_None r ''release_token'')
         then set_col ''release_token'' (VStr (fe_token av)) r else r)"

definition refused_for_virtual :: "row \<Rightarrow> row \<Rightarrow> string option" where
  "refused_for_virtual payload r =
     (if \<not> py_truth (get_or_None r ''is_virtual'') then None
      else if get_or_None payload ''follow_me_enabled'' = VBool False
      then Some (''Follow-Me can'' @ [CHR 0x27] @ ''t be turned off for a virtual queue.'')
      else if get_or_None payload ''release_required'' = VBool True
      then Some ''A virtual queue has no physical location to require release at.''
      else None)"

definition update_printer :: "fleet_env \<Rightarrow> uuid \<Rightarrow> row \<Rightarrow> fleet \<Rightarrow> (http_error + unit) \<times> fleet" where
  "update_printer av pid payload fl =
     (case printer_or_404 pid fl of
        Inl e \<Rightarrow> (Inl e, fl)
      | Inr old \<Rightarrow>
          (case refused_for_virtual payload old of
             Some detail \<Rightarrow> (Inl (Http 400 detail), fl)
           | None \<Rightarrow>
               (let r = updated_printer av payload old;
                    touched = map fst (plain_updates payload);
                    changes = row_changes audited_printer_columns old r;
                    fl' = mirror_to_copier pid r touched (fl\<lparr>fl_printers := put_row pid r (fl_printers fl)\<rparr>);
                    fl' = (if changes = [] then fl'
                           else noted av ((about_printer ''printer.update''
                              (''Updated printer '' @ col_text (get_or_None r ''name'')) pid r)\<lparr>en_changes := Some changes\<rparr>) fl');
                    res = committed (printer_storable pid r fl) () fl fl'
                in if list_ex (\<lambda>c. c \<in> set touched) QUEUE_AFFECTING_FIELDS then then_sync av pid res else res)))"

subsection \<open>Taking a printer out of use\<close>

definition tears_down :: "fleet_env \<Rightarrow> uuid \<Rightarrow> bool" where
  "tears_down av pid =
     (case remove_queue (fe_run av) pid of Inl (SyncOSError e) \<Rightarrow> False | _ \<Rightarrow> True)"

text \<open>Deleting a printer takes its jobs along and unlinks its copiers.\<close>

definition delete_printer :: "fleet_env \<Rightarrow> uuid \<Rightarrow> fleet \<Rightarrow> (http_error + unit) \<times> fleet" where
  "delete_printer av pid fl =
     (case printer_or_404 pid fl of
        Inl e \<Rightarrow> (Inl e, fl)
      | Inr r \<Rightarrow>
          if \<not> tears_down av pid then (Inl ServerError, fl)
          else (Inr (), noted av
            (about_printer ''printer.delete'' (''Deleted printer '' @ col_text (get_or_None r ''name'') @ '' and its job history'') pid r)
            (fl\<lparr>fl_printers := filter (\<lambda>x. \<not> is_row pid x) (fl_printers fl),
                fl_devices := map (\<lambda>d. if get_or_None d ''printer_id'' = VOther pid then set_col ''printer_id'' VNone d else d) (fl_devices fl),
                fl_jobs := filter (\<lambda>j. job_printer_id j \<noteq> pid) (fl_jobs fl)\<rparr>)))"

text \<open>One column, one line of the trail.\<close>

definition rewrite :: "fleet_env \<Rightarrow> uuid \<Rightarrow> audit_entry \<Rightarrow> row \<Rightarrow> fleet \<Rightarrow> (http_error + unit) \<times> fleet" where
  "rewrite av pid en r fl =
     committed (printer_storable pid r fl) () fl (noted av en (fl\<lparr>fl_printers := put_row pid r (fl_printers fl)\<rparr>))"

definition archive_printer :: "fleet_env \<Rightarrow> uuid \<Rightarrow> fleet \<Rightarrow> (http_error + unit) \<times> fleet" where
  "archive_printer av pid fl =
     (case printer_or_404 pid fl of
        Inl e \<Rightarrow> (Inl e, fl)
      | Inr r \<Rightarrow>
          if \<not> tears_down av pid then (Inl ServerError, fl)
          else rewrite av pid (about_printer ''printer.archive'' (''Archived printer '' @ col_text (get_or_None r ''name'')) pid r)
                 (set_col ''archived_at'' (VOther (fe_stamp av (av_now av))) r) fl)"

definition unarchive_printer :: "fleet_env \<Rightarrow> uuid \<Rightarrow> fleet \<Rightarrow> (http_error + unit) \<times> fleet" where
  "unarchive_printer av pid fl =
     (case printer_or_404 pid fl of
        Inl e \<Rightarrow> (Inl e, fl)
      | Inr r \<Rightarrow> then_sync av pid
          (rewrite av pid (about_printer ''printer.unarchive''
             (''Restored printer '' @ col_text (get_or_None r ''name'') @ '' from the archive'') pid r)
             (set_col ''archived_at'' VNone r) fl))"

subsection \<open>Where a printer is\<close>

definition usable_ipp_path :: "row \<Rightarrow> pyval" where
  "usable_ipp_path r =
     (if py_truth (get_or_None r ''ipp_path'') then get_or_None r ''ipp_path'' else get_or_None r ''ipp_path_detected'')"

definition transport :: "row \<Rightarrow> pyval list" where
  "transport r = [get_or_None r ''port'', get_or_None r ''use_tls'', usable_ipp_path r]"

definition discover_printer :: "fleet_env \<Rightarrow> uuid \<Rightarrow> fleet \<Rightarrow> (http_error + unit) \<times> fleet" where
  "discover_printer av pid fl =
     (case printer_or_404 pid fl of
        Inl e \<Rightarrow> (Inl e, fl)
      | Inr old \<Rightarrow>
          if py_truth (get_or_None old ''is_virtual'')
          then (Inl (Http 400 ''A virtual queue has no real device to discover capabilities from.''), fl)
          else
            (let r = set_cols (fe_discover av old) old;
                 res = committed (printer_storable pid r fl) () fl (fl\<lparr>fl_printers := put_row pid r (fl_printers fl)\<rparr>)
             in if \<not> py_eqs (transport r) (transport old) then then_sync av pid res else res))"

definition resync_queue :: "fleet_env \<Rightarrow> uuid \<Rightarrow> fleet \<Rightarrow> (http_error + unit) \<times> fleet" where
  "resync_queue av pid fl = (case printer_or_404 pid fl of Inl e \<Rightarrow> (Inl e, fl) | Inr r \<Rightarrow> apply_queue_sync av pid fl)"

definition regenerate_release_token :: "fleet_env \<Rightarrow> uuid \<Rightarrow> fleet \<Rightarrow> (http_error + unit) \<times> fleet" where
  "regenerate_release_token av pid fl =
     (case printer_or_404 pid fl of
        Inl e \<Rightarrow> (Inl e, fl)
      | Inr r \<Rightarrow> rewrite av pid
          ((about_printer ''printer.regenerate_release_token''
             (''Regenerated the release URL token for '' @ col_text (get_or_None r ''name'')) pid r)
             \<lparr>en_changes := Some [(''release_token'', from_to (VStr ''***'') (VStr ''***''))]\<rparr>)
          (set_col ''release_token'' (VStr (fe_token av)) r) fl)"

text \<open>The pending redirect is what discovery stored: host, port, tls and path.\<close>

definition moved_row :: "string \<Rightarrow> pyval \<Rightarrow> bool \<Rightarrow> pyval \<Rightarrow> row \<Rightarrow> row" where
  "moved_row host port tls path r =
     (let r = set_cols [(''ip_address'', VStr host), (''port'', port), (''use_tls'', VBool tls), (''ipp_path_detected'', path)] r;
          r = (if py_truth (get_or_None r ''ipp_path'') \<and> get_or_None r ''ipp_path'' \<noteq> path then set_col ''ipp_path'' VNone r else r)
      in set_col ''pending_redirect'' VNone r)"

definition confirm_redirect :: "fleet_env \<Rightarrow> uuid \<Rightarrow> fleet \<Rightarrow> (http_error + unit) \<times> fleet" where
  "confirm_redirect av pid fl =
     (case printer_or_404 pid fl of
        Inl e \<Rightarrow> (Inl e, fl)
      | Inr r \<Rightarrow>
          (case get_or_None r ''pending_redirect'' of
             VDict pending \<Rightarrow>
               if pending = [] then (Inl (Http 404 ''This printer has no redirect waiting to be confirmed.''), fl)
               else
                 (let host = col_text (get_or_None pending ''host''); port = get_or_None pending ''port'';
                      tls = py_truth (get_or_None pending ''tls'')
                  in case fe_probe av host port tls (get_or_None pending ''path'') of
                       Inl e \<Rightarrow> (Inl (Http 502 (host @ '' did not answer, so this printer has been left where it is: '' @ e)), fl)
                     | Inr path \<Rightarrow>
                         (let r' = moved_row host port tls path r
                          in then_sync av pid (rewrite av pid
                               (about_printer ''printer.confirm_redirect''
                                  (''Adopted the new device answering for '' @ col_text (get_or_None r ''name'')) pid r) r' fl)))
           | _ \<Rightarrow> (Inl (Http 404 ''This printer has no redirect waiting to be confirmed.''), fl)))"

definition dismiss_redirect :: "fleet_env \<Rightarrow> uuid \<Rightarrow> fleet \<Rightarrow> (http_error + unit) \<times> fleet" where
  "dismiss_redirect av pid fl =
     (case printer_or_404 pid fl of
        Inl e \<Rightarrow> (Inl e, fl)
      | Inr r \<Rightarrow> rewrite av pid (about_printer ''printer.dismiss_redirect''
          (''Dismissed the redirect reported for '' @ col_text (get_or_None r ''name'')) pid r) (set_col ''pending_redirect'' VNone r) fl)"

subsection \<open>The copier side of a printer\<close>

definition get_printer_copier :: "uuid \<Rightarrow> fleet \<Rightarrow> http_error + row option" where
  "get_printer_copier pid fl =
     (case printer_or_404 pid fl of Inl e \<Rightarrow> Inl e | Inr r \<Rightarrow> scalar_one_or_none (copiers_of pid fl))"

definition new_copier :: "fleet_env \<Rightarrow> uuid \<Rightarrow> row \<Rightarrow> row" where
  "new_copier av pid r =
     set_cols
       ([(''printer_id'', VOther pid),
         (''vendor'', VStr (av_lower av (if py_truth (get_or_None r ''manufacturer'') then col_text (get_or_None r ''manufacturer'') else ''generic'')))] @
        map (\<lambda>c. (c, get_or_None r c)) SHARED_WITH_COPIER)
       (set_col ''id'' (VOther (av_row_id av)) DEVICE_DEFAULTS)"

definition switch_entry :: "string \<Rightarrow> string \<Rightarrow> bool \<Rightarrow> uuid \<Rightarrow> row \<Rightarrow> audit_entry" where
  "switch_entry action words turned_on pid r =
     (about_printer action (words @ col_text (get_or_None r ''name'')) pid r)
       \<lparr>en_changes := Some [(''copier_enabled'', from_to (VBool (\<not> turned_on)) (VBool turned_on))]\<rparr>"

definition enable_printer_copier :: "fleet_env \<Rightarrow> uuid \<Rightarrow> fleet \<Rightarrow> (http_error + unit) \<times> fleet" where
  "enable_printer_copier av pid fl =
     (case printer_or_404 pid fl of
        Inl e \<Rightarrow> (Inl e, fl)
      | Inr r \<Rightarrow>
          (case scalar_one_or_none (copiers_of pid fl) of
             Inl e \<Rightarrow> (Inl e, fl)
           | Inr found \<Rightarrow>
               (Inr (), noted av (switch_entry ''printer.enable_copier'' ''Turned on walk-up copy tracking for '' True pid r)
                  (fl\<lparr>fl_devices := fl_devices fl @ (if found = None then [new_copier av pid r] else []),
                      fl_printers := put_row pid (set_col ''copier_enabled'' (VBool True) r) (fl_printers fl)\<rparr>))))"

definition disable_printer_copier :: "fleet_env \<Rightarrow> uuid \<Rightarrow> fleet \<Rightarrow> (http_error + unit) \<times> fleet" where
  "disable_printer_copier av pid fl =
     (case printer_or_404 pid fl of
        Inl e \<Rightarrow> (Inl e, fl)
      | Inr r \<Rightarrow>
          (Inr (), noted av (switch_entry ''printer.disable_copier'' ''Turned off walk-up copy tracking for '' False pid r)
             (fl\<lparr>fl_printers := put_row pid (set_col ''copier_enabled'' (VBool False) r) (fl_printers fl)\<rparr>)))"

subsection \<open>Clearing a queue\<close>

text \<open>\<open>purge_cups_queue\<close> runs its script like the others; its error is the text of a \<open>JobControlError\<close>.\<close>

definition purge_error :: "fleet_env \<Rightarrow> uuid \<Rightarrow> http_error option" where
  "purge_error av pid =
     (case fe_run av [''purge_cups_queue.sh'', pid] of
        FileNotFound \<Rightarrow> Some (Http 502 ''purge_cups_queue.sh not found on the PrintOps server.'')
      | OtherOSError e \<Rightarrow> Some ServerError
      | TimedOut \<Rightarrow> Some (Http 502 ''purge_cups_queue.sh timed out after 15s.'')
      | Exited rc out err \<Rightarrow>
          if rc \<noteq> 0 then
            (let reason = py_strip (if err \<noteq> [] then err else out)
             in Some (Http 502 (if reason \<noteq> [] then reason else ''purge_cups_queue.sh exited '' @ str_int rc @ ''.'')))
          else None)"

definition purged_by :: "string \<Rightarrow> datetime \<Rightarrow> job \<Rightarrow> job" where
  "purged_by username now j =
     j\<lparr>job_status := ''cancelled'', job_error_message := Some (''Cancelled via queue purge by '' @ username),
       job_completed_at := Some now\<rparr>"

definition in_queue :: "uuid \<Rightarrow> job \<Rightarrow> bool" where
  "in_queue pid j \<longleftrightarrow> job_printer_id j = pid \<and> job_status j = ''forwarding''"

definition purge_jobs :: "fleet_env \<Rightarrow> uuid \<Rightarrow> fleet \<Rightarrow> (http_error + nat) \<times> fleet" where
  "purge_jobs av pid fl =
     (case printer_or_404 pid fl of
        Inl e \<Rightarrow> (Inl e, fl)
      | Inr r \<Rightarrow>
          (case purge_error av pid of
             Some e \<Rightarrow> (Inl e, fl)
           | None \<Rightarrow>
               (Inr (length (filter (in_queue pid) (fl_jobs fl))),
                noted av (about_printer ''printer.purge_jobs'' (''Purged the queued jobs on '' @ col_text (get_or_None r ''name'')) pid r)
                  (fl\<lparr>fl_jobs := map (\<lambda>j. if in_queue pid j then purged_by (si_username (av_actor av)) (av_now av) j else j)
                      (fl_jobs fl)\<rparr>))))"

subsection \<open>The copier records (mfp_devices.py)\<close>

definition CONNECTOR_TYPES :: "string list" where
  "CONNECTOR_TYPES =
     [''generic_csv'', ''generic_snmp'', ''canon_department_id'', ''konica_bizhub'', ''kyocera_department_management'',
      ''ricoh_user_code_auth'', ''xerox_standard_accounting'', ''lexmark_accounting'']"

definition CAPABILITY_FIELDS :: "string list" where
  "CAPABILITY_FIELDS =
     [''walkup_copy_accounting'', ''user_code_pin_auth'', ''badge_card_auth'', ''department_id_accounting'', ''ldap_auth'',
      ''local_user_table'', ''remote_user_provisioning'', ''csv_accounting_export'', ''api_accounting_retrieval'',
      ''snmp_meter_counters'', ''scan_accounting'', ''color_mono_accounting'', ''quotas'', ''secure_print_release'']"

definition unknown_connector :: "pyval \<Rightarrow> http_error" where
  "unknown_connector v = Http 422 (''Unknown connector_type: '' @ quoted (col_text v))"

definition linked_printer :: "row \<Rightarrow> uuid option" where
  "linked_printer d = (case get_or_None d ''printer_id'' of VOther pid \<Rightarrow> Some pid | _ \<Rightarrow> None)"

definition sync_copier_flag :: "uuid option \<Rightarrow> fleet \<Rightarrow> fleet" where
  "sync_copier_flag pid fl =
     (case pid of
        None \<Rightarrow> fl
      | Some i \<Rightarrow>
          (case find (is_row i) (fl_printers fl) of
             None \<Rightarrow> fl
           | Some r \<Rightarrow>
               fl\<lparr>fl_printers := put_row i (set_col ''copier_enabled'' (VBool (copiers_of i fl \<noteq> [])) r) (fl_printers fl)\<rparr>))"

definition about_device :: "string \<Rightarrow> string \<Rightarrow> row \<Rightarrow> audit_entry" where
  "about_device action summary d = about action summary ''mfp_device'' (device_id d) (col_text (get_or_None d ''name''))"

definition created_device :: "fleet_env \<Rightarrow> row \<Rightarrow> row" where
  "created_device av payload =
     set_cols
       (filter (\<lambda>(c, v). c \<notin> {''snmp_community'', ''admin_password''}) payload @
        [(''snmp_community_encrypted'', secret_text (fe_encrypt av) (get_or_None payload ''snmp_community'')),
         (''admin_password_encrypted'', secret_text (fe_encrypt av) (get_or_None payload ''admin_password''))])
       (set_col ''id'' (VOther (av_row_id av)) DEVICE_DEFAULTS)"

definition create_mfp_device :: "fleet_env \<Rightarrow> row \<Rightarrow> fleet \<Rightarrow> (http_error + unit) \<times> fleet" where
  "create_mfp_device av payload fl =
     (if col_text (get_or_None payload ''connector_type'') \<notin> set CONNECTOR_TYPES
      then (Inl (unknown_connector (get_or_None payload ''connector_type'')), fl)
      else
        (let d = created_device av payload
         in committed (device_storable d fl) () fl
              (noted av (about_device ''mfp_device.create''
                 (''Added '' @ col_text (get_or_None d ''vendor'') @ '' device '' @ col_text (get_or_None d ''name'')) d)
                (sync_copier_flag (linked_printer d) (fl\<lparr>fl_devices := fl_devices fl @ [d]\<rparr>)))))"

text \<open>A capability left unanswered in the payload is not an answer.\<close>

definition put_capabilities :: "fleet_env \<Rightarrow> row \<Rightarrow> row \<Rightarrow> row" where
  "put_capabilities av payload d =
     (case get_or_None payload ''capabilities'' of
        VDict caps \<Rightarrow>
          set_cols
            (List.map_filter (\<lambda>c. if get_or_None caps c = VNone then None else Some (''cap_'' @ c, get_or_None caps c)) CAPABILITY_FIELDS @
             [(''capabilities_source'', VStr ''manual''), (''capabilities_detected_at'', VOther (fe_stamp av (av_now av)))]) d
      | _ \<Rightarrow> d)"

definition device_updates :: "row \<Rightarrow> row" where
  "device_updates payload =
     blank_clears [''snmp_version'', ''snmp_vendor_profile'', ''default_owner_email'']
       (filter (\<lambda>(c, v). c \<notin> {''snmp_community'', ''admin_password'', ''capabilities''}) payload)"

text \<open>A secret sent as \<open>null\<close> is one not sent.\<close>

definition put_device_secret :: "(string \<Rightarrow> string) \<Rightarrow> string \<Rightarrow> string \<Rightarrow> row \<Rightarrow> row \<Rightarrow> row" where
  "put_device_secret f field column payload d =
     (if get_or_None payload field = VNone then d else set_col column (secret_text f (get_or_None payload field)) d)"

definition updated_device :: "fleet_env \<Rightarrow> row \<Rightarrow> row \<Rightarrow> row" where
  "updated_device av payload d =
     (let updates = device_updates payload;
          d' = (case map_of updates ''default_owner_email'' of
                  None \<Rightarrow> d
                | Some v \<Rightarrow> if v \<noteq> get_or_None d ''default_owner_email''
                    then set_col ''default_owner_attributed_through'' VNone d else d);
          d' = set_cols updates d';
          d' = put_device_secret (fe_encrypt av) ''snmp_community'' ''snmp_community_encrypted'' payload d';
          d' = put_device_secret (fe_encrypt av) ''admin_password'' ''admin_password_encrypted'' payload d'
      in put_capabilities av payload d')"

definition update_known_device :: "fleet_env \<Rightarrow> uuid \<Rightarrow> row \<Rightarrow> row \<Rightarrow> fleet \<Rightarrow> (http_error + unit) \<times> fleet" where
  "update_known_device av i payload old fl =
     (let d = updated_device av payload old;
          changes = row_changes audited_device_columns old d;
          fl' = sync_copier_flag (linked_printer old) (fl\<lparr>fl_devices := put_row i d (fl_devices fl)\<rparr>);
          fl' = (if linked_printer d \<noteq> linked_printer old then sync_copier_flag (linked_printer d) fl' else fl');
          fl' = (if changes = [] then fl'
                 else noted av ((about_device ''mfp_device.update'' (''Updated device '' @ col_text (get_or_None d ''name'')) d)
                   \<lparr>en_changes := Some changes\<rparr>) fl')
      in committed (device_storable d fl) () fl fl')"

definition update_mfp_device :: "fleet_env \<Rightarrow> uuid \<Rightarrow> row \<Rightarrow> fleet \<Rightarrow> (http_error + unit) \<times> fleet" where
  "update_mfp_device av i payload fl =
     (case device_or_404 i fl of
        Inl e \<Rightarrow> (Inl e, fl)
      | Inr old \<Rightarrow>
          (case map_of payload ''connector_type'' of
             Some v \<Rightarrow> if col_text v \<notin> set CONNECTOR_TYPES then (Inl (unknown_connector v), fl) else
               update_known_device av i payload old fl
           | None \<Rightarrow> update_known_device av i payload old fl))"

definition delete_mfp_device :: "fleet_env \<Rightarrow> uuid \<Rightarrow> fleet \<Rightarrow> (http_error + unit) \<times> fleet" where
  "delete_mfp_device av i fl =
     (case device_or_404 i fl of
        Inl e \<Rightarrow> (Inl e, fl)
      | Inr d \<Rightarrow>
          (Inr (), noted av (about_device ''mfp_device.delete'' (''Deleted device '' @ col_text (get_or_None d ''name'')) d)
             (sync_copier_flag (linked_printer d) (fl\<lparr>fl_devices := filter (\<lambda>x. \<not> is_row i x) (fl_devices fl)\<rparr>))))"

text \<open>A linked copier's meter is what the poll of its printer last read; the probe of a copier of its own is a parameter.\<close>

definition METER_COLUMNS :: "string list" where
  "METER_COLUMNS =
     [''page_count_total'', ''page_count_copy'', ''page_count_print'', ''page_count_confidence'',
      ''page_count_vendor_profile_used'', ''page_count_checked_at'', ''page_count_error'']"

definition check_mfp_device_meter :: "(row \<Rightarrow> http_error + row) \<Rightarrow> uuid \<Rightarrow> fleet \<Rightarrow> (http_error + unit) \<times> fleet" where
  "check_mfp_device_meter probe i fl =
     (case device_or_404 i fl of
        Inl e \<Rightarrow> (Inl e, fl)
      | Inr d \<Rightarrow>
          (case (case linked_printer d of None \<Rightarrow> None | Some pid \<Rightarrow> find (is_row pid) (fl_printers fl)) of
             Some r \<Rightarrow>
               (Inr (), fl\<lparr>fl_devices := put_row i (set_cols (map (\<lambda>c. (c, get_or_None r c)) METER_COLUMNS) d) (fl_devices fl)\<rparr>)
           | None \<Rightarrow>
               (case probe d of
                  Inl e \<Rightarrow> (Inl e, fl)
                | Inr meter \<Rightarrow>
                    (Inr (), fl\<lparr>fl_devices := put_row i
                       (set_cols (filter (\<lambda>(c, v). c \<in> set METER_COLUMNS) meter) d) (fl_devices fl)\<rparr>))))"

section \<open>What the endpoints keep\<close>

subsection \<open>Columns after a write\<close>

lemma get_set_col [simp]: "get_or_None (set_col c v r) k = (if k = c then v else get_or_None r k)"
  by (simp add: get_or_None_def set_col_def update_conv')

lemma set_cols_Nil [simp]: "set_cols [] r = r"
  by (simp add: set_cols_def)

lemma set_cols_Cons [simp]: "set_cols ((c, v) # us) r = set_cols us (set_col c v r)"
  by (simp add: set_cols_def)

lemma get_set_cols_other: "k \<notin> fst ` set us \<Longrightarrow> get_or_None (set_cols us r) k = get_or_None r k"
  by (induction us arbitrary: r) auto

lemma get_set_cols:
  "distinct (map fst us) \<Longrightarrow> get_or_None (set_cols us r) k = (case map_of us k of None \<Rightarrow> get_or_None r k | Some v \<Rightarrow> v)"
proof (induction us arbitrary: r)
  case (Cons u us)
  obtain c v where u: "u = (c, v)" by (cases u)
  show ?case
  proof (cases "c = k")
    case True
    then have "map_of us k = None" using Cons.prems u by (simp add: map_of_eq_None_iff)
    then show ?thesis using Cons u True by simp
  next
    case False
    then show ?thesis using Cons u by (simp split: option.splits)
  qed
qed simp

lemma is_row_set_col [simp]: "c \<noteq> ''id'' \<Longrightarrow> is_row i (set_col c v r) = is_row i r"
  by (simp add: is_row_def)

text \<open>The columns the promises are about.\<close>

definition KEPT :: "string list" where
  "KEPT = [''id'', ''is_virtual'', ''follow_me_enabled'', ''release_required'', ''release_token'', ''copier_enabled'']"

definition same_kept :: "row \<Rightarrow> row \<Rightarrow> bool" where
  "same_kept r r' \<longleftrightarrow> (\<forall>c \<in> set KEPT. get_or_None r' c = get_or_None r c)"

lemma same_kept_refl [simp]: "same_kept r r"
  by (simp add: same_kept_def)

lemma same_kept_set_col: "c \<notin> set KEPT \<Longrightarrow> same_kept r (set_col c v r') = same_kept r r'"
  by (auto simp: same_kept_def)

lemma same_kept_set_cols: "fst ` set us \<inter> set KEPT = {} \<Longrightarrow> same_kept r (set_cols us r') = same_kept r r'"
proof -
  assume "fst ` set us \<inter> set KEPT = {}"
  then have "get_or_None (set_cols us r') c = get_or_None r' c" if "c \<in> set KEPT" for c
    using that by (intro get_set_cols_other) blast
  then show ?thesis by (simp add: same_kept_def)
qed

subsection \<open>The invariant\<close>

definition is_bool :: "pyval \<Rightarrow> bool" where
  "is_bool v \<longleftrightarrow> (case v of VBool b \<Rightarrow> True | _ \<Rightarrow> False)"

definition printer_ok :: "row \<Rightarrow> bool" where
  "printer_ok r \<longleftrightarrow>
     is_bool (get_or_None r ''follow_me_enabled'') \<and> is_bool (get_or_None r ''release_required'') \<and>
     (py_truth (get_or_None r ''is_virtual'') \<longrightarrow>
        get_or_None r ''follow_me_enabled'' = VBool True \<and> get_or_None r ''release_required'' = VBool False) \<and>
     (py_truth (get_or_None r ''release_required'') \<or> py_truth (get_or_None r ''follow_me_enabled'') \<longrightarrow>
        py_truth (get_or_None r ''release_token''))"

definition has_copier :: "row \<Rightarrow> fleet \<Rightarrow> bool" where
  "has_copier r fl \<longleftrightarrow> (\<exists>d \<in> set (fl_devices fl). get_or_None d ''printer_id'' = get_or_None r ''id'')"

definition identified :: "row list \<Rightarrow> bool" where
  "identified rows \<longleftrightarrow> distinct (map (\<lambda>r. get_or_None r ''id'') rows) \<and> (\<forall>r \<in> set rows. \<exists>i. get_or_None r ''id'' = VOther i)"

definition fleet_ok :: "fleet \<Rightarrow> bool" where
  "fleet_ok fl \<longleftrightarrow> identified (fl_printers fl) \<and> identified (fl_devices fl) \<and>
     (\<forall>r \<in> set (fl_printers fl). printer_ok r \<and> (py_truth (get_or_None r ''copier_enabled'') \<longrightarrow> has_copier r fl))"

lemma noted_tables [simp]:
  "fl_printers (noted av en fl) = fl_printers fl" "fl_devices (noted av en fl) = fl_devices fl" "fl_jobs (noted av en fl) = fl_jobs fl"
  by (simp_all add: noted_def)

lemma fleet_ok_tables:
  "fl_printers fl' = fl_printers fl \<Longrightarrow> fl_devices fl' = fl_devices fl \<Longrightarrow> fleet_ok fl' = fleet_ok fl"
  by (simp add: fleet_ok_def has_copier_def)

lemma fleet_ok_noted [simp]: "fleet_ok (noted av en fl) = fleet_ok fl"
  by (rule fleet_ok_tables) simp_all

lemma same_kept_ok: "same_kept r r' \<Longrightarrow> printer_ok r \<Longrightarrow> printer_ok r'"
  by (simp add: same_kept_def printer_ok_def KEPT_def)

lemma put_row_ids: "is_row i r \<Longrightarrow> map (\<lambda>r. get_or_None r ''id'') (put_row i r rows) = map (\<lambda>r. get_or_None r ''id'') rows"
  by (auto simp: put_row_def is_row_def)

lemma put_row_identified: "is_row i r \<Longrightarrow> identified rows \<Longrightarrow> identified (put_row i r rows)"
  unfolding identified_def by (simp only: put_row_ids) (auto simp: put_row_def is_row_def)

lemma found_row: "find (is_row i) rows = Some r \<Longrightarrow> r \<in> set rows \<and> is_row i r"
  by (auto simp: find_Some_iff)

lemma put_printer_ok:
  assumes "fleet_ok fl" "is_row pid r" "printer_ok r" "py_truth (get_or_None r ''copier_enabled'') \<Longrightarrow> has_copier r fl"
  shows "fleet_ok (fl\<lparr>fl_printers := put_row pid r (fl_printers fl)\<rparr>)"
  using assms put_row_identified[OF assms(2)]
  by (auto simp: fleet_ok_def has_copier_def) (auto simp: put_row_def split: if_splits)

lemma rewritten_ok:
  assumes "fleet_ok fl" "find (is_row pid) (fl_printers fl) = Some r" "same_kept r r'"
  shows "fleet_ok (fl\<lparr>fl_printers := put_row pid r' (fl_printers fl)\<rparr>)"
proof (rule put_printer_ok[OF assms(1)])
  note r = found_row[OF assms(2)]
  then show "is_row pid r'" "printer_ok r'" using assms(1,3)
    by (auto simp: is_row_def same_kept_def KEPT_def fleet_ok_def intro: same_kept_ok[OF assms(3)])
  show "has_copier r' fl" if "py_truth (get_or_None r' ''copier_enabled'')"
    using r that assms(1,3) by (simp add: same_kept_def KEPT_def fleet_ok_def has_copier_def)
qed

lemma committed_ok: "fleet_ok before \<Longrightarrow> (ok \<Longrightarrow> fleet_ok after) \<Longrightarrow> fleet_ok (snd (committed ok a before after))"
  by (simp add: committed_def)

lemma apply_queue_sync_ok: "fleet_ok fl \<Longrightarrow> fleet_ok (snd (apply_queue_sync av pid fl))"
  by (auto simp: apply_queue_sync_def same_kept_set_col KEPT_def intro!: rewritten_ok split: option.splits)

lemma then_sync_ok: "fleet_ok (snd res) \<Longrightarrow> fleet_ok (snd (then_sync av pid res))"
  by (auto simp: then_sync_def intro: apply_queue_sync_ok split: sum.splits prod.splits)

lemma rewrite_ok:
  "fleet_ok fl \<Longrightarrow> find (is_row pid) (fl_printers fl) = Some r \<Longrightarrow> same_kept r r' \<Longrightarrow> fleet_ok (snd (rewrite av pid en r' fl))"
  unfolding rewrite_def by (rule committed_ok) (auto intro: rewritten_ok)

lemma printer_or_404_Inr: "printer_or_404 pid fl = Inr r \<longleftrightarrow> find (is_row pid) (fl_printers fl) = Some r"
  by (simp add: printer_or_404_def split: option.splits)

lemma device_or_404_Inr: "device_or_404 i fl = Inr d \<longleftrightarrow> find (is_row i) (fl_devices fl) = Some d"
  by (simp add: device_or_404_def split: option.splits)

subsection \<open>Each endpoint keeps it\<close>

definition DISCOVERED_FIELDS :: "string list" where
  "DISCOVERED_FIELDS =
     [''pending_redirect'', ''port'', ''use_tls'', ''capabilities'', ''capabilities_raw'', ''capabilities_detected_at'',
      ''capabilities_error'', ''ipp_path_detected'', ''model'']"

definition env_ok :: "fleet_env \<Rightarrow> bool" where
  "env_ok av \<longleftrightarrow> fe_token av \<noteq> [] \<and> (\<forall>r. fst ` set (fe_discover av r) \<subseteq> set DISCOVERED_FIELDS)"

lemma defaults_kept:
  "get_or_None PRINTER_DEFAULTS ''is_virtual'' = VBool False" "get_or_None PRINTER_DEFAULTS ''follow_me_enabled'' = VBool False"
  "get_or_None PRINTER_DEFAULTS ''release_required'' = VBool False" "get_or_None PRINTER_DEFAULTS ''copier_enabled'' = VBool False"
  by code_simp+

lemma create_fields_kept: "set CREATE_FIELDS \<inter> set KEPT = {}" "set DISCOVERED_FIELDS \<inter> set KEPT = {}"
  by code_simp+

lemma discovered_kept: "env_ok av \<Longrightarrow> same_kept r (set_cols (fe_discover av r') r'') = same_kept r r''"
  using create_fields_kept(2) by (intro same_kept_set_cols) (auto simp: env_ok_def)

lemma created_row_ok:
  assumes "env_ok av"
  shows "printer_ok (created_row av payload)" "is_row (av_row_id av) (created_row av payload)"
    "get_or_None (created_row av payload) ''copier_enabled'' = VBool False"
proof -
  define fresh where "fresh = set_col ''id'' (VOther (av_row_id av)) PRINTER_DEFAULTS"
  have plain: "''ip_address'' \<notin> set KEPT" "''snmp_community_encrypted'' \<notin> set KEPT" "''roll_autocut'' \<notin> set KEPT"
    by code_simp+
  have "same_kept fresh (created_row av payload)"
    unfolding created_row_def fresh_def[symmetric] Let_def same_kept_set_col[OF plain(1)] same_kept_set_col[OF plain(2)]
      same_kept_set_col[OF plain(3)] discovered_kept[OF assms]
    by (subst same_kept_set_cols) (simp_all add: image_image create_fields_kept)
  then have kept: "c \<in> set KEPT \<Longrightarrow> get_or_None (created_row av payload) c = get_or_None fresh c" for c
    by (simp add: same_kept_def)
  have cols: "get_or_None (created_row av payload) ''is_virtual'' = VBool False"
    "get_or_None (created_row av payload) ''follow_me_enabled'' = VBool False"
    "get_or_None (created_row av payload) ''release_required'' = VBool False"
    "get_or_None (created_row av payload) ''copier_enabled'' = VBool False"
    "get_or_None (created_row av payload) ''id'' = VOther (av_row_id av)"
    by (subst kept; simp add: KEPT_def fresh_def defaults_kept)+
  show "printer_ok (created_row av payload)" "is_row (av_row_id av) (created_row av payload)"
    "get_or_None (created_row av payload) ''copier_enabled'' = VBool False"
    by (simp_all add: printer_ok_def is_row_def is_bool_def cols)
qed

lemma virtual_row_ok:
  assumes "env_ok av"
  shows "printer_ok (virtual_row av payload)" "is_row (av_row_id av) (virtual_row av payload)"
    "get_or_None (virtual_row av payload) ''copier_enabled'' = VBool False"
  using assms by (simp_all add: virtual_row_def printer_ok_def is_row_def is_bool_def env_ok_def defaults_kept)

lemma add_printer_ok:
  assumes "fleet_ok fl" "printer_ok r" "is_row (av_row_id av) r" "get_or_None r ''copier_enabled'' = VBool False"
    "VOther (av_row_id av) \<notin> (\<lambda>r. get_or_None r ''id'') ` set (fl_printers fl)"
  shows "fleet_ok (snd (add_printer av action summary r fl))"
  unfolding add_printer_def using assms
  by (intro then_sync_ok committed_ok) (auto simp: fleet_ok_def identified_def has_copier_def is_row_def)

text \<open>What the schemas let through: the fields of \<open>PrinterUpdate\<close>, each at most once, truth values where those belong.\<close>

definition UPDATE_FIELDS :: "string list" where
  "UPDATE_FIELDS =
     [''name'', ''ip_address'', ''port'', ''use_tls'', ''ipp_path'', ''airprint_enabled'', ''manufacturer'', ''model'', ''hostname'',
      ''serial_number'', ''building'', ''room'', ''department'', ''notes'', ''release_required'', ''follow_me_enabled'',
      ''roll_autocut'', ''quota_mode'', ''snmp_enabled'', ''snmp_port'', ''snmp_version'', ''snmp_community'',
      ''snmp_vendor_profile'', ''ldap_enabled'', ''ldap_bind_username'', ''ldap_bind_password'', ''web_login_username'',
      ''web_login_password'', ''scan_email_address'', ''scan_password'']"

definition update_ok :: "row \<Rightarrow> bool" where
  "update_ok payload \<longleftrightarrow> distinct (map fst payload) \<and> fst ` set payload \<subseteq> set UPDATE_FIELDS \<and>
     (\<forall>c \<in> {''release_required'', ''follow_me_enabled''}.
        get_or_None payload c = VNone \<or> is_bool (get_or_None payload c))"

lemma plain_updates_keys: "fst ` set (plain_updates payload) = fst ` set payload - set SECRET_FIELDS"
  by (force simp: plain_updates_def blank_clears_def image_iff)

lemma plain_updates_distinct: "distinct (map fst payload) \<Longrightarrow> distinct (map fst (plain_updates payload))"
  by (simp add: plain_updates_def blank_clears_def distinct_map_filter comp_def case_prod_unfold)

lemma map_of_other_keys: "c \<notin> S \<Longrightarrow> map_of (filter (\<lambda>(c, v). c \<notin> S) kvs) c = map_of kvs c"
  by (induction kvs) auto

lemma map_of_blank_clears: "c \<notin> set names \<Longrightarrow> map_of (blank_clears names kvs) c = map_of kvs c"
  by (induction kvs) (auto simp: blank_clears_def)

lemma map_of_rewritten: "c \<noteq> k \<Longrightarrow> map_of (map (\<lambda>(c, v). (c, if c = k \<and> P v then f v else v)) kvs) c = map_of kvs c"
  by (induction kvs) auto

lemma map_of_plain_updates:
  "c \<notin> set SECRET_FIELDS \<Longrightarrow> c \<notin> set [''snmp_version'', ''snmp_port'', ''snmp_vendor_profile'', ''ldap_bind_username''] \<Longrightarrow>
   c \<noteq> ''ip_address'' \<Longrightarrow> map_of (plain_updates payload) c = map_of payload c"
  unfolding plain_updates_def
  by (subst map_of_other_keys, assumption, subst map_of_blank_clears, assumption,
      rule map_of_rewritten[where k = "''ip_address''" and P = "\<lambda>v. v \<noteq> VNone" and f = "\<lambda>v. VStr (col_text v)"], assumption)

lemma update_fields_kept: "list_all (\<lambda>c. c \<in> set UPDATE_FIELDS \<longrightarrow> c = ''follow_me_enabled'' \<or> c = ''release_required'') KEPT"
  by code_simp

definition with_secrets :: "fleet_env \<Rightarrow> row \<Rightarrow> row \<Rightarrow> row" where
  "with_secrets av payload r =
     put_secret (fe_hash av) ''ldap_bind_password'' ''ldap_bind_password_hash'' payload
       (put_secret (fe_encrypt av) ''scan_password'' ''scan_password_encrypted'' payload
         (put_secret (fe_encrypt av) ''web_login_password'' ''web_login_password_encrypted'' payload
           (put_secret (fe_encrypt av) ''snmp_community'' ''snmp_community_encrypted'' payload (set_cols (plain_updates payload) r))))"

lemma get_put_secret: "c \<noteq> column \<Longrightarrow> get_or_None (put_secret f field column payload r) c = get_or_None r c"
  by (simp add: put_secret_def split: option.splits)

lemma with_secrets_kept:
  assumes "update_ok payload" "c \<in> set KEPT"
  shows "get_or_None (with_secrets av payload r) c =
    (if c \<in> {''follow_me_enabled'', ''release_required''}
     then (case map_of payload c of None \<Rightarrow> get_or_None r c | Some v \<Rightarrow> v) else get_or_None r c)"
proof -
  have "c \<notin> {''snmp_community_encrypted'', ''web_login_password_encrypted'', ''scan_password_encrypted'', ''ldap_bind_password_hash''}"
    using assms(2) by (auto simp: KEPT_def)
  then have plain: "get_or_None (with_secrets av payload r) c = get_or_None (set_cols (plain_updates payload) r) c"
    by (simp add: with_secrets_def get_put_secret)
  show ?thesis
  proof (cases "c \<in> {''follow_me_enabled'', ''release_required''}")
    case True
    then have "map_of (plain_updates payload) c = map_of payload c"
      by (intro map_of_plain_updates) (auto simp: SECRET_FIELDS_def)
    with True show ?thesis using assms(1)
      by (simp add: plain get_set_cols plain_updates_distinct update_ok_def)
  next
    case False
    have "c \<notin> fst ` set (plain_updates payload)"
      using assms False update_fields_kept by (auto simp: plain_updates_keys update_ok_def list_all_iff)
    with False show ?thesis by (simp add: plain get_set_cols_other)
  qed
qed

lemma updated_printer_eq:
  "updated_printer av payload r =
    (let r' = with_secrets av payload r
     in if (py_truth (get_or_None r' ''release_required'') \<or> py_truth (get_or_None r' ''follow_me_enabled'')) \<and>
           \<not> py_truth (get_or_None r' ''release_token'')
        then set_col ''release_token'' (VStr (fe_token av)) r' else r')"
  by (simp add: updated_printer_def with_secrets_def Let_def)

lemma storable_bools:
  "printer_storable pid r fl \<Longrightarrow> get_or_None r ''follow_me_enabled'' \<noteq> VNone \<and> get_or_None r ''release_required'' \<noteq> VNone"
  by (simp add: printer_storable_def PRINTER_NOT_NULL_def)

lemma updated_printer_ok:
  assumes "env_ok av" "update_ok payload" "printer_ok r" "refused_for_virtual payload r = None"
    "printer_storable pid (updated_printer av payload r) fl"
  shows "printer_ok (updated_printer av payload r) \<and>
    get_or_None (updated_printer av payload r) ''id'' = get_or_None r ''id'' \<and>
    get_or_None (updated_printer av payload r) ''copier_enabled'' = get_or_None r ''copier_enabled''"
proof -
  define r' where "r' = with_secrets av payload r"
  have cols: "get_or_None r' ''is_virtual'' = get_or_None r ''is_virtual''" "get_or_None r' ''id'' = get_or_None r ''id''"
    "get_or_None r' ''copier_enabled'' = get_or_None r ''copier_enabled''"
    "get_or_None r' ''release_token'' = get_or_None r ''release_token''"
    "get_or_None r' ''follow_me_enabled'' =
      (case map_of payload ''follow_me_enabled'' of None \<Rightarrow> get_or_None r ''follow_me_enabled'' | Some v \<Rightarrow> v)"
    "get_or_None r' ''release_required'' =
      (case map_of payload ''release_required'' of None \<Rightarrow> get_or_None r ''release_required'' | Some v \<Rightarrow> v)"
    unfolding r'_def by (subst with_secrets_kept[OF assms(2)]; simp add: KEPT_def)+
  have up: "updated_printer av payload r =
      (if (py_truth (get_or_None r' ''release_required'') \<or> py_truth (get_or_None r' ''follow_me_enabled'')) \<and>
          \<not> py_truth (get_or_None r' ''release_token'')
       then set_col ''release_token'' (VStr (fe_token av)) r' else r')"
    by (simp add: updated_printer_eq r'_def Let_def)
  have set: "get_or_None r' ''follow_me_enabled'' \<noteq> VNone" "get_or_None r' ''release_required'' \<noteq> VNone"
    using storable_bools[OF assms(5)] by (simp_all add: up split: if_splits)
  have sent: "get_or_None payload ''follow_me_enabled'' = VNone \<or> is_bool (get_or_None payload ''follow_me_enabled'')"
    "get_or_None payload ''release_required'' = VNone \<or> is_bool (get_or_None payload ''release_required'')"
    using assms(2) by (simp_all add: update_ok_def)
  have was_bool: "is_bool (get_or_None r ''follow_me_enabled'')" "is_bool (get_or_None r ''release_required'')"
    using assms(3) by (simp_all add: printer_ok_def)
  have bools: "is_bool (get_or_None r' ''follow_me_enabled'')" "is_bool (get_or_None r' ''release_required'')"
    using set sent was_bool by (simp_all add: cols(5,6) get_or_None_def[of payload] split: option.splits)
  have virtual: "get_or_None r' ''follow_me_enabled'' = VBool True \<and> get_or_None r' ''release_required'' = VBool False"
    if v: "py_truth (get_or_None r ''is_virtual'')"
  proof
    have asked: "get_or_None payload ''follow_me_enabled'' \<noteq> VBool False" "get_or_None payload ''release_required'' \<noteq> VBool True"
      using assms(4) v by (auto simp: refused_for_virtual_def split: if_splits)
    have was: "get_or_None r ''follow_me_enabled'' = VBool True" "get_or_None r ''release_required'' = VBool False"
      using assms(3) v by (simp_all add: printer_ok_def)
    show "get_or_None r' ''follow_me_enabled'' = VBool True" "get_or_None r' ''release_required'' = VBool False"
      using bools asked was
      by (simp_all add: cols(5,6) get_or_None_def[of payload] is_bool_def split: option.splits pyval.splits)
  qed
  show ?thesis
    using bools assms(1) virtual by (simp add: up printer_ok_def cols(1-4) env_ok_def)
qed

subsection \<open>The flag follows the rows\<close>

text \<open>The invariant, but for printers whose flag is still to be brought in line.\<close>

definition fleet_ok_but :: "uuid set \<Rightarrow> fleet \<Rightarrow> bool" where
  "fleet_ok_but stale fl \<longleftrightarrow> identified (fl_printers fl) \<and> identified (fl_devices fl) \<and>
     (\<forall>r \<in> set (fl_printers fl). printer_ok r \<and>
        (py_truth (get_or_None r ''copier_enabled'') \<longrightarrow> has_copier r fl \<or> get_or_None r ''id'' \<in> VOther ` stale))"

lemma fleet_ok_but_none: "fleet_ok_but {} fl = fleet_ok fl"
  by (simp add: fleet_ok_but_def fleet_ok_def)

lemma copiers_of_has: "get_or_None r ''id'' = VOther i \<Longrightarrow> copiers_of i fl \<noteq> [] \<longleftrightarrow> has_copier r fl"
  by (auto simp: copiers_of_def has_copier_def filter_empty_conv)

lemma has_copier_printers [simp]: "has_copier r (fl\<lparr>fl_printers := ps\<rparr>) = has_copier r fl"
  by (simp add: has_copier_def)

lemma sync_copier_flag_ok:
  assumes "fleet_ok_but stale fl" "stale \<subseteq> insert i left"
  shows "fleet_ok_but left (sync_copier_flag (Some i) fl)"
proof (cases "find (is_row i) (fl_printers fl)")
  case None
  then have "\<not> is_row i r" if "r \<in> set (fl_printers fl)" for r using that by (auto simp: find_None_iff)
  then show ?thesis using assms None by (fastforce simp: sync_copier_flag_def fleet_ok_but_def is_row_def)
next
  case (Some r)
  define r' where "r' = set_col ''copier_enabled'' (VBool (copiers_of i fl \<noteq> [])) r"
  note r = found_row[OF Some]
  have i: "get_or_None r ''id'' = VOther i" "get_or_None r' ''id'' = VOther i" using r by (simp_all add: is_row_def r'_def)
  have ok: "printer_ok r'" using assms(1) r by (simp add: fleet_ok_but_def r'_def printer_ok_def)
  have flag: "py_truth (get_or_None r' ''copier_enabled'') \<longleftrightarrow> has_copier r' fl"
  proof -
    have "py_truth (get_or_None r' ''copier_enabled'') \<longleftrightarrow> copiers_of i fl \<noteq> []" by (simp add: r'_def)
    then show ?thesis using copiers_of_has[OF i(2)] by blast
  qed
  have fl': "sync_copier_flag (Some i) fl = fl\<lparr>fl_printers := put_row i r' (fl_printers fl)\<rparr>"
    by (simp add: sync_copier_flag_def Some r'_def)
  have "is_row i r'" using i by (simp add: is_row_def)
  then have "identified (put_row i r' (fl_printers fl))"
    using assms(1) by (intro put_row_identified) (simp_all add: fleet_ok_but_def)
  moreover have "printer_ok x \<and> (py_truth (get_or_None x ''copier_enabled'') \<longrightarrow> has_copier x fl \<or> get_or_None x ''id'' \<in> VOther ` left)"
    if "x \<in> set (put_row i r' (fl_printers fl))" for x
    using that assms ok flag by (fastforce simp: put_row_def fleet_ok_but_def is_row_def split: if_splits)
  ultimately show ?thesis using assms(1) by (simp add: fl' fleet_ok_but_def)
qed

lemma sync_copier_flag_keeps: "fleet_ok_but left fl \<Longrightarrow> fleet_ok_but left (sync_copier_flag l fl)"
  by (cases l) (auto intro: sync_copier_flag_ok simp: sync_copier_flag_def[of None])

lemma sync_copier_flag_done:
  "fleet_ok_but (set_option l) fl \<Longrightarrow> fleet_ok_but {} (sync_copier_flag l fl)"
  by (cases l) (auto intro: sync_copier_flag_ok simp: sync_copier_flag_def[of None])

lemma linked_printer_eq: "get_or_None d ''printer_id'' = VOther i \<longleftrightarrow> linked_printer d = Some i"
  by (auto simp: linked_printer_def split: pyval.splits)

text \<open>Copier records that change in nothing but their other columns.\<close>

lemma same_links_ok:
  assumes "map (\<lambda>d. (get_or_None d ''id'', get_or_None d ''printer_id'')) ds =
    map (\<lambda>d. (get_or_None d ''id'', get_or_None d ''printer_id'')) (fl_devices fl)"
  shows "fleet_ok (fl\<lparr>fl_devices := ds\<rparr>) = fleet_ok fl"
proof -
  have ids: "map (\<lambda>d. get_or_None d ''id'') ds = map (\<lambda>d. get_or_None d ''id'') (fl_devices fl)"
    using arg_cong[OF assms, of "map fst"] by (simp add: comp_def)
  have "map (\<lambda>d. get_or_None d ''printer_id'') ds = map (\<lambda>d. get_or_None d ''printer_id'') (fl_devices fl)"
    using arg_cong[OF assms, of "map snd"] by (simp add: comp_def)
  then have links: "(\<lambda>d. get_or_None d ''printer_id'') ` set ds = (\<lambda>d. get_or_None d ''printer_id'') ` set (fl_devices fl)"
    by (metis list.set_map)
  have "(\<lambda>d. get_or_None d ''id'') ` set ds = (\<lambda>d. get_or_None d ''id'') ` set (fl_devices fl)"
    using ids by (metis list.set_map)
  then have "(\<forall>d \<in> set ds. \<exists>i. get_or_None d ''id'' = VOther i) \<longleftrightarrow> (\<forall>d \<in> set (fl_devices fl). \<exists>i. get_or_None d ''id'' = VOther i)"
    by (metis (no_types, lifting) image_iff)
  then have "identified ds \<longleftrightarrow> identified (fl_devices fl)" by (simp add: identified_def ids)
  moreover have "has_copier r (fl\<lparr>fl_devices := ds\<rparr>) \<longleftrightarrow> has_copier r fl" for r
    using links by (simp add: has_copier_def) (metis (no_types, lifting) image_iff)
  ultimately show ?thesis by (simp add: fleet_ok_def)
qed

lemma put_device_ok:
  assumes "fleet_ok fl" "find (is_row i) (fl_devices fl) = Some d" "get_or_None d' ''id'' = get_or_None d ''id''"
    "get_or_None d' ''printer_id'' = get_or_None d ''printer_id''"
  shows "fleet_ok (fl\<lparr>fl_devices := put_row i d' (fl_devices fl)\<rparr>)"
proof (subst same_links_ok)
  have "x = d" if "x \<in> set (fl_devices fl)" "is_row i x" for x
    using assms(1) found_row[OF assms(2)] that
    by (auto simp: fleet_ok_def identified_def is_row_def distinct_map intro: inj_onD[of "\<lambda>d. get_or_None d ''id''"])
  then show "map (\<lambda>d. (get_or_None d ''id'', get_or_None d ''printer_id'')) (put_row i d' (fl_devices fl)) =
    map (\<lambda>d. (get_or_None d ''id'', get_or_None d ''printer_id'')) (fl_devices fl)"
    using assms(3,4) by (auto simp: put_row_def)
qed (fact assms(1))

lemma mirror_ok:
  assumes "fleet_ok fl"
  shows "fleet_ok (mirror_to_copier pid r changed fl)"
proof (cases "copiers_of pid fl")
  case (Cons d ds)
  then have d: "d \<in> set (fl_devices fl)" by (auto simp: copiers_of_def dest!: filter_eq_ConsD)
  then obtain i where i: "get_or_None d ''id'' = VOther i" using assms by (auto simp: fleet_ok_def identified_def)
  have "\<exists>x. find (is_row i) (fl_devices fl) = Some x"
    using d i by (auto simp: find_None_iff is_row_def simp flip: not_None_eq)
  then obtain x where x: "find (is_row i) (fl_devices fl) = Some x" by blast
  then have "x = d" using assms found_row[OF x] d i
    by (auto simp: fleet_ok_def identified_def is_row_def distinct_map intro: inj_onD[of "\<lambda>d. get_or_None d ''id''"])
  define shared where "shared = filter (\<lambda>c. c \<in> set changed) SHARED_WITH_COPIER"
  define d' where "d' = set_cols (map (\<lambda>c. (c, get_or_None r c)) shared) d"
  have "''id'' \<notin> set SHARED_WITH_COPIER" "''printer_id'' \<notin> set SHARED_WITH_COPIER" by code_simp+
  then have "get_or_None d' ''id'' = get_or_None d ''id''" "get_or_None d' ''printer_id'' = get_or_None d ''printer_id''"
    unfolding d'_def by (auto simp: shared_def image_image intro!: get_set_cols_other)
  then have "fleet_ok (fl\<lparr>fl_devices := put_row i d' (fl_devices fl)\<rparr>)"
    using x \<open>x = d\<close> by (intro put_device_ok[OF assms]) simp_all
  moreover have "mirror_to_copier pid r changed fl =
      (if shared = [] then fl else fl\<lparr>fl_devices := put_row i d' (fl_devices fl)\<rparr>)"
    unfolding mirror_to_copier_def shared_def[symmetric] d'_def Cons by (cases shared) (simp_all add: device_id_def i)
  ultimately show ?thesis using assms by simp
qed (use assms in \<open>auto simp: mirror_to_copier_def split: list.splits\<close>)

subsection \<open>Any run of requests\<close>

datatype fleet_request =
    Create_Printer row
  | Create_Virtual row
  | Update_Printer uuid row
  | Delete_Printer uuid
  | Archive uuid
  | Unarchive uuid
  | Discover uuid
  | Resync uuid
  | Regenerate uuid
  | Confirm uuid
  | Dismiss uuid
  | Enable_Copier uuid
  | Disable_Copier uuid
  | Purge uuid
  | Create_Device row
  | Update_Device uuid row
  | Delete_Device uuid
  | Check_Meter "row \<Rightarrow> http_error + row" uuid

fun fleet_step :: "fleet_env \<Rightarrow> fleet_request \<Rightarrow> fleet \<Rightarrow> fleet" where
  "fleet_step av (Create_Printer payload) fl = snd (create_printer av payload fl)"
| "fleet_step av (Create_Virtual payload) fl = snd (create_virtual_queue av payload fl)"
| "fleet_step av (Update_Printer i payload) fl = snd (update_printer av i payload fl)"
| "fleet_step av (Delete_Printer i) fl = snd (delete_printer av i fl)"
| "fleet_step av (Archive i) fl = snd (archive_printer av i fl)"
| "fleet_step av (Unarchive i) fl = snd (unarchive_printer av i fl)"
| "fleet_step av (Discover i) fl = snd (discover_printer av i fl)"
| "fleet_step av (Resync i) fl = snd (resync_queue av i fl)"
| "fleet_step av (Regenerate i) fl = snd (regenerate_release_token av i fl)"
| "fleet_step av (Confirm i) fl = snd (confirm_redirect av i fl)"
| "fleet_step av (Dismiss i) fl = snd (dismiss_redirect av i fl)"
| "fleet_step av (Enable_Copier i) fl = snd (enable_printer_copier av i fl)"
| "fleet_step av (Disable_Copier i) fl = snd (disable_printer_copier av i fl)"
| "fleet_step av (Purge i) fl = snd (purge_jobs av i fl)"
| "fleet_step av (Create_Device payload) fl = snd (create_mfp_device av payload fl)"
| "fleet_step av (Update_Device i payload) fl = snd (update_mfp_device av i payload fl)"
| "fleet_step av (Delete_Device i) fl = snd (delete_mfp_device av i fl)"
| "fleet_step av (Check_Meter probe i) fl = snd (check_mfp_device_meter probe i fl)"

text \<open>A copier's payload never names its id; new rows get an id no row has.\<close>

definition sensible :: "fleet_env \<Rightarrow> fleet_request \<Rightarrow> fleet \<Rightarrow> bool" where
  "sensible av r fl \<longleftrightarrow> env_ok av \<and>
     VOther (av_row_id av) \<notin> (\<lambda>r. get_or_None r ''id'') ` (set (fl_printers fl) \<union> set (fl_devices fl)) \<and>
     (case r of
        Update_Printer i payload \<Rightarrow> update_ok payload
      | Create_Device payload \<Rightarrow> ''id'' \<notin> fst ` set payload
      | Update_Device i payload \<Rightarrow> ''id'' \<notin> fst ` set payload
      | _ \<Rightarrow> True)"

inductive fleet_reach :: "fleet \<Rightarrow> bool" where
  new_fleet: "fl_printers fl = [] \<Longrightarrow> fl_devices fl = [] \<Longrightarrow> fleet_reach fl"
| served: "fleet_reach fl \<Longrightarrow> sensible av r fl \<Longrightarrow> fleet_reach (fleet_step av r fl)"

lemma update_printer_ok:
  assumes "fleet_ok fl" "env_ok av" "update_ok payload"
  shows "fleet_ok (snd (update_printer av pid payload fl))"
proof (cases "find (is_row pid) (fl_printers fl)")
  case None
  then show ?thesis using assms(1) by (simp add: update_printer_def printer_or_404_def)
next
  case (Some old)
  then have old: "printer_or_404 pid fl = Inr old" by (simp add: printer_or_404_Inr)
  show ?thesis
  proof (cases "refused_for_virtual payload old")
    case None
    define r where "r = updated_printer av payload old"
    have ok: "fleet_ok (mirror_to_copier pid r (map fst (plain_updates payload)) (fl\<lparr>fl_printers := put_row pid r (fl_printers fl)\<rparr>))"
      if storable: "printer_storable pid r fl"
    proof -
      note f = found_row[OF Some]
      have "printer_ok old" using assms(1) f by (simp add: fleet_ok_def)
      note r = updated_printer_ok[OF assms(2,3) this None storable[unfolded r_def], folded r_def]
      have "is_row pid r" using r f by (simp add: is_row_def)
      moreover have "has_copier r fl" if "py_truth (get_or_None r ''copier_enabled'')"
        using that r f assms(1) by (simp add: fleet_ok_def has_copier_def)
      ultimately show ?thesis using r by (intro mirror_ok put_printer_ok[OF assms(1)]) simp_all
    qed
    define res where "res = committed (printer_storable pid r fl) () fl
      (let fl' = mirror_to_copier pid r (map fst (plain_updates payload)) (fl\<lparr>fl_printers := put_row pid r (fl_printers fl)\<rparr>)
       in if row_changes audited_printer_columns old r = [] then fl'
          else noted av ((about_printer ''printer.update'' (''Updated printer '' @ col_text (get_or_None r ''name'')) pid r)
            \<lparr>en_changes := Some (row_changes audited_printer_columns old r)\<rparr>) fl')"
    have "fleet_ok (snd res)" unfolding res_def using assms(1) ok by (intro committed_ok) (simp_all add: Let_def)
    moreover have "update_printer av pid payload fl =
        (if list_ex (\<lambda>c. c \<in> set (map fst (plain_updates payload))) QUEUE_AFFECTING_FIELDS then then_sync av pid res else res)"
      by (simp only: update_printer_def old None res_def r_def Let_def sum.case option.case)
    ultimately show ?thesis by (simp add: then_sync_ok)
  qed (use assms(1) old in \<open>simp add: update_printer_def\<close>)
qed

lemma delete_printer_ok: "fleet_ok fl \<Longrightarrow> fleet_ok (snd (delete_printer av pid fl))"
proof (cases "printer_or_404 pid fl")
  case (Inr r)
  assume ok: "fleet_ok fl"
  define unlinked where "unlinked = (\<lambda>d. if get_or_None d ''printer_id'' = VOther pid then set_col ''printer_id'' VNone d else d)"
  have id: "get_or_None (unlinked d) ''id'' = get_or_None d ''id''" for d by (simp add: unlinked_def)
  have "identified (map unlinked (fl_devices fl))" using ok by (simp add: fleet_ok_def identified_def id comp_def)
  moreover have "identified (filter (\<lambda>x. \<not> is_row pid x) (fl_printers fl))"
    using ok by (simp add: fleet_ok_def identified_def distinct_map_filter)
  moreover have "\<exists>d \<in> set (fl_devices fl). get_or_None (unlinked d) ''printer_id'' = get_or_None x ''id''"
    if "x \<in> set (fl_printers fl)" "\<not> is_row pid x" "py_truth (get_or_None x ''copier_enabled'')" for x
    using ok that by (force simp: fleet_ok_def has_copier_def is_row_def unlinked_def)
  ultimately have "fleet_ok (fl\<lparr>fl_printers := filter (\<lambda>x. \<not> is_row pid x) (fl_printers fl),
      fl_devices := map unlinked (fl_devices fl), fl_jobs := js\<rparr>)" for js
    using ok by (auto simp: fleet_ok_def has_copier_def)
  then show ?thesis using ok Inr by (simp add: delete_printer_def unlinked_def)
qed (simp add: delete_printer_def)

lemma unchanged_column_ok:
  "fleet_ok fl \<Longrightarrow> find (is_row pid) (fl_printers fl) = Some r \<Longrightarrow> c \<notin> set KEPT \<Longrightarrow>
   fleet_ok (snd (rewrite av pid en (set_col c v r) fl))"
  by (erule (1) rewrite_ok) (simp add: same_kept_set_col)

lemma kept_columns: "''archived_at'' \<notin> set KEPT" "''pending_redirect'' \<notin> set KEPT" "''ipp_path'' \<notin> set KEPT"
  "''ip_address'' \<notin> set KEPT" "''port'' \<notin> set KEPT" "''use_tls'' \<notin> set KEPT" "''ipp_path_detected'' \<notin> set KEPT"
  by code_simp+

lemma moved_row_kept: "same_kept r (moved_row host port tls path r)"
  by (simp add: moved_row_def Let_def same_kept_set_col kept_columns)

lemma regenerate_ok:
  assumes "fleet_ok fl" "env_ok av"
  shows "fleet_ok (snd (regenerate_release_token av pid fl))"
proof (cases "printer_or_404 pid fl")
  case (Inr r)
  then have r: "r \<in> set (fl_printers fl)" "is_row pid r" using found_row by (auto simp: printer_or_404_Inr)
  have "fleet_ok (fl\<lparr>fl_printers := put_row pid (set_col ''release_token'' (VStr (fe_token av)) r) (fl_printers fl)\<rparr>)"
    using assms r by (intro put_printer_ok) (auto simp: fleet_ok_def printer_ok_def env_ok_def has_copier_def)
  then show ?thesis using assms Inr by (simp add: regenerate_release_token_def rewrite_def committed_ok)
qed (use assms in \<open>simp add: regenerate_release_token_def\<close>)

lemma confirm_ok: "fleet_ok fl \<Longrightarrow> fleet_ok (snd (confirm_redirect av pid fl))"
proof (cases "printer_or_404 pid fl")
  case (Inr r)
  assume ok: "fleet_ok fl"
  have "fleet_ok (snd (then_sync av pid (rewrite av pid en (moved_row host port tls path r) fl)))" for en host port tls path
    using ok Inr by (intro then_sync_ok rewrite_ok[OF ok _ moved_row_kept]) (simp add: printer_or_404_Inr)
  then show ?thesis using ok Inr by (simp add: confirm_redirect_def Let_def split: pyval.splits sum.splits)
qed (simp add: confirm_redirect_def)

lemma discover_ok:
  assumes "fleet_ok fl" "env_ok av"
  shows "fleet_ok (snd (discover_printer av pid fl))"
proof (cases "printer_or_404 pid fl")
  case (Inr r)
  define r' where "r' = set_cols (fe_discover av r) r"
  have "same_kept r r'" using discovered_kept[OF assms(2)] by (simp add: r'_def)
  then have "fleet_ok (snd (committed ok () fl (fl\<lparr>fl_printers := put_row pid r' (fl_printers fl)\<rparr>)))" for ok
    using Inr by (intro committed_ok assms(1) rewritten_ok[OF assms(1)]) (simp_all add: printer_or_404_Inr)
  then show ?thesis using assms(1) Inr by (simp add: discover_printer_def Let_def r'_def then_sync_ok)
qed (use assms in \<open>simp add: discover_printer_def\<close>)

lemma enable_ok:
  assumes "fleet_ok fl" "VOther (av_row_id av) \<notin> (\<lambda>r. get_or_None r ''id'') ` set (fl_devices fl)"
  shows "fleet_ok (snd (enable_printer_copier av pid fl))"
proof (cases "printer_or_404 pid fl")
  case (Inr r)
  then have r: "r \<in> set (fl_printers fl)" "is_row pid r" using found_row by (auto simp: printer_or_404_Inr)
  define d where "d = new_copier av pid r"
  have d: "get_or_None d ''id'' = VOther (av_row_id av)" "get_or_None d ''printer_id'' = VOther pid"
    by (simp_all add: d_def new_copier_def SHARED_WITH_COPIER_def)
  show ?thesis
  proof (cases "scalar_one_or_none (copiers_of pid fl)")
    case found: (Inr found)
    define ds where "ds = fl_devices fl @ (if found = None then [d] else [])"
    have more: "has_copier x (fl\<lparr>fl_devices := ds\<rparr>)" if "has_copier x fl" for x
      using that by (auto simp: has_copier_def ds_def)
    have "has_copier r (fl\<lparr>fl_devices := ds\<rparr>)"
    proof (cases found)
      case None
      then show ?thesis using d r by (auto simp: has_copier_def ds_def is_row_def)
    next
      case (Some c)
      then have "copiers_of pid fl \<noteq> []" using found by (simp add: scalar_Some)
      then show ?thesis using r by (intro more) (simp add: copiers_of_has is_row_def)
    qed
    moreover have "fleet_ok (fl\<lparr>fl_devices := ds\<rparr>)"
      using assms d more by (auto simp: fleet_ok_def identified_def ds_def)
    ultimately have "fleet_ok (fl\<lparr>fl_devices := ds, fl_printers := put_row pid (set_col ''copier_enabled'' (VBool True) r) (fl_printers fl)\<rparr>)"
      using assms(1) r put_printer_ok[of "fl\<lparr>fl_devices := ds\<rparr>" pid "set_col ''copier_enabled'' (VBool True) r"]
      by (simp add: fleet_ok_def printer_ok_def has_copier_def)
    then show ?thesis using Inr found by (cases found) (simp_all add: enable_printer_copier_def ds_def d_def)
  qed (use assms Inr in \<open>simp add: enable_printer_copier_def\<close>)
qed (use assms in \<open>simp add: enable_printer_copier_def\<close>)

lemma disable_ok: "fleet_ok fl \<Longrightarrow> fleet_ok (snd (disable_printer_copier av pid fl))"
proof (cases "printer_or_404 pid fl")
  case (Inr r)
  assume ok: "fleet_ok fl"
  have r: "r \<in> set (fl_printers fl)" "is_row pid r" using Inr found_row by (auto simp: printer_or_404_Inr)
  have "fleet_ok (fl\<lparr>fl_printers := put_row pid (set_col ''copier_enabled'' (VBool False) r) (fl_printers fl)\<rparr>)"
    using ok r by (intro put_printer_ok) (auto simp: fleet_ok_def printer_ok_def)
  then show ?thesis using Inr by (simp add: disable_printer_copier_def)
qed (simp add: disable_printer_copier_def)

lemma add_device_ok:
  assumes "fleet_ok fl" "get_or_None d ''id'' = VOther i" "VOther i \<notin> (\<lambda>r. get_or_None r ''id'') ` set (fl_devices fl)"
  shows "fleet_ok (fl\<lparr>fl_devices := fl_devices fl @ [d]\<rparr>)"
  using assms by (auto simp: fleet_ok_def identified_def has_copier_def)

lemma created_device_id: "''id'' \<notin> fst ` set payload \<Longrightarrow> get_or_None (created_device av payload) ''id'' = VOther (av_row_id av)"
  unfolding created_device_def by (subst get_set_cols_other) auto

lemma create_device_ok:
  assumes "fleet_ok fl" "VOther (av_row_id av) \<notin> (\<lambda>r. get_or_None r ''id'') ` set (fl_devices fl)" "''id'' \<notin> fst ` set payload"
  shows "fleet_ok (snd (create_mfp_device av payload fl))"
proof -
  have "fleet_ok (fl\<lparr>fl_devices := fl_devices fl @ [created_device av payload]\<rparr>)"
    using assms by (intro add_device_ok) (simp_all add: created_device_id)
  then have "fleet_ok (sync_copier_flag l (fl\<lparr>fl_devices := fl_devices fl @ [created_device av payload]\<rparr>))" for l
    using sync_copier_flag_keeps[of "{}"] by (simp add: fleet_ok_but_none)
  then show ?thesis using assms(1) by (simp add: create_mfp_device_def Let_def committed_ok)
qed

text \<open>Rewriting or dropping one copier leaves at most the printer it was linked to behind.\<close>

lemma one_device_ok:
  assumes "fleet_ok fl" "find (is_row i) (fl_devices fl) = Some d" "identified ds"
    "\<And>x. x \<in> set (fl_devices fl) \<Longrightarrow> x \<noteq> d \<Longrightarrow> x \<in> set ds"
  shows "fleet_ok_but (set_option (linked_printer d)) (fl\<lparr>fl_devices := ds\<rparr>)"
proof -
  have "has_copier r (fl\<lparr>fl_devices := ds\<rparr>) \<or> get_or_None r ''id'' \<in> VOther ` set_option (linked_printer d)"
    if r: "r \<in> set (fl_printers fl)" "has_copier r fl" for r
  proof -
    obtain x where x: "x \<in> set (fl_devices fl)" "get_or_None x ''printer_id'' = get_or_None r ''id''"
      using r by (auto simp: has_copier_def)
    obtain p where p: "get_or_None r ''id'' = VOther p" using assms(1) r by (auto simp: fleet_ok_def identified_def)
    show ?thesis
    proof (cases "x = d")
      case True
      then have "linked_printer d = Some p" using x p by (simp flip: linked_printer_eq)
      then show ?thesis using p by simp
    next
      case False
      then show ?thesis using x assms(4) by (auto simp: has_copier_def)
    qed
  qed
  then show ?thesis using assms(1,3) by (auto simp: fleet_ok_but_def fleet_ok_def)
qed

lemma only_row:
  "fleet_ok fl \<Longrightarrow> find (is_row i) (fl_devices fl) = Some d \<Longrightarrow> x \<in> set (fl_devices fl) \<Longrightarrow> is_row i x \<Longrightarrow> x = d"
  using found_row[of i "fl_devices fl" d]
  by (auto simp: fleet_ok_def identified_def is_row_def distinct_map intro: inj_onD[of "\<lambda>d. get_or_None d ''id''"])

lemma delete_device_ok: "fleet_ok fl \<Longrightarrow> fleet_ok (snd (delete_mfp_device av i fl))"
proof (cases "device_or_404 i fl")
  case (Inr d)
  assume ok: "fleet_ok fl"
  then have d: "find (is_row i) (fl_devices fl) = Some d" using Inr by (simp add: device_or_404_Inr)
  have "fleet_ok_but (set_option (linked_printer d)) (fl\<lparr>fl_devices := filter (\<lambda>x. \<not> is_row i x) (fl_devices fl)\<rparr>)"
    using ok only_row[OF ok d]
    by (intro one_device_ok[OF ok d]) (auto simp: fleet_ok_def identified_def distinct_map_filter)
  then have "fleet_ok (sync_copier_flag (linked_printer d) (fl\<lparr>fl_devices := filter (\<lambda>x. \<not> is_row i x) (fl_devices fl)\<rparr>))"
    using sync_copier_flag_done by (simp flip: fleet_ok_but_none)
  then show ?thesis using Inr by (simp add: delete_mfp_device_def)
qed (simp add: delete_mfp_device_def)

lemma updated_device_id:
  assumes "''id'' \<notin> fst ` set payload"
  shows "get_or_None (updated_device av payload d) ''id'' = get_or_None d ''id''"
proof -
  have "''id'' \<notin> fst ` set (device_updates payload)"
    using assms by (force simp: device_updates_def blank_clears_def)
  then have plain: "get_or_None (set_cols (device_updates payload) x) ''id'' = get_or_None x ''id''" for x
    by (rule get_set_cols_other)
  have caps: "get_or_None (put_capabilities av payload x) ''id'' = get_or_None x ''id''" for x
    by (auto simp: put_capabilities_def map_filter_def intro!: get_set_cols_other split: pyval.splits if_splits)
  show ?thesis
    by (simp add: updated_device_def Let_def caps put_device_secret_def plain split: option.splits)
qed

lemma update_device_ok:
  assumes "fleet_ok fl" "''id'' \<notin> fst ` set payload"
  shows "fleet_ok (snd (update_mfp_device av i payload fl))"
proof (cases "device_or_404 i fl")
  case (Inr old)
  then have old: "find (is_row i) (fl_devices fl) = Some old" by (simp add: device_or_404_Inr)
  define d where "d = updated_device av payload old"
  have "is_row i d" using found_row[OF old] updated_device_id[OF assms(2)] by (simp add: is_row_def d_def)
  then have "identified (put_row i d (fl_devices fl))"
    using assms(1) by (intro put_row_identified) (simp_all add: fleet_ok_def)
  moreover have "x \<in> set (put_row i d (fl_devices fl))" if "x \<in> set (fl_devices fl)" "x \<noteq> old" for x
    using that only_row[OF assms(1) old] by (force simp: put_row_def)
  ultimately have "fleet_ok_but (set_option (linked_printer old)) (fl\<lparr>fl_devices := put_row i d (fl_devices fl)\<rparr>)"
    using one_device_ok[OF assms(1) old] by blast
  then have left: "fleet_ok_but {} (sync_copier_flag (linked_printer old) (fl\<lparr>fl_devices := put_row i d (fl_devices fl)\<rparr>))"
    by (rule sync_copier_flag_done)
  then have "fleet_ok (sync_copier_flag (linked_printer d)
      (sync_copier_flag (linked_printer old) (fl\<lparr>fl_devices := put_row i d (fl_devices fl)\<rparr>)))"
    using sync_copier_flag_keeps by (simp flip: fleet_ok_but_none)
  with left[unfolded fleet_ok_but_none]
  have "fleet_ok (snd (update_known_device av i payload old fl))"
    unfolding update_known_device_def Let_def d_def[symmetric]
    using assms(1) by (intro committed_ok) simp_all
  then show ?thesis using assms(1) Inr by (simp add: update_mfp_device_def split: option.splits)
qed (use assms in \<open>simp add: update_mfp_device_def\<close>)

lemma meter_ok: "fleet_ok fl \<Longrightarrow> fleet_ok (snd (check_mfp_device_meter probe i fl))"
proof (cases "device_or_404 i fl")
  case (Inr d)
  assume ok: "fleet_ok fl"
  have d: "find (is_row i) (fl_devices fl) = Some d" using Inr by (simp add: device_or_404_Inr)
  have meter: "''id'' \<notin> set METER_COLUMNS" "''printer_id'' \<notin> set METER_COLUMNS" by code_simp+
  have "fleet_ok (fl\<lparr>fl_devices := put_row i (set_cols us d) (fl_devices fl)\<rparr>)" if "fst ` set us \<subseteq> set METER_COLUMNS" for us
    using that meter by (intro put_device_ok[OF ok d] get_set_cols_other) auto
  moreover have "fst ` set (map (\<lambda>c. (c, f c)) METER_COLUMNS) \<subseteq> set METER_COLUMNS"
    "fst ` set (filter (\<lambda>(c, v). c \<in> set METER_COLUMNS) us) \<subseteq> set METER_COLUMNS" for f :: "string \<Rightarrow> pyval" and us :: row
    by auto
  ultimately show ?thesis using ok Inr by (simp add: check_mfp_device_meter_def split: option.splits sum.splits)
qed (simp add: check_mfp_device_meter_def)

lemma archive_ok: "fleet_ok fl \<Longrightarrow> fleet_ok (snd (archive_printer av pid fl))"
  by (simp add: archive_printer_def printer_or_404_Inr unchanged_column_ok kept_columns split: sum.splits)

lemma unarchive_ok: "fleet_ok fl \<Longrightarrow> fleet_ok (snd (unarchive_printer av pid fl))"
  by (simp add: unarchive_printer_def printer_or_404_Inr then_sync_ok unchanged_column_ok kept_columns split: sum.splits)

lemma dismiss_ok: "fleet_ok fl \<Longrightarrow> fleet_ok (snd (dismiss_redirect av pid fl))"
  by (simp add: dismiss_redirect_def printer_or_404_Inr unchanged_column_ok kept_columns split: sum.splits)

lemma resync_ok: "fleet_ok fl \<Longrightarrow> fleet_ok (snd (resync_queue av pid fl))"
  by (simp add: resync_queue_def apply_queue_sync_ok split: sum.splits)

lemma purge_ok: "fleet_ok fl \<Longrightarrow> fleet_ok (snd (purge_jobs av pid fl))"
  by (auto simp: purge_jobs_def fleet_ok_def has_copier_def split: sum.splits option.splits)

lemma create_printer_ok:
  "fleet_ok fl \<Longrightarrow> env_ok av \<Longrightarrow> VOther (av_row_id av) \<notin> (\<lambda>r. get_or_None r ''id'') ` set (fl_printers fl) \<Longrightarrow>
   fleet_ok (snd (create_printer av payload fl)) \<and> fleet_ok (snd (create_virtual_queue av payload fl))"
  by (simp add: create_printer_def create_virtual_queue_def Let_def add_printer_ok created_row_ok virtual_row_ok)

lemma fleet_step_ok:
  assumes "fleet_ok fl" "sensible av r fl"
  shows "fleet_ok (fleet_step av r fl)"
  using assms
  by (cases r)
     (simp_all add: sensible_def image_Un create_printer_ok update_printer_ok delete_printer_ok archive_ok unarchive_ok
        discover_ok resync_ok regenerate_ok confirm_ok dismiss_ok enable_ok disable_ok purge_ok create_device_ok
        update_device_ok delete_device_ok meter_ok)

lemma fleet_reach_ok: "fleet_reach fl \<Longrightarrow> fleet_ok fl"
  by (induction rule: fleet_reach.induct) (simp_all add: fleet_step_ok, simp add: fleet_ok_def identified_def)

subsection \<open>What that means\<close>

text \<open>
  C9: Whatever admins do, in any order: a virtual queue stays a follow-me queue and never requires
  release at itself, and a printer that holds jobs in either way has a token, so there is a kiosk
  to release them at.
\<close>

theorem virtual_queues_hold_and_holding_printers_have_a_kiosk:
  assumes "fleet_reach fl" and "printer_or_404 pid fl = Inr p"
  shows "(py_truth (get_or_None p ''is_virtual'') \<longrightarrow>
      get_or_None p ''follow_me_enabled'' = VBool True \<and> get_or_None p ''release_required'' = VBool False) \<and>
    (py_truth (get_or_None p ''release_required'') \<or> py_truth (get_or_None p ''follow_me_enabled'') \<longrightarrow>
      py_truth (get_or_None p ''release_token''))"
proof -
  have "p \<in> set (fl_printers fl)" using assms(2) found_row by (auto simp: printer_or_404_Inr)
  then show ?thesis using fleet_reach_ok[OF assms(1)] by (simp add: fleet_ok_def printer_ok_def)
qed


lemma find_put_row:
  assumes "find (is_row i) rows = Some r" "is_row i r'"
  shows "find (is_row i) (put_row i r' rows) = Some r'"
  using assms by (induction rows) (auto simp: put_row_def split: if_splits)

lemma flag_after_sync:
  assumes "find (is_row pid) (fl_printers fl) = Some p" "copiers_of pid fl \<noteq> []"
  shows "\<exists>p'. find (is_row pid) (fl_printers (sync_copier_flag (Some pid) fl)) = Some p' \<and>
    get_or_None p' ''copier_enabled'' = VBool True"
proof -
  have "is_row pid (set_col ''copier_enabled'' (VBool True) p)" using found_row[OF assms(1)] by simp
  from find_put_row[OF assms(1) this] show ?thesis
    using assms by (simp add: sync_copier_flag_def)
qed

lemma noted_updates: "device_updates [(''notes'', v)] = [(''notes'', v)]"
  by (simp add: device_updates_def blank_clears_def)

lemma notes_only: "updated_device av [(''notes'', v)] d = set_col ''notes'' v d"
  by (simp add: updated_device_def noted_updates Let_def put_device_secret_def put_capabilities_def get_or_None_def)


lemma devices_then_sync [simp]: "fl_devices (snd (then_sync av pid res)) = fl_devices (snd res)"
  by (auto simp: then_sync_def apply_queue_sync_def split: sum.splits prod.splits option.splits)

lemma then_sync_row:
  assumes "find (is_row pid) (fl_printers (snd res)) = Some r" "c \<noteq> ''queue_sync_error''"
  shows "\<exists>r'. find (is_row pid) (fl_printers (snd (then_sync av pid res))) = Some r' \<and> get_or_None r' c = get_or_None r c"
proof (cases "fst res")
  case Inl
  then show ?thesis using assms by (cases res) (auto simp: then_sync_def)
next
  case (Inr u)
  have row: "is_row pid (set_col ''queue_sync_error'' v r)" for v using found_row[OF assms(1)] by simp
  show ?thesis
    using assms Inr find_put_row[OF assms(1) row]
    by (cases res) (auto simp: then_sync_def apply_queue_sync_def split: option.splits)
qed


text \<open>
  A second copier record linked to a printer closes its copier page for good: reading it and
  turning it on are internal errors from then on, as both take the records they find to be at most
  one.  Nothing keeps a second record from being linked.
\<close>

theorem a_second_copier_closes_the_page:
  assumes "printer_or_404 pid fl = Inr p" and "copiers_of pid fl \<noteq> []"
    and "linked_printer (created_device av payload) = Some pid" and "fst (create_mfp_device av payload fl) = Inr ()"
  shows "get_printer_copier pid (snd (create_mfp_device av payload fl)) = Inl ServerError \<and>
    enable_printer_copier av' pid (snd (create_mfp_device av payload fl)) =
      (Inl ServerError, snd (create_mfp_device av payload fl))"
proof -
  define fl1 where "fl1 = fl\<lparr>fl_devices := fl_devices fl @ [created_device av payload]\<rparr>"
  have p: "find (is_row pid) (fl_printers fl) = Some p" using assms(1) by (simp add: printer_or_404_Inr)
  have two: "copiers_of pid (sync_copier_flag l fl1) = copiers_of pid fl @ [created_device av payload]" for l
    using assms(3) by (auto simp: copiers_of_def sync_copier_flag_def fl1_def linked_printer_eq split: option.splits)
  then have copiers: "copiers_of pid fl1 \<noteq> []" using two[of None] by (simp add: sync_copier_flag_def)
  have "find (is_row pid) (fl_printers fl1) = Some p" using p by (simp add: fl1_def)
  from flag_after_sync[OF this copiers] obtain p' where
    "find (is_row pid) (fl_printers (sync_copier_flag (Some pid) fl1)) = Some p'" by blast
  moreover have "\<exists>en. snd (create_mfp_device av payload fl) = noted av en (sync_copier_flag (Some pid) fl1)"
    using assms(3,4) by (auto simp: create_mfp_device_def Let_def committed_def fl1_def split: if_splits)
  moreover have "copiers_of pid (noted av en x) = copiers_of pid x" for en x by (simp add: copiers_of_def)
  ultimately show ?thesis
    using two[of "Some pid"] assms(2)
    by (cases "copiers_of pid fl"; cases "tl (copiers_of pid fl)")
      (auto simp: get_printer_copier_def enable_printer_copier_def printer_or_404_def scalar_one_or_none_def)
qed

subsection \<open>A printer with a copier\<close>

definition desk_env :: "uuid \<Rightarrow> fleet_env" where
  "desk_env i =
     \<lparr>av_lower = map ascii_lower, av_sql_lower = map ascii_lower, av_now = 0, av_row_id = i, av_event_id = ''e'',
      av_actor = example_admin, av_ip = None, fe_encrypt = rev, fe_hash = rev, fe_stamp = (\<lambda>t. ''now''), fe_token = ''token'',
      fe_run = (\<lambda>a. Exited 0 [] []),
      fe_discover = (\<lambda>r. [(''pending_redirect'', VDict [(''host'', VStr ''10.0.0.9''), (''port'', VNum 443), (''tls'', VBool True)])]),
      fe_probe = (\<lambda>host port tls path. Inr (VStr ''/ipp''))\<rparr>"

definition desk_printer :: row where
  "desk_printer =
     [(''name'', VStr ''Desk''), (''ip_address'', VOther ''10.0.0.5''), (''port'', VNum 631), (''use_tls'', VBool False),
      (''airprint_enabled'', VBool False), (''snmp_enabled'', VBool True)]"

definition desk :: fleet where
  "desk =
     fleet_step (desk_env ''d'') (Enable_Copier ''p'')
       (fleet_step (desk_env ''p'') (Create_Printer desk_printer)
         \<lparr>fl_printers = [], fl_devices = [], fl_jobs = [], fl_trail = []\<rparr>)"

lemma desk_env_ok: "env_ok (desk_env i)"
  by (simp add: env_ok_def desk_env_def DISCOVERED_FIELDS_def)

lemma desk_reach: "fleet_reach desk"
proof -
  let ?start = "\<lparr>fl_printers = [], fl_devices = [], fl_jobs = [], fl_trail = []\<rparr>"
  have "fleet_reach ?start" by (rule new_fleet) simp_all
  then have one: "fleet_reach (fleet_step (desk_env ''p'') (Create_Printer desk_printer) ?start)"
    by (rule served) (simp add: sensible_def desk_env_ok)
  have "VOther (av_row_id (desk_env ''d'')) \<notin> (\<lambda>r. get_or_None r ''id'') `
      (set (fl_printers (fleet_step (desk_env ''p'') (Create_Printer desk_printer) ?start)) \<union>
       set (fl_devices (fleet_step (desk_env ''p'') (Create_Printer desk_printer) ?start)))"
    by code_simp
  then show ?thesis unfolding desk_def by (intro served[OF one]) (simp add: sensible_def desk_env_ok)
qed

theorem virtual_queues_hold_and_holding_printers_have_a_kiosk_witness:
  "\<exists>p. printer_or_404 ''p'' desk = Inr p \<and>
     (py_truth (get_or_None p ''follow_me_enabled'') \<longrightarrow> py_truth (get_or_None p ''release_token''))"
proof -
  have "\<not> isl (printer_or_404 ''p'' desk)" by code_simp
  then obtain p where p: "printer_or_404 ''p'' desk = Inr p" by (cases "printer_or_404 ''p'' desk") auto
  with virtual_queues_hold_and_holding_printers_have_a_kiosk[OF desk_reach p] show ?thesis by blast
qed


text \<open>Two rows as they may be found, the columns that matter written out.\<close>

definition hall_printer :: row where
  "hall_printer =
     [(''id'', VOther ''p''), (''name'', VStr ''Hall''), (''ip_address'', VStr ''10.0.0.5''), (''port'', VNum 631),
      (''use_tls'', VBool False), (''copier_enabled'', VBool True), (''is_virtual'', VBool False),
      (''pending_redirect'', VDict [(''host'', VStr ''10.0.0.9''), (''port'', VNum 443), (''tls'', VBool True)]),
      (''tenant_id'', VStr ''default''), (''airprint_enabled'', VBool True), (''roll_autocut'', VBool False),
      (''auto_queue_sync_failures'', VNum 0), (''status'', VStr ''online''), (''status_probe_failures'', VNum 0),
      (''release_required'', VBool False), (''follow_me_enabled'', VBool False), (''quota_mode'', VStr ''include''),
      (''snmp_enabled'', VBool True), (''ldap_enabled'', VBool False)]"

definition hall_copier :: row where
  "hall_copier =
     [(''id'', VOther ''d''), (''printer_id'', VOther ''p''), (''name'', VStr ''Hall''), (''ip_address'', VStr ''10.0.0.5''),
      (''tenant_id'', VStr ''default''), (''vendor'', VStr ''generic''), (''connector_type'', VStr ''generic_csv''),
      (''snmp_enabled'', VBool False), (''auto_sync_users'', VBool False), (''auto_poll_counters'', VBool False)]"

definition hall :: fleet where
  "hall = \<lparr>fl_printers = [hall_printer], fl_devices = [hall_copier], fl_jobs = [], fl_trail = []\<rparr>"

lemma hall_rows: "printer_or_404 ''p'' hall = Inr hall_printer" "device_or_404 ''d'' hall = Inr hall_copier"
  "linked_printer hall_copier = Some ''p''" "copiers_of ''p'' hall \<noteq> []"
  by (simp_all add: printer_or_404_def device_or_404_def hall_def is_row_def get_or_None_def hall_printer_def hall_copier_def
      linked_printer_def copiers_of_def)



theorem a_second_copier_closes_the_page_witness:
  "get_printer_copier ''p'' (snd (create_mfp_device (desk_env ''f'')
     [(''name'', VStr ''Twin''), (''printer_id'', VOther ''p''), (''connector_type'', VStr ''generic_snmp'')] hall)) = Inl ServerError"
proof -
  let ?twin = "[(''name'', VStr ''Twin''), (''printer_id'', VOther ''p''), (''connector_type'', VStr ''generic_snmp'')]"
  have "linked_printer (created_device (desk_env ''f'') ?twin) = Some ''p''" "fst (create_mfp_device (desk_env ''f'') ?twin hall) = Inr ()"
    by code_simp+
  from a_second_copier_closes_the_page[OF hall_rows(1,4) this] show ?thesis by blast
qed

end
